(* ===== verification/Prelude.thy ===== *)
theory Prelude
  imports Complex_Main "HOL-Library.AList" "HOL-Library.Multiset"
begin

text \<open>
  Shared vocabulary of the weathermap model: the values that thrown JavaScript exceptions
  become, sequencing of operations that may throw, the ordered dictionaries that the code's
  plain objects are, and the loops \<^verbatim>\<open>for (let [key, value] of Object.entries(o))\<close>.

  \<^item> An operation that may throw returns the state it leaves behind together with
    \<open>None\<close> (it returned) or \<open>Some e\<close> (it threw \<open>e\<close>; what it had already
    written stays written).
  \<^item> A plain object used as a dictionary is an association list in creation order with
    distinct keys.  \<open>obj_entries\<close> gives the order in which \<^verbatim>\<open>Object.entries\<close>
    walks it: array-index keys first, ascending, then the other keys in creation order.
    Keys are own keys; names of members of \<^verbatim>\<open>Object.prototype\<close> are not modelled.
\<close>

named_theorems obj_simps \<open>laws of the ordered dictionaries\<close>
named_theorems run_simps \<open>laws of operations that may throw\<close>

section \<open>Exceptions\<close>

datatype exn =
    TypeError string
  | ReferenceError string
  | SyntaxError string
  | RangeError string
  | Error string

type_synonym 's result = "'s \<times> exn option"

definition ok :: "'s \<Rightarrow> 's result" where
  "ok s = (s, None)"

definition throw :: "exn \<Rightarrow> 's \<Rightarrow> 's result" where
  "throw e s = (s, Some e)"

definition and_then :: "'s result \<Rightarrow> ('s \<Rightarrow> 's result) \<Rightarrow> 's result" where
  "and_then r k = (case r of (s, None) \<Rightarrow> k s | (s, Some e) \<Rightarrow> (s, Some e))"

fun for_x :: "('a \<Rightarrow> 's \<Rightarrow> 's result) \<Rightarrow> 'a list \<Rightarrow> 's \<Rightarrow> 's result" where
  "for_x f [] s = ok s"
| "for_x f (x # xs) s = and_then (f x s) (for_x f xs)"

definition returns :: "'s result \<Rightarrow> bool" where
  "returns r \<longleftrightarrow> snd r = None"

lemma and_then_ok [simp, run_simps]: "and_then (ok s) k = k s"
  by (simp add: and_then_def ok_def)

lemma and_then_throw [simp, run_simps]: "and_then (throw e s) k = throw e s"
  by (simp add: and_then_def throw_def)

lemma and_then_pair [simp]: "and_then (s, None) k = k s" "and_then (s, Some e) k = (s, Some e)"
  by (simp_all add: and_then_def)

lemma ok_eq [simp]: "ok s = ok t \<longleftrightarrow> s = t" "throw e s \<noteq> ok t" "ok t \<noteq> throw e s"
  "throw e s = throw e' t \<longleftrightarrow> e = e' \<and> s = t"
  by (auto simp: ok_def throw_def)

lemma returns_simps [simp, run_simps]:
  "returns (ok s)" "\<not> returns (throw e s)" "fst (ok s) = s" "fst (throw e s) = s"
  "snd (ok s) = None" "snd (throw e s) = Some e"
  by (simp_all add: ok_def throw_def returns_def)

lemma returns_ok: "returns r \<longleftrightarrow> r = ok (fst r)"
  by (cases r) (auto simp: returns_def ok_def)

lemma result_cases [case_names ok throw]:
  obtains s where "r = ok s" | e s where "r = throw e s"
  by (cases r; cases "snd r") (auto simp: ok_def throw_def)

lemma for_x_append: "for_x f (xs @ ys) s = and_then (for_x f xs s) (for_x f ys)"
proof (induction xs arbitrary: s)
  case (Cons x xs)
  then show ?case by (cases "f x s" rule: result_cases) simp_all
qed simp

lemma for_x_ok:
  assumes "\<And>x s. x \<in> set xs \<Longrightarrow> f x s = ok (g x s)"
  shows "for_x f xs s = ok (fold g xs s)"
  using assms by (induction xs arbitrary: s) simp_all

text \<open>A loop keeps what every round keeps, whether or not a round throws.\<close>

lemma for_x_invariant:
  assumes "P s" and "\<And>x t. x \<in> set xs \<Longrightarrow> P t \<Longrightarrow> P (fst (f x t))"
  shows "P (fst (for_x f xs s))"
  using assms
proof (induction xs arbitrary: s)
  case (Cons x xs)
  then have "P (fst (f x s))" by simp
  then show ?case using Cons by (cases "f x s" rule: result_cases) simp_all
qed simp

lemma for_x_returns:
  assumes "P s"
    and "\<And>x t. x \<in> set xs \<Longrightarrow> P t \<Longrightarrow> returns (f x t) \<and> P (fst (f x t))"
  shows "returns (for_x f xs s) \<and> P (fst (for_x f xs s))"
  using assms
proof (induction xs arbitrary: s)
  case (Cons x xs)
  then have "returns (f x s)" and "P (fst (f x s))" by auto
  then show ?case using Cons by (cases "f x s" rule: result_cases) simp_all
qed simp

text \<open>A loop whose rounds throw or not by what they are given returns iff no round throws.\<close>

lemma for_x_returns_iff:
  assumes "P s"
    and "\<And>x t. x \<in> set xs \<Longrightarrow> P t \<Longrightarrow> (returns (f x t) \<longleftrightarrow> Q x) \<and> P (fst (f x t))"
  shows "(returns (for_x f xs s) \<longleftrightarrow> (\<forall>x \<in> set xs. Q x)) \<and> P (fst (for_x f xs s))"
  using assms
proof (induction xs arbitrary: s)
  case (Cons x xs)
  then have x: "returns (f x s) \<longleftrightarrow> Q x" "P (fst (f x s))" by auto
  show ?case
  proof (cases "f x s" rule: result_cases)
    case (ok t)
    then have "P t" and "Q x" using x by simp_all
    with Cons ok show ?thesis by simp
  next
    case (throw e t)
    then show ?thesis using x by simp
  qed
qed simp

text \<open>What the rounds throw is what the loop throws.\<close>

lemma for_x_throws:
  assumes "\<And>x t e. x \<in> set xs \<Longrightarrow> snd (f x t) = Some e \<Longrightarrow> E e"
    and "snd (for_x f xs s) = Some e"
  shows "E e"
  using assms
proof (induction xs arbitrary: s)
  case (Cons x xs)
  show ?case
  proof (cases "f x s" rule: result_cases)
    case (ok t)
    then have "snd (for_x f xs t) = Some e" using Cons.prems(2) by simp
    moreover have "E e'" if "y \<in> set xs" "snd (f y u) = Some e'" for y u e'
      using Cons.prems(1) [of y u e'] that by simp
    ultimately show ?thesis using Cons.IH by blast
  next
    case (throw e' t)
    then show ?thesis using Cons.prems(1) [of x s e] Cons.prems(2) by simp
  qed
qed simp

lemma fold_invariant:
  assumes "P s" and "\<And>x t. x \<in> set xs \<Longrightarrow> P t \<Longrightarrow> P (f x t)"
  shows "P (fold f xs s)"
  using assms by (induction xs arbitrary: s) auto

section \<open>Plain objects used as dictionaries\<close>

type_synonym 'v obj = "(string \<times> 'v) list"

definition obj_get :: "'v obj \<Rightarrow> string \<Rightarrow> 'v option" where
  "obj_get d k = map_of d k"

definition obj_has :: "'v obj \<Rightarrow> string \<Rightarrow> bool" where
  "obj_has d k \<longleftrightarrow> obj_get d k \<noteq> None"

definition obj_set :: "string \<Rightarrow> 'v \<Rightarrow> 'v obj \<Rightarrow> 'v obj" where
  "obj_set k v d = AList.update k v d"

definition obj_del :: "string \<Rightarrow> 'v obj \<Rightarrow> 'v obj" where
  "obj_del k d = AList.delete k d"

definition obj_keys :: "'v obj \<Rightarrow> string set" where
  "obj_keys d = fst ` set d"

definition obj_ok :: "'v obj \<Rightarrow> bool" where
  "obj_ok d \<longleftrightarrow> distinct (map fst d)"

text \<open>Array-index keys: canonical decimal numerals below 2 ^ 32 - 1.\<close>

definition is_digit :: "char \<Rightarrow> bool" where
  "is_digit c \<longleftrightarrow> 48 \<le> (of_char c :: nat) \<and> (of_char c :: nat) \<le> 57"

definition dec_value :: "string \<Rightarrow> nat" where
  "dec_value s = fold (\<lambda>c n. 10 * n + (of_char c - 48)) s 0"

definition is_index :: "string \<Rightarrow> bool" where
  "is_index s \<longleftrightarrow> s \<noteq> [] \<and> list_all is_digit s \<and> (hd s = CHR ''0'' \<longrightarrow> s = ''0'')
     \<and> dec_value s < 4294967295"

definition obj_entries :: "'v obj \<Rightarrow> 'v obj" where
  "obj_entries d = sort_key (\<lambda>(k, v). dec_value k) (filter (\<lambda>(k, v). is_index k) d)
     @ filter (\<lambda>(k, v). \<not> is_index k) d"

lemma obj_ok_Nil [simp]: "obj_ok []"
  by (simp add: obj_ok_def)

lemma obj_keys_Nil [simp]: "obj_keys [] = {}"
  by (simp add: obj_keys_def)

lemma obj_get_Nil [simp]: "obj_get [] k = None"
  by (simp add: obj_get_def)

lemma obj_has_Nil [simp]: "\<not> obj_has [] k"
  by (simp add: obj_has_def)

lemma obj_has_iff [obj_simps]: "obj_has d k \<longleftrightarrow> k \<in> obj_keys d"
  by (simp add: obj_has_def obj_get_def obj_keys_def map_of_eq_None_iff)

lemma obj_get_None_iff [obj_simps]: "obj_get d k = None \<longleftrightarrow> k \<notin> obj_keys d"
  by (simp add: obj_get_def obj_keys_def map_of_eq_None_iff)

lemma obj_getD: "obj_get d k = Some v \<Longrightarrow> (k, v) \<in> set d"
  by (simp add: obj_get_def map_of_SomeD)

lemma obj_get_key: "obj_get d k = Some v \<Longrightarrow> k \<in> obj_keys d"
  by (metis obj_get_None_iff option.distinct(1))

lemma obj_keys_get: "k \<in> obj_keys d \<Longrightarrow> \<exists>v. obj_get d k = Some v"
  by (metis not_None_eq obj_get_None_iff)

lemma obj_get_in: "obj_ok d \<Longrightarrow> (k, v) \<in> set d \<Longrightarrow> obj_get d k = Some v"
  by (simp add: obj_get_def obj_ok_def)

lemma obj_get_iff: "obj_ok d \<Longrightarrow> obj_get d k = Some v \<longleftrightarrow> (k, v) \<in> set d"
  by (auto intro: obj_get_in dest: obj_getD)

lemma obj_get_set [simp, obj_simps]:
  "obj_get (obj_set k v d) k' = (if k' = k then Some v else obj_get d k')"
  by (simp add: obj_get_def obj_set_def update_conv')

lemma obj_keys_set [simp, obj_simps]: "obj_keys (obj_set k v d) = insert k (obj_keys d)"
  by (simp add: obj_keys_def obj_set_def dom_update)

lemma obj_ok_set [simp, intro]: "obj_ok d \<Longrightarrow> obj_ok (obj_set k v d)"
  by (simp add: obj_ok_def obj_set_def distinct_update)

lemma obj_get_del [simp, obj_simps]:
  "obj_get (obj_del k d) k' = (if k' = k then None else obj_get d k')"
  by (simp add: obj_get_def obj_del_def delete_conv')

lemma obj_keys_del [simp, obj_simps]: "obj_keys (obj_del k d) = obj_keys d - {k}"
proof -
  have "set (map fst (AList.delete k d)) = set (map fst d) - {k}"
    unfolding delete_keys by simp
  then show ?thesis by (simp add: obj_keys_def obj_del_def)
qed

lemma obj_ok_del [simp, intro]: "obj_ok d \<Longrightarrow> obj_ok (obj_del k d)"
  by (simp add: obj_ok_def obj_del_def distinct_delete)

text \<open>The entries are the pairs of the dictionary in another order.\<close>

lemma mset_obj_entries [simp]: "mset (obj_entries d) = mset d"
proof -
  have "mset (filter P d) + mset (filter (\<lambda>x. \<not> P x) d) = mset d" for P
    by (induction d) auto
  from this [of "\<lambda>(k, v). is_index k"] show ?thesis
    by (simp add: obj_entries_def case_prod_unfold)
qed

lemma set_obj_entries [simp, obj_simps]: "set (obj_entries d) = set d"
  by (metis mset_obj_entries set_mset_mset)

lemma obj_keys_entries [simp]: "obj_keys (obj_entries d) = obj_keys d"
  by (simp add: obj_keys_def)

lemma length_obj_entries [simp]: "length (obj_entries d) = length d"
  by (metis mset_obj_entries size_mset)

lemma distinct_map_entries: "distinct (map f (obj_entries d)) \<longleftrightarrow> distinct (map f d)"
  by (metis mset_eq_imp_distinct_iff mset_map mset_obj_entries)

lemma obj_ok_entries [simp, intro]: "obj_ok d \<Longrightarrow> obj_ok (obj_entries d)"
  by (simp add: obj_ok_def distinct_map_entries)

lemma obj_get_entries [simp]: "obj_ok d \<Longrightarrow> obj_get (obj_entries d) k = obj_get d k"
  by (metis obj_get_iff obj_ok_entries option.exhaust set_obj_entries)

end
