(* ===== verification/JsNum.thy ===== *)
theory JsNum
  imports Prelude
begin

text \<open>
  JavaScript numbers.  A number is a finite real, one of the two infinities, or NaN; the
  operations follow ECMAScript on the special values (\<open>0 / 0\<close>, \<open>x / 0\<close>,
  \<open>Infinity - Infinity\<close>, comparisons with NaN, \<dots>).  Finite arithmetic is exact:
  the rounding and overflow of binary64 and the sign of zero are not modelled.  The functions
  of \<^verbatim>\<open>Math\<close>, \<^verbatim>\<open>parseInt\<close>,
  \<^verbatim>\<open>Number.prototype.toString(16)\<close> and \<^verbatim>\<open>toFixed(2)\<close> are here too.
\<close>

named_theorems num_simps \<open>arithmetic on JavaScript numbers\<close>

datatype jsnum = Fin real | PInf | NInf | NaN

definition is_fin :: "jsnum \<Rightarrow> bool" where
  "is_fin x \<longleftrightarrow> (case x of Fin _ \<Rightarrow> True | _ \<Rightarrow> False)"

definition the_fin :: "jsnum \<Rightarrow> real" where
  "the_fin x = (case x of Fin r \<Rightarrow> r | _ \<Rightarrow> 0)"

lemma is_fin_simps [simp]: "is_fin (Fin r)" "\<not> is_fin PInf" "\<not> is_fin NInf" "\<not> is_fin NaN"
  by (simp_all add: is_fin_def)

lemma the_fin_simps [simp]: "the_fin (Fin r) = r"
  by (simp add: the_fin_def)

lemma is_fin_the: "is_fin x \<longleftrightarrow> x = Fin (the_fin x)"
  by (cases x) simp_all

lemma is_finE: "is_fin x \<Longrightarrow> (\<And>r. x = Fin r \<Longrightarrow> P) \<Longrightarrow> P"
  by (cases x) simp_all

section \<open>Arithmetic\<close>

instantiation jsnum :: comm_monoid_add
begin

definition zero_jsnum :: jsnum where
  "0 = Fin 0"

fun plus_jsnum :: "jsnum \<Rightarrow> jsnum \<Rightarrow> jsnum" where
  "Fin a + Fin b = Fin (a + b)"
| "NaN + _ = NaN"
| "_ + NaN = NaN"
| "PInf + NInf = NaN"
| "NInf + PInf = NaN"
| "PInf + _ = PInf"
| "_ + PInf = PInf"
| "NInf + _ = NInf"
| "_ + NInf = NInf"

instance
proof
  fix a b c :: jsnum
  show "a + b + c = a + (b + c)" by (cases a; cases b; cases c; simp)
  show "a + b = b + a" by (cases a; cases b; simp)
  show "0 + a = a" by (cases a; simp add: zero_jsnum_def)
qed

end

instantiation jsnum :: "{minus, uminus}"
begin

fun uminus_jsnum :: "jsnum \<Rightarrow> jsnum" where
  "- Fin a = Fin (- a)"
| "- PInf = NInf"
| "- NInf = PInf"
| "- NaN = NaN"

definition minus_jsnum :: "jsnum \<Rightarrow> jsnum \<Rightarrow> jsnum" where
  "a - b = a + (- b)" for a b :: jsnum

instance ..

end

instantiation jsnum :: comm_monoid_mult
begin

definition one_jsnum :: jsnum where
  "1 = Fin 1"

definition signed_inf :: "real \<Rightarrow> jsnum" where
  "signed_inf r = (if r = 0 then NaN else if 0 < r then PInf else NInf)"

fun times_jsnum :: "jsnum \<Rightarrow> jsnum \<Rightarrow> jsnum" where
  "Fin a * Fin b = Fin (a * b)"
| "NaN * _ = NaN"
| "_ * NaN = NaN"
| "PInf * PInf = PInf"
| "PInf * NInf = NInf"
| "NInf * PInf = NInf"
| "NInf * NInf = PInf"
| "PInf * Fin b = signed_inf b"
| "NInf * Fin b = signed_inf (- b)"
| "Fin a * PInf = signed_inf a"
| "Fin a * NInf = signed_inf (- a)"

instance
proof
  fix a b c :: jsnum
  show "a * b * c = a * (b * c)"
    by (cases a; cases b; cases c; simp add: signed_inf_def mult_less_0_iff zero_less_mult_iff)
  show "a * b = b * a" by (cases a; cases b; simp)
  show "1 * a = a" by (cases a; simp add: one_jsnum_def signed_inf_def)
qed

end

instance jsnum :: numeral ..

instantiation jsnum :: inverse
begin

fun divide_jsnum :: "jsnum \<Rightarrow> jsnum \<Rightarrow> jsnum" where
  "divide_jsnum (Fin a) (Fin b) = (if b = 0 then signed_inf a else Fin (a / b))"
| "divide_jsnum NaN _ = NaN"
| "divide_jsnum _ NaN = NaN"
| "divide_jsnum (Fin a) PInf = Fin 0"
| "divide_jsnum (Fin a) NInf = Fin 0"
| "divide_jsnum PInf (Fin b) = (if b < 0 then NInf else PInf)"
| "divide_jsnum NInf (Fin b) = (if b < 0 then PInf else NInf)"
| "divide_jsnum _ _ = NaN"

definition inverse_jsnum :: "jsnum \<Rightarrow> jsnum" where
  "inverse_jsnum x = divide 1 x"

instance ..

end

instantiation jsnum :: ord
begin

fun less_jsnum :: "jsnum \<Rightarrow> jsnum \<Rightarrow> bool" where
  "Fin a < Fin b \<longleftrightarrow> a < b"
| "Fin _ < PInf \<longleftrightarrow> True"
| "NInf < Fin _ \<longleftrightarrow> True"
| "NInf < PInf \<longleftrightarrow> True"
| "(_::jsnum) < _ \<longleftrightarrow> False"

fun less_eq_jsnum :: "jsnum \<Rightarrow> jsnum \<Rightarrow> bool" where
  "Fin a \<le> Fin b \<longleftrightarrow> a \<le> b"
| "Fin _ \<le> PInf \<longleftrightarrow> True"
| "NInf \<le> Fin _ \<longleftrightarrow> True"
| "NInf \<le> PInf \<longleftrightarrow> True"
| "PInf \<le> PInf \<longleftrightarrow> True"
| "NInf \<le> NInf \<longleftrightarrow> True"
| "(_::jsnum) \<le> _ \<longleftrightarrow> False"

instance ..

end

lemma numeral_jsnum [simp, num_simps]: "(numeral n :: jsnum) = Fin (numeral n)"
proof (induction n)
  case One
  then show ?case by (simp only: numeral_One one_jsnum_def)
next
  case (Bit0 n)
  then show ?case by (simp only: numeral_Bit0 plus_jsnum.simps)
next
  case (Bit1 n)
  then show ?case by (simp only: numeral_Bit1 plus_jsnum.simps one_jsnum_def)
qed

lemma zero_one_jsnum [simp, num_simps]: "(0::jsnum) = Fin 0" "(1::jsnum) = Fin 1"
  by (simp_all add: zero_jsnum_def one_jsnum_def)

lemma minus_jsnum_simps [simp, num_simps]: "Fin a - Fin b = Fin (a - b)"
  by (simp add: minus_jsnum_def)

lemma signed_inf_simps [simp, num_simps]:
  "signed_inf 0 = NaN" "0 < r \<Longrightarrow> signed_inf r = PInf" "r < 0 \<Longrightarrow> signed_inf r = NInf"
  by (simp_all add: signed_inf_def)

lemma NaN_absorbs [simp, num_simps]:
  "x + NaN = NaN" "x * NaN = NaN" "x - NaN = NaN" "NaN - x = NaN" "x / NaN = NaN"
  "NaN / x = NaN"
  by (cases x; simp add: minus_jsnum_def)+

lemma jsnum_neutral [simp]: "x + Fin 0 = x" "Fin 0 + x = x" "Fin 1 * x = x" "x * Fin 1 = x"
  by (cases x; simp)+

lemma NaN_compare [simp]: "\<not> NaN < x" "\<not> x < NaN" "\<not> NaN \<le> x" "\<not> x \<le> NaN"
  by (cases x; simp)+

text \<open>\<^verbatim>\<open>==\<close> and \<^verbatim>\<open>===\<close> on two numbers, and truthiness.\<close>

definition js_eq :: "jsnum \<Rightarrow> jsnum \<Rightarrow> bool" where
  "js_eq x y \<longleftrightarrow> x \<noteq> NaN \<and> x = y"

definition truthy :: "jsnum \<Rightarrow> bool" where
  "truthy x \<longleftrightarrow> x \<noteq> Fin 0 \<and> x \<noteq> NaN"

lemma js_eq_Fin [simp]: "js_eq (Fin a) (Fin b) \<longleftrightarrow> a = b" "\<not> js_eq NaN x" "\<not> js_eq x NaN"
  by (auto simp: js_eq_def)

lemma truthy_Fin [simp]: "truthy (Fin a) \<longleftrightarrow> a \<noteq> 0" "\<not> truthy NaN" "truthy PInf" "truthy NInf"
  by (simp_all add: truthy_def)

section \<open>The Math object\<close>

definition js_min :: "jsnum \<Rightarrow> jsnum \<Rightarrow> jsnum" where
  "js_min x y = (if x = NaN \<or> y = NaN then NaN else if y < x then y else x)"

definition js_max :: "jsnum \<Rightarrow> jsnum \<Rightarrow> jsnum" where
  "js_max x y = (if x = NaN \<or> y = NaN then NaN else if x < y then y else x)"

fun js_floor :: "jsnum \<Rightarrow> jsnum" where
  "js_floor (Fin a) = Fin (of_int \<lfloor>a\<rfloor>)"
| "js_floor x = x"

fun js_round :: "jsnum \<Rightarrow> jsnum" where
  "js_round (Fin a) = Fin (of_int \<lfloor>a + 1 / 2\<rfloor>)"
| "js_round x = x"

fun js_abs :: "jsnum \<Rightarrow> jsnum" where
  "js_abs (Fin a) = Fin \<bar>a\<bar>"
| "js_abs NaN = NaN"
| "js_abs _ = PInf"

fun js_sign :: "jsnum \<Rightarrow> jsnum" where
  "js_sign (Fin a) = Fin (sgn a)"
| "js_sign NaN = NaN"
| "js_sign PInf = Fin 1"
| "js_sign NInf = Fin (- 1)"

fun js_sqrt :: "jsnum \<Rightarrow> jsnum" where
  "js_sqrt (Fin a) = (if a < 0 then NaN else Fin (sqrt a))"
| "js_sqrt PInf = PInf"
| "js_sqrt _ = NaN"

fun js_cos :: "jsnum \<Rightarrow> jsnum" where
  "js_cos (Fin a) = Fin (cos a)"
| "js_cos _ = NaN"

fun js_sin :: "jsnum \<Rightarrow> jsnum" where
  "js_sin (Fin a) = Fin (sin a)"
| "js_sin _ = NaN"

fun js_acos :: "jsnum \<Rightarrow> jsnum" where
  "js_acos (Fin a) = (if a < - 1 \<or> 1 < a then NaN else Fin (arccos a))"
| "js_acos _ = NaN"

definition real_atan2 :: "real \<Rightarrow> real \<Rightarrow> real" where
  "real_atan2 y x =
     (if 0 < x then arctan (y / x)
      else if x < 0 then (if 0 \<le> y then arctan (y / x) + pi else arctan (y / x) - pi)
      else if 0 < y then pi / 2 else if y < 0 then - (pi / 2) else 0)"

fun js_atan2 :: "jsnum \<Rightarrow> jsnum \<Rightarrow> jsnum" where
  "js_atan2 (Fin y) (Fin x) = Fin (real_atan2 y x)"
| "js_atan2 NaN _ = NaN"
| "js_atan2 _ NaN = NaN"
| "js_atan2 (Fin y) PInf = Fin 0"
| "js_atan2 (Fin y) NInf = Fin (if 0 \<le> y then pi else - pi)"
| "js_atan2 PInf (Fin x) = Fin (pi / 2)"
| "js_atan2 NInf (Fin x) = Fin (- (pi / 2))"
| "js_atan2 PInf PInf = Fin (pi / 4)"
| "js_atan2 PInf NInf = Fin (3 * pi / 4)"
| "js_atan2 NInf PInf = Fin (- (pi / 4))"
| "js_atan2 NInf NInf = Fin (- (3 * pi / 4))"

text \<open>\<^verbatim>\<open>Math.pow(2, x)\<close> and \<^verbatim>\<open>Math.log10(x)\<close>.\<close>

fun js_exp2 :: "jsnum \<Rightarrow> jsnum" where
  "js_exp2 (Fin x) = Fin (2 powr x)"
| "js_exp2 PInf = PInf"
| "js_exp2 NInf = Fin 0"
| "js_exp2 NaN = NaN"

fun js_log10 :: "jsnum \<Rightarrow> jsnum" where
  "js_log10 (Fin x) = (if x = 0 then NInf else if x < 0 then NaN else Fin (log 10 x))"
| "js_log10 PInf = PInf"
| "js_log10 _ = NaN"

text \<open>\<^verbatim>\<open>x % n\<close>: the remainder with the sign of the dividend.\<close>

definition real_rem :: "real \<Rightarrow> real \<Rightarrow> real" where
  "real_rem a b = (let q = a / b in a - b * of_int (if 0 \<le> q then \<lfloor>q\<rfloor> else \<lceil>q\<rceil>))"

fun js_mod :: "jsnum \<Rightarrow> jsnum \<Rightarrow> jsnum" where
  "js_mod (Fin a) (Fin b) = (if b = 0 then NaN else Fin (real_rem a b))"
| "js_mod (Fin a) PInf = Fin a"
| "js_mod (Fin a) NInf = Fin a"
| "js_mod _ _ = NaN"

lemma is_fin_ops [intro]:
  "is_fin x \<Longrightarrow> is_fin y \<Longrightarrow> is_fin (x + y)" "is_fin x \<Longrightarrow> is_fin y \<Longrightarrow> is_fin (x - y)"
  "is_fin x \<Longrightarrow> is_fin y \<Longrightarrow> is_fin (x * y)" "is_fin x \<Longrightarrow> is_fin (- x)"
  "is_fin x \<Longrightarrow> is_fin y \<Longrightarrow> y \<noteq> Fin 0 \<Longrightarrow> is_fin (x / y)" "is_fin x \<Longrightarrow> is_fin (js_round x)"
  by (cases x; cases y; simp)+

section \<open>Numbers as text\<close>

definition digit_char :: "nat \<Rightarrow> char" where
  "digit_char d = char_of (if d < 10 then 48 + d else 87 + d)"

fun nat_digits :: "nat \<Rightarrow> nat \<Rightarrow> string" where
  "nat_digits b n = (if b < 2 \<or> n < b then [digit_char n]
     else nat_digits b (n div b) @ [digit_char (n mod b)])"

declare nat_digits.simps [simp del]

text \<open>\<^verbatim>\<open>x.toString(16)\<close> for an integral, infinite or NaN \<open>x\<close>.\<close>

fun to_string16 :: "jsnum \<Rightarrow> string" where
  "to_string16 (Fin a) = (let i = \<lfloor>a\<rfloor> in
     if i < 0 then ''-'' @ nat_digits 16 (nat (- i)) else nat_digits 16 (nat i))"
| "to_string16 PInf = ''Infinity''"
| "to_string16 NInf = ''-Infinity''"
| "to_string16 NaN = ''NaN''"

text \<open>
  \<^verbatim>\<open>x.toFixed(2)\<close> for magnitudes below \<open>10 ^ 21\<close> (beyond that the
  language switches to exponent notation, which a rate in Mbps does not reach).
\<close>

definition fixed2 :: "nat \<Rightarrow> string" where
  "fixed2 n = nat_digits 10 (n div 100) @ ''.'' @ [digit_char (n div 10 mod 10), digit_char (n mod 10)]"

fun to_fixed2 :: "jsnum \<Rightarrow> string" where
  "to_fixed2 (Fin a) = (if a < 0 then ''-'' @ fixed2 (nat \<lfloor>- a * 100 + 1 / 2\<rfloor>)
     else fixed2 (nat \<lfloor>a * 100 + 1 / 2\<rfloor>))"
| "to_fixed2 PInf = ''Infinity''"
| "to_fixed2 NInf = ''-Infinity''"
| "to_fixed2 NaN = ''NaN''"

definition digit_val :: "char \<Rightarrow> nat option" where
  "digit_val c = (let n = (of_char c :: nat) in
     if 48 \<le> n \<and> n \<le> 57 then Some (n - 48)
     else if 97 \<le> n \<and> n \<le> 122 then Some (n - 87)
     else if 65 \<le> n \<and> n \<le> 90 then Some (n - 55) else None)"

definition is_radix_digit :: "nat \<Rightarrow> char \<Rightarrow> bool" where
  "is_radix_digit b c \<longleftrightarrow> (case digit_val c of Some d \<Rightarrow> d < b | None \<Rightarrow> False)"

definition digits_value :: "nat \<Rightarrow> string \<Rightarrow> nat" where
  "digits_value b s = fold (\<lambda>c n. b * n + the (digit_val c)) s 0"

definition is_space :: "char \<Rightarrow> bool" where
  "is_space c \<longleftrightarrow> (of_char c :: nat) \<in> {9, 10, 11, 12, 13, 32}"

text \<open>
  \<^verbatim>\<open>parseInt(s, radix)\<close> for radix 10 or 16 (0: not given): leading blanks and a sign are
  skipped, an optional \<^verbatim>\<open>0x\<close> selects or confirms radix 16, then the longest
  run of digits is read; with no digit the result is NaN.
\<close>

definition parse_int :: "nat \<Rightarrow> string \<Rightarrow> jsnum" where
  "parse_int radix s =
    (let s1 = dropWhile is_space s;
         neg = (s1 \<noteq> [] \<and> hd s1 = CHR ''-'');
         s2 = (if s1 \<noteq> [] \<and> (hd s1 = CHR ''-'' \<or> hd s1 = CHR ''+'') then tl s1 else s1);
         hex = ((radix = 0 \<or> radix = 16) \<and> (take 2 s2 = ''0x'' \<or> take 2 s2 = ''0X''));
         s3 = (if hex then drop 2 s2 else s2);
         b = (if hex \<or> radix = 16 then 16 else 10);
         ds = takeWhile (is_radix_digit b) s3;
         m = real (digits_value b ds)
     in if ds = [] then NaN else Fin (if neg then - m else m))"

end
