(* ===== verification/VictorVec.thy ===== *)
theory VictorVec
  imports JsNum
begin

text \<open>
  The 2D vector class of \<^verbatim>\<open>js/victor.js\<close>.  A method that mutates its receiver and
  returns it for chaining is the function from the receiver (last argument) to its new value;
  no method keeps a reference to its argument, so values lose nothing.  \<open>Math.random()\<close>
  is an argument of the randomising methods.  \<^verbatim>\<open>toFixed\<close> and
  \<^verbatim>\<open>toString\<close>, which turn the components into text, are not modelled.
\<close>

named_theorems victor_simps \<open>the vector operations on finite vectors\<close>

record victor =
  vx :: jsnum
  vy :: jsnum

definition or0 :: "jsnum \<Rightarrow> jsnum" where
  "or0 x = (if truthy x then x else 0)"

definition Victor :: "jsnum \<Rightarrow> jsnum \<Rightarrow> victor" where
  "Victor x y = \<lparr>vx = or0 x, vy = or0 y\<rparr>"

definition victor_fromArray :: "jsnum list \<Rightarrow> victor" where
  "victor_fromArray arr = Victor (if 0 < length arr then or0 (arr ! 0) else 0)
     (if 1 < length arr then or0 (arr ! 1) else 0)"

definition victor_fromObject :: "jsnum option \<times> jsnum option \<Rightarrow> victor" where
  "victor_fromObject ob =
     Victor (case fst ob of Some x \<Rightarrow> or0 x | None \<Rightarrow> 0) (case snd ob of Some y \<Rightarrow> or0 y | None \<Rightarrow> 0)"

section \<open>Manipulation\<close>

definition victor_addX :: "victor \<Rightarrow> victor \<Rightarrow> victor" where
  "victor_addX vec this = this\<lparr>vx := vx this + vx vec\<rparr>"

definition victor_addY :: "victor \<Rightarrow> victor \<Rightarrow> victor" where
  "victor_addY vec this = this\<lparr>vy := vy this + vy vec\<rparr>"

definition victor_add :: "victor \<Rightarrow> victor \<Rightarrow> victor" where
  "victor_add vec this = this\<lparr>vx := vx this + vx vec, vy := vy this + vy vec\<rparr>"

definition victor_addScalar :: "jsnum \<Rightarrow> victor \<Rightarrow> victor" where
  "victor_addScalar s this = this\<lparr>vx := vx this + s, vy := vy this + s\<rparr>"

definition victor_addScalarX :: "jsnum \<Rightarrow> victor \<Rightarrow> victor" where
  "victor_addScalarX s this = this\<lparr>vx := vx this + s\<rparr>"

definition victor_addScalarY :: "jsnum \<Rightarrow> victor \<Rightarrow> victor" where
  "victor_addScalarY s this = this\<lparr>vy := vy this + s\<rparr>"

definition victor_subtractX :: "victor \<Rightarrow> victor \<Rightarrow> victor" where
  "victor_subtractX vec this = this\<lparr>vx := vx this - vx vec\<rparr>"

definition victor_subtractY :: "victor \<Rightarrow> victor \<Rightarrow> victor" where
  "victor_subtractY vec this = this\<lparr>vy := vy this - vy vec\<rparr>"

definition victor_subtract :: "victor \<Rightarrow> victor \<Rightarrow> victor" where
  "victor_subtract vec this = this\<lparr>vx := vx this - vx vec, vy := vy this - vy vec\<rparr>"

definition victor_subtractScalar :: "jsnum \<Rightarrow> victor \<Rightarrow> victor" where
  "victor_subtractScalar s this = this\<lparr>vx := vx this - s, vy := vy this - s\<rparr>"

definition victor_subtractScalarX :: "jsnum \<Rightarrow> victor \<Rightarrow> victor" where
  "victor_subtractScalarX s this = this\<lparr>vx := vx this - s\<rparr>"

definition victor_subtractScalarY :: "jsnum \<Rightarrow> victor \<Rightarrow> victor" where
  "victor_subtractScalarY s this = this\<lparr>vy := vy this - s\<rparr>"

definition victor_divideX :: "victor \<Rightarrow> victor \<Rightarrow> victor" where
  "victor_divideX vec this = this\<lparr>vx := vx this / vx vec\<rparr>"

definition victor_divideY :: "victor \<Rightarrow> victor \<Rightarrow> victor" where
  "victor_divideY vec this = this\<lparr>vy := vy this / vy vec\<rparr>"

definition victor_divide :: "victor \<Rightarrow> victor \<Rightarrow> victor" where
  "victor_divide vec this = this\<lparr>vx := vx this / vx vec, vy := vy this / vy vec\<rparr>"

definition victor_divideScalar :: "jsnum \<Rightarrow> victor \<Rightarrow> victor" where
  "victor_divideScalar s this =
     (if \<not> js_eq s 0 then this\<lparr>vx := vx this / s, vy := vy this / s\<rparr> else this\<lparr>vx := 0, vy := 0\<rparr>)"

definition victor_divideScalarX :: "jsnum \<Rightarrow> victor \<Rightarrow> victor" where
  "victor_divideScalarX s this = (if \<not> js_eq s 0 then this\<lparr>vx := vx this / s\<rparr> else this\<lparr>vx := 0\<rparr>)"

definition victor_divideScalarY :: "jsnum \<Rightarrow> victor \<Rightarrow> victor" where
  "victor_divideScalarY s this = (if \<not> js_eq s 0 then this\<lparr>vy := vy this / s\<rparr> else this\<lparr>vy := 0\<rparr>)"

definition victor_invertX :: "victor \<Rightarrow> victor" where
  "victor_invertX this = this\<lparr>vx := vx this * Fin (- 1)\<rparr>"

definition victor_invertY :: "victor \<Rightarrow> victor" where
  "victor_invertY this = this\<lparr>vy := vy this * Fin (- 1)\<rparr>"

definition victor_invert :: "victor \<Rightarrow> victor" where
  "victor_invert this = victor_invertY (victor_invertX this)"

definition victor_multiplyX :: "victor \<Rightarrow> victor \<Rightarrow> victor" where
  "victor_multiplyX vec this = this\<lparr>vx := vx this * vx vec\<rparr>"

definition victor_multiplyY :: "victor \<Rightarrow> victor \<Rightarrow> victor" where
  "victor_multiplyY vec this = this\<lparr>vy := vy this * vy vec\<rparr>"

definition victor_multiply :: "victor \<Rightarrow> victor \<Rightarrow> victor" where
  "victor_multiply vec this = this\<lparr>vx := vx this * vx vec, vy := vy this * vy vec\<rparr>"

definition victor_multiplyScalar :: "jsnum \<Rightarrow> victor \<Rightarrow> victor" where
  "victor_multiplyScalar s this = this\<lparr>vx := vx this * s, vy := vy this * s\<rparr>"

definition victor_multiplyScalarX :: "jsnum \<Rightarrow> victor \<Rightarrow> victor" where
  "victor_multiplyScalarX s this = this\<lparr>vx := vx this * s\<rparr>"

definition victor_multiplyScalarY :: "jsnum \<Rightarrow> victor \<Rightarrow> victor" where
  "victor_multiplyScalarY s this = this\<lparr>vy := vy this * s\<rparr>"

section \<open>Products, lengths and comparisons\<close>

definition victor_clone :: "victor \<Rightarrow> victor" where
  "victor_clone this = Victor (vx this) (vy this)"

definition victor_copyX :: "victor \<Rightarrow> victor \<Rightarrow> victor" where
  "victor_copyX vec this = this\<lparr>vx := vx vec\<rparr>"

definition victor_copyY :: "victor \<Rightarrow> victor \<Rightarrow> victor" where
  "victor_copyY vec this = this\<lparr>vy := vy vec\<rparr>"

definition victor_copy :: "victor \<Rightarrow> victor \<Rightarrow> victor" where
  "victor_copy vec this = victor_copyY vec (victor_copyX vec this)"

definition victor_zero :: "victor \<Rightarrow> victor" where
  "victor_zero this = this\<lparr>vx := 0, vy := 0\<rparr>"

definition victor_dot :: "victor \<Rightarrow> victor \<Rightarrow> jsnum" where
  "victor_dot vec2 this = vx this * vx vec2 + vy this * vy vec2"

definition victor_cross :: "victor \<Rightarrow> victor \<Rightarrow> jsnum" where
  "victor_cross vec2 this = vx this * vy vec2 - vy this * vx vec2"

definition victor_projectOnto :: "victor \<Rightarrow> victor \<Rightarrow> victor" where
  "victor_projectOnto vec2 this =
     (let coeff = (vx this * vx vec2 + vy this * vy vec2) / (vx vec2 * vx vec2 + vy vec2 * vy vec2)
      in this\<lparr>vx := coeff * vx vec2, vy := coeff * vy vec2\<rparr>)"

definition victor_lengthSq :: "victor \<Rightarrow> jsnum" where
  "victor_lengthSq this = vx this * vx this + vy this * vy this"

definition victor_length :: "victor \<Rightarrow> jsnum" where
  "victor_length this = js_sqrt (victor_lengthSq this)"

definition victor_normalize :: "victor \<Rightarrow> victor" where
  "victor_normalize this =
     (let len = victor_length this
      in if js_eq len 0 then this\<lparr>vx := 1, vy := 0\<rparr> else victor_divide (Victor len len) this)"

definition victor_distanceX :: "victor \<Rightarrow> victor \<Rightarrow> jsnum" where
  "victor_distanceX vec this = vx this - vx vec"

definition victor_absDistanceX :: "victor \<Rightarrow> victor \<Rightarrow> jsnum" where
  "victor_absDistanceX vec this = js_abs (victor_distanceX vec this)"

definition victor_distanceY :: "victor \<Rightarrow> victor \<Rightarrow> jsnum" where
  "victor_distanceY vec this = vy this - vy vec"

definition victor_absDistanceY :: "victor \<Rightarrow> victor \<Rightarrow> jsnum" where
  "victor_absDistanceY vec this = js_abs (victor_distanceY vec this)"

definition victor_distanceSq :: "victor \<Rightarrow> victor \<Rightarrow> jsnum" where
  "victor_distanceSq vec this =
     (let dx = victor_distanceX vec this; dy = victor_distanceY vec this in dx * dx + dy * dy)"

definition victor_distance :: "victor \<Rightarrow> victor \<Rightarrow> jsnum" where
  "victor_distance vec this = js_sqrt (victor_distanceSq vec this)"

definition victor_isZero :: "victor \<Rightarrow> bool" where
  "victor_isZero this \<longleftrightarrow> js_eq (vx this) 0 \<and> js_eq (vy this) 0"

definition victor_isEqualTo :: "victor \<Rightarrow> victor \<Rightarrow> bool" where
  "victor_isEqualTo vec2 this \<longleftrightarrow> js_eq (vx this) (vx vec2) \<and> js_eq (vy this) (vy vec2)"

definition victor_toArray :: "victor \<Rightarrow> jsnum list" where
  "victor_toArray this = [vx this, vy this]"

definition victor_toObject :: "victor \<Rightarrow> jsnum option \<times> jsnum option" where
  "victor_toObject this = (Some (vx this), Some (vy this))"

definition victor_limit :: "jsnum \<Rightarrow> jsnum \<Rightarrow> victor \<Rightarrow> victor" where
  "victor_limit mx factor this =
     (let v1 = (if js_abs (vx this) > mx then this\<lparr>vx := vx this * factor\<rparr> else this)
      in if js_abs (vy v1) > mx then v1\<lparr>vy := vy v1 * factor\<rparr> else v1)"

definition victor_unfloat :: "victor \<Rightarrow> victor" where
  "victor_unfloat this = this\<lparr>vx := js_round (vx this), vy := js_round (vy this)\<rparr>"

definition amount_default :: "jsnum option \<Rightarrow> jsnum" where
  "amount_default a = (case a of None \<Rightarrow> Fin (1 / 2) | Some x \<Rightarrow> x)"

definition victor_mixX :: "victor \<Rightarrow> jsnum option \<Rightarrow> victor \<Rightarrow> victor" where
  "victor_mixX vec amount this = (let a = amount_default amount
     in this\<lparr>vx := (1 - a) * vx this + a * vx vec\<rparr>)"

definition victor_mixY :: "victor \<Rightarrow> jsnum option \<Rightarrow> victor \<Rightarrow> victor" where
  "victor_mixY vec amount this = (let a = amount_default amount
     in this\<lparr>vy := (1 - a) * vy this + a * vy vec\<rparr>)"

definition victor_mix :: "victor \<Rightarrow> jsnum option \<Rightarrow> victor \<Rightarrow> victor" where
  "victor_mix vec amount this = victor_mixY vec amount (victor_mixX vec amount this)"

section \<open>Randomising\<close>

definition victor_random :: "jsnum \<Rightarrow> jsnum \<Rightarrow> jsnum \<Rightarrow> jsnum" where
  "victor_random rnd mn mx = js_floor (rnd * (mx - mn + 1) + mn)"

definition victor_randomizeX :: "jsnum \<Rightarrow> victor \<Rightarrow> victor \<Rightarrow> victor \<Rightarrow> victor" where
  "victor_randomizeX rnd topLeft bottomRight this =
     (let mn = js_min (vx topLeft) (vx bottomRight); mx = js_max (vx topLeft) (vx bottomRight)
      in this\<lparr>vx := victor_random rnd mn mx\<rparr>)"

definition victor_randomizeY :: "jsnum \<Rightarrow> victor \<Rightarrow> victor \<Rightarrow> victor \<Rightarrow> victor" where
  "victor_randomizeY rnd topLeft bottomRight this =
     (let mn = js_min (vy topLeft) (vy bottomRight); mx = js_max (vy topLeft) (vy bottomRight)
      in this\<lparr>vy := victor_random rnd mn mx\<rparr>)"

definition victor_randomize :: "jsnum \<Rightarrow> jsnum \<Rightarrow> victor \<Rightarrow> victor \<Rightarrow> victor \<Rightarrow> victor" where
  "victor_randomize rnd1 rnd2 topLeft bottomRight this =
     victor_randomizeY rnd2 topLeft bottomRight (victor_randomizeX rnd1 topLeft bottomRight this)"

definition victor_randomizeAny :: "jsnum \<Rightarrow> jsnum \<Rightarrow> victor \<Rightarrow> victor \<Rightarrow> victor \<Rightarrow> victor" where
  "victor_randomizeAny rnd1 rnd2 topLeft bottomRight this =
     (if truthy (js_round rnd1) then victor_randomizeX rnd2 topLeft bottomRight this
      else victor_randomizeY rnd2 topLeft bottomRight this)"

section \<open>Angles and rotation\<close>

definition victor_degrees :: jsnum where
  "victor_degrees = 180 / Fin pi"

definition radian2degrees :: "jsnum \<Rightarrow> jsnum" where
  "radian2degrees rad = rad * victor_degrees"

definition degrees2radian :: "jsnum \<Rightarrow> jsnum" where
  "degrees2radian deg = deg / victor_degrees"

definition victor_horizontalAngle :: "victor \<Rightarrow> jsnum" where
  "victor_horizontalAngle this = js_atan2 (vy this) (vx this)"

definition victor_horizontalAngleDeg :: "victor \<Rightarrow> jsnum" where
  "victor_horizontalAngleDeg this = radian2degrees (victor_horizontalAngle this)"

definition victor_verticalAngle :: "victor \<Rightarrow> jsnum" where
  "victor_verticalAngle this = js_atan2 (vx this) (vy this)"

definition victor_verticalAngleDeg :: "victor \<Rightarrow> jsnum" where
  "victor_verticalAngleDeg this = radian2degrees (victor_verticalAngle this)"

definition victor_rotate :: "jsnum \<Rightarrow> victor \<Rightarrow> victor" where
  "victor_rotate angle this =
     (let nx = vx this * js_cos angle - vy this * js_sin angle;
          ny = vx this * js_sin angle + vy this * js_cos angle
      in this\<lparr>vx := nx, vy := ny\<rparr>)"

definition victor_rotateDeg :: "jsnum \<Rightarrow> victor \<Rightarrow> victor" where
  "victor_rotateDeg angle this = victor_rotate (degrees2radian angle) this"

definition victor_rotateTo :: "jsnum \<Rightarrow> victor \<Rightarrow> victor" where
  "victor_rotateTo rotation this = victor_rotate (rotation - victor_horizontalAngle this) this"

definition victor_rotateToDeg :: "jsnum \<Rightarrow> victor \<Rightarrow> victor" where
  "victor_rotateToDeg rotation this = victor_rotateTo (degrees2radian rotation) this"

definition victor_rotateBy :: "jsnum \<Rightarrow> victor \<Rightarrow> victor" where
  "victor_rotateBy rotation this =
     (let angle = victor_horizontalAngle this + rotation in victor_rotate angle this)"

definition victor_rotateByDeg :: "jsnum \<Rightarrow> victor \<Rightarrow> victor" where
  "victor_rotateByDeg rotation this = victor_rotateBy (degrees2radian rotation) this"

section \<open>Finite vectors\<close>

text \<open>
  Facts about vectors with finite components, written \<open>vec a b\<close>.  The collection
  \<open>victor_simps\<close> evaluates every operation on them.
\<close>

abbreviation vec :: "real \<Rightarrow> real \<Rightarrow> victor" where
  "vec a b \<equiv> \<lparr>vx = Fin a, vy = Fin b\<rparr>"

definition fin_vec :: "victor \<Rightarrow> bool" where
  "fin_vec v \<longleftrightarrow> is_fin (vx v) \<and> is_fin (vy v)"

lemma fin_vecE:
  assumes "fin_vec v"
  obtains a b where "v = vec a b"
  using assms by (cases v) (auto simp: fin_vec_def is_fin_def split: jsnum.splits)

lemma fin_vec_vec [simp]: "fin_vec (vec a b)"
  by (simp add: fin_vec_def)

lemma or0_Fin [simp]: "or0 (Fin a) = Fin a"
  by (simp add: or0_def)

lemma or0_not_NaN [simp]: "or0 x \<noteq> NaN"
  by (simp add: or0_def truthy_def)

lemma or0_id: "x \<noteq> NaN \<Longrightarrow> or0 x = x"
  by (auto simp: or0_def truthy_def)

lemma Victor_Fin [simp, victor_simps]: "Victor (Fin a) (Fin b) = vec a b"
  by (simp add: Victor_def)

lemma victor_arith [victor_simps]:
  "victor_add (vec c d) (vec a b) = vec (a + c) (b + d)"
  "victor_subtract (vec c d) (vec a b) = vec (a - c) (b - d)"
  "victor_multiply (vec c d) (vec a b) = vec (a * c) (b * d)"
  "c \<noteq> 0 \<Longrightarrow> d \<noteq> 0 \<Longrightarrow> victor_divide (vec c d) (vec a b) = vec (a / c) (b / d)"
  "victor_invert (vec a b) = vec (- a) (- b)"
  "victor_clone (vec a b) = vec a b"
  by (simp_all add: victor_add_def victor_subtract_def victor_multiply_def victor_divide_def
      victor_invert_def victor_invertX_def victor_invertY_def victor_clone_def)

lemma victor_measures [victor_simps]:
  "victor_dot (vec c d) (vec a b) = Fin (a * c + b * d)"
  "victor_cross (vec c d) (vec a b) = Fin (a * d - b * c)"
  "victor_lengthSq (vec a b) = Fin (a\<^sup>2 + b\<^sup>2)"
  "victor_length (vec a b) = Fin (sqrt (a\<^sup>2 + b\<^sup>2))"
  "victor_horizontalAngle (vec a b) = Fin (real_atan2 b a)"
  "victor_distance (vec c d) (vec a b) = Fin (sqrt ((a - c)\<^sup>2 + (b - d)\<^sup>2))"
  by (simp_all add: victor_dot_def victor_cross_def victor_lengthSq_def victor_length_def
      victor_horizontalAngle_def victor_distance_def victor_distanceSq_def victor_distanceX_def
      victor_distanceY_def Let_def power2_eq_square not_less)

lemma victor_rotate_vec [victor_simps]:
  "victor_rotate (Fin t) (vec a b) = vec (a * cos t - b * sin t) (a * sin t + b * cos t)"
  by (simp add: victor_rotate_def Let_def)

lemma degrees2radian_Fin [victor_simps]: "degrees2radian (Fin d) = Fin (d * pi / 180)"
  by (simp add: degrees2radian_def victor_degrees_def)

lemma victor_rotateDeg_90 [victor_simps]: "victor_rotateDeg (Fin 90) (vec a b) = vec (- b) a"
proof -
  have "degrees2radian (Fin 90) = Fin (pi / 2)"
    by (simp add: degrees2radian_Fin)
  then show ?thesis by (simp add: victor_rotateDeg_def victor_rotate_vec)
qed

lemma victor_normalize_vec [victor_simps]:
  "victor_normalize (vec a b) = (if a = 0 \<and> b = 0 then vec 1 0
     else vec (a / sqrt (a\<^sup>2 + b\<^sup>2)) (b / sqrt (a\<^sup>2 + b\<^sup>2)))"
  by (auto simp: victor_normalize_def victor_measures Let_def victor_arith)

lemma normalize_lengthSq: "\<exists>c d. victor_normalize (vec a b) = vec c d \<and> c\<^sup>2 + d\<^sup>2 = 1"
proof (cases "a = 0 \<and> b = 0")
  case False
  then have nz: "a\<^sup>2 + b\<^sup>2 \<noteq> 0"
    by (simp add: sum_power2_eq_zero_iff)
  have "(a / sqrt (a\<^sup>2 + b\<^sup>2))\<^sup>2 + (b / sqrt (a\<^sup>2 + b\<^sup>2))\<^sup>2
      = (a\<^sup>2 + b\<^sup>2) / (a\<^sup>2 + b\<^sup>2)"
    by (simp only: power_divide add_divide_distrib real_sqrt_pow2 sum_power2_ge_zero)
  also have "\<dots> = 1" using nz by simp
  finally have "(a / sqrt (a\<^sup>2 + b\<^sup>2))\<^sup>2 + (b / sqrt (a\<^sup>2 + b\<^sup>2))\<^sup>2 = 1" .
  moreover have "victor_normalize (vec a b) = vec (a / sqrt (a\<^sup>2 + b\<^sup>2)) (b / sqrt (a\<^sup>2 + b\<^sup>2))"
    using False by (auto simp: victor_normalize_vec)
  ultimately show ?thesis by blast
qed (simp add: victor_normalize_vec)

lemma fin_vec_ops [intro]:
  "fin_vec v \<Longrightarrow> fin_vec w \<Longrightarrow> fin_vec (victor_add w v)"
  "fin_vec v \<Longrightarrow> fin_vec w \<Longrightarrow> fin_vec (victor_subtract w v)"
  "fin_vec v \<Longrightarrow> fin_vec w \<Longrightarrow> fin_vec (victor_multiply w v)"
  "fin_vec v \<Longrightarrow> fin_vec (victor_clone v)"
  "fin_vec v \<Longrightarrow> fin_vec (victor_normalize v)"
  by (auto elim!: fin_vecE simp: victor_simps)

text \<open>Polar coordinates of a finite vector.\<close>

lemma atan2_polar:
  fixes x y :: real
  defines "r \<equiv> sqrt (x\<^sup>2 + y\<^sup>2)"
  shows "r * cos (real_atan2 y x) = x" and "r * sin (real_atan2 y x) = y"
proof -
  have scale: "sqrt (1 + (y / x)\<^sup>2) = r / \<bar>x\<bar>" if "x \<noteq> 0"
  proof -
    have "1 + (y / x)\<^sup>2 = (x\<^sup>2 + y\<^sup>2) / x\<^sup>2" using that by (simp add: power_divide field_simps)
    then show ?thesis by (simp add: r_def real_sqrt_divide)
  qed
  have r0: "r \<noteq> 0" if "x \<noteq> 0" using that by (simp add: r_def sum_power2_eq_zero_iff)
  have c: "r * cos (arctan (y / x)) = \<bar>x\<bar>" "r * sin (arctan (y / x)) = y * (\<bar>x\<bar> / x)" if "x \<noteq> 0"
    using that r0 by (simp_all add: cos_arctan sin_arctan scale)
  have cs: "r * cos (real_atan2 y x) = x \<and> r * sin (real_atan2 y x) = y"
  proof (cases "x = 0")
    case True
    then show ?thesis by (auto simp: real_atan2_def r_def)
  next
    case False
    with c show ?thesis by (auto simp: real_atan2_def cos_add sin_add cos_diff sin_diff)
  qed
  then show "r * cos (real_atan2 y x) = x" and "r * sin (real_atan2 y x) = y" by simp_all
qed

section \<open>The vector properties\<close>

text \<open>The constructor, and so \<^verbatim>\<open>clone\<close>, never yields a NaN component.\<close>

lemma Victor_not_NaN [simp]: "vx (Victor x y) \<noteq> NaN" "vy (Victor x y) \<noteq> NaN"
  by (simp_all add: Victor_def)

lemma Victor_id: "x \<noteq> NaN \<Longrightarrow> y \<noteq> NaN \<Longrightarrow> Victor x y = \<lparr>vx = x, vy = y\<rparr>"
  by (simp add: Victor_def or0_id)

text \<open>Normalising a finite vector gives a unit vector (the x axis for the zero vector), and
  turning it by 90 degrees gives the second axis of a right-handed orthonormal frame.\<close>

lemma normalize_frame:
  assumes "fin_vec v"
  shows "victor_lengthSq (victor_normalize v) = 1
    \<and> victor_lengthSq (victor_rotateDeg 90 (victor_normalize v)) = 1
    \<and> victor_dot (victor_rotateDeg 90 (victor_normalize v)) (victor_normalize v) = 0
    \<and> victor_cross (victor_rotateDeg 90 (victor_normalize v)) (victor_normalize v) = 1
    \<and> victor_multiplyScalar (victor_length v) (victor_normalize v) = v"
proof -
  obtain a b where v: "v = vec a b" using assms by (rule fin_vecE)
  obtain c d where n: "victor_normalize v = vec c d" and u: "c\<^sup>2 + d\<^sup>2 = 1"
    using normalize_lengthSq v by blast
  have "victor_multiplyScalar (victor_length v) (victor_normalize v) = v"
    by (auto simp: v victor_simps victor_multiplyScalar_def sum_power2_eq_zero_iff)
  then show ?thesis
    using u by (simp add: n victor_simps victor_multiplyScalar_def add.commute power2_eq_square)
qed


text \<open>\<^verbatim>\<open>rotateTo\<close> turns a finite vector to the given angle and keeps its length.\<close>

lemma rotateTo_polar:
  "victor_rotateTo (Fin t) (vec a b)
     = vec (sqrt (a\<^sup>2 + b\<^sup>2) * cos t) (sqrt (a\<^sup>2 + b\<^sup>2) * sin t)"
proof -
  define r \<theta> where "r = sqrt (a\<^sup>2 + b\<^sup>2)" and "\<theta> = real_atan2 b a"
  have ab: "a = r * cos \<theta>" "b = r * sin \<theta>"
    using atan2_polar [of a b] by (simp_all add: r_def \<theta>_def)
  have "a * cos (t - \<theta>) - b * sin (t - \<theta>) = r * cos (\<theta> + (t - \<theta>))"
    "a * sin (t - \<theta>) + b * cos (t - \<theta>) = r * sin (\<theta> + (t - \<theta>))"
    unfolding cos_add [of \<theta>] sin_add [of \<theta>] by (simp_all add: ab algebra_simps)
  then show ?thesis
    by (simp add: victor_rotateTo_def victor_simps r_def [symmetric] \<theta>_def [symmetric])
qed

text \<open>\<^verbatim>\<open>rotateBy\<close> adds the vector's own angle to the requested one: a vector at
  angle \<open>u\<close> ends at \<open>2 * u + t\<close>, not at \<open>u + t\<close>.\<close>

theorem rotateBy_polar:
  "victor_rotateBy (Fin t) (vec a b)
     = vec (sqrt (a\<^sup>2 + b\<^sup>2) * cos (2 * real_atan2 b a + t))
           (sqrt (a\<^sup>2 + b\<^sup>2) * sin (2 * real_atan2 b a + t))"
proof -
  define r \<theta> where "r = sqrt (a\<^sup>2 + b\<^sup>2)" and "\<theta> = real_atan2 b a"
  have ab: "a = r * cos \<theta>" "b = r * sin \<theta>"
    using atan2_polar [of a b] by (simp_all add: r_def \<theta>_def)
  have "a * cos (\<theta> + t) - b * sin (\<theta> + t) = r * cos (\<theta> + (\<theta> + t))"
    "a * sin (\<theta> + t) + b * cos (\<theta> + t) = r * sin (\<theta> + (\<theta> + t))"
    unfolding cos_add [of \<theta> "\<theta> + t"] sin_add [of \<theta> "\<theta> + t"] by (simp_all add: ab algebra_simps)
  moreover have "\<theta> + (\<theta> + t) = 2 * \<theta> + t" by simp
  ultimately show ?thesis
    by (simp add: victor_rotateBy_def Let_def victor_simps r_def [symmetric] \<theta>_def [symmetric])
qed

text \<open>Projecting onto a non-zero vector splits the receiver into a part along that vector
  and a remainder perpendicular to it; projecting again changes nothing.\<close>

lemma projectOnto_decomposes:
  assumes "fin_vec v" and "fin_vec w" and "\<not> victor_isZero w"
  shows "victor_dot w (victor_subtract (victor_projectOnto w v) v) = 0
    \<and> victor_cross w (victor_projectOnto w v) = 0
    \<and> victor_projectOnto w (victor_projectOnto w v) = victor_projectOnto w v"
proof -
  obtain a b c d where v: "v = vec a b" and w: "w = vec c d"
    using assms by (metis fin_vecE)
  define n where "n = c * c + d * d"
  have "n \<noteq> 0"
    using assms(3) by (auto simp: w n_def victor_isZero_def sum_squares_eq_zero_iff)
  moreover have "(c * k * c + d * k * d) / n = k" for k
  proof -
    have "c * k * c + d * k * d = k * n" by (simp add: n_def algebra_simps)
    then show ?thesis using \<open>n \<noteq> 0\<close> by simp
  qed
  moreover have "(a * c + b * d) / n * c * c + (a * c + b * d) / n * d * d = a * c + b * d"
  proof -
    have "(a * c + b * d) / n * c * c + (a * c + b * d) / n * d * d = (a * c + b * d) / n * n"
      unfolding n_def by (simp only: distrib_left mult.assoc)
    then show ?thesis using \<open>n \<noteq> 0\<close> by simp
  qed
  ultimately show ?thesis
    by (simp add: v w victor_projectOnto_def victor_simps Let_def n_def [symmetric] algebra_simps)
qed


text \<open>With \<open>Math.random()\<close> in \<open>[0, 1)\<close>, \<^verbatim>\<open>randomizeX\<close> picks an integer of
  the closed interval between the x components of two integer corners, in either order, and
  leaves y alone.\<close>

lemma randomizeX_range:
  assumes "0 \<le> r" and "r < 1"
  shows "\<exists>k::int. victor_randomizeX (Fin r) (vec (of_int p) y1) (vec (of_int q) y2) v
        = v\<lparr>vx := Fin (of_int k)\<rparr> \<and> min p q \<le> k \<and> k \<le> max p q"
proof -
  define m M where "m = min p q" and "M = max p q"
  define k where "k = \<lfloor>r * (of_int M - of_int m + 1) + of_int m\<rfloor>"
  have mM: "m \<le> M" by (simp add: m_def M_def)
  have span: "0 \<le> r * (of_int M - of_int m + 1)" "r * (of_int M - of_int m + 1) < of_int M - of_int m + 1"
    using assms mM by (simp_all add: mult_less_cancel_right1 add_nonneg_pos)
  have "m \<le> k" using span by (simp add: k_def le_floor_iff)
  moreover have "real_of_int k < real_of_int (M + 1)"
    using span of_int_floor_le [of "r * (of_int M - of_int m + 1) + of_int m"]
    unfolding k_def by (simp only: of_int_add of_int_1)
  then have "k < M + 1" by (simp only: of_int_less_iff)
  moreover have "victor_randomizeX (Fin r) (vec (of_int p) y1) (vec (of_int q) y2) v
      = v\<lparr>vx := Fin (of_int k)\<rparr>"
    by (auto simp: victor_randomizeX_def victor_random_def js_min_def js_max_def m_def M_def k_def
        Let_def min_def max_def)
  ultimately show ?thesis by (auto simp: m_def M_def)
qed


end
