(* ===== verification/Util.thy ===== *)
theory Util
  imports VictorVec
begin

text \<open>
  \<^verbatim>\<open>js/util.js\<close>: the colour of a link from its utilisation, the short host name of a
  device, and the keyboard helper.  The colour goes through text, as in the code: three
  components are printed in hexadecimal and the result is parsed back.
\<close>

section \<open>Colours\<close>

definition componentToHex :: "jsnum \<Rightarrow> string" where
  "componentToHex c = (let hex = to_string16 (js_round c)
     in if length hex = 1 then ''0'' @ hex else hex)"

definition rgbToHex :: "jsnum \<Rightarrow> jsnum \<Rightarrow> jsnum \<Rightarrow> string" where
  "rgbToHex r g b = ''0x'' @ componentToHex r @ componentToHex g @ componentToHex b"

definition hsvToRgb :: "jsnum \<Rightarrow> jsnum \<Rightarrow> jsnum \<Rightarrow> jsnum \<times> jsnum \<times> jsnum" where
  "hsvToRgb h s v =
    (let i = js_floor (h * 6);
         f = h * 6 - i;
         p = v * (1 - s);
         q = v * (1 - f * s);
         t = v * (1 - (1 - f) * s);
         m = js_mod i 6;
         (r, g, b) =
           (if js_eq m 0 then (v, t, p)
            else if js_eq m 1 then (q, v, p)
            else if js_eq m 2 then (p, v, t)
            else if js_eq m 3 then (p, q, v)
            else if js_eq m 4 then (t, p, v)
            else if js_eq m 5 then (v, p, q)
            else (NaN, NaN, NaN))
     in (r * 255, g * 255, b * 255))"

definition getLinkColor :: "jsnum \<Rightarrow> jsnum \<Rightarrow> jsnum" where
  "getLinkColor used tot =
    (let vars = js_min used tot / tot;
         util = 2 / 3 - vars * 2 / 3;
         (r, g, b) = hsvToRgb util 1 1
     in js_round (parse_int 16 (rgbToHex r g b)))"

section \<open>Host names\<close>

fun js_split :: "char \<Rightarrow> string \<Rightarrow> string list" where
  "js_split sep [] = [[]]"
| "js_split sep (c # cs) =
     (if c = sep then [] # js_split sep cs
      else (case js_split sep cs of [] \<Rightarrow> [[c]] | w # ws \<Rightarrow> (c # w) # ws))"

definition hostnameFromFQDN :: "string \<Rightarrow> string" where
  "hostnameFromFQDN fqdn = (case take 2 (js_split (CHR ''.'') fqdn) of [] \<Rightarrow> [] | w # _ \<Rightarrow> w)"

lemma hostnameFromFQDN_takeWhile: "hostnameFromFQDN fqdn = takeWhile (\<lambda>c. c \<noteq> CHR ''.'') fqdn"
proof -
  have "\<exists>ws. js_split sep cs = takeWhile (\<lambda>c. c \<noteq> sep) cs # ws" for sep cs
    by (induction cs) auto
  then obtain ws where "js_split (CHR ''.'') fqdn = takeWhile (\<lambda>c. c \<noteq> CHR ''.'') fqdn # ws"
    by blast
  then show ?thesis by (simp add: hostnameFromFQDN_def)
qed

section \<open>The keyboard helper\<close>

text \<open>
  The object \<^verbatim>\<open>keyboard(keyCode)\<close> returns; whether a callback is installed is a flag.
  A handler returns the callbacks it ran; both handlers also call
  \<^verbatim>\<open>preventDefault\<close> on every event.
\<close>

record keyboard =
  key_code :: int
  isDown :: bool
  isUp :: bool
  press :: bool
  release :: bool

datatype key_call = CallPress | CallRelease

datatype key_event = KeyDown int | KeyUp int

definition new_keyboard :: "int \<Rightarrow> keyboard" where
  "new_keyboard keyCode =
     \<lparr>key_code = keyCode, isDown = False, isUp = True, press = False, release = False\<rparr>"

definition downHandler :: "int \<Rightarrow> keyboard \<Rightarrow> keyboard \<times> key_call list" where
  "downHandler keyCode key =
     (if keyCode = key_code key
      then (key\<lparr>isDown := True, isUp := False\<rparr>, if isUp key \<and> press key then [CallPress] else [])
      else (key, []))"

definition upHandler :: "int \<Rightarrow> keyboard \<Rightarrow> keyboard \<times> key_call list" where
  "upHandler keyCode key =
     (if keyCode = key_code key
      then (key\<lparr>isDown := False, isUp := True\<rparr>, if isDown key \<and> release key then [CallRelease] else [])
      else (key, []))"

fun keyboard_step :: "key_event \<Rightarrow> keyboard \<Rightarrow> keyboard \<times> key_call list" where
  "keyboard_step (KeyDown c) key = downHandler c key"
| "keyboard_step (KeyUp c) key = upHandler c key"

fun keyboard_run :: "key_event list \<Rightarrow> keyboard \<Rightarrow> keyboard \<times> key_call list" where
  "keyboard_run [] key = (key, [])"
| "keyboard_run (e # es) key =
     (let (key', cs) = keyboard_step e key; (key'', ds) = keyboard_run es key' in (key'', cs @ ds))"

text \<open>Calls that alternate, the first one being a press when the key starts up.\<close>

fun alternating :: "bool \<Rightarrow> key_call list \<Rightarrow> bool" where
  "alternating down [] \<longleftrightarrow> True"
| "alternating down (c # cs) \<longleftrightarrow> c = (if down then CallRelease else CallPress) \<and> alternating (\<not> down) cs"

section \<open>Lemmas\<close>

lemma digit_val_char [simp]: "d < 16 \<Longrightarrow> digit_val (digit_char d) = Some d"
  by (simp add: digit_val_def digit_char_def Let_def)

lemma radix16_char [simp]: "d < 16 \<Longrightarrow> is_radix_digit 16 (digit_char d)"
  by (simp add: is_radix_digit_def)

lemma digit_char_0: "digit_char 0 = CHR ''0''"
  by code_simp

lemma nat_digits16_small: "n < 16 \<Longrightarrow> nat_digits 16 n = [digit_char n]"
  by (simp add: nat_digits.simps)

lemma nat_digits16_two:
  "16 \<le> n \<Longrightarrow> n < 256 \<Longrightarrow> nat_digits 16 n = [digit_char (n div 16), digit_char (n mod 16)]"
  by (subst nat_digits.simps) (simp add: nat_digits16_small)

lemma componentToHex_byte:
  assumes "js_round c = Fin (real n)" and "n < 256"
  shows "componentToHex c = [digit_char (n div 16), digit_char (n mod 16)]"
proof (cases "n < 16")
  case True
  then show ?thesis
    using assms by (simp add: componentToHex_def nat_digits16_small digit_char_0)
next
  case False
  then show ?thesis using assms by (simp add: componentToHex_def nat_digits16_two)
qed

lemma rgbToHex_parse:
  assumes "js_round r = Fin (real i)" "js_round g = Fin (real j)" "js_round b = Fin (real k)"
    and "i < 256" "j < 256" "k < 256"
  shows "parse_int 16 (rgbToHex r g b) = Fin (real (65536 * i + 256 * j + k))"
proof -
  have lt: "i div 16 < 16" "j div 16 < 16" "k div 16 < 16" using assms by simp_all
  have "n = 16 * (n div 16) + n mod 16" for n :: nat by simp
  then have split: "65536 * i + 256 * j + k = 65536 * (16 * (i div 16) + i mod 16)
      + 256 * (16 * (j div 16) + j mod 16) + (16 * (k div 16) + k mod 16)"
    by metis
  have "65536 * (16 * a + b) + 256 * (16 * c + d) + (16 * e + f)
      = 16 * (16 * (16 * (16 * (16 * a + b) + c) + d) + e) + f" for a b c d e f :: nat
    by simp
  note this [of "i div 16" "i mod 16" "j div 16" "j mod 16" "k div 16" "k mod 16", folded split]
  moreover have "is_space (CHR ''0'') = False" by (simp add: is_space_def)
  ultimately show ?thesis
    using assms lt
    by (simp add: rgbToHex_def componentToHex_byte parse_int_def digits_value_def)
qed


text \<open>
  The colour ramp as a function of \<open>w = 4 * (1 - utilisation)\<close>, from red at 0 over
  yellow, green and cyan to blue at 4.
\<close>

definition byte :: "real \<Rightarrow> nat" where
  "byte x = nat \<lfloor>255 * x + 1 / 2\<rfloor>"

definition ramp :: "real \<Rightarrow> nat \<times> nat \<times> nat" where
  "ramp w = (if w < 1 then (255, byte w, 0) else if w < 2 then (byte (2 - w), 255, 0)
     else if w < 3 then (0, 255, byte (w - 2)) else (0, byte (4 - w), 255))"

definition packed :: "nat \<times> nat \<times> nat \<Rightarrow> nat" where
  "packed c = (case c of (r, g, b) \<Rightarrow> 65536 * r + 256 * g + b)"

lemma byte_bound: "0 \<le> x \<Longrightarrow> x \<le> 1 \<Longrightarrow> byte x < 256"
proof -
  assume "0 \<le> x" and "x \<le> 1"
  then have "\<lfloor>255 * x + 1 / 2\<rfloor> < 256" by (simp add: floor_less_iff)
  then show ?thesis unfolding byte_def by linarith
qed

lemma js_round_byte: "0 \<le> x \<Longrightarrow> js_round (Fin (x * 255)) = Fin (real (byte x))"
proof -
  assume "0 \<le> x"
  then have "0 \<le> \<lfloor>255 * x + 1 / 2\<rfloor>" by (simp add: le_floor_iff)
  then show ?thesis by (simp add: byte_def mult.commute)
qed

lemma byte_0_1 [simp]: "byte 0 = 0" "byte 1 = 255"
proof -
  have "\<lfloor>1 / 2 :: real\<rfloor> = 0" "\<lfloor>511 / 2 :: real\<rfloor> = 255" by (simp_all add: floor_eq_iff)
  then show "byte 0 = 0" "byte 1 = 255" by (simp_all add: byte_def)
qed

text \<open>The parse of a printed colour with components in the unit interval.\<close>

lemma color_of_unit:
  assumes "0 \<le> r" "r \<le> 1" "0 \<le> g" "g \<le> 1" "0 \<le> b" "b \<le> 1"
  shows "js_round (parse_int 16 (rgbToHex (Fin (r * 255)) (Fin (g * 255)) (Fin (b * 255))))
     = Fin (real (packed (byte r, byte g, byte b)))"
proof -
  have "parse_int 16 (rgbToHex (Fin (r * 255)) (Fin (g * 255)) (Fin (b * 255)))
      = Fin (real (65536 * byte r + 256 * byte g + byte b))"
    using assms by (intro rgbToHex_parse js_round_byte byte_bound)
  moreover have "\<lfloor>real n + 1 / 2\<rfloor> = int n" for n by (simp add: floor_eq_iff)
  ultimately show ?thesis by (simp add: packed_def del: of_nat_add of_nat_mult)
qed

lemma js_mod_6: "i \<in> {0, 1, 2, 3, 4} \<Longrightarrow> js_mod (Fin i) (Fin 6) = Fin i"
proof -
  assume i: "i \<in> {0, 1, 2, 3, 4}"
  then have "0 \<le> i / 6" and "\<lfloor>i / 6\<rfloor> = 0" by (auto simp: floor_eq_iff)
  then show ?thesis by (simp add: real_rem_def)
qed

lemma hsvToRgb_sector:
  assumes "0 \<le> w" and "w \<le> 4"
  shows "\<exists>r g b. hsvToRgb (Fin (w / 6)) 1 1 = (Fin (r * 255), Fin (g * 255), Fin (b * 255))
     \<and> 0 \<le> r \<and> r \<le> 1 \<and> 0 \<le> g \<and> g \<le> 1 \<and> 0 \<le> b \<and> b \<le> 1
     \<and> ramp w = (byte r, byte g, byte b)"
proof -
  define i where "i = \<lfloor>w\<rfloor>"
  have i: "real_of_int i \<le> w" "w < real_of_int i + 1" by (simp_all add: i_def)
  have "0 \<le> i" and "i \<le> 4" using assms i by linarith+
  then consider "i = 0" | "i = 1" | "i = 2" | "i = 3" | "i = 4" by linarith
  then show ?thesis
  proof cases
    case 1
    with i show ?thesis
      by (intro exI [of _ 1] exI [of _ w] exI [of _ 0])
        (simp add: hsvToRgb_def Let_def i_def [symmetric] js_mod_6 ramp_def del: js_mod.simps)
  next
    case 2
    with i show ?thesis
      by (intro exI [of _ "2 - w"] exI [of _ 1] exI [of _ 0])
        (simp add: hsvToRgb_def Let_def i_def [symmetric] js_mod_6 ramp_def del: js_mod.simps)
  next
    case 3
    with i show ?thesis
      by (intro exI [of _ 0] exI [of _ 1] exI [of _ "w - 2"])
        (simp add: hsvToRgb_def Let_def i_def [symmetric] js_mod_6 ramp_def del: js_mod.simps)
  next
    case 4
    with i show ?thesis
      by (intro exI [of _ 0] exI [of _ "4 - w"] exI [of _ 1])
        (simp add: hsvToRgb_def Let_def i_def [symmetric] js_mod_6 ramp_def del: js_mod.simps)
  next
    case 5
    with i assms have "w = 4" by simp
    with 5 show ?thesis
      by (intro exI [of _ 0] exI [of _ 0] exI [of _ 1])
        (simp add: hsvToRgb_def Let_def i_def [symmetric] js_mod_6 ramp_def del: js_mod.simps)
  qed
qed

text \<open>The colours of the ramp, of an infinite and of a NaN utilisation.\<close>

lemma ramp_color_min:
  assumes w: "0 \<le> w" "w \<le> 4" and x: "js_min x 1 = Fin (1 - w / 4)"
  shows "getLinkColor x 1 = Fin (real (packed (ramp w))) \<and> packed (ramp w) < 2 ^ 24"
proof -
  obtain r g b where h: "hsvToRgb (Fin (w / 6)) 1 1 = (Fin (r * 255), Fin (g * 255), Fin (b * 255))"
    and u: "0 \<le> r" "r \<le> 1" "0 \<le> g" "g \<le> 1" "0 \<le> b" "b \<le> 1" and rw: "ramp w = (byte r, byte g, byte b)"
    using hsvToRgb_sector [OF w] by blast
  have v: "js_min x 1 / 1 = Fin (1 - w / 4)" using x by simp
  have util: "2 / 3 - Fin (1 - w / 4) * 2 / 3 = Fin (w / 6)" by (simp add: field_simps)
  have "getLinkColor x 1 = Fin (real (packed (byte r, byte g, byte b)))"
    by (simp only: getLinkColor_def v Let_def util h prod.case color_of_unit [OF u])
  moreover have "packed (byte r, byte g, byte b) < 2 ^ 24"
    using u byte_bound [of r] byte_bound [of g] byte_bound [of b] by (simp add: packed_def)
  ultimately show ?thesis by (simp add: rw)
qed

lemma ramp_color:
  assumes "0 \<le> u"
  shows "getLinkColor (Fin u) 1 = Fin (real (packed (ramp (4 * (1 - min u 1)))))
    \<and> packed (ramp (4 * (1 - min u 1))) < 2 ^ 24"
proof -
  have "js_min (Fin u) 1 = Fin (1 - (4 * (1 - min u 1)) / 4)"
    by (auto simp: js_min_def min_def field_simps)
  with assms show ?thesis by (intro ramp_color_min) auto
qed

lemma PInf_color: "getLinkColor PInf 1 = Fin 16711680"
  using ramp_color_min [of 0 PInf] by (simp add: js_min_def packed_def ramp_def)

lemma NaN_color: "getLinkColor NaN 1 = NaN"
proof -
  have "hsvToRgb NaN (Fin 1) (Fin 1) = (NaN, NaN, NaN)"
    by (simp add: hsvToRgb_def Let_def)
  then show ?thesis
    by (simp add: getLinkColor_def js_min_def rgbToHex_def componentToHex_def parse_int_def
        is_space_def is_radix_digit_def digit_val_def)
qed

section \<open>The properties\<close>

text \<open>For every utilisation that is not negative, infinite ones included, the colour that
  \<^verbatim>\<open>getLinkColor\<close> prints and parses back is the packed 24-bit colour of the ramp:
  red for 1 and more, blue for 0; a NaN utilisation gives NaN.\<close>

theorem getLinkColor_ramp:
  assumes "0 \<le> u"
  shows "getLinkColor (Fin u) 1 = Fin (real (packed (ramp (4 * (1 - min u 1)))))
    \<and> packed (ramp (4 * (1 - min u 1))) < 2 ^ 24
    \<and> getLinkColor PInf 1 = Fin 16711680
    \<and> getLinkColor NaN 1 = NaN"
  using ramp_color [OF assms] PInf_color NaN_color by blast

theorem getLinkColor_ramp_witness: "getLinkColor (Fin (1 / 2)) 1 = Fin (real (packed (ramp 2)))"
  using getLinkColor_ramp [of "1 / 2"] by simp

text \<open>Whatever key events arrive, a key made by \<^verbatim>\<open>keyboard\<close> is up exactly when it is
  not down, and the callbacks it runs are press, release, press, \<dots> in turn, so a repeated
  key-down event does not press twice; the last one is a press exactly when the key is down.\<close>

lemma keyboard_alternates:
  "let key0 = (new_keyboard c)\<lparr>press := True, release := True\<rparr>;
       (key, calls) = keyboard_run es key0
   in isUp key = (\<not> isDown key) \<and> alternating False calls \<and> isDown key = odd (length calls)"
proof -
  have "case keyboard_run es key of (key', calls) \<Rightarrow>
      isUp key' = (\<not> isDown key') \<and> alternating (isDown key) calls
      \<and> isDown key' = (isDown key \<noteq> odd (length calls))"
    if "isUp key = (\<not> isDown key)" "press key" "release key" for key :: keyboard
    using that
  proof (induction es arbitrary: key)
    case (Cons e es)
    obtain key' cs where step: "keyboard_step e key = (key', cs)" by fastforce
    then have key': "isUp key' = (\<not> isDown key')" "press key'" "release key'"
      and cs: "cs = (if isDown key = isDown key' then [] else [if isDown key then CallRelease else CallPress])"
      using Cons.prems by (cases e; auto simp: downHandler_def upHandler_def split: if_splits)+
    show ?case
      using Cons.IH [OF key'] cs by (cases "keyboard_run es key'") (auto simp: step)
  qed simp
  from this [of "(new_keyboard c)\<lparr>press := True, release := True\<rparr>"] show ?thesis
    by (simp add: Let_def new_keyboard_def)
qed

end
