(* ===== verification/Scene.thy ===== *)
theory Scene
  imports Prelude
begin

text \<open>
  The display tree of \<^verbatim>\<open>js/pixi.js\<close>: the child list and the parent link that
  \<^verbatim>\<open>PIXI.Container\<close> keeps, its operations with their error paths, and the helper
  \<^verbatim>\<open>removeItems\<close>.  Display objects are numbered.  The cached transform and bounds are
  reduced to the marks the operations leave for them (\<^verbatim>\<open>transform._parentID\<close>,
  \<^verbatim>\<open>_boundsID\<close>), and the callback and events to a log.
\<close>

type_synonym oid = nat

datatype scene_event =
    ChildrenChange oid int
  | Added oid oid
  | Removed oid oid

record scene =
  parent_of :: "oid \<Rightarrow> oid option"
  children :: "oid \<Rightarrow> oid list"
  parentID :: "oid \<Rightarrow> int"
  boundsID :: "oid \<Rightarrow> nat"
  events :: "scene_event list"
  next_oid :: oid

definition empty_scene :: scene where
  "empty_scene = \<lparr>parent_of = (\<lambda>_. None), children = (\<lambda>_. []), parentID = (\<lambda>_. 0),
     boundsID = (\<lambda>_. 0), events = [], next_oid = 0\<rparr>"

text \<open>A new display object: no parent, no children.\<close>

definition new_object :: "scene \<Rightarrow> oid \<times> scene" where
  "new_object s = (next_oid s, s\<lparr>next_oid := Suc (next_oid s),
     parent_of := (parent_of s)(next_oid s := None), children := (children s)(next_oid s := [])\<rparr>)"

section \<open>Array helpers\<close>

text \<open>The shifting loop of \<^verbatim>\<open>removeItems\<close>: \<open>arr[i] = arr[i + removeCount]\<close> up to
  \<open>len\<close>, then the array is cut.\<close>

function shift_down :: "nat \<Rightarrow> nat \<Rightarrow> nat \<Rightarrow> 'a list \<Rightarrow> 'a list" where
  "shift_down i len cnt arr =
     (if i < len then shift_down (Suc i) len cnt (arr[i := arr ! (i + cnt)]) else arr)"
  by pat_completeness auto
termination
  by (relation "measure (\<lambda>(i, len, cnt, arr). len - i)") auto

declare shift_down.simps [simp del]

definition removeItems :: "'a list \<Rightarrow> nat \<Rightarrow> nat \<Rightarrow> 'a list" where
  "removeItems arr startIdx removeCount =
     (if length arr \<le> startIdx \<or> removeCount = 0 then arr
      else let cnt = (if length arr < startIdx + removeCount then length arr - startIdx else removeCount);
               len = length arr - cnt
           in take len (shift_down startIdx len cnt arr))"

fun indexOf :: "'a list \<Rightarrow> 'a \<Rightarrow> int" where
  "indexOf [] x = - 1"
| "indexOf (y # ys) x = (if y = x then 0 else let i = indexOf ys x in if i = - 1 then - 1 else i + 1)"

definition splice_insert :: "nat \<Rightarrow> 'a \<Rightarrow> 'a list \<Rightarrow> 'a list" where
  "splice_insert i x xs = take i xs @ x # drop i xs"

section \<open>The operations of a container\<close>

definition touch :: "oid \<Rightarrow> oid option \<Rightarrow> scene \<Rightarrow> scene" where
  "touch c p s = s\<lparr>parent_of := (parent_of s)(c := p), parentID := (parentID s)(c := - 1)\<rparr>"

definition set_children :: "oid \<Rightarrow> oid list \<Rightarrow> scene \<Rightarrow> scene" where
  "set_children p cs s = s\<lparr>children := (children s)(p := cs)\<rparr>"

definition bump :: "oid \<Rightarrow> scene_event list \<Rightarrow> scene \<Rightarrow> scene" where
  "bump p evs s = s\<lparr>boundsID := (boundsID s)(p := Suc (boundsID s p)), events := events s @ evs\<rparr>"

definition log_events :: "scene_event list \<Rightarrow> scene \<Rightarrow> scene" where
  "log_events evs s = s\<lparr>events := events s @ evs\<rparr>"

definition removeChild :: "oid \<Rightarrow> oid \<Rightarrow> scene \<Rightarrow> scene" where
  "removeChild this child s =
     (let index = indexOf (children s this) child
      in if index = - 1 then s
         else bump this [ChildrenChange this index, Removed child this]
           (set_children this (removeItems (children s this) (nat index) 1) (touch child None s)))"

definition detach :: "oid \<Rightarrow> scene \<Rightarrow> scene" where
  "detach child s = (case parent_of s child of None \<Rightarrow> s | Some p \<Rightarrow> removeChild p child s)"

definition addChild :: "oid \<Rightarrow> oid \<Rightarrow> scene \<Rightarrow> scene" where
  "addChild this child s =
     (let s1 = touch child (Some this) (detach child s);
          cs = children s1 this @ [child]
      in bump this [ChildrenChange this (int (length cs) - 1), Added child this]
           (set_children this cs s1))"

definition addChildren :: "oid \<Rightarrow> oid list \<Rightarrow> scene \<Rightarrow> scene" where
  "addChildren this cs s = fold (addChild this) cs s"

definition removeChildList :: "oid \<Rightarrow> oid list \<Rightarrow> scene \<Rightarrow> scene" where
  "removeChildList this cs s = fold (removeChild this) cs s"

definition addChildAt :: "oid \<Rightarrow> oid \<Rightarrow> int \<Rightarrow> scene \<Rightarrow> scene result" where
  "addChildAt this child index s =
     (if index < 0 \<or> int (length (children s this)) < index
      then throw (Error ''addChildAt: index out of bounds'') s
      else let s1 = touch child (Some this) (detach child s)
           in ok (bump this [ChildrenChange this index, Added child this]
                (set_children this (splice_insert (nat index) child (children s1 this)) s1)))"

definition getChildIndex :: "oid \<Rightarrow> oid \<Rightarrow> scene \<Rightarrow> exn + nat" where
  "getChildIndex this child s =
     (let index = indexOf (children s this) child
      in if index = - 1 then Inl (Error ''The supplied DisplayObject must be a child of the caller'')
         else Inr (nat index))"

definition swapChildren :: "oid \<Rightarrow> oid \<Rightarrow> oid \<Rightarrow> scene \<Rightarrow> scene result" where
  "swapChildren this child child2 s =
     (if child = child2 then ok s
      else case getChildIndex this child s of Inl e \<Rightarrow> throw e s
      | Inr index1 \<Rightarrow>
         (case getChildIndex this child2 s of Inl e \<Rightarrow> throw e s
          | Inr index2 \<Rightarrow>
             ok (log_events [ChildrenChange this (int (if index1 < index2 then index1 else index2))]
               (set_children this ((children s this)[index1 := child2, index2 := child]) s))))"

definition setChildIndex :: "oid \<Rightarrow> oid \<Rightarrow> int \<Rightarrow> scene \<Rightarrow> scene result" where
  "setChildIndex this child index s =
     (if index < 0 \<or> int (length (children s this)) \<le> index
      then throw (Error ''The index supplied is out of bounds'') s
      else case getChildIndex this child s of Inl e \<Rightarrow> throw e s
      | Inr currentIndex \<Rightarrow>
         ok (log_events [ChildrenChange this index]
           (set_children this
             (splice_insert (nat index) child (removeItems (children s this) currentIndex 1)) s)))"

definition getChildAt :: "oid \<Rightarrow> int \<Rightarrow> scene \<Rightarrow> exn + oid" where
  "getChildAt this index s =
     (if index < 0 \<or> int (length (children s this)) \<le> index
      then Inl (Error ''getChildAt: Index does not exist.'')
      else Inr (children s this ! nat index))"

definition removeChildAt :: "oid \<Rightarrow> int \<Rightarrow> scene \<Rightarrow> scene result" where
  "removeChildAt this index s =
     (case getChildAt this index s of Inl e \<Rightarrow> throw e s
      | Inr child \<Rightarrow>
         ok (bump this [ChildrenChange this index, Removed child this]
           (set_children this (removeItems (children s this) (nat index) 1) (touch child None s))))"

text \<open>\<^verbatim>\<open>removeChildren(begin, end)\<close>: the removed objects, or the thrown RangeError.\<close>

definition removeChildren :: "oid \<Rightarrow> int \<Rightarrow> int option \<Rightarrow> scene \<Rightarrow> (exn + oid list) \<times> scene" where
  "removeChildren this begin_i endIndex s =
     (let end_i = (case endIndex of Some e \<Rightarrow> e | None \<Rightarrow> int (length (children s this)));
          range = end_i - begin_i
      in if 0 < range \<and> range \<le> end_i
         then let cs = children s this;
                  removed = take (nat range) (drop (nat begin_i) cs);
                  rest = take (nat begin_i) cs @ drop (nat end_i) cs;
                  s1 = fold (\<lambda>c. touch c None) removed (set_children this rest s)
              in (Inr removed, bump this (ChildrenChange this begin_i # map (\<lambda>c. Removed c this) removed) s1)
         else if range = 0 \<and> children s this = [] then (Inr [], s)
         else (Inl (RangeError ''removeChildren: numeric values are outside the acceptable range.''), s))"

section \<open>The array helpers are the list functions they stand for\<close>

lemma length_shift_down [simp]: "length (shift_down i len cnt arr) = length arr"
proof (induction i len cnt arr rule: shift_down.induct)
  case (1 i len cnt arr)
  then show ?case by (subst shift_down.simps) simp
qed

lemma nth_shift_down:
  "0 < cnt \<Longrightarrow> len + cnt \<le> length arr \<Longrightarrow> j < length arr \<Longrightarrow>
   shift_down i len cnt arr ! j = (if i \<le> j \<and> j < len then arr ! (j + cnt) else arr ! j)"
proof (induction i len cnt arr rule: shift_down.induct)
  case (1 i len cnt arr)
  show ?case
  proof (cases "i < len")
    case True
    then have "shift_down i len cnt arr ! j = shift_down (Suc i) len cnt (arr[i := arr ! (i + cnt)]) ! j"
      by (subst shift_down.simps) simp
    also have "\<dots> = (if i \<le> j \<and> j < len then arr ! (j + cnt) else arr ! j)"
      using True 1 by (auto simp: nth_list_update Suc_le_eq)
    finally show ?thesis .
  next
    case False
    then show ?thesis by (subst shift_down.simps) auto
  qed
qed

lemma removeItems_take_drop:
  "removeItems arr i cnt = take i arr @ drop (i + cnt) arr"
proof (cases "length arr \<le> i \<or> cnt = 0")
  case False
  define c where "c = (if length arr < i + cnt then length arr - i else cnt)"
  have c: "0 < c" "i + c \<le> length arr" using False by (auto simp: c_def)
  have "take (length arr - c) (shift_down i (length arr - c) c arr) = take i arr @ drop (i + c) arr"
    by (rule nth_equalityI) (use c in \<open>auto simp: nth_shift_down nth_append add.commute\<close>)
  moreover have "drop (i + c) arr = drop (i + cnt) arr" by (auto simp: c_def)
  ultimately show ?thesis using False by (auto simp: removeItems_def Let_def c_def)
qed (auto simp: removeItems_def)

lemma indexOf_range: "indexOf xs x = - 1 \<or> 0 \<le> indexOf xs x \<and> indexOf xs x < int (length xs)"
  by (induction xs) (auto simp: Let_def)

lemma indexOf_absent [simp]: "indexOf xs x = - 1 \<longleftrightarrow> x \<notin> set xs"
proof (induction xs)
  case (Cons y ys)
  then show ?case using indexOf_range [of ys x] by (auto simp: Let_def)
qed simp

lemma indexOf_nth: "x \<in> set xs \<Longrightarrow> nat (indexOf xs x) < length xs \<and> xs ! nat (indexOf xs x) = x"
proof (induction xs)
  case (Cons y ys)
  then show ?case using indexOf_range [of ys x] by (auto simp: Let_def nat_add_distrib)
qed simp

lemma removeItems_indexOf:
  "distinct xs \<Longrightarrow> x \<in> set xs \<Longrightarrow> removeItems xs (nat (indexOf xs x)) 1 = remove1 x xs"
proof (induction xs)
  case (Cons y ys)
  then show ?case
    using indexOf_range [of ys x] by (auto simp: removeItems_take_drop Let_def nat_add_distrib)
qed simp

section \<open>Well-formed display trees\<close>

text \<open>Child lists and parent links agree, no object is listed twice, and objects that do not
  exist yet are nowhere in the tree.\<close>

definition scene_ok :: "scene \<Rightarrow> bool" where
  "scene_ok s \<longleftrightarrow> (\<forall>p. distinct (children s p)) \<and> (\<forall>p c. c \<in> set (children s p) \<longleftrightarrow> parent_of s c = Some p)
     \<and> (\<forall>c \<ge> next_oid s. parent_of s c = None \<and> children s c = [])"

lemma scene_ok_child: "scene_ok s \<Longrightarrow> c \<in> set (children s p) \<longleftrightarrow> parent_of s c = Some p"
  by (simp add: scene_ok_def)

lemma scene_ok_distinct: "scene_ok s \<Longrightarrow> distinct (children s p)"
  by (simp add: scene_ok_def)

lemma scene_ok_fresh: "scene_ok s \<Longrightarrow> next_oid s \<le> c \<Longrightarrow> parent_of s c = None \<and> children s c = []"
  by (simp add: scene_ok_def)

lemma scene_ok_empty [simp]: "scene_ok empty_scene"
  by (simp add: scene_ok_def empty_scene_def)

lemma update_simps [simp]:
  "parent_of (touch c pp s) = (parent_of s)(c := pp)" "children (touch c pp s) = children s"
  "next_oid (touch c pp s) = next_oid s"
  "parent_of (set_children p cs s) = parent_of s"
  "children (set_children p cs s) = (children s)(p := cs)"
  "next_oid (set_children p cs s) = next_oid s"
  "parent_of (bump p evs s) = parent_of s" "children (bump p evs s) = children s"
  "next_oid (bump p evs s) = next_oid s"
  "parent_of (log_events evs s) = parent_of s" "children (log_events evs s) = children s"
  "next_oid (log_events evs s) = next_oid s"
  by (simp_all add: touch_def set_children_def bump_def log_events_def)

lemma new_object_ok [simp]:
  assumes "scene_ok s"
  shows "scene_ok (snd (new_object s))"
proof -
  have "parent_of s c \<noteq> Some (next_oid s)" for c
    using scene_ok_child [OF assms, of c "next_oid s"] scene_ok_fresh [OF assms, of "next_oid s"] by auto
  then show ?thesis using assms by (auto simp: new_object_def scene_ok_def)
qed

lemma removeChild_ok:
  assumes "scene_ok s"
  shows "parent_of (removeChild p c s) = (if parent_of s c = Some p then (parent_of s)(c := None) else parent_of s)"
    and "children (removeChild p c s) = (if parent_of s c = Some p
           then (children s)(p := remove1 c (children s p)) else children s)"
    and "next_oid (removeChild p c s) = next_oid s"
  using assms removeItems_indexOf [OF scene_ok_distinct [OF assms, of p], of c]
  by (auto simp: removeChild_def Let_def scene_ok_child)

lemma scene_ok_removeChild [simp, intro]: "scene_ok s \<Longrightarrow> scene_ok (removeChild p c s)"
  by (auto simp: scene_ok_def [of "removeChild p c s"] removeChild_ok scene_ok_child scene_ok_distinct
      scene_ok_fresh split: if_splits)

lemma detach_ok:
  assumes "scene_ok s"
  shows "parent_of (detach c s) = (parent_of s)(c := None)"
    and "children (detach c s) = (\<lambda>p. removeAll c (children s p))"
    and "next_oid (detach c s) = next_oid s" and "scene_ok (detach c s)"
  using assms
  by (auto simp: detach_def removeChild_ok fun_eq_iff scene_ok_child [OF assms] distinct_remove1_removeAll
      scene_ok_distinct intro!: removeAll_id [symmetric] split: option.splits)

lemma addChild_ok:
  assumes "scene_ok s"
  shows "parent_of (addChild p c s) = (parent_of s)(c := Some p)"
    and "children (addChild p c s) = (\<lambda>q. removeAll c (children s q) @ (if q = p then [c] else []))"
    and "next_oid (addChild p c s) = next_oid s"
  using assms by (auto simp: addChild_def Let_def detach_ok fun_eq_iff)

lemma scene_ok_addChild [intro]:
  assumes "scene_ok s" and "p < next_oid s" and "c < next_oid s"
  shows "scene_ok (addChild p c s)"
  using assms
  by (auto simp: scene_ok_def [of "addChild p c s"] addChild_ok scene_ok_child distinct_removeAll
      scene_ok_distinct scene_ok_fresh)

section \<open>The interface the drawing code relies on\<close>

text \<open>
  What the devices, link groups, links and effects use of the display tree: an object is
  created, attached to a layer, and later removed from the layer it was attached to.  The
  client lemma says that releasing a collection of objects, each from the layer recorded for
  it, leaves no trace of any of them and moves nothing else.
\<close>

locale display_tree =
  fixes attach :: "'o \<Rightarrow> 'o \<Rightarrow> 's \<Rightarrow> 's"
    and release :: "'o \<Rightarrow> 'o \<Rightarrow> 's \<Rightarrow> 's"
    and owner :: "'s \<Rightarrow> 'o \<Rightarrow> 'o option"
    and good :: "'s \<Rightarrow> bool"
    and exists_in :: "'s \<Rightarrow> 'o \<Rightarrow> bool"
  assumes attach_good: "good s \<Longrightarrow> exists_in s p \<Longrightarrow> exists_in s c \<Longrightarrow> good (attach p c s)"
    and attach_owner: "good s \<Longrightarrow> owner (attach p c s) = (owner s)(c := Some p)"
    and release_good: "good s \<Longrightarrow> good (release p c s)"
    and release_owner: "good s \<Longrightarrow> owner s c = Some p \<Longrightarrow> owner (release p c s) = (owner s)(c := None)"
    and release_other: "good s \<Longrightarrow> owner s c \<noteq> Some p \<Longrightarrow> owner (release p c s) = owner s"
begin

lemma attach_release: "good s \<Longrightarrow> exists_in s p \<Longrightarrow> exists_in s c \<Longrightarrow>
    owner (release p c (attach p c s)) = (owner s)(c := None)"
  by (simp add: attach_good attach_owner release_owner)

lemma release_all:
  assumes "good s" and "\<And>p c. (p, c) \<in> set held \<Longrightarrow> owner s c = Some p"
  shows "good (fold (\<lambda>(p, c). release p c) held s)
    \<and> owner (fold (\<lambda>(p, c). release p c) held s)
        = (\<lambda>x. if x \<in> snd ` set held then None else owner s x)"
  using assms
proof (induction held rule: rev_induct)
  case (snoc h hs)
  obtain p c where h: "h = (p, c)" by fastforce
  let ?t = "fold (\<lambda>(p, c). release p c) hs s"
  have t: "good ?t" "owner ?t = (\<lambda>x. if x \<in> snd ` set hs then None else owner s x)"
    using snoc by auto
  show ?case
  proof (cases "c \<in> snd ` set hs")
    case True
    then have "owner ?t c \<noteq> Some p" by (simp add: t)
    then show ?thesis using t True by (auto simp: h release_good release_other fun_eq_iff)
  next
    case False
    then have "owner ?t c = Some p" using snoc.prems by (simp add: t h)
    then show ?thesis using t by (auto simp: h release_good release_owner fun_eq_iff)
  qed
qed simp

end

interpretation pixi: display_tree addChild removeChild parent_of scene_ok "\<lambda>s c. c < next_oid s"
  by unfold_locales (auto simp: addChild_ok removeChild_ok)

section \<open>The container properties\<close>

datatype container_op =
    AddChild oid oid
  | AddChildAt oid oid int
  | SwapChildren oid oid oid
  | SetChildIndex oid oid int
  | RemoveChild oid oid
  | RemoveChildAt oid int
  | RemoveChildren oid int "int option"

fun container_step :: "container_op \<Rightarrow> scene \<Rightarrow> scene result" where
  "container_step (AddChild p c) s = ok (addChild p c s)"
| "container_step (AddChildAt p c i) s = addChildAt p c i s"
| "container_step (SwapChildren p c d) s = swapChildren p c d s"
| "container_step (SetChildIndex p c i) s = setChildIndex p c i s"
| "container_step (RemoveChild p c) s = ok (removeChild p c s)"
| "container_step (RemoveChildAt p i) s = removeChildAt p i s"
| "container_step (RemoveChildren p b e) s =
     (case removeChildren p b e s of (Inl x, t) \<Rightarrow> throw x t | (Inr _, t) \<Rightarrow> ok t)"

fun op_objects :: "container_op \<Rightarrow> oid set" where
  "op_objects (AddChild p c) = {p, c}"
| "op_objects (AddChildAt p c i) = {p, c}"
| "op_objects (SwapChildren p c d) = {p, c, d}"
| "op_objects (SetChildIndex p c i) = {p, c}"
| "op_objects (RemoveChild p c) = {p, c}"
| "op_objects (RemoveChildAt p i) = {p}"
| "op_objects (RemoveChildren p b e) = {p}"

lemma getChildIndex_cases:
  "getChildIndex p c s = Inr i \<Longrightarrow> c \<in> set (children s p) \<and> i < length (children s p) \<and> children s p ! i = c"
  "c \<in> set (children s p) \<Longrightarrow> \<exists>i. getChildIndex p c s = Inr i"
  by (auto simp: getChildIndex_def Let_def indexOf_nth split: if_splits)

lemma mset_splice_insert [simp]: "mset (splice_insert i x xs) = add_mset x (mset xs)"
  by (metis add_mset_add_single append_take_drop_id mset.simps(2) mset_append splice_insert_def
      union_mset_add_mset_right)

lemma removeItems_one:
  "i < length xs \<Longrightarrow> add_mset (xs ! i) (mset (removeItems xs i 1)) = mset xs"
  by (metis One_nat_def add.commute add_mset_add_single append_take_drop_id id_take_nth_drop
      mset.simps(2) mset_append plus_1_eq_Suc removeItems_take_drop union_mset_add_mset_right)

text \<open>Replacing a child list by one with the same objects keeps the tree well formed.\<close>

lemma scene_ok_permute:
  assumes "scene_ok s" and "mset cs = mset (children s p)"
  shows "scene_ok (set_children p cs s)"
proof -
  have "set cs = set (children s p)" and "distinct cs \<longleftrightarrow> distinct (children s p)"
    using assms(2) by (metis set_mset_mset, metis mset_eq_imp_distinct_iff)
  moreover have "cs = []" if "children s p = []" using assms(2) that by simp
  ultimately show ?thesis using assms(1) by (auto simp: scene_ok_def)
qed

lemma scene_ok_bump [simp]: "scene_ok (bump p evs s) = scene_ok s" "scene_ok (log_events evs s) = scene_ok s"
  by (simp_all add: scene_ok_def)

lemma scene_ok_cong:
  "parent_of s = parent_of t \<Longrightarrow> children s = children t \<Longrightarrow> next_oid s = next_oid t \<Longrightarrow>
   scene_ok s = scene_ok t"
  by (simp add: scene_ok_def)

lemma scene_ok_cut:
  assumes "scene_ok s" and "mset cs + mset gone = mset (children s p)"
  shows "scene_ok (fold (\<lambda>c. touch c None) gone (set_children p cs s))"
proof -
  have kids: "children (fold (\<lambda>c. touch c None) xs t) = children t"
    "next_oid (fold (\<lambda>c. touch c None) xs t) = next_oid t"
    "parent_of (fold (\<lambda>c. touch c None) xs t) = (\<lambda>c. if c \<in> set xs then None else parent_of t c)"
    for xs t by (induction xs arbitrary: t) (auto simp: fun_eq_iff)
  have "distinct (cs @ gone)" and "set cs \<union> set gone = set (children s p)"
    using assms scene_ok_distinct
    by (metis mset_append mset_eq_imp_distinct_iff, metis mset_append set_append set_mset_mset)
  then show ?thesis
    using assms(1) unfolding scene_ok_def kids by (auto; metis option.inject)
qed

lemma mset_cut:
  "mset (take (nat b) cs @ drop (nat e) cs) + mset (take (nat (e - b)) (drop (nat b) cs)) = mset cs"
  if "0 < e - b" and "e - b \<le> e"
proof -
  define i k where "i = nat b" and "k = nat e"
  have ik: "nat (e - b) = k - i" "i \<le> k" using that by (auto simp: i_def k_def)
  have "drop i cs = take (k - i) (drop i cs) @ drop k cs"
    by (metis append_take_drop_id drop_drop le_add_diff_inverse2 ik(2))
  then have "mset (drop i cs) = mset (take (k - i) (drop i cs)) + mset (drop k cs)"
    by (metis mset_append)
  moreover have "mset cs = mset (take i cs) + mset (drop i cs)"
    by (metis append_take_drop_id mset_append)
  ultimately show ?thesis by (simp add: i_def [symmetric] k_def [symmetric] ik ac_simps)
qed

lemma fold_touch_one: "set_children p cs (touch c None s) = fold (\<lambda>c. touch c None) [c] (set_children p cs s)"
  by (simp add: touch_def set_children_def)

text \<open>C37: Every container operation on existing objects keeps the display tree well formed (child
  lists and parent links agree, nothing is listed twice), and an operation that throws leaves the
  tree as it was.\<close>

theorem container_step_ok:
  assumes "scene_ok s" and "\<forall>x \<in> op_objects a. x < next_oid s"
  shows "scene_ok (fst (container_step a s))
    \<and> (\<not> returns (container_step a s) \<longrightarrow> fst (container_step a s) = s)"
proof (cases a)
  case (AddChildAt p c i)
  have "scene_ok (set_children p (splice_insert k c (children (detach c s) p)) (touch c (Some p) (detach c s)))"
    for k
  proof -
    have "mset (splice_insert k c (children (detach c s) p)) = mset (children (addChild p c s) p)"
      by (simp add: addChild_ok [OF assms(1)] detach_ok [OF assms(1)])
    moreover have "scene_ok (addChild p c s)" using assms AddChildAt by auto
    ultimately have "scene_ok (set_children p (splice_insert k c (children (detach c s) p)) (addChild p c s))"
      by (rule scene_ok_permute [rotated])
    also have "?this \<longleftrightarrow> ?thesis"
      by (rule scene_ok_cong) (auto simp: addChild_ok [OF assms(1)] detach_ok [OF assms(1)])
    finally show ?thesis .
  qed
  with assms AddChildAt show ?thesis by (auto simp: addChildAt_def Let_def)
next
  case (SwapChildren p c d)
  with assms show ?thesis
    by (auto simp: swapChildren_def mset_swap dest!: getChildIndex_cases(1) intro!: scene_ok_permute
        split: sum.split)
next
  case (SetChildIndex p c i)
  with assms show ?thesis
    by (auto simp: setChildIndex_def removeItems_one [unfolded One_nat_def] dest!: getChildIndex_cases(1)
        intro!: scene_ok_permute split: sum.split)
next
  case (RemoveChildAt p i)
  have "scene_ok (fold (\<lambda>c. touch c None) [children s p ! nat i]
      (set_children p (removeItems (children s p) (nat i) 1) s))" if "nat i < length (children s p)"
    using assms(1) removeItems_one [OF that] by (intro scene_ok_cut) auto
  with RemoveChildAt assms(1) show ?thesis
    by (auto simp: removeChildAt_def getChildAt_def fold_touch_one simp del: fold_simps)
next
  case (RemoveChildren p b e)
  show ?thesis
    using assms RemoveChildren scene_ok_cut [OF assms(1) mset_cut]
    by (auto simp: removeChildren_def Let_def nat_diff_distrib split: option.split)
qed (use assms in auto)

theorem container_step_ok_witness:
  "let s = snd (new_object (snd (new_object empty_scene)))
   in scene_ok (fst (container_step (AddChild 0 1) s))"
  using container_step_ok [of "snd (new_object (snd (new_object empty_scene)))" "AddChild 0 1"]
  by (simp add: Let_def) (simp add: new_object_def empty_scene_def)

end
