(* ===== verification/Iface.thy ===== *)
theory Iface
  imports JsNum
begin

text \<open>
  \<^verbatim>\<open>js/interface.js\<close>: one interface of a device, with the last status and statistics
  received for it and the interface at the other end of its link.  Interface objects are shared
  (a link points at its source interface, an interface at its peer), so they live in a store and
  are named by references; here are the object and its methods.  The time of day is an argument
  of the methods that read the clock, in seconds.
\<close>

type_synonym ifref = nat

text \<open>The value of a field of an interface in the topology document of the server.\<close>

datatype topo_value =
    TName string
  | TIndex int
  | TConnectedTo "(string \<times> string) option"

type_synonym topo_iface = "topo_value obj"

definition topo_connectedTo :: "topo_iface \<Rightarrow> (string \<times> string) option" where
  "topo_connectedTo value =
     (case obj_get value ''connectedTo'' of Some (TConnectedTo c) \<Rightarrow> c | _ \<Rightarrow> None)"

text \<open>A statistics record: \<^verbatim>\<open>rx_mbps\<close>, \<^verbatim>\<open>tx_mbps\<close> and
  \<^verbatim>\<open>speed_mbps\<close>, each a number or null.\<close>

type_synonym stats = "jsnum option obj"

text \<open>\<^verbatim>\<open>data[key] != null\<close> picks the number: null and a missing key fail alike.\<close>

definition stat :: "stats \<Rightarrow> string \<Rightarrow> jsnum option" where
  "stat data key = (case obj_get data key of Some (Some x) \<Rightarrow> Some x | _ \<Rightarrow> None)"

record iface =
  parentDeviceFQDN :: string
  if_name :: string
  topologyData :: "topo_value obj"
  statisticsData :: "stats option"
  connectedToInterface :: "ifref option"
  if_status :: "bool option"
  if_lastUpdate :: real

definition new_Interface :: "string \<Rightarrow> string \<Rightarrow> iface" where
  "new_Interface name fqdn =
     \<lparr>parentDeviceFQDN = fqdn, if_name = name, topologyData = [], statisticsData = None,
      connectedToInterface = None, if_status = None, if_lastUpdate = 0\<rparr>"

definition Interface_destroy :: "iface \<Rightarrow> iface" where
  "Interface_destroy this = this"

definition Interface_updateTopologyData :: "topo_iface \<Rightarrow> iface \<Rightarrow> iface" where
  "Interface_updateTopologyData data this =
     fold (\<lambda>(key, value) this. this\<lparr>topologyData := obj_set key value (topologyData this)\<rparr>)
       (obj_entries data) this"

definition Interface_setStatus :: "real \<Rightarrow> bool \<Rightarrow> iface \<Rightarrow> iface" where
  "Interface_setStatus now state this = this\<lparr>if_lastUpdate := now, if_status := Some state\<rparr>"

definition Interface_updateStatistics :: "real \<Rightarrow> stats \<Rightarrow> iface \<Rightarrow> iface" where
  "Interface_updateStatistics now data this =
     this\<lparr>if_lastUpdate := now, statisticsData := Some data\<rparr>"

definition Interface_isStale :: "real \<Rightarrow> iface \<Rightarrow> bool" where
  "Interface_isStale now this = (if now - if_lastUpdate this > 60 then True else False)"

lemma Interface_isStale_iff: "Interface_isStale now i \<longleftrightarrow> if_lastUpdate i + 60 < now"
  by (auto simp: Interface_isStale_def)

text \<open>Merging topology data touches nothing else and keeps what the document does not mention.\<close>

lemma Interface_updateTopologyData_frame [simp]:
  "parentDeviceFQDN (Interface_updateTopologyData d i) = parentDeviceFQDN i"
  "if_name (Interface_updateTopologyData d i) = if_name i"
  "statisticsData (Interface_updateTopologyData d i) = statisticsData i"
  "connectedToInterface (Interface_updateTopologyData d i) = connectedToInterface i"
  "if_status (Interface_updateTopologyData d i) = if_status i"
  "if_lastUpdate (Interface_updateTopologyData d i) = if_lastUpdate i"
proof -
  have "parentDeviceFQDN (fold f xs i) = parentDeviceFQDN i \<and> if_name (fold f xs i) = if_name i
      \<and> statisticsData (fold f xs i) = statisticsData i
      \<and> connectedToInterface (fold f xs i) = connectedToInterface i
      \<and> if_status (fold f xs i) = if_status i \<and> if_lastUpdate (fold f xs i) = if_lastUpdate i"
    if "f = (\<lambda>(key, value) this. this\<lparr>topologyData := obj_set key value (topologyData this)\<rparr>)"
    for f and xs :: "(string \<times> topo_value) list" and i :: iface
    using that by (induction xs arbitrary: i) auto
  then show "parentDeviceFQDN (Interface_updateTopologyData d i) = parentDeviceFQDN i"
    "if_name (Interface_updateTopologyData d i) = if_name i"
    "statisticsData (Interface_updateTopologyData d i) = statisticsData i"
    "connectedToInterface (Interface_updateTopologyData d i) = connectedToInterface i"
    "if_status (Interface_updateTopologyData d i) = if_status i"
    "if_lastUpdate (Interface_updateTopologyData d i) = if_lastUpdate i"
    by (simp_all add: Interface_updateTopologyData_def)
qed

lemma Interface_updateTopologyData_get:
  assumes "obj_ok d"
  shows "obj_get (topologyData (Interface_updateTopologyData d i)) k
     = (case obj_get d k of Some v \<Rightarrow> Some v | None \<Rightarrow> obj_get (topologyData i) k)"
proof -
  have "obj_get (topologyData (fold f xs i)) k
      = (case obj_get (rev xs) k of Some v \<Rightarrow> Some v | None \<Rightarrow> obj_get (topologyData i) k)"
    if "f = (\<lambda>(key, value) this. this\<lparr>topologyData := obj_set key value (topologyData this)\<rparr>)"
    for f and xs :: "(string \<times> topo_value) list"
    using that
    by (induction xs rule: rev_induct) (auto simp: obj_get_def obj_set_def update_conv' split: option.splits)
  moreover have "obj_get (rev (obj_entries d)) k = obj_get d k"
  proof -
    have "obj_ok (rev (obj_entries d))" using assms obj_ok_entries by (auto simp: obj_ok_def rev_map [symmetric])
    then show ?thesis using assms
      by (metis obj_get_iff option.exhaust set_obj_entries set_rev)
  qed
  ultimately show ?thesis by (simp add: Interface_updateTopologyData_def)
qed

end
