(* ===== verification/Page.thy ===== *)
theory Page
  imports Util Scene Iface
begin

text \<open>
  What every component of the weathermap shares: the settings of \<^verbatim>\<open>js/config.dist.js\<close>,
  the flags of \<^verbatim>\<open>js/simulationglobals.js\<close>, the console, the store of interface
  objects, and the drawing objects (\<^verbatim>\<open>PIXI.Graphics\<close> and \<^verbatim>\<open>PIXI.Text\<close>)
  with the display tree they hang in.  A graphics object is the list of drawing commands
  since its last \<^verbatim>\<open>clear\<close>; rasterising them is left to the browser.
\<close>

section \<open>Settings\<close>

record config =
  prometheusQueryURL :: string
  jaspyNexusURL :: string
  deviceIconSize :: jsnum
  cfg_arrowWidth :: jsnum
  cfg_arrowLength :: jsnum
  linkGroupWidth :: jsnum
  cfg_springDistance :: jsnum
  speedFactorFactor :: jsnum

definition config_dist :: config where
  "config_dist = \<lparr>prometheusQueryURL = ''JASPY_PROMETHEUS_URL'', jaspyNexusURL = ''JASPY_NEXUS_URL'',
     deviceIconSize = 20, cfg_arrowWidth = 8, cfg_arrowLength = 16, linkGroupWidth = 8,
     cfg_springDistance = 64, speedFactorFactor = Fin (1 / 10)\<rparr>"

section \<open>Drawing objects\<close>

datatype draw =
    BeginFill jsnum jsnum
  | LineStyle jsnum jsnum
  | MoveTo jsnum jsnum
  | LineTo jsnum jsnum
  | DrawCircle jsnum jsnum jsnum
  | EndFill

record gobj =
  cmds :: "draw list"
  go_text :: string
  go_pos :: victor
  go_rotation :: jsnum
  go_alpha :: jsnum
  showLabel :: bool

definition new_gobj :: gobj where
  "new_gobj = \<lparr>cmds = [], go_text = [], go_pos = \<lparr>vx = 0, vy = 0\<rparr>, go_rotation = 0, go_alpha = 1,
     showLabel = False\<rparr>"

text \<open>The size of a rendered text is the browser's to say: a parameter of the drawing code.\<close>

record font =
  text_width :: "string \<Rightarrow> jsnum"
  text_height :: "string \<Rightarrow> jsnum"

section \<open>The page\<close>

record page =
  scene :: scene
  gobjs :: "oid \<Rightarrow> gobj"
  ifaces :: "ifref \<Rightarrow> iface"
  next_iface :: ifref
  requestGraphicsUpdate :: bool
  requestAnimationUpdate :: bool
  viewport_obj :: "oid option"
  positionUpdatesFrozen :: bool
  requestPIXIFrame :: bool
  animationUpdateRequested :: bool
  graphicsUpdateRequested :: bool
  console :: "string list"

text \<open>
  The page before the application starts.  The object literal has no
  \<^verbatim>\<open>animationUpdateRequested\<close> and \<^verbatim>\<open>graphicsUpdateRequested\<close>; reading them
  would give undefined, which is as false as False.
\<close>

definition simulationGlobals :: page where
  "simulationGlobals = \<lparr>scene = empty_scene, gobjs = (\<lambda>_. new_gobj),
     ifaces = (\<lambda>_. new_Interface [] []), next_iface = 0,
     requestGraphicsUpdate = False, requestAnimationUpdate = False, viewport_obj = None,
     positionUpdatesFrozen = False, requestPIXIFrame = False,
     animationUpdateRequested = False, graphicsUpdateRequested = False, console = []\<rparr>"

definition console_error :: "string \<Rightarrow> 'a page_scheme \<Rightarrow> 'a page_scheme" where
  "console_error msg w = w\<lparr>console := console w @ [msg]\<rparr>"

definition request_updates :: "'a page_scheme \<Rightarrow> 'a page_scheme" where
  "request_updates w = w\<lparr>requestGraphicsUpdate := True, requestAnimationUpdate := True\<rparr>"

definition alloc_iface :: "iface \<Rightarrow> 'a page_scheme \<Rightarrow> ifref \<times> 'a page_scheme" where
  "alloc_iface i w = (next_iface w,
     w\<lparr>ifaces := (ifaces w)(next_iface w := i), next_iface := Suc (next_iface w)\<rparr>)"

definition upd_iface :: "ifref \<Rightarrow> (iface \<Rightarrow> iface) \<Rightarrow> 'a page_scheme \<Rightarrow> 'a page_scheme" where
  "upd_iface r f w = w\<lparr>ifaces := (ifaces w)(r := f (ifaces w r))\<rparr>"

definition upd_gobj :: "oid \<Rightarrow> (gobj \<Rightarrow> gobj) \<Rightarrow> 'a page_scheme \<Rightarrow> 'a page_scheme" where
  "upd_gobj g f w = w\<lparr>gobjs := (gobjs w)(g := f (gobjs w g))\<rparr>"

definition upd_scene :: "(scene \<Rightarrow> scene) \<Rightarrow> 'a page_scheme \<Rightarrow> 'a page_scheme" where
  "upd_scene f w = w\<lparr>scene := f (scene w)\<rparr>"

text \<open>\<^verbatim>\<open>new PIXI.Graphics()\<close>, \<^verbatim>\<open>new PIXI.Text(text, style)\<close>,
  \<^verbatim>\<open>new PIXI.Container()\<close>.\<close>

definition new_drawing :: "string \<Rightarrow> 'a page_scheme \<Rightarrow> oid \<times> 'a page_scheme" where
  "new_drawing txt w = (let (g, sc) = new_object (scene w)
     in (g, w\<lparr>scene := sc, gobjs := (gobjs w)(g := new_gobj\<lparr>go_text := txt\<rparr>)\<rparr>))"

text \<open>The commands of \<^verbatim>\<open>PIXI.Graphics\<close> the code uses.\<close>

definition draw_clear :: "gobj \<Rightarrow> gobj" where
  "draw_clear o1 = o1\<lparr>cmds := []\<rparr>"

definition draw_cmds :: "draw list \<Rightarrow> gobj \<Rightarrow> gobj" where
  "draw_cmds cs o1 = o1\<lparr>cmds := cmds o1 @ cs\<rparr>"

text \<open>\<^verbatim>\<open>moveTo\<close> a first point, then \<^verbatim>\<open>lineTo\<close> each other one.\<close>

fun draw_path :: "victor list \<Rightarrow> draw list" where
  "draw_path [] = []"
| "draw_path (p # ps) = MoveTo (vx p) (vy p) # map (\<lambda>q. LineTo (vx q) (vy q)) ps"

section \<open>Lemmas\<close>

named_theorems page_simps \<open>reading the page after an update\<close>

lemma console_error_page [simp, page_simps]:
  "scene (console_error m w) = scene w" "ifaces (console_error m w) = ifaces w"
  "next_iface (console_error m w) = next_iface w" "gobjs (console_error m w) = gobjs w"
  "positionUpdatesFrozen (console_error m w) = positionUpdatesFrozen w"
  by (simp_all add: console_error_def)

lemma request_updates_page [simp, page_simps]:
  "scene (request_updates w) = scene w" "ifaces (request_updates w) = ifaces w"
  "next_iface (request_updates w) = next_iface w" "gobjs (request_updates w) = gobjs w"
  "requestGraphicsUpdate (request_updates w)" "requestAnimationUpdate (request_updates w)"
  "positionUpdatesFrozen (request_updates w) = positionUpdatesFrozen w"
  by (simp_all add: request_updates_def)

lemma upd_iface_page [simp, page_simps]:
  "scene (upd_iface r f w) = scene w" "next_iface (upd_iface r f w) = next_iface w"
  "gobjs (upd_iface r f w) = gobjs w"
  "ifaces (upd_iface r f w) = (ifaces w)(r := f (ifaces w r))"
  "positionUpdatesFrozen (upd_iface r f w) = positionUpdatesFrozen w"
  by (simp_all add: upd_iface_def)

lemma upd_gobj_page [simp, page_simps]:
  "scene (upd_gobj g h w) = scene w" "next_iface (upd_gobj g h w) = next_iface w"
  "ifaces (upd_gobj g h w) = ifaces w" "gobjs (upd_gobj g h w) = (gobjs w)(g := h (gobjs w g))"
  "positionUpdatesFrozen (upd_gobj g h w) = positionUpdatesFrozen w"
  by (simp_all add: upd_gobj_def)

lemma upd_scene_page [simp, page_simps]:
  "scene (upd_scene k w) = k (scene w)" "next_iface (upd_scene k w) = next_iface w"
  "ifaces (upd_scene k w) = ifaces w" "gobjs (upd_scene k w) = gobjs w"
  "positionUpdatesFrozen (upd_scene k w) = positionUpdatesFrozen w"
  by (simp_all add: upd_scene_def)

lemma new_drawing_page [simp, page_simps]:
  "fst (new_drawing t w) = next_oid (scene w)"
  "scene (snd (new_drawing t w)) = snd (new_object (scene w))"
  "next_iface (snd (new_drawing t w)) = next_iface w"
  "ifaces (snd (new_drawing t w)) = ifaces w"
  "positionUpdatesFrozen (snd (new_drawing t w)) = positionUpdatesFrozen w"
  by (simp_all add: new_drawing_def new_object_def)

end
