(* ===== verification/Effects.thy ===== *)
theory Effects
  imports Page
begin

text \<open>
  \<^verbatim>\<open>js/effects/focuseffect.js\<close> and \<^verbatim>\<open>js/effects/texteffect.js\<close>: the
  shrinking disc and the fading text a device carries.  Both follow one contract, the locale
  \<open>animation\<close>: each step brings them nearer to being finished.
\<close>

section \<open>The contract\<close>

locale animation =
  fixes step :: "'e \<Rightarrow> 'e" and finished :: "'e \<Rightarrow> bool" and rank :: "'e \<Rightarrow> nat" and runs :: "'e \<Rightarrow> bool"
  assumes step_runs: "runs e \<Longrightarrow> runs (step e)"
    and step_rank: "runs e \<Longrightarrow> \<not> finished e \<Longrightarrow> rank (step e) < rank e"
begin

lemma runs_funpow: "runs e \<Longrightarrow> runs ((step ^^ n) e)"
  by (induction n) (auto simp: step_runs)

lemma finishes: "runs e \<Longrightarrow> \<exists>n \<le> rank e. finished ((step ^^ n) e)"
proof (induction "rank e" arbitrary: e rule: less_induct)
  case less
  show ?case
  proof (cases "finished e")
    case True
    then show ?thesis by (intro exI [of _ 0]) simp
  next
    case False
    have lt: "rank (step e) < rank e" using less.prems False by (rule step_rank)
    then obtain n where "n \<le> rank (step e)" "finished ((step ^^ n) (step e))"
      using less.hyps [OF lt step_runs [OF less.prems]] by blast
    then show ?thesis using lt
      by (intro exI [of _ "Suc n"]) (simp add: funpow_Suc_right del: funpow.simps)
  qed
qed

end

section \<open>The shrinking disc\<close>

record focus_effect =
  fe_radius :: jsnum
  fe_color :: jsnum
  fe_attachedTo :: oid
  fe_graphicsDirty :: bool
  fe_graphicsObjectInfo :: "(oid \<times> oid) option"

definition new_FocusEffect :: "jsnum \<Rightarrow> jsnum \<Rightarrow> oid \<Rightarrow> focus_effect" where
  "new_FocusEffect radius color attachedTo =
     \<lparr>fe_radius = radius, fe_color = color, fe_attachedTo = attachedTo, fe_graphicsDirty = True,
      fe_graphicsObjectInfo = None\<rparr>"

definition FocusEffect_destroy :: "focus_effect \<Rightarrow> 'a page_scheme \<Rightarrow> 'a page_scheme" where
  "FocusEffect_destroy this w =
     (case fe_graphicsObjectInfo this of None \<Rightarrow> w
      | Some (ob, attachedTo) \<Rightarrow> upd_scene (removeChild attachedTo ob) w)"

definition FocusEffect_updateAnimation :: "focus_effect \<Rightarrow> focus_effect" where
  "FocusEffect_updateAnimation this =
     (let r = fe_radius this * Fin (95 / 100);
          r' = (if r < 1 then 0 else r)
      in this\<lparr>fe_radius := r', fe_graphicsDirty := True\<rparr>)"

definition FocusEffect_updateGraphics ::
  "focus_effect \<Rightarrow> 'a page_scheme \<Rightarrow> focus_effect \<times> 'a page_scheme" where
  "FocusEffect_updateGraphics this w =
     (let (info, w1) =
        (case fe_graphicsObjectInfo this of Some i \<Rightarrow> (i, w)
         | None \<Rightarrow> (let (g, w') = new_drawing [] w
             in ((g, fe_attachedTo this), upd_scene (addChild (fe_attachedTo this) g) w')));
        w2 = upd_gobj (fst info) (\<lambda>ob. draw_cmds
               [BeginFill (fe_color this) (Fin (25 / 100)), DrawCircle 0 0 (fe_radius this)]
               (draw_clear ob)) w1
      in (this\<lparr>fe_graphicsObjectInfo := Some info, fe_graphicsDirty := False\<rparr>, w2))"

definition FocusEffect_finished :: "focus_effect \<Rightarrow> bool" where
  "FocusEffect_finished this = (if fe_radius this \<le> 0 then True else False)"

lemma log_shrink: "1 < b \<Longrightarrow> 0 < r \<Longrightarrow> log b (r / b) = log b r - 1" for b r :: real
  by (simp add: log_divide)

lemma ceil_step: "0 < x \<Longrightarrow> nat \<lceil>max 0 (x - 1)\<rceil> < nat \<lceil>x\<rceil>" for x :: real
proof -
  assume x: "0 < x"
  then have "0 < \<lceil>x\<rceil>" by simp
  moreover have "\<lceil>x - 1\<rceil> = \<lceil>x\<rceil> - 1" by simp
  ultimately show ?thesis by (cases "x \<le> 1") (simp_all only: max_def, auto)
qed

text \<open>The number of steps a disc of finite radius still has.\<close>

definition focus_rank :: "focus_effect \<Rightarrow> nat" where
  "focus_rank e = (let r = the_fin (fe_radius e)
     in if r \<le> 0 then 0 else if r < 1 then 1 else Suc (Suc (nat \<lfloor>log (20 / 19) r\<rfloor>)))"

definition focus_runs :: "focus_effect \<Rightarrow> bool" where
  "focus_runs e \<longleftrightarrow> is_fin (fe_radius e)"

lemma focus_step:
  "fe_radius e = Fin r \<Longrightarrow>
   fe_radius (FocusEffect_updateAnimation e) = Fin (if 95 / 100 * r < 1 then 0 else 95 / 100 * r)"
  by (simp add: FocusEffect_updateAnimation_def Let_def mult.commute)

interpretation focus: animation FocusEffect_updateAnimation FocusEffect_finished focus_rank focus_runs
proof
  fix e assume runs: "focus_runs e"
  then obtain r where r: "fe_radius e = Fin r" by (auto simp: focus_runs_def elim: is_finE)
  show "focus_runs (FocusEffect_updateAnimation e)" by (simp add: focus_runs_def focus_step [OF r])
  assume "\<not> FocusEffect_finished e"
  then have pos: "0 < r" by (simp add: FocusEffect_finished_def r split: if_splits)
  show "focus_rank (FocusEffect_updateAnimation e) < focus_rank e"
  proof (cases "95 / 100 * r < 1")
    case True
    then show ?thesis using pos by (simp add: focus_rank_def focus_step [OF r] r Let_def)
  next
    case False
    then have big: "1 \<le> 95 / 100 * r" by simp
    have "log (20 / 19) (95 / 100 * r) = log (20 / 19) r - 1"
    proof -
      have eq: "95 / 100 * r = r / (20 / 19)" by simp
      show ?thesis unfolding eq using pos by (intro log_shrink) simp_all
    qed
    moreover have "0 \<le> log (20 / 19) (95 / 100 * r)" using big by simp
    ultimately have "nat \<lfloor>log (20 / 19) (95 / 100 * r)\<rfloor> < nat \<lfloor>log (20 / 19) r\<rfloor>" by linarith
    then show ?thesis using pos big by (simp add: focus_rank_def focus_step [OF r] r Let_def)
  qed
qed

section \<open>The fading text\<close>

record text_effect =
  te_offset :: victor
  te_text :: string
  te_color :: jsnum
  te_attachedTo :: oid
  te_graphicsDirty :: bool
  te_graphicsObjectInfo :: "(oid \<times> oid) option"
  te_alpha :: jsnum
  te_alphaRate :: jsnum

definition new_TextEffect ::
  "victor \<Rightarrow> string \<Rightarrow> jsnum \<Rightarrow> oid \<Rightarrow> jsnum option \<Rightarrow> text_effect" where
  "new_TextEffect offset txt color attachedTo alphaRate =
     \<lparr>te_offset = offset, te_text = txt, te_color = color, te_attachedTo = attachedTo,
      te_graphicsDirty = True, te_graphicsObjectInfo = None, te_alpha = 255,
      te_alphaRate = (case alphaRate of None \<Rightarrow> 1 | Some r \<Rightarrow> r)\<rparr>"

definition TextEffect_destroy :: "text_effect \<Rightarrow> 'a page_scheme \<Rightarrow> 'a page_scheme" where
  "TextEffect_destroy this w =
     (case te_graphicsObjectInfo this of None \<Rightarrow> w
      | Some (ob, attachedTo) \<Rightarrow> upd_scene (removeChild attachedTo ob) w)"

definition TextEffect_updateAnimation :: "text_effect \<Rightarrow> text_effect" where
  "TextEffect_updateAnimation this =
     (let this1 = (if te_alpha this > 0 then this\<lparr>te_alpha := te_alpha this - te_alphaRate this\<rparr> else this);
          this2 = (if te_alpha this1 < 0 then this1\<lparr>te_alpha := 0\<rparr> else this1)
      in this2\<lparr>te_graphicsDirty := True\<rparr>)"

definition TextEffect_updateGraphics ::
  "font \<Rightarrow> text_effect \<Rightarrow> 'a page_scheme \<Rightarrow> text_effect \<times> 'a page_scheme" where
  "TextEffect_updateGraphics font this w =
     (let (info, w1) =
        (case te_graphicsObjectInfo this of Some i \<Rightarrow> (i, w)
         | None \<Rightarrow>
            (let (g, w') = new_drawing (te_text this) w;
                 pos = \<lparr>vx = vx (te_offset this),
                        vy = vy (te_offset this) + text_height font (te_text this) / 2\<rparr>;
                 w'' = upd_gobj g (\<lambda>ob. ob\<lparr>go_pos := pos\<rparr>) w'
             in ((g, te_attachedTo this), upd_scene (addChild (te_attachedTo this) g) w'')));
        w2 = upd_gobj (fst info) (\<lambda>ob. ob\<lparr>go_alpha := te_alpha this / 255\<rparr>) w1
      in (this\<lparr>te_graphicsObjectInfo := Some info, te_graphicsDirty := False\<rparr>, w2))"

definition TextEffect_finished :: "text_effect \<Rightarrow> bool" where
  "TextEffect_finished this = (if te_alpha this \<le> 0 then True else False)"

definition text_rank :: "text_effect \<Rightarrow> nat" where
  "text_rank e = nat \<lceil>the_fin (te_alpha e) / the_fin (te_alphaRate e)\<rceil>"

definition text_runs :: "text_effect \<Rightarrow> bool" where
  "text_runs e \<longleftrightarrow> is_fin (te_alpha e) \<and> is_fin (te_alphaRate e) \<and> 0 < te_alphaRate e"

lemma text_step:
  assumes "te_alpha e = Fin a" and "te_alphaRate e = Fin k" and "0 < k"
  shows "te_alpha (TextEffect_updateAnimation e) = Fin (max 0 (a - k))"
    and "te_alphaRate (TextEffect_updateAnimation e) = Fin k"
  using assms by (auto simp: TextEffect_updateAnimation_def Let_def max_def)

interpretation fade: animation TextEffect_updateAnimation TextEffect_finished text_rank text_runs
proof
  fix e assume "text_runs e"
  then obtain a k where ak: "te_alpha e = Fin a" "te_alphaRate e = Fin k" "0 < k"
    by (auto simp: text_runs_def elim!: is_finE)
  note step = text_step [OF ak]
  show "text_runs (TextEffect_updateAnimation e)" using ak by (simp add: text_runs_def step)
  assume "\<not> TextEffect_finished e"
  then have pos: "0 < a / k" using ak by (simp add: TextEffect_finished_def split: if_splits)
  have "max 0 (a - k) / k = max 0 (a / k - 1)"
  proof (cases "a \<le> k")
    case True
    then have "a / k \<le> 1" using ak(3) by simp
    with True show ?thesis by (simp add: max_absorb1)
  next
    case False
    then have "1 \<le> a / k" using ak(3) by simp
    with False ak(3) show ?thesis by (simp add: max_absorb2 diff_divide_distrib)
  qed
  then have "text_rank (TextEffect_updateAnimation e) = nat \<lceil>max 0 (a / k - 1)\<rceil>"
    by (simp add: text_rank_def step)
  also have "\<dots> < nat \<lceil>a / k\<rceil>" using pos by (rule ceil_step)
  finally show "text_rank (TextEffect_updateAnimation e) < text_rank e"
    using ak by (simp add: text_rank_def)
qed

section \<open>Effects of either kind\<close>

text \<open>A device keeps both kinds in one array and calls the methods dynamically.\<close>

datatype effect = Focus focus_effect | Text text_effect

fun effect_destroy :: "effect \<Rightarrow> 'a page_scheme \<Rightarrow> 'a page_scheme" where
  "effect_destroy (Focus e) = FocusEffect_destroy e"
| "effect_destroy (Text e) = TextEffect_destroy e"

fun effect_updateAnimation :: "effect \<Rightarrow> effect" where
  "effect_updateAnimation (Focus e) = Focus (FocusEffect_updateAnimation e)"
| "effect_updateAnimation (Text e) = Text (TextEffect_updateAnimation e)"

fun effect_updateGraphics :: "font \<Rightarrow> effect \<Rightarrow> 'a page_scheme \<Rightarrow> effect \<times> 'a page_scheme" where
  "effect_updateGraphics font (Focus e) w = map_prod Focus id (FocusEffect_updateGraphics e w)"
| "effect_updateGraphics font (Text e) w = map_prod Text id (TextEffect_updateGraphics font e w)"

fun effect_finished :: "effect \<Rightarrow> bool" where
  "effect_finished (Focus e) = FocusEffect_finished e"
| "effect_finished (Text e) = TextEffect_finished e"

fun effect_rank :: "effect \<Rightarrow> nat" where
  "effect_rank (Focus e) = focus_rank e"
| "effect_rank (Text e) = text_rank e"

fun effect_runs :: "effect \<Rightarrow> bool" where
  "effect_runs (Focus e) = focus_runs e"
| "effect_runs (Text e) = text_runs e"

fun effect_gfx :: "effect \<Rightarrow> (oid \<times> oid) option" where
  "effect_gfx (Focus e) = fe_graphicsObjectInfo e"
| "effect_gfx (Text e) = te_graphicsObjectInfo e"

interpretation eff: animation effect_updateAnimation effect_finished effect_rank effect_runs
proof
  fix e assume runs: "effect_runs e"
  then show "effect_runs (effect_updateAnimation e)"
    by (cases e) (auto simp: focus.step_runs fade.step_runs)
  assume "\<not> effect_finished e"
  with runs show "effect_rank (effect_updateAnimation e) < effect_rank e"
    by (cases e) (auto simp: focus.step_rank fade.step_rank)
qed

lemma effect_destroy_gfx:
  "effect_destroy e w = (case effect_gfx e of None \<Rightarrow> w | Some (g, p) \<Rightarrow> upd_scene (removeChild p g) w)"
  by (cases e) (simp_all add: FocusEffect_destroy_def TextEffect_destroy_def)

end
