(* ===== verification/Link.thy ===== *)
theory Link
  imports Page
begin

text \<open>
  \<^verbatim>\<open>js/link.js\<close>: one cable, drawn as a strip coloured by its utilisation.  A link points
  at its source interface in the interface store; the interface at the other end is reached
  through \<^verbatim>\<open>connectedToInterface\<close>.  The measurements of a link come from its own end
  while they are fresh and from the other end otherwise.
\<close>

record link =
  remoteInterfaceName :: string
  lk_graphicsObjectInfo :: "(oid \<times> oid) option"
  lk_dirty :: bool
  sourceInterface :: ifref
  lk_label :: oid

definition new_Link :: "string \<Rightarrow> ifref \<Rightarrow> 'a page_scheme \<Rightarrow> link \<times> 'a page_scheme" where
  "new_Link remote source w =
     (let (l, w1) = new_drawing ''<loading>'' w
      in (\<lparr>remoteInterfaceName = remote, lk_graphicsObjectInfo = None, lk_dirty = False,
           sourceInterface = source, lk_label = l\<rparr>, w1))"

definition Link_destroy :: "link \<Rightarrow> 'a page_scheme \<Rightarrow> link \<times> 'a page_scheme" where
  "Link_destroy this w =
     (let w1 = upd_iface (sourceInterface this) (\<lambda>i. i\<lparr>connectedToInterface := None\<rparr>) w
      in case lk_graphicsObjectInfo this of None \<Rightarrow> (this, w1)
         | Some (ob, attachedTo) \<Rightarrow>
             (this\<lparr>lk_graphicsObjectInfo := None\<rparr>, upd_scene (removeChild attachedTo ob) w1))"

section \<open>Measurements\<close>

definition peer :: "link \<Rightarrow> 'a page_scheme \<Rightarrow> iface option" where
  "peer this w = map_option (ifaces w) (connectedToInterface (ifaces w (sourceInterface this)))"

definition Link_isUp :: "real \<Rightarrow> 'a page_scheme \<Rightarrow> link \<Rightarrow> bool" where
  "Link_isUp now w this =
     (let src = ifaces w (sourceInterface this)
      in if if_status src = None \<or> Interface_isStale now src
         then (case peer this w of
                 Some other \<Rightarrow> (case if_status other of Some st \<Rightarrow> st | None \<Rightarrow> False)
               | None \<Rightarrow> False)
         else the (if_status src))"

text \<open>\<^verbatim>\<open>this.sourceInterface.statisticsData && ...[key] != null\<close>, and the same for the
  other end.\<close>

definition own_stat :: "iface \<Rightarrow> string \<Rightarrow> jsnum option" where
  "own_stat i key = (case statisticsData i of None \<Rightarrow> None | Some d \<Rightarrow> stat d key)"

definition peer_stat :: "link \<Rightarrow> 'a page_scheme \<Rightarrow> string \<Rightarrow> jsnum option" where
  "peer_stat this w key = (case peer this w of None \<Rightarrow> None | Some other \<Rightarrow> own_stat other key)"

text \<open>\<^verbatim>\<open>statisticsData["speed_mbps"]\<close> as a divisor: null counts as 0, a missing key as NaN.\<close>

definition speed_divisor :: "iface \<Rightarrow> jsnum" where
  "speed_divisor i =
     (case statisticsData i of None \<Rightarrow> NaN
      | Some d \<Rightarrow> (case obj_get d ''speed_mbps'' of None \<Rightarrow> NaN | Some None \<Rightarrow> 0 | Some (Some s) \<Rightarrow> s))"

definition Link_getSpeed :: "real \<Rightarrow> 'a page_scheme \<Rightarrow> link \<Rightarrow> jsnum" where
  "Link_getSpeed now w this =
     (let src = ifaces w (sourceInterface this)
      in case own_stat src ''speed_mbps'' of
           Some s \<Rightarrow> if \<not> Interface_isStale now src then s
                     else (case peer_stat this w ''speed_mbps'' of Some s' \<Rightarrow> s' | None \<Rightarrow> 0)
         | None \<Rightarrow> (case peer_stat this w ''speed_mbps'' of Some s' \<Rightarrow> s' | None \<Rightarrow> 0))"

definition Link_getUtilization :: "real \<Rightarrow> 'a page_scheme \<Rightarrow> link \<Rightarrow> jsnum" where
  "Link_getUtilization now w this =
     (let src = ifaces w (sourceInterface this);
          other = (case (peer_stat this w ''rx_mbps'', peer_stat this w ''speed_mbps'') of
                     (Some rx, Some s) \<Rightarrow> rx / s | _ \<Rightarrow> 0)
      in case own_stat src ''tx_mbps'' of
           Some tx \<Rightarrow> if \<not> Interface_isStale now src then tx / speed_divisor src else other
         | None \<Rightarrow> other)"

definition Link_getUsage :: "real \<Rightarrow> 'a page_scheme \<Rightarrow> link \<Rightarrow> jsnum" where
  "Link_getUsage now w this =
     (let src = ifaces w (sourceInterface this);
          other = (case peer_stat this w ''rx_mbps'' of Some rx \<Rightarrow> rx | None \<Rightarrow> 0)
      in case own_stat src ''tx_mbps'' of
           Some tx \<Rightarrow> if \<not> Interface_isStale now src then tx else other
         | None \<Rightarrow> other)"

section \<open>Drawing\<close>

definition Link_color :: "real \<Rightarrow> 'a page_scheme \<Rightarrow> link \<Rightarrow> jsnum" where
  "Link_color now w this =
     (if Link_isUp now w this then getLinkColor (Link_getUtilization now w this) 1 else 16711935)"

definition Link_updateGraphics ::
  "real \<Rightarrow> oid \<Rightarrow> victor \<Rightarrow> victor \<Rightarrow> victor \<Rightarrow> victor \<Rightarrow> link \<Rightarrow> 'a page_scheme \<Rightarrow> link \<times> 'a page_scheme" where
  "Link_updateGraphics now viewport startPosition endPosition widthOffset1 widthOffset2 this w =
     (let (info, w1) =
        (case lk_graphicsObjectInfo this of Some i \<Rightarrow> (i, w)
         | None \<Rightarrow> (let (g, w') = new_drawing [] w
                    in ((g, viewport), upd_scene (addChild viewport g) w')));
        leftUpper = victor_add widthOffset1 (victor_clone startPosition);
        leftLower = victor_add widthOffset2 (victor_clone startPosition);
        rightUpper = victor_add widthOffset1 (victor_clone endPosition);
        rightLower = victor_add widthOffset2 (victor_clone endPosition);
        color = Link_color now w1 this;
        w2 = upd_gobj (fst info) (\<lambda>ob. draw_cmds
               ([BeginFill color 1, LineStyle 0 0]
                @ draw_path [leftUpper, leftLower, rightLower, rightUpper, leftUpper]) (draw_clear ob)) w1
      in (this\<lparr>lk_graphicsObjectInfo := Some info, lk_dirty := True\<rparr>, w2))"

section \<open>The label under the mouse\<close>

text \<open>
  The handlers \<^verbatim>\<open>bindLabel\<close> installs on the graphics object \<open>g\<close> of the link.
  \<open>toWorld\<close> is the viewport's coordinate change, \<open>pt\<close> the position of the mouse.
\<close>

definition Link_label_text :: "real \<Rightarrow> 'a page_scheme \<Rightarrow> link \<Rightarrow> exn + string" where
  "Link_label_text now w this =
     (case peer this w of
        None \<Rightarrow> Inl (TypeError ''connectedToInterface is null'')
      | Some other \<Rightarrow>
          let src = ifaces w (sourceInterface this)
          in Inr (hostnameFromFQDN (parentDeviceFQDN src) @ '' '' @ if_name src @ '' >> ''
               @ hostnameFromFQDN (parentDeviceFQDN other) @ '' '' @ if_name other @ [CHR 10]
               @ to_fixed2 (Link_getUsage now w this) @ '' Mbps''))"

definition Link_mousemove ::
  "real \<Rightarrow> (victor \<Rightarrow> victor) \<Rightarrow> oid \<Rightarrow> victor \<Rightarrow> link \<Rightarrow> 'a page_scheme \<Rightarrow> 'a page_scheme result" where
  "Link_mousemove now toWorld g pt this w =
     (if showLabel (gobjs w g)
      then let worldPoint = toWorld (pt\<lparr>vx := vx pt + 20\<rparr>);
               w1 = upd_gobj (lk_label this) (\<lambda>ob. ob\<lparr>go_pos := worldPoint\<rparr>) w
           in case Link_label_text now w1 this of
                Inl e \<Rightarrow> throw e w1
              | Inr txt \<Rightarrow> ok ((upd_gobj (lk_label this) (\<lambda>ob. ob\<lparr>go_text := txt\<rparr>) w1)
                               \<lparr>requestGraphicsUpdate := True\<rparr>)
      else ok w)"

definition Link_mouseout :: "oid \<Rightarrow> oid \<Rightarrow> link \<Rightarrow> 'a page_scheme \<Rightarrow> 'a page_scheme" where
  "Link_mouseout viewport g this w =
     (upd_scene (removeChild viewport (lk_label this)) (upd_gobj g (\<lambda>ob. ob\<lparr>showLabel := False\<rparr>) w))
       \<lparr>requestGraphicsUpdate := True\<rparr>"

definition Link_mouseover :: "oid \<Rightarrow> oid \<Rightarrow> link \<Rightarrow> 'a page_scheme \<Rightarrow> 'a page_scheme" where
  "Link_mouseover viewport g this w =
     upd_scene (addChild viewport (lk_label this)) (upd_gobj g (\<lambda>ob. ob\<lparr>showLabel := True\<rparr>) w)"

section \<open>Lemmas\<close>

lemma own_stat_cong: "statisticsData i = statisticsData j \<Longrightarrow> own_stat i k = own_stat j k"
  by (simp add: own_stat_def)

lemma Link_getUsage_own:
  "own_stat (ifaces w (sourceInterface l)) ''tx_mbps'' = Some tx \<Longrightarrow>
   \<not> Interface_isStale now (ifaces w (sourceInterface l)) \<Longrightarrow> Link_getUsage now w l = tx"
  by (simp add: Link_getUsage_def Let_def)

text \<open>A stale end counts for nothing: the measurements are functions of the other end.\<close>

lemma Link_stale_end:
  assumes "Interface_isStale now (ifaces w (sourceInterface l))"
  shows "Link_getUsage now w l = (case peer_stat l w ''rx_mbps'' of Some rx \<Rightarrow> rx | None \<Rightarrow> 0)"
    and "Link_getSpeed now w l = (case peer_stat l w ''speed_mbps'' of Some s \<Rightarrow> s | None \<Rightarrow> 0)"
    and "Link_getUtilization now w l = (case (peer_stat l w ''rx_mbps'', peer_stat l w ''speed_mbps'') of
           (Some rx, Some s) \<Rightarrow> rx / s | _ \<Rightarrow> 0)"
    and "Link_isUp now w l = (case peer l w of
           Some other \<Rightarrow> if_status other = Some True | None \<Rightarrow> False)"
  using assms
  by (auto simp: Link_getUsage_def Link_getSpeed_def Link_getUtilization_def Link_isUp_def Let_def
      split: option.splits)

text \<open>Rates that are finite and not negative, with a positive speed wherever there is a rate.\<close>

definition sane_stats :: "iface \<Rightarrow> bool" where
  "sane_stats i \<longleftrightarrow> (\<forall>k \<in> {''tx_mbps'', ''rx_mbps''}. \<forall>x. own_stat i k = Some x \<longrightarrow>
     (\<exists>r s. x = Fin r \<and> 0 \<le> r \<and> own_stat i ''speed_mbps'' = Some (Fin s) \<and> 0 < s))"

lemma sane_statsD:
  assumes "sane_stats i" and "k \<in> {''tx_mbps'', ''rx_mbps''}" and "own_stat i k = Some x"
  shows "\<exists>r s. x = Fin r \<and> 0 \<le> r \<and> own_stat i ''speed_mbps'' = Some (Fin s) \<and> 0 < s"
  using assms by (auto simp: sane_stats_def)

lemma speed_divisor_stat: "own_stat i ''speed_mbps'' = Some s \<Longrightarrow> speed_divisor i = s"
  by (auto simp: own_stat_def stat_def speed_divisor_def split: option.splits)

lemma sane_utilization:
  assumes "sane_stats (ifaces w (sourceInterface l))"
    and "\<And>other. peer l w = Some other \<Longrightarrow> sane_stats other"
  shows "\<exists>u. 0 \<le> u \<and> Link_getUtilization now w l = Fin u"
proof -
  have other: "\<exists>u. 0 \<le> u \<and> (case (peer_stat l w ''rx_mbps'', peer_stat l w ''speed_mbps'') of
      (Some rx, Some s) \<Rightarrow> rx / s | _ \<Rightarrow> 0) = Fin u"
  proof (cases "peer l w")
    case None
    then show ?thesis by (simp add: peer_stat_def)
  next
    case (Some i)
    show ?thesis
    proof (cases "own_stat i ''rx_mbps''")
      case None
      with Some show ?thesis by (simp add: peer_stat_def)
    next
      case (Some x)
      then obtain r s where "x = Fin r" "0 \<le> r" "own_stat i ''speed_mbps'' = Some (Fin s)" "0 < s"
        using sane_statsD [OF assms(2) [OF \<open>peer l w = Some i\<close>], of "''rx_mbps''" x] by auto
      with Some \<open>peer l w = Some i\<close> show ?thesis by (simp add: peer_stat_def)
    qed
  qed
  show ?thesis
  proof (cases "own_stat (ifaces w (sourceInterface l)) ''tx_mbps''")
    case None
    with other show ?thesis by (simp add: Link_getUtilization_def Let_def)
  next
    case (Some x)
    then obtain r s where xs: "x = Fin r" "0 \<le> r" "0 < s"
      and sp: "own_stat (ifaces w (sourceInterface l)) ''speed_mbps'' = Some (Fin s)"
      using sane_statsD [OF assms(1), of "''tx_mbps''" x] by auto
    show ?thesis
    proof (cases "Interface_isStale now (ifaces w (sourceInterface l))")
      case True
      with other show ?thesis by (simp add: Link_stale_end)
    next
      case False
      with Some xs show ?thesis
        by (simp add: Link_getUtilization_def Let_def speed_divisor_stat [OF sp])
    qed
  qed
qed

text \<open>Two connected interfaces, last heard of at time 0; the statistics are an argument.\<close>

definition example_stats :: stats where
  "example_stats = [(''tx_mbps'', Some (Fin 10)), (''rx_mbps'', Some (Fin 5)), (''speed_mbps'', Some (Fin 100))]"

definition example_iface :: "stats \<Rightarrow> ifref \<Rightarrow> string \<Rightarrow> iface" where
  "example_iface d r name = \<lparr>parentDeviceFQDN = ''sw.example.net'', if_name = name, topologyData = [],
     statisticsData = Some d, connectedToInterface = Some r, if_status = Some True, if_lastUpdate = 0\<rparr>"

definition example_page :: "stats \<Rightarrow> page" where
  "example_page d = simulationGlobals\<lparr>ifaces := (\<lambda>_. new_Interface [] [])
     (0 := example_iface d 1 ''eth0'', Suc 0 := example_iface d 0 ''eth1''), next_iface := 2\<rparr>"

definition example_link :: link where
  "example_link = \<lparr>remoteInterfaceName = ''eth1'', lk_graphicsObjectInfo = None, lk_dirty = False,
     sourceInterface = 0, lk_label = 0\<rparr>"

lemmas example_defs = example_link_def example_page_def example_iface_def example_stats_def
  Interface_isStale_def own_stat_def stat_def

lemma example_sane [simp]: "sane_stats (example_iface example_stats r n)"
  by (simp add: sane_stats_def example_defs obj_get_def)

lemma example_reads:
  "sourceInterface example_link = 0" "ifaces (example_page d) 0 = example_iface d 1 ''eth0''"
  "peer example_link (example_page d) = Some (example_iface d 0 ''eth1'')"
  by (simp_all add: peer_def example_defs)

section \<open>The link properties\<close>

text \<open>One end decides: while the source interface is fresh and has a status and complete
  statistics, nothing that happens to the peer changes what the link reports; once it is stale,
  nothing that is left in its status and statistics does.\<close>

lemma Link_one_end_decides:
  assumes "connectedToInterface (ifaces w (sourceInterface l)) = Some r" and "r \<noteq> sourceInterface l"
  shows "(\<not> Interface_isStale now (ifaces w (sourceInterface l))
        \<and> if_status (ifaces w (sourceInterface l)) \<noteq> None
        \<and> own_stat (ifaces w (sourceInterface l)) ''tx_mbps'' \<noteq> None
        \<and> own_stat (ifaces w (sourceInterface l)) ''speed_mbps'' \<noteq> None \<longrightarrow>
      Link_getUsage now (upd_iface r f w) l = Link_getUsage now w l
      \<and> Link_getSpeed now (upd_iface r f w) l = Link_getSpeed now w l
      \<and> Link_getUtilization now (upd_iface r f w) l = Link_getUtilization now w l
      \<and> Link_isUp now (upd_iface r f w) l = Link_isUp now w l
      \<and> Link_color now (upd_iface r f w) l = Link_color now w l)
    \<and> (Interface_isStale now (ifaces w (sourceInterface l)) \<longrightarrow>
      (let w' = upd_iface (sourceInterface l) (\<lambda>i. i\<lparr>if_status := st, statisticsData := d\<rparr>) w
       in Link_getUsage now w' l = Link_getUsage now w l
        \<and> Link_getSpeed now w' l = Link_getSpeed now w l
        \<and> Link_getUtilization now w' l = Link_getUtilization now w l
        \<and> Link_isUp now w' l = Link_isUp now w l
        \<and> Link_color now w' l = Link_color now w l))"
proof (intro conjI impI)
  let ?w = "upd_iface (sourceInterface l) (\<lambda>i. i\<lparr>if_status := st, statisticsData := d\<rparr>) w"
  assume stale: "Interface_isStale now (ifaces w (sourceInterface l))"
  then have stale': "Interface_isStale now (ifaces ?w (sourceInterface l))"
    by (simp add: Interface_isStale_def)
  have "peer l ?w = peer l w" using assms by (simp add: peer_def)
  then show "let w' = ?w in Link_getUsage now w' l = Link_getUsage now w l
        \<and> Link_getSpeed now w' l = Link_getSpeed now w l
        \<and> Link_getUtilization now w' l = Link_getUtilization now w l
        \<and> Link_isUp now w' l = Link_isUp now w l \<and> Link_color now w' l = Link_color now w l"
    by (simp add: Let_def Link_color_def Link_stale_end [OF stale] Link_stale_end [OF stale'] peer_stat_def)
qed (use assms in \<open>auto simp: Link_color_def Link_getUsage_def Link_getSpeed_def Link_getUtilization_def
    Link_isUp_def Let_def\<close>)


text \<open>With sane statistics at both ends (finite rates that are not negative, a positive speed
  wherever there is a rate), whatever is fresh or stale, a link is filled with a 24-bit colour:
  magenta when it is down, a point of the colour ramp when it is up.\<close>

lemma Link_color_24bit:
  assumes "sane_stats (ifaces w (sourceInterface l))"
    and "\<And>other. peer l w = Some other \<Longrightarrow> sane_stats other"
  shows "\<exists>n. Link_color now w l = Fin (real n) \<and> n < 2 ^ 24
     \<and> (if Link_isUp now w l then \<exists>u \<ge> 0. Link_getUtilization now w l = Fin u
            \<and> n = packed (ramp (4 * (1 - min u 1)))
        else n = 16711935)"
proof -
  obtain u where u: "0 \<le> u" "Link_getUtilization now w l = Fin u" using sane_utilization [OF assms] by blast
  show ?thesis
  proof (cases "Link_isUp now w l")
    case True
    with u ramp_color [OF u(1)] show ?thesis
      by (intro exI [of _ "packed (ramp (4 * (1 - min u 1)))"]) (auto simp: Link_color_def)
  next
    case False
    then show ?thesis by (intro exI [of _ 16711935]) (simp add: Link_color_def)
  qed
qed


text \<open>A fresh transmit rate whose speed is still null is divided by zero: a busy link counts as
  infinitely utilised and is drawn red, an idle one has a NaN utilisation and a NaN colour.\<close>

theorem Link_without_speed:
  assumes "\<not> Interface_isStale now (ifaces w (sourceInterface l))"
    and "if_status (ifaces w (sourceInterface l)) = Some True"
    and "statisticsData (ifaces w (sourceInterface l)) = Some d"
    and "obj_get d ''tx_mbps'' = Some (Some (Fin t))" and "obj_get d ''speed_mbps'' = Some None"
    and "0 \<le> t"
  shows "Link_getUtilization now w l = (if t = 0 then NaN else PInf)
    \<and> Link_color now w l = (if t = 0 then NaN else Fin 16711680)"
  using assms PInf_color NaN_color
  by (auto simp: Link_getUtilization_def Link_color_def Link_isUp_def own_stat_def stat_def speed_divisor_def)

theorem Link_without_speed_witness:
  "Link_color 30 (example_page [(''tx_mbps'', Some (Fin 10)), (''speed_mbps'', None)]) example_link = Fin 16711680"
  using Link_without_speed [of 30 "example_page [(''tx_mbps'', Some (Fin 10)), (''speed_mbps'', None)]" example_link
      "[(''tx_mbps'', Some (Fin 10)), (''speed_mbps'', None)]" 10]
  by (simp add: example_defs obj_get_def)

end
