(* ===== verification/LinkGroup.thy ===== *)
theory LinkGroup
  imports Link
begin

text \<open>
  \<^verbatim>\<open>js/linkgroup.js\<close>: all links from one device to one neighbour.  The group owns its
  links, keyed by the name of the remote interface; it draws an arrow half way to the neighbour
  and lays the links side by side along its width.
\<close>

record linkgroup =
  lg_name :: string
  lg_target :: string
  targetPosition :: victor
  groupedLinks :: "link obj"
  lg_graphicsObjectInfo :: "(oid \<times> oid) option"
  lg_position :: "victor option"
  lg_graphicsDirty :: bool
  lg_source :: string
  lg_label :: oid

definition new_LinkGroup :: "string \<Rightarrow> string \<Rightarrow> 'a page_scheme \<Rightarrow> linkgroup \<times> 'a page_scheme" where
  "new_LinkGroup source name w =
     (let (l, w1) = new_drawing ''<loading>'' w
      in (\<lparr>lg_name = name, lg_target = name, targetPosition = Victor 0 0, groupedLinks = [],
           lg_graphicsObjectInfo = None, lg_position = None, lg_graphicsDirty = False,
           lg_source = source, lg_label = l\<rparr>, w1))"

text \<open>One round of the loops that destroy a link and delete its key.\<close>

definition drop_link :: "string \<Rightarrow> linkgroup \<times> 'a page_scheme \<Rightarrow> linkgroup \<times> 'a page_scheme" where
  "drop_link key sw =
     (let (this, w) = sw
      in case obj_get (groupedLinks this) key of None \<Rightarrow> sw
         | Some l \<Rightarrow> (let (l', w1) = Link_destroy l w
                      in (this\<lparr>groupedLinks := obj_del key (groupedLinks this)\<rparr>, w1)))"

definition LinkGroup_destroy :: "linkgroup \<Rightarrow> 'a page_scheme \<Rightarrow> linkgroup \<times> 'a page_scheme" where
  "LinkGroup_destroy this w =
     (let (this1, w1) = fold (\<lambda>(key, value). drop_link key) (obj_entries (groupedLinks this)) (this, w)
      in case lg_graphicsObjectInfo this1 of None \<Rightarrow> (this1, w1)
         | Some (ob, attachedTo) \<Rightarrow>
             (this1\<lparr>lg_graphicsObjectInfo := None\<rparr>, upd_scene (removeChild attachedTo ob) w1))"

text \<open>
  The update for one neighbour: for each remote interface name, the name again (the field
  \<^verbatim>\<open>connectedTo.interface\<close>) and the local interface.
\<close>

type_synonym linkinfo = "string \<times> ifref"

definition add_link :: "string \<times> linkinfo \<Rightarrow> linkgroup \<times> 'a page_scheme \<Rightarrow> linkgroup \<times> 'a page_scheme" where
  "add_link kv sw =
     (let (key, (remote, local)) = kv; (this, w) = sw
      in if \<not> obj_has (groupedLinks this) key
         then (let (l, w1) = new_Link remote local w
               in (this\<lparr>groupedLinks := obj_set remote l (groupedLinks this), lg_graphicsDirty := True\<rparr>, w1))
         else sw)"

definition expire_link ::
  "linkinfo obj \<Rightarrow> string \<times> link \<Rightarrow> linkgroup \<times> 'a page_scheme \<Rightarrow> linkgroup \<times> 'a page_scheme" where
  "expire_link linkgroupInfo kv sw =
     (let (key, value) = kv
      in if \<not> obj_has linkgroupInfo key
         then (let (this, w) = drop_link key sw in (this\<lparr>lg_graphicsDirty := True\<rparr>, w))
         else sw)"

definition LinkGroup_updateTopologyData ::
  "linkinfo obj \<Rightarrow> linkgroup \<Rightarrow> 'a page_scheme \<Rightarrow> linkgroup \<times> 'a page_scheme" where
  "LinkGroup_updateTopologyData linkgroupInfo this w =
     (let (this1, w1) = fold add_link (obj_entries linkgroupInfo) (this, w)
      in fold (expire_link linkgroupInfo) (obj_entries (groupedLinks this1)) (this1, w1))"

text \<open>
  \<^verbatim>\<open>updateTargetInfo(targetDevice)\<close> reads the target's position and interface
  dictionary; a remote interface it does not have becomes undefined, here None.
\<close>

definition LinkGroup_updateTargetInfo ::
  "victor \<Rightarrow> ifref obj \<Rightarrow> linkgroup \<Rightarrow> 'a page_scheme \<Rightarrow> linkgroup \<times> 'a page_scheme" where
  "LinkGroup_updateTargetInfo target_position target_interfaces this w =
     (this\<lparr>targetPosition := target_position\<rparr>,
      fold (\<lambda>(key, value). upd_iface (sourceInterface value)
             (\<lambda>i. i\<lparr>connectedToInterface := obj_get target_interfaces (remoteInterfaceName value)\<rparr>))
        (obj_entries (groupedLinks this)) w)"

definition LinkGroup_interfacesUpdated :: "linkgroup \<Rightarrow> linkgroup" where
  "LinkGroup_interfacesUpdated this = this\<lparr>lg_graphicsDirty := True\<rparr>"

definition LinkGroup_totalUsage :: "real \<Rightarrow> 'a page_scheme \<Rightarrow> linkgroup \<Rightarrow> jsnum" where
  "LinkGroup_totalUsage now w this =
     fold (\<lambda>(key, value) usage. usage + Link_getUsage now w value) (obj_entries (groupedLinks this)) 0"

definition LinkGroup_totalSpeed :: "real \<Rightarrow> 'a page_scheme \<Rightarrow> linkgroup \<Rightarrow> jsnum" where
  "LinkGroup_totalSpeed now w this =
     fold (\<lambda>(key, value) speed. speed + Link_getSpeed now w value) (obj_entries (groupedLinks this)) 0"

definition LinkGroup_setPosition :: "victor \<Rightarrow> linkgroup \<Rightarrow> linkgroup" where
  "LinkGroup_setPosition pos this =
     (let pos1 = Victor (js_round (vx pos)) (js_round (vy pos))
      in case lg_position this of
           Some p \<Rightarrow> if js_eq (vx pos1) (vx p) \<and> js_eq (vy pos1) (vy p) then this
                     else this\<lparr>lg_position := Some pos1, lg_graphicsDirty := True\<rparr>
         | None \<Rightarrow> this\<lparr>lg_position := Some pos1, lg_graphicsDirty := True\<rparr>)"

section \<open>Drawing\<close>

text \<open>The sizes a redraw works with: the width of the group and of its arrow head.\<close>

definition speed_scale :: "config \<Rightarrow> jsnum \<Rightarrow> jsnum" where
  "speed_scale cfg tot =
     (let speedFactor = (if js_eq tot 0 \<or> \<not> truthy tot then 1000 else tot)
      in js_exp2 (js_log10 speedFactor) * speedFactorFactor cfg)"

definition group_sizes :: "config \<Rightarrow> bool \<Rightarrow> jsnum \<Rightarrow> jsnum \<times> jsnum \<times> jsnum" where
  "group_sizes cfg large speedFactor =
     (let arrowWidth = cfg_arrowWidth cfg * speedFactor;
          arrowLength = cfg_arrowLength cfg * speedFactor;
          width = linkGroupWidth cfg * speedFactor
      in if \<not> large then (let width' = width / 2 in (width' / 2, arrowLength / 2, width'))
         else (arrowWidth, arrowLength, width))"

text \<open>The two edges of the strip of link number \<open>n\<close>.\<close>

definition strip_offsets :: "victor \<Rightarrow> jsnum \<Rightarrow> jsnum \<Rightarrow> nat \<Rightarrow> victor \<times> victor" where
  "strip_offsets sides width widthPerLink n =
     (let k = Fin (real n) * widthPerLink;
          widthOffset1 = victor_add (victor_multiply (Victor k k) (victor_clone sides))
             (victor_multiply (Victor (width / Fin (- 2)) (width / Fin (- 2))) (victor_clone sides));
          widthOffset2 = victor_add (victor_multiply (Victor widthPerLink widthPerLink) (victor_clone sides))
             (victor_clone widthOffset1)
      in (widthOffset1, widthOffset2))"

text \<open>
  The loop over the links: every link is drawn between its edges, and the utilisation and the
  number of links that are up are accumulated.  The accumulator holds the group's links as
  updated, the page, the link number, the utilisation so far and the links up so far.
\<close>

definition draw_link ::
  "real \<Rightarrow> oid \<Rightarrow> victor \<Rightarrow> victor \<Rightarrow> victor \<Rightarrow> jsnum \<Rightarrow> jsnum \<Rightarrow> string \<times> link
   \<Rightarrow> link obj \<times> 'a page_scheme \<times> nat \<times> jsnum \<times> nat \<Rightarrow> link obj \<times> 'a page_scheme \<times> nat \<times> jsnum \<times> nat" where
  "draw_link now viewport startPos endPos sides width widthPerLink kv acc =
     (let (key, value) = kv; (links, w, linknum, utilTotal, linksUp) = acc;
          (o1, o2) = strip_offsets sides width widthPerLink linknum;
          (value', w') = Link_updateGraphics now viewport startPos endPos o1 o2 value w
      in (obj_set key value' links, w', Suc linknum, utilTotal + Link_getUtilization now w' value',
          if Link_isUp now w' value' then Suc linksUp else linksUp))"

definition arrow_cmds :: "jsnum \<Rightarrow> bool \<Rightarrow> victor \<Rightarrow> victor \<Rightarrow> jsnum \<Rightarrow> jsnum \<Rightarrow> draw list" where
  "arrow_cmds color up dir sides arrowWidth arrowLength =
     (let dirScaled = victor_multiply (Victor arrowLength arrowLength) (victor_clone dir);
          sidesScaled = victor_multiply (Victor arrowWidth arrowWidth) (victor_clone sides);
          half = victor_multiply (Victor (Fin (1 / 2)) (Fin (1 / 2))) (victor_clone dirScaled);
          arrowBackLeft = victor_subtract sidesScaled (victor_subtract dirScaled (Victor 0 0));
          arrowBackRight = victor_add sidesScaled (victor_subtract dirScaled (Victor 0 0));
          boxBackLeft = victor_subtract half (victor_subtract sidesScaled (Victor 0 0));
          boxBackRight = victor_subtract half (victor_add sidesScaled (Victor 0 0));
          startOffset = victor_subtract (victor_multiply (Victor 1 1) (victor_clone dir)) (Victor 0 0)
      in [BeginFill color 1, LineStyle 0 0]
         @ (if up then draw_path [startOffset, arrowBackLeft, arrowBackRight, startOffset]
            else draw_path [boxBackLeft, arrowBackLeft, arrowBackRight, boxBackRight, boxBackLeft])
         @ [EndFill])"

text \<open>The part of \<^verbatim>\<open>updateGraphics\<close> under \<^verbatim>\<open>if (this.graphicsDirty)\<close>.\<close>

definition LinkGroup_redraw ::
  "real \<Rightarrow> config \<Rightarrow> oid \<Rightarrow> victor \<Rightarrow> victor \<Rightarrow> victor \<Rightarrow> bool \<Rightarrow> oid \<Rightarrow> linkgroup \<Rightarrow> 'a page_scheme
   \<Rightarrow> linkgroup \<times> 'a page_scheme" where
  "LinkGroup_redraw now cfg viewport localCoord dir sides large g this w =
     (let speedFactor = speed_scale cfg (LinkGroup_totalSpeed now w this);
          (arrowWidth, arrowLength, width) = group_sizes cfg large speedFactor;
          pos = (case lg_position this of Some p \<Rightarrow> p | None \<Rightarrow> Victor 0 0);
          dirScaled = victor_multiply (Victor arrowLength arrowLength) (victor_clone dir);
          startOffset = victor_subtract (victor_multiply (Victor 1 1) (victor_clone dir)) (Victor 0 0);
          endPos = victor_add dir (victor_subtract dirScaled (victor_add startOffset (victor_clone pos)));
          numLinks = length (groupedLinks this);
          widthPerLink = width / Fin (real numLinks);
          (links, w1, linknum, utilTotal, linksUp) =
             fold (draw_link now viewport localCoord endPos sides width widthPerLink)
               (obj_entries (groupedLinks this)) (groupedLinks this, w, 0, 0, 0);
          avgUtil = utilTotal / Fin (real numLinks);
          color = (if linksUp = 0 then 16711935 else getLinkColor avgUtil 1);
          w2 = upd_gobj g (\<lambda>ob. (draw_cmds (arrow_cmds color (0 < linksUp) dir sides arrowWidth arrowLength)
                 (draw_clear ob))\<lparr>go_pos := pos\<rparr>) w1
      in (this\<lparr>groupedLinks := links, lg_graphicsDirty := False\<rparr>, w2))"

definition LinkGroup_updateGraphics ::
  "real \<Rightarrow> config \<Rightarrow> oid \<Rightarrow> victor \<Rightarrow> victor \<Rightarrow> bool \<Rightarrow> linkgroup \<Rightarrow> 'a page_scheme
   \<Rightarrow> linkgroup \<times> 'a page_scheme" where
  "LinkGroup_updateGraphics now cfg viewport localCoord remoteCoord large this w =
     (let (info, w1) =
        (case lg_graphicsObjectInfo this of Some i \<Rightarrow> (i, w)
         | None \<Rightarrow> (let (g, w') = new_drawing [] w
                    in ((g, viewport), upd_scene (addChild viewport g) w')));
          this1 = this\<lparr>lg_graphicsObjectInfo := Some info\<rparr>;
          midpoint = victor_multiply (Victor (Fin (1 / 2)) (Fin (1 / 2)))
             (victor_add remoteCoord (victor_multiply (Victor (Fin (- 1)) (Fin (- 1))) (victor_clone localCoord)));
          dir = victor_normalize (victor_clone midpoint);
          sides = victor_rotateDeg 90 (victor_clone dir);
          candidatePosition = victor_add midpoint (victor_clone localCoord);
          this2 = LinkGroup_setPosition candidatePosition this1
      in if lg_graphicsDirty this2
         then LinkGroup_redraw now cfg viewport localCoord dir sides large (fst info) this2 w1
         else (this2, w1))"

section \<open>The label under the mouse\<close>

definition LinkGroup_mousemove ::
  "real \<Rightarrow> (victor \<Rightarrow> victor) \<Rightarrow> oid \<Rightarrow> victor \<Rightarrow> linkgroup \<Rightarrow> 'a page_scheme \<Rightarrow> 'a page_scheme" where
  "LinkGroup_mousemove now toWorld g pt this w =
     (if showLabel (gobjs w g)
      then let worldPoint = toWorld (pt\<lparr>vx := vx pt + 20\<rparr>);
               txt = hostnameFromFQDN (lg_source this) @ '' >> '' @ hostnameFromFQDN (lg_target this)
                  @ [CHR 10] @ to_fixed2 (LinkGroup_totalUsage now w this) @ '' Mbps''
           in (upd_gobj (lg_label this) (\<lambda>ob. ob\<lparr>go_pos := worldPoint, go_text := txt\<rparr>) w)
                \<lparr>requestGraphicsUpdate := True\<rparr>
      else w)"

definition LinkGroup_mouseout :: "oid \<Rightarrow> oid \<Rightarrow> linkgroup \<Rightarrow> 'a page_scheme \<Rightarrow> 'a page_scheme" where
  "LinkGroup_mouseout viewport g this w =
     (upd_scene (removeChild viewport (lg_label this)) (upd_gobj g (\<lambda>ob. ob\<lparr>showLabel := False\<rparr>) w))
       \<lparr>requestGraphicsUpdate := True\<rparr>"

definition LinkGroup_mouseover :: "oid \<Rightarrow> oid \<Rightarrow> linkgroup \<Rightarrow> 'a page_scheme \<Rightarrow> 'a page_scheme" where
  "LinkGroup_mouseover viewport g this w =
     upd_scene (addChild viewport (lg_label this)) (upd_gobj g (\<lambda>ob. ob\<lparr>showLabel := True\<rparr>) w)"

section \<open>Lemmas\<close>

text \<open>A link as its constructor leaves it, and what the topology loops do to the dictionary.\<close>

abbreviation fresh_link :: "string \<Rightarrow> ifref \<Rightarrow> oid \<Rightarrow> link" where
  "fresh_link remote source l \<equiv> \<lparr>remoteInterfaceName = remote, lk_graphicsObjectInfo = None, lk_dirty = False,
     sourceInterface = source, lk_label = l\<rparr>"

definition linkinfo_ok :: "linkinfo obj \<Rightarrow> bool" where
  "linkinfo_ok info \<longleftrightarrow> obj_ok info \<and> (\<forall>(key, (remote, local)) \<in> set info. remote = key)"

lemma drop_link_effect:
  "groupedLinks (fst (drop_link k (g, w))) = (if obj_has (groupedLinks g) k then obj_del k (groupedLinks g) else groupedLinks g)"
  by (auto simp: drop_link_def obj_has_def split: option.splits prod.splits)

lemma add_link_get:
  "obj_get (groupedLinks (fst (add_link (key, (key, source)) (g, w)))) k =
     (if obj_get (groupedLinks g) key = None \<and> k = key then Some (fresh_link key source (next_oid (scene w)))
      else obj_get (groupedLinks g) k)"
  "obj_ok (groupedLinks g) \<Longrightarrow> obj_ok (groupedLinks (fst (add_link (key, (key, source)) (g, w))))"
  by (auto simp: add_link_def new_Link_def new_drawing_def new_object_def obj_has_def split: option.splits)

lemma add_links_keep:
  assumes "\<forall>(key, (remote, local)) \<in> set xs. remote = key"
  shows "obj_get (groupedLinks g) k = Some l \<Longrightarrow> obj_get (groupedLinks (fst (fold add_link xs (g, w)))) k = Some l"
    and "obj_get (groupedLinks g) k = None \<Longrightarrow> k \<notin> fst ` set xs \<Longrightarrow>
      obj_get (groupedLinks (fst (fold add_link xs (g, w)))) k = None"
    and "obj_ok (groupedLinks g) \<Longrightarrow> obj_ok (groupedLinks (fst (fold add_link xs (g, w))))"
proof -
  have shape: "\<exists>key source. x = (key, (key, source))" if "x \<in> set xs" for x
    using assms that by (cases x) auto
  show "obj_get (groupedLinks g) k = Some l \<Longrightarrow> obj_get (groupedLinks (fst (fold add_link xs (g, w)))) k = Some l"
    by (rule fold_invariant) (auto simp: add_link_get dest!: shape)
  show "obj_get (groupedLinks g) k = None \<Longrightarrow> k \<notin> fst ` set xs \<Longrightarrow>
      obj_get (groupedLinks (fst (fold add_link xs (g, w)))) k = None"
    by (rule fold_invariant, simp, frule shape, auto simp: add_link_get rev_image_eqI)
  show "obj_ok (groupedLinks g) \<Longrightarrow> obj_ok (groupedLinks (fst (fold add_link xs (g, w))))"
    by (rule fold_invariant) (auto simp: add_link_get dest!: shape)
qed

lemma add_links_new:
  assumes "\<forall>(key, (remote, local)) \<in> set xs. remote = key"
    and "obj_get (groupedLinks g) k = None" and "map_of xs k = Some (remote, source)"
  shows "\<exists>l. obj_get (groupedLinks (fst (fold add_link xs (g, w)))) k = Some (fresh_link k source l)"
  using assms
proof (induction xs arbitrary: g w)
  case (Cons x xs)
  obtain key src where x: "x = (key, (key, src))" using Cons.prems(1) by (cases x) auto
  obtain g' w' where g': "add_link x (g, w) = (g', w')" by fastforce
  show ?case
  proof (cases "k = key")
    case True
    then have "obj_get (groupedLinks g') k = Some (fresh_link k source (next_oid (scene w)))"
      using add_link_get(1) [of key src g w k] Cons.prems by (simp add: g' [unfolded x] x)
    then show ?thesis using Cons.prems(1) add_links_keep(1) [of xs g' k _ w'] by (auto simp: g')
  next
    case False
    then have "obj_get (groupedLinks g') k = None"
      using add_link_get(1) [of key src g w k] Cons.prems by (simp add: g' [unfolded x])
    then show ?thesis using Cons.IH [of g' w'] Cons.prems False by (simp add: g' x [symmetric]) (simp add: x)
  qed
qed simp

lemma expire_links:
  "(obj_get (groupedLinks (fst (fold (expire_link info) xs (g, w)))) k =
      (if k \<in> fst ` set xs \<and> \<not> obj_has info k then None else obj_get (groupedLinks g) k))
   \<and> (obj_ok (groupedLinks g) \<longrightarrow> obj_ok (groupedLinks (fst (fold (expire_link info) xs (g, w)))))"
proof (induction xs arbitrary: g w)
  case (Cons x xs)
  obtain key l where x: "x = (key, l)" by fastforce
  obtain g' w' where g': "expire_link info x (g, w) = (g', w')" by fastforce
  then have links: "groupedLinks g' = (if \<not> obj_has info key \<and> obj_has (groupedLinks g) key
      then obj_del key (groupedLinks g) else groupedLinks g)"
    using drop_link_effect [of key g w] by (auto simp: expire_link_def x split: prod.splits if_splits)
  then have "obj_get (groupedLinks g') k = (if k = key \<and> \<not> obj_has info k then None else obj_get (groupedLinks g) k)"
    by (auto simp: obj_has_def)
  moreover have "fold (expire_link info) (x # xs) (g, w) = fold (expire_link info) xs (g', w')" by (simp add: g')
  moreover have "obj_ok (groupedLinks g) \<Longrightarrow> obj_ok (groupedLinks g')" by (simp add: links)
  moreover have "fst ` set (x # xs) = insert key (fst ` set xs)" by (simp add: x)
  ultimately show ?case using Cons.IH [of g' w'] by auto
qed simp

section \<open>Topology of a group\<close>

lemma LinkGroup_topology_sync_aux:
  assumes "linkinfo_ok info" and "obj_ok (groupedLinks g)"
    and "LinkGroup_updateTopologyData info g w = (g', w')"
  shows "obj_keys (groupedLinks g') = obj_keys info \<and> obj_ok (groupedLinks g')
    \<and> (\<forall>k. obj_has info k \<longrightarrow> (case obj_get (groupedLinks g) k of
          Some l \<Rightarrow> obj_get (groupedLinks g') k = Some l
        | None \<Rightarrow> \<exists>r source l. obj_get info k = Some (r, source)
             \<and> obj_get (groupedLinks g') k = Some (fresh_link k source l)))"
proof -
  obtain g1 w1 where g1: "fold add_link (obj_entries info) (g, w) = (g1, w1)" by fastforce
  have info: "obj_ok info" "\<forall>(key, (remote, local)) \<in> set (obj_entries info). remote = key"
    using assms(1) by (auto simp: linkinfo_ok_def)
  have map: "map_of (obj_entries info) k = obj_get info k" for k
    using obj_get_entries [OF info(1), of k] by (simp add: obj_get_def)
  note add = add_links_keep(1) [OF info(2), of g _ _ w, unfolded g1 fst_conv]
    add_links_keep(2) [OF info(2), of g _ w, unfolded g1 fst_conv]
    add_links_keep(3) [OF info(2), of g w, unfolded g1 fst_conv]
    add_links_new [OF info(2), of g _ _ _ w, unfolded g1 fst_conv map]
  have ok1: "obj_ok (groupedLinks g1)" using add(3) assms(2) by blast
  have g'_def: "g' = fst (LinkGroup_updateTopologyData info g w)" using assms(3) by simp
  have get: "obj_get (groupedLinks g') k = (if obj_has info k then obj_get (groupedLinks g1) k else None)" for k
  proof -
    have "fst ` set (obj_entries (groupedLinks g1)) = obj_keys (groupedLinks g1)" by (simp add: obj_keys_def)
    then show ?thesis
      using expire_links [of info "obj_entries (groupedLinks g1)" g1 w1 k] obj_get_None_iff [of "groupedLinks g1" k]
      by (auto simp: g'_def LinkGroup_updateTopologyData_def g1)
  qed
  have case_k: "case obj_get (groupedLinks g) k of
          Some l \<Rightarrow> obj_get (groupedLinks g') k = Some l
        | None \<Rightarrow> \<exists>r source l. obj_get info k = Some (r, source)
             \<and> obj_get (groupedLinks g') k = Some (fresh_link k source l)" if "obj_has info k" for k
  proof (cases "obj_get (groupedLinks g) k")
    case None
    with that add(4) [of k] show ?thesis by (auto simp: get obj_has_def)
  next
    case (Some l)
    with add(1) [of k l] that show ?thesis by (simp add: get)
  qed
  have "obj_keys (groupedLinks g') = obj_keys info"
  proof (intro set_eqI)
    fix k
    have "obj_get (groupedLinks g') k \<noteq> None \<longleftrightarrow> obj_has info k"
      using case_k [of k] get [of k] by (cases "obj_get (groupedLinks g) k") (auto split: if_splits)
    then show "k \<in> obj_keys (groupedLinks g') \<longleftrightarrow> k \<in> obj_keys info"
      using obj_get_None_iff [of "groupedLinks g'" k] by (simp add: obj_has_iff)
  qed
  moreover have "obj_ok (groupedLinks g')"
    using expire_links [of info "obj_entries (groupedLinks g1)" g1 w1] ok1
    by (simp add: g'_def LinkGroup_updateTopologyData_def g1)
  ultimately show ?thesis using case_k by blast
qed

lemma LinkGroup_topology_keep:
  assumes "linkinfo_ok info" and "obj_ok (groupedLinks g)"
    and "LinkGroup_updateTopologyData info g w = (g', w')"
    and "obj_get (groupedLinks g) k = Some l" and "obj_has info k"
  shows "obj_get (groupedLinks g') k = Some l"
  using LinkGroup_topology_sync_aux [OF assms(1-3)] assms(4,5) by (auto split: option.splits)

text \<open>C32: After a topology update a group holds exactly the links of the document: one for every
  remote interface it names, the links it already had unchanged, the new ones pointing at the
  local interface of the document.\<close>

theorem LinkGroup_topology_sync:
  assumes "linkinfo_ok info" and "obj_ok (groupedLinks g)"
    and "LinkGroup_updateTopologyData info g w = (g', w')"
  shows "obj_keys (groupedLinks g') = obj_keys info \<and> obj_ok (groupedLinks g')
    \<and> (\<forall>k. obj_has info k \<longrightarrow> (case obj_get (groupedLinks g) k of
          Some l \<Rightarrow> obj_get (groupedLinks g') k = Some l
        | None \<Rightarrow> \<exists>r source l. obj_get info k = Some (r, source)
             \<and> obj_get (groupedLinks g') k = Some (fresh_link k source l)))"
  using LinkGroup_topology_sync_aux [OF assms] .

theorem LinkGroup_topology_sync_witness:
  "let (g, w) = new_LinkGroup ''sw1.net'' ''sw2.net'' simulationGlobals;
       (g', w') = LinkGroup_updateTopologyData [(''ge-0'', (''ge-0'', 4))] g w
   in obj_keys (groupedLinks g') = {''ge-0''}"
  using LinkGroup_topology_sync [of "[(''ge-0'', (''ge-0'', 4))]"
      "fst (new_LinkGroup ''sw1.net'' ''sw2.net'' simulationGlobals)" "snd (new_LinkGroup ''sw1.net'' ''sw2.net'' simulationGlobals)"]
  by (auto simp: linkinfo_ok_def obj_ok_def obj_keys_def new_LinkGroup_def split: prod.splits)

section \<open>The other end\<close>

definition link_source :: "string \<times> link \<Rightarrow> ifref" where
  "link_source kv = sourceInterface (snd kv)"

lemma set_peers:
  fixes h :: "link \<Rightarrow> iface \<Rightarrow> iface"
  shows "distinct (map link_source xs) \<Longrightarrow> (k, l) \<in> set xs \<Longrightarrow>
      ifaces (fold (\<lambda>(key, value). upd_iface (sourceInterface value) (h value)) xs w) (sourceInterface l)
        = h l (ifaces w (sourceInterface l))"
    and "r \<notin> link_source ` set xs \<Longrightarrow>
      ifaces (fold (\<lambda>(key, value). upd_iface (sourceInterface value) (h value)) xs w) r = ifaces w r"
    and "scene (fold (\<lambda>(key, value). upd_iface (sourceInterface value) (h value)) xs w) = scene w"
    and "next_iface (fold (\<lambda>(key, value). upd_iface (sourceInterface value) (h value)) xs w) = next_iface w"
proof -
  have other: "ifaces (fold (\<lambda>(key, value). upd_iface (sourceInterface value) (h value)) xs w) r = ifaces w r"
    if "r \<notin> link_source ` set xs" for r xs and w :: "'a page_scheme"
    using that by (induction xs arbitrary: w) (auto simp: link_source_def)
  then show "r \<notin> link_source ` set xs \<Longrightarrow>
      ifaces (fold (\<lambda>(key, value). upd_iface (sourceInterface value) (h value)) xs w) r = ifaces w r" .
  show "scene (fold (\<lambda>(key, value). upd_iface (sourceInterface value) (h value)) xs w) = scene w"
    "next_iface (fold (\<lambda>(key, value). upd_iface (sourceInterface value) (h value)) xs w) = next_iface w"
    by (induction xs arbitrary: w) auto
  show "distinct (map link_source xs) \<Longrightarrow> (k, l) \<in> set xs \<Longrightarrow>
      ifaces (fold (\<lambda>(key, value). upd_iface (sourceInterface value) (h value)) xs w) (sourceInterface l)
        = h l (ifaces w (sourceInterface l))"
  proof (induction xs arbitrary: w)
    case (Cons x xs)
    show ?case
    proof (cases "(k, l) = x")
      case True
      have "link_source x \<notin> link_source ` set xs" using Cons.prems(1) by simp
      then have "sourceInterface l \<notin> link_source ` set xs" by (simp add: True [symmetric] link_source_def)
      then show ?thesis by (simp add: True [symmetric] other)
    next
      case False
      then have mem: "(k, l) \<in> set xs" using Cons.prems(2) by simp
      then have "link_source (k, l) \<in> link_source ` set xs" by (rule imageI)
      moreover have "link_source x \<notin> link_source ` set xs" using Cons.prems(1) by simp
      moreover have "link_source (k, l) = sourceInterface l" by (simp add: link_source_def)
      ultimately have "sourceInterface l \<noteq> link_source x" by metis
      with mem show ?thesis using Cons.IH [of "upd_iface (link_source x) (h (snd x)) w"] Cons.prems(1)
        by (auto simp: case_prod_unfold link_source_def)
    qed
  qed simp
qed

text \<open>When the target of a group is known, the interface at this end of each of its links is
  connected to the target's interface of the link's remote name, or to nothing if the target has
  none; no other interface and nothing in the display tree changes.\<close>

lemma LinkGroup_updateTargetInfo_connects:
  assumes "obj_ok (groupedLinks g)" and "distinct (map link_source (groupedLinks g))"
    and "LinkGroup_updateTargetInfo pos targets g w = (g', w')"
  shows "targetPosition g' = pos \<and> groupedLinks g' = groupedLinks g \<and> scene w' = scene w
    \<and> (\<forall>k l. obj_get (groupedLinks g) k = Some l \<longrightarrow>
          ifaces w' (sourceInterface l) = (ifaces w (sourceInterface l))
            \<lparr>connectedToInterface := obj_get targets (remoteInterfaceName l)\<rparr>)
    \<and> (\<forall>r. r \<notin> link_source ` set (groupedLinks g) \<longrightarrow> ifaces w' r = ifaces w r)"
proof -
  let ?xs = "obj_entries (groupedLinks g)"
  define h :: "link \<Rightarrow> iface \<Rightarrow> iface" where "h l = (\<lambda>i::iface. i\<lparr>connectedToInterface := obj_get targets (remoteInterfaceName l)\<rparr>)" for l
  have d: "distinct (map link_source ?xs)" using assms(2) by (simp add: distinct_map_entries)
  have w': "g' = g\<lparr>targetPosition := pos\<rparr>" "w' = fold (\<lambda>(key, value). upd_iface (sourceInterface value) (h value)) ?xs w"
    using assms(3) by (simp_all add: LinkGroup_updateTargetInfo_def h_def)
  have "ifaces w' (sourceInterface l) = h l (ifaces w (sourceInterface l))" if "obj_get (groupedLinks g) k = Some l" for k l
    unfolding w' using set_peers(1) [OF d, of k l h w] that by (simp add: obj_getD)
  moreover have "ifaces w' r = ifaces w r" if "r \<notin> link_source ` set (groupedLinks g)" for r
    unfolding w' using set_peers(2) [of r ?xs h w] that by simp
  ultimately show ?thesis by (simp add: w' set_peers(3) h_def)
qed

definition example_group :: linkgroup where
  "example_group = (fst (new_LinkGroup ''sw1.net'' ''sw2.net'' simulationGlobals))
     \<lparr>groupedLinks := [(''eth1'', example_link)]\<rparr>"

lemma example_group_links [simp]: "groupedLinks example_group = [(''eth1'', example_link)]"
  by (simp add: example_group_def)


lemma example_entries: "obj_entries [(''eth1'', x)] = [(''eth1'', x)]"
proof -
  have "\<not> is_index ''eth1''" by code_simp
  then show ?thesis by (simp add: obj_entries_def)
qed

text \<open>A link whose cable moves to another local port keeps its old source interface: after the
  topology update and the connection of the peers, the link that the document now puts on
  \<open>source\<close> still reports the measurements of the old port, and the new port stays unconnected.\<close>

theorem LinkGroup_moved_cable:
  assumes "linkinfo_ok info" and "obj_ok (groupedLinks g)"
    and "obj_get (groupedLinks g) k = Some l" and "obj_get info k = Some (k, source)"
    and "source \<noteq> sourceInterface l"
    and "LinkGroup_updateTopologyData info g w = (g1, w1)"
    and "LinkGroup_updateTargetInfo pos targets g1 w1 = (g2, w2)"
    and "source \<notin> link_source ` set (groupedLinks g1)"
  shows "obj_get (groupedLinks g2) k = Some l \<and> sourceInterface l \<noteq> source
    \<and> ifaces w2 source = ifaces w1 source"
proof -
  have "obj_has info k" using assms(4) by (simp add: obj_has_def)
  have "obj_get (groupedLinks g1) k = Some l"
    using LinkGroup_topology_keep [OF assms(1,2,6,3) \<open>obj_has info k\<close>] .
  moreover have "groupedLinks g2 = groupedLinks g1"
    using assms(7) by (auto simp: LinkGroup_updateTargetInfo_def)
  moreover have "ifaces w2 source = ifaces w1 source"
  proof -
    have "w2 = fold (\<lambda>(key, value). upd_iface (sourceInterface value)
          (\<lambda>i. i\<lparr>connectedToInterface := obj_get targets (remoteInterfaceName value)\<rparr>)) (obj_entries (groupedLinks g1)) w1"
      using assms(7) by (auto simp: LinkGroup_updateTargetInfo_def)
    then show ?thesis using assms(8) by (simp add: set_peers(2))
  qed
  ultimately show ?thesis using assms(5) by simp
qed

theorem LinkGroup_moved_cable_witness:
  "let (g1, w1) = LinkGroup_updateTopologyData [(''eth1'', (''eth1'', 1))] example_group (example_page []);
       (g2, w2) = LinkGroup_updateTargetInfo (vec 1 2) [] g1 w1
   in obj_get (groupedLinks g2) ''eth1'' = Some example_link"
proof -
  have eq: "LinkGroup_updateTopologyData [(''eth1'', (''eth1'', 1))] example_group (example_page [])
      = (example_group, example_page [])"
    by (simp add: LinkGroup_updateTopologyData_def add_link_def expire_link_def obj_has_def obj_get_def example_entries)
  then show ?thesis
    using LinkGroup_moved_cable [of "[(''eth1'', (''eth1'', 1))]" example_group "''eth1''" example_link 1
        "example_page []" example_group "example_page []" "vec 1 2" "[]", OF _ _ _ _ _ eq]
    by (auto simp: linkinfo_ok_def obj_ok_def obj_get_def example_reads(1) link_source_def split: prod.split)
qed

section \<open>Totals and drawing\<close>

text \<open>The totals do not depend on the order in which the links are walked.\<close>

lemma total_fold: "fold (\<lambda>(key, value) acc. acc + f value) xs a = a + (\<Sum>(k, l) \<leftarrow> xs. f l)"
  for a :: jsnum
  by (induction xs arbitrary: a) (auto simp: ac_simps)

lemma sum_entries: "(\<Sum>(k, l) \<leftarrow> obj_entries d. f l) = (\<Sum>(k, l) \<leftarrow> d. f l)"
  for f :: "'b \<Rightarrow> 'c::comm_monoid_add"
  by (metis mset_map mset_obj_entries sum_mset_sum_list)

lemma LinkGroup_totals:
  "LinkGroup_totalUsage now w g = (\<Sum>(k, l) \<leftarrow> groupedLinks g. Link_getUsage now w l)"
  "LinkGroup_totalSpeed now w g = (\<Sum>(k, l) \<leftarrow> groupedLinks g. Link_getSpeed now w l)"
  by (simp_all only: LinkGroup_totalUsage_def LinkGroup_totalSpeed_def total_fold sum_entries add_0)

text \<open>The strips of the links of a group tile its width: along the unit vector across the
  link, the first strip starts at minus half the width, each strip ends where the next one starts, and
  the last one ends at half the width.\<close>

theorem strips_tile:
  assumes "0 < n"
  shows "fst (strip_offsets (vec a b) (Fin d) (Fin d / Fin (real n)) 0) = vec (a * (- d / 2)) (b * (- d / 2))
    \<and> snd (strip_offsets (vec a b) (Fin d) (Fin d / Fin (real n)) i)
        = fst (strip_offsets (vec a b) (Fin d) (Fin d / Fin (real n)) (Suc i))
    \<and> snd (strip_offsets (vec a b) (Fin d) (Fin d / Fin (real n)) (n - 1)) = vec (a * (d / 2)) (b * (d / 2))"
proof -
  have offs: "strip_offsets (vec a b) (Fin d) (Fin d / Fin (real n)) j
      = (vec (a * (j * d / n - d / 2)) (b * (j * d / n - d / 2)),
         vec (a * (real (Suc j) * d / n - d / 2)) (b * (real (Suc j) * d / n - d / 2)))" for j :: nat
    using assms by (simp add: strip_offsets_def Let_def victor_simps field_simps)
  have "real (Suc (n - 1)) * d / n - d / 2 = d / 2" using assms by simp
  then show ?thesis by (simp only: offs fst_conv snd_conv) simp
qed

theorem strips_tile_witness:
  "snd (strip_offsets (vec 0 1) 8 (8 / 2) 0) = fst (strip_offsets (vec 0 1) 8 (8 / 2) 1)"
  using strips_tile [of 2 0 1 8 0] by simp

lemma setPosition_Fin:
  "lg_position (LinkGroup_setPosition (vec x y) g) = Some (victor_unfloat (vec x y))"
  "lg_position g = Some (victor_unfloat (vec x y)) \<Longrightarrow> LinkGroup_setPosition (vec x y) g = g"
proof -
  show "lg_position (LinkGroup_setPosition (vec x y) g) = Some (victor_unfloat (vec x y))"
  proof (cases "lg_position g")
    case (Some p)
    then show ?thesis by (cases p) (auto simp: LinkGroup_setPosition_def Let_def victor_unfloat_def js_eq_def)
  qed (simp add: LinkGroup_setPosition_def Let_def victor_unfloat_def)
qed (simp add: LinkGroup_setPosition_def Let_def victor_unfloat_def)

lemma LinkGroup_redraw_fields [simp]:
  "lg_position (fst (LinkGroup_redraw now cfg vp lc dir sides large g this w)) = lg_position this"
  "lg_graphicsObjectInfo (fst (LinkGroup_redraw now cfg vp lc dir sides large g this w)) = lg_graphicsObjectInfo this"
  "\<not> lg_graphicsDirty (fst (LinkGroup_redraw now cfg vp lc dir sides large g this w))"
  by (simp_all add: LinkGroup_redraw_def Let_def split: prod.split)

lemma LinkGroup_setPosition_info [simp]:
  "lg_graphicsObjectInfo (LinkGroup_setPosition p g) = lg_graphicsObjectInfo g"
  by (simp add: LinkGroup_setPosition_def Let_def split: option.split)

text \<open>The arrow sits at the rounded middle of the two devices.\<close>

lemma LinkGroup_updateGraphics_state:
  assumes "LinkGroup_updateGraphics now cfg vp (vec a b) (vec c d) large g w = (g', w')"
  shows "lg_position g' = Some (victor_unfloat (vec ((a + c) / 2) ((b + d) / 2)))
    \<and> lg_graphicsObjectInfo g' \<noteq> None \<and> \<not> lg_graphicsDirty g'"
proof -
  have mid: "victor_add (victor_multiply (Victor (Fin (1 / 2)) (Fin (1 / 2)))
             (victor_add (vec c d) (victor_multiply (Victor (Fin (- 1)) (Fin (- 1))) (victor_clone (vec a b)))))
           (victor_clone (vec a b)) = vec ((a + c) / 2) ((b + d) / 2)"
    by (simp add: victor_simps field_simps)
  show ?thesis
    using assms unfolding LinkGroup_updateGraphics_def Let_def mid
    by (auto simp: setPosition_Fin prod_eq_iff split: prod.splits if_splits)
qed

text \<open>The two link groups between a pair of devices, each seen from its own end, put their arrows
  on the same point, the rounded middle, wherever the devices are and whatever they showed before.\<close>

theorem LinkGroup_arrows_meet:
  "lg_position (fst (LinkGroup_updateGraphics now cfg vp (vec a b) (vec c d) large g w))
     = Some (victor_unfloat (vec ((a + c) / 2) ((b + d) / 2)))
   \<and> lg_position (fst (LinkGroup_updateGraphics now' cfg' vp' (vec c d) (vec a b) large' g' w'))
     = lg_position (fst (LinkGroup_updateGraphics now cfg vp (vec a b) (vec c d) large g w))"
  using LinkGroup_updateGraphics_state [of now cfg vp a b c d large g w]
    LinkGroup_updateGraphics_state [of now' cfg' vp' c d a b large' g' w']
  by (metis add.commute prod.collapse)

text \<open>A drawn group draws nothing until something marks it dirty: drawing it again between
  devices that have not moved, at any later time and in either size, changes neither the group nor the page.\<close>

theorem LinkGroup_redraw_once:
  assumes "LinkGroup_updateGraphics now cfg vp (vec a b) (vec c d) large g w = (g', w')"
  shows "LinkGroup_updateGraphics now' cfg' vp' (vec a b) (vec c d) large' g' w' = (g', w')"
proof -
  have mid: "victor_add (victor_multiply (Victor (Fin (1 / 2)) (Fin (1 / 2)))
             (victor_add (vec c d) (victor_multiply (Victor (Fin (- 1)) (Fin (- 1))) (victor_clone (vec a b)))))
           (victor_clone (vec a b)) = vec ((a + c) / 2) ((b + d) / 2)"
    by (simp add: victor_simps field_simps)
  obtain info where g': "lg_position g' = Some (victor_unfloat (vec ((a + c) / 2) ((b + d) / 2)))"
    "lg_graphicsObjectInfo g' = Some info" "\<not> lg_graphicsDirty g'"
    using LinkGroup_updateGraphics_state [OF assms] by blast
  then have "g'\<lparr>lg_graphicsObjectInfo := Some info\<rparr> = g'" by (cases g') simp
  with g' show ?thesis
    unfolding LinkGroup_updateGraphics_def Let_def mid by (simp add: setPosition_Fin(2))
qed

theorem LinkGroup_redraw_once_witness:
  "let (g', w') = LinkGroup_updateGraphics 0 config_dist 0 (vec 0 0) (vec 4 4) True example_group (example_page [])
   in LinkGroup_updateGraphics 9 config_dist 0 (vec 0 0) (vec 4 4) False g' w' = (g', w')"
  using LinkGroup_redraw_once [of 0 config_dist 0 0 0 4 4 True example_group "example_page []"]
  by (auto split: prod.split)

section \<open>Drawing keeps the links\<close>

lemma draw_links_keys:
  "fst x \<in> obj_keys (fst acc) \<Longrightarrow> obj_keys (fst (draw_link now vp s e sides width wpl x acc)) = obj_keys (fst acc)
     \<and> (obj_ok (fst acc) \<longrightarrow> obj_ok (fst (draw_link now vp s e sides width wpl x acc)))"
  "fst ` set xs \<subseteq> obj_keys (fst acc) \<Longrightarrow>
     obj_keys (fst (fold (draw_link now vp s e sides width wpl) xs acc)) = obj_keys (fst acc)
     \<and> (obj_ok (fst acc) \<longrightarrow> obj_ok (fst (fold (draw_link now vp s e sides width wpl) xs acc)))"
proof -
  show step: "obj_keys (fst (draw_link now vp s e sides width wpl x acc)) = obj_keys (fst acc)
     \<and> (obj_ok (fst acc) \<longrightarrow> obj_ok (fst (draw_link now vp s e sides width wpl x acc)))"
    if "fst x \<in> obj_keys (fst acc)" for x and acc :: "link obj \<times> 'a page_scheme \<times> nat \<times> jsnum \<times> nat"
    using that by (auto simp: draw_link_def case_prod_unfold Let_def)
  show "fst ` set xs \<subseteq> obj_keys (fst acc) \<Longrightarrow>
     obj_keys (fst (fold (draw_link now vp s e sides width wpl) xs acc)) = obj_keys (fst acc)
     \<and> (obj_ok (fst acc) \<longrightarrow> obj_ok (fst (fold (draw_link now vp s e sides width wpl) xs acc)))"
    by (induction xs arbitrary: acc) (simp_all add: step)
qed

lemma LinkGroup_redraw_links:
  "obj_keys (groupedLinks (fst (LinkGroup_redraw now cfg vp lc dir sides large g this w))) = obj_keys (groupedLinks this)"
  "obj_ok (groupedLinks this) \<Longrightarrow> obj_ok (groupedLinks (fst (LinkGroup_redraw now cfg vp lc dir sides large g this w)))"
proof -
  have "fst ` set (obj_entries (groupedLinks this)) \<subseteq> obj_keys (groupedLinks this)"
    by (simp add: obj_keys_def)
  then have keys: "obj_keys (fst (fold (draw_link now vp s e sides width wpl) (obj_entries (groupedLinks this))
      (groupedLinks this, w, st))) = obj_keys (groupedLinks this)"
    "obj_ok (groupedLinks this) \<Longrightarrow> obj_ok (fst (fold (draw_link now vp s e sides width wpl) (obj_entries (groupedLinks this))
      (groupedLinks this, w, st)))" for vp s e sides width wpl st
    using draw_links_keys(2) [of "obj_entries (groupedLinks this)" "(groupedLinks this, w, st)"] by simp_all
  show "obj_keys (groupedLinks (fst (LinkGroup_redraw now cfg vp lc dir sides large g this w))) = obj_keys (groupedLinks this)"
    by (simp add: LinkGroup_redraw_def case_prod_unfold Let_def keys)
  show "obj_ok (groupedLinks this) \<Longrightarrow> obj_ok (groupedLinks (fst (LinkGroup_redraw now cfg vp lc dir sides large g this w)))"
    by (simp add: LinkGroup_redraw_def case_prod_unfold Let_def keys)
qed

lemma LinkGroup_setPosition_links [simp]: "groupedLinks (LinkGroup_setPosition p g) = groupedLinks g"
  by (simp add: LinkGroup_setPosition_def Let_def split: option.split)

lemma LinkGroup_updateGraphics_links:
  "obj_keys (groupedLinks (fst (LinkGroup_updateGraphics now cfg vp lc rc large this w))) = obj_keys (groupedLinks this)"
  "obj_ok (groupedLinks this) \<Longrightarrow> obj_ok (groupedLinks (fst (LinkGroup_updateGraphics now cfg vp lc rc large this w)))"
  by (simp_all add: LinkGroup_updateGraphics_def case_prod_unfold Let_def LinkGroup_redraw_links)

end
