(* ===== verification/Device.thy ===== *)
theory Device
  imports Effects LinkGroup
begin

text \<open>
  \<^verbatim>\<open>js/device.js\<close>: a switch or router on the map, with its interfaces, the link groups
  to its neighbours, its status, its position and animation, and the handlers of the mouse.
  Devices point at each other (\<^verbatim>\<open>neighborDevices\<close>), so device objects live in a store;
  a method that only touches its own device works on the pair of the device and the page, one
  that reads other devices works on the whole world.
\<close>

section \<open>State\<close>

type_synonym devref = nat

record device =
  fqdn :: string
  hostname :: string
  interfaces :: "ifref obj"
  linkGroups :: "linkgroup obj"
  d_graphicsObjectInfo :: "(oid \<times> oid) option"
  d_graphicsDirty :: bool
  d_status :: "bool option"
  dragInfo :: bool
  attachedEffects :: "effect list"
  d_position :: victor
  requestedPosition :: "victor option"
  d_lastUpdate :: real
  stale :: bool
  neighborDevices :: "devref list"
  superNode :: "bool option"
  superNodeByConfig :: bool
  expanded :: "bool option"
  expandedByDefault :: bool
  d_text :: "oid option"

text \<open>The body of the PUT request that stores a device's position.\<close>

record put_position =
  pp_deviceFqdn :: string
  pp_x :: jsnum
  pp_y :: jsnum
  pp_superNode :: bool
  pp_expandedByDefault :: bool

record world = page +
  devs :: "devref \<Rightarrow> device"
  next_dev :: devref
  outbox :: "put_position list"

definition upd_dev :: "devref \<Rightarrow> (device \<Rightarrow> device) \<Rightarrow> world \<Rightarrow> world" where
  "upd_dev r f w = w\<lparr>devs := (devs w)(r := f (devs w r))\<rparr>"

text \<open>Run a method of device \<open>r\<close> that works on the device and the page.\<close>

definition on_dev :: "devref \<Rightarrow> (device \<Rightarrow> world \<Rightarrow> device \<times> world) \<Rightarrow> world \<Rightarrow> world" where
  "on_dev r m w = (let (d, w') = m (devs w r) w in w'\<lparr>devs := (devs w')(r := d)\<rparr>)"

definition on_dev_x :: "devref \<Rightarrow> (device \<Rightarrow> world \<Rightarrow> (device \<times> world) result) \<Rightarrow> world \<Rightarrow> world result" where
  "on_dev_x r m w = (let ((d, w'), e) = m (devs w r) w in (w'\<lparr>devs := (devs w')(r := d)\<rparr>, e))"

section \<open>Construction and simple queries\<close>

definition Device_getPosition :: "device \<Rightarrow> victor" where
  "Device_getPosition this = d_position this"

definition Device_setPosition :: "victor \<Rightarrow> device \<Rightarrow> device" where
  "Device_setPosition pos this =
     (if js_eq (vx pos) (vx (d_position this)) \<and> js_eq (vy pos) (vy (d_position this)) then this
      else this\<lparr>d_position := pos, d_graphicsDirty := True\<rparr>)"

text \<open>The two calls of \<^verbatim>\<open>Math.random()\<close> are arguments.\<close>

definition new_Device :: "string \<Rightarrow> jsnum \<Rightarrow> jsnum \<Rightarrow> device" where
  "new_Device name rnd1 rnd2 =
     Device_setPosition (Victor (rnd1 * 1600) (rnd2 * 400))
       \<lparr>fqdn = name, hostname = hostnameFromFQDN name, interfaces = [], linkGroups = [],
        d_graphicsObjectInfo = None, d_graphicsDirty = False, d_status = None, dragInfo = False,
        attachedEffects = [], d_position = Victor 0 0, requestedPosition = None, d_lastUpdate = 0,
        stale = False, neighborDevices = [], superNode = None, superNodeByConfig = False,
        expanded = None, expandedByDefault = False, d_text = None\<rparr>"

text \<open>The world before the application starts: no device, nothing drawn.\<close>

definition world0 :: world where
  "world0 = page.extend simulationGlobals
     \<lparr>devs = (\<lambda>_. new_Device [] 0 0), next_dev = 0, outbox = []\<rparr>"

definition Device_isStale :: "device \<Rightarrow> bool" where
  "Device_isStale this = stale this"

definition Device_checkStale :: "real \<Rightarrow> device \<Rightarrow> device" where
  "Device_checkStale now this =
     (if now - d_lastUpdate this > 60
      then (if stale this = False
            then this\<lparr>d_status := None, d_graphicsDirty := True, stale := True\<rparr> else this)
      else this\<lparr>stale := False\<rparr>)"

definition Device_isExpanded :: "device \<Rightarrow> bool" where
  "Device_isExpanded this = (case expanded this of None \<Rightarrow> expandedByDefault this | Some b \<Rightarrow> b)"

definition Device_isSuperNode :: "device \<Rightarrow> bool" where
  "Device_isSuperNode this = (if superNodeByConfig this then True else superNode this = Some True)"

definition Device_isLargeIcon :: "world \<Rightarrow> devref \<Rightarrow> exn + bool" where
  "Device_isLargeIcon w this =
     (let d = devs w this;
          largeIcon = (Device_isExpanded d \<or> Device_isSuperNode d)
      in if \<not> Device_isSuperNode d
         then (case neighborDevices d of
                 [] \<Rightarrow> Inl (TypeError ''neighborDevices[0] is undefined'')
               | n # _ \<Rightarrow> Inr (if Device_isExpanded (devs w n) then True else largeIcon))
         else Inr largeIcon)"

section \<open>Topology\<close>

definition drop_interface :: "string \<Rightarrow> device \<times> 'a page_scheme \<Rightarrow> device \<times> 'a page_scheme" where
  "drop_interface key dw =
     (let (this, w) = dw
      in case obj_get (interfaces this) key of None \<Rightarrow> dw
         | Some r \<Rightarrow> (this\<lparr>interfaces := obj_del key (interfaces this)\<rparr>, upd_iface r Interface_destroy w))"

definition drop_linkgroup :: "string \<Rightarrow> device \<times> 'a page_scheme \<Rightarrow> device \<times> 'a page_scheme" where
  "drop_linkgroup key dw =
     (let (this, w) = dw
      in case obj_get (linkGroups this) key of None \<Rightarrow> dw
         | Some g \<Rightarrow> (this\<lparr>linkGroups := obj_del key (linkGroups this)\<rparr>, snd (LinkGroup_destroy g w)))"

definition Device_destroy :: "device \<Rightarrow> 'a page_scheme \<Rightarrow> device \<times> 'a page_scheme" where
  "Device_destroy this w =
     (let (this1, w1) = fold (\<lambda>(key, value). drop_interface key) (obj_entries (interfaces this)) (this, w);
          (this2, w2) = fold (\<lambda>(key, value). drop_linkgroup key) (obj_entries (linkGroups this1)) (this1, w1)
      in case d_graphicsObjectInfo this2 of None \<Rightarrow> (this2, w2)
         | Some (ob, attachedTo) \<Rightarrow>
             (this2\<lparr>d_graphicsObjectInfo := None\<rparr>, upd_scene (removeChild attachedTo ob) w2))"

text \<open>One interface of the topology document: create it if it is new, merge its data, and note
  its connection under the neighbour it leads to.\<close>

definition ensure_interface :: "string \<Rightarrow> device \<times> 'a page_scheme \<Rightarrow> device \<times> 'a page_scheme" where
  "ensure_interface key dw =
     (let (this, w) = dw
      in if \<not> obj_has (interfaces this) key
         then (let (r, w') = alloc_iface (new_Interface key (fqdn this)) w
               in (this\<lparr>interfaces := obj_set key r (interfaces this)\<rparr>, w'))
         else (this, w))"

definition ensure_linkgroup :: "string \<Rightarrow> device \<times> 'a page_scheme \<Rightarrow> device \<times> 'a page_scheme" where
  "ensure_linkgroup target dw =
     (let (this, w) = dw
      in if \<not> obj_has (linkGroups this) target
         then (let (g, w') = new_LinkGroup (fqdn this) target w
               in (this\<lparr>linkGroups := obj_set target g (linkGroups this)\<rparr>, w'))
         else (this, w))"

definition note_link :: "string \<Rightarrow> string \<Rightarrow> ifref \<Rightarrow> linkinfo obj obj \<Rightarrow> linkinfo obj obj" where
  "note_link target remote iface updates =
     (let updates1 = (if \<not> obj_has updates target then obj_set target [] updates else updates);
          inner = the (obj_get updates1 target)
      in obj_set target (obj_set remote (remote, iface) inner) updates1)"

definition topo_interface ::
  "string \<times> topo_iface \<Rightarrow> device \<times> linkinfo obj obj \<times> 'a page_scheme \<Rightarrow> device \<times> linkinfo obj obj \<times> 'a page_scheme" where
  "topo_interface kv st =
     (let (key, value) = kv; (this, updates, w) = st;
          (this1, w1) = ensure_interface key (this, w);
          iface = the (obj_get (interfaces this1) key);
          w2 = upd_iface iface (Interface_updateTopologyData value) w1
      in case topo_connectedTo value of
           None \<Rightarrow> (this1, updates, w2)
         | Some (target, remote) \<Rightarrow>
             (let (this2, w3) = ensure_linkgroup target (this1, w2)
              in (this2, note_link target remote iface updates, w3)))"

text \<open>One link group after the interfaces are known: it goes, or it takes its updates.\<close>

definition topo_linkgroup ::
  "linkinfo obj obj \<Rightarrow> string \<times> linkgroup \<Rightarrow> device \<times> 'a page_scheme \<Rightarrow> device \<times> 'a page_scheme" where
  "topo_linkgroup updates kv dw =
     (let (key, value) = kv; (this, w) = dw
      in case obj_get updates key of
           None \<Rightarrow> drop_linkgroup key (this, w)
         | Some info \<Rightarrow>
             (let (g, w') = LinkGroup_updateTopologyData info value w
              in (this\<lparr>linkGroups := obj_set key g (linkGroups this)\<rparr>, w')))"

definition expire_interface :: "topo_iface obj \<Rightarrow> string \<times> ifref \<Rightarrow> device \<times> 'a page_scheme \<Rightarrow> device \<times> 'a page_scheme" where
  "expire_interface data kv dw = (let (key, value) = kv in if \<not> obj_has data key then drop_interface key dw else dw)"

definition Device_updateTopologyData :: "topo_iface obj \<Rightarrow> device \<Rightarrow> 'a page_scheme \<Rightarrow> device \<times> 'a page_scheme" where
  "Device_updateTopologyData data this w =
     (let (this1, updates, w1) = fold topo_interface (obj_entries data) (this, [], w);
          (this2, w2) = fold (expire_interface data) (obj_entries (interfaces this1)) (this1, w1)
      in fold (topo_linkgroup updates) (obj_entries (linkGroups this2)) (this2, w2))"

text \<open>One link group against the devices on the map: skipped with a message if its target is
  not there, else a neighbour whose position and interfaces it takes over.\<close>

definition link_target ::
  "devref obj \<Rightarrow> devref \<Rightarrow> string \<times> linkgroup \<Rightarrow> devref list \<times> world \<Rightarrow> devref list \<times> world" where
  "link_target devices this kv st =
     (let (key, value) = kv; (nbrs, w) = st
      in case obj_get devices key of
           None \<Rightarrow> (nbrs, console_error (''device '' @ key @ '' referenced by linkgroup not in devices!?'') w)
         | Some r \<Rightarrow>
             (let (g, w1) = LinkGroup_updateTargetInfo (Device_getPosition (devs w r)) (interfaces (devs w r)) value w
              in (nbrs @ [r], upd_dev this (\<lambda>d. d\<lparr>linkGroups := obj_set key g (linkGroups d)\<rparr>) w1)))"

definition Device_updateLinkgroupData :: "devref obj \<Rightarrow> devref \<Rightarrow> world \<Rightarrow> world" where
  "Device_updateLinkgroupData devices this w =
     (let (newNeighborDeviceList, w1) =
        fold (link_target devices this) (obj_entries (linkGroups (devs w this))) ([], w)
      in upd_dev this (\<lambda>d. d\<lparr>neighborDevices := newNeighborDeviceList,
           superNode := Some (length newNeighborDeviceList > 1 \<or> length newNeighborDeviceList = 0)\<rparr>) w1)"

section \<open>Animation\<close>

definition superNodeAnimation :: "device \<Rightarrow> 'a page_scheme \<Rightarrow> device \<times> 'a page_scheme" where
  "superNodeAnimation this w =
     (case requestedPosition this of None \<Rightarrow> (this, w)
      | Some req \<Rightarrow>
         (let offset = victor_subtract (d_position this) (victor_clone req);
              this1 =
                (if victor_length offset < Fin (1 / 4)
                 then (Device_setPosition req this)\<lparr>requestedPosition := None\<rparr>
                 else let factoredOffset = victor_multiply (Victor (Fin (1 / 10)) (Fin (1 / 10))) (victor_clone offset)
                      in Device_setPosition (victor_add factoredOffset (victor_clone (d_position this))) this)
          in (this1, request_updates w)))"

text \<open>The pull of the spring towards the single neighbour.\<close>

definition spring_offset :: "jsnum \<Rightarrow> victor \<Rightarrow> victor \<Rightarrow> victor" where
  "spring_offset springDistance myPosition nbrPosition =
     (let dirvToNbr = victor_normalize (victor_subtract myPosition (victor_clone nbrPosition));
          springTarget = victor_subtract
             (victor_multiply (Victor springDistance springDistance) (victor_clone dirvToNbr))
             (victor_clone nbrPosition);
          dirvToSpringTarget = victor_subtract myPosition springTarget;
          smoothedOffset = victor_multiply (Victor (Fin (1 / 5)) (Fin (1 / 5))) (victor_clone dirvToSpringTarget)
      in if victor_length dirvToSpringTarget < 1 then victor_add dirvToSpringTarget (Victor 0 0)
         else victor_add smoothedOffset (Victor 0 0))"

text \<open>The push of one other neighbour of the cluster centre, and the sum over them.\<close>

definition repulsion :: "jsnum \<Rightarrow> victor \<Rightarrow> victor \<Rightarrow> victor \<Rightarrow> victor" where
  "repulsion springDistance selfDV selfPerp nbrDV =
     (let invNbrDV = victor_invert (victor_clone nbrDV);
          angle = js_acos (victor_dot invNbrDV (victor_clone selfDV))
                * js_sign (victor_cross selfDV (victor_clone invNbrDV));
          angleFactor = - angle * (springDistance / 20) * Fin (1 / 2)
      in victor_multiply (Victor angleFactor angleFactor) (victor_clone selfPerp))"

definition repulsion_sum :: "jsnum \<Rightarrow> victor \<Rightarrow> victor \<Rightarrow> victor list \<Rightarrow> victor" where
  "repulsion_sum springDistance myPosition center others =
     (let selfDV = victor_normalize (victor_subtract center (victor_clone myPosition));
          selfPerp = victor_rotateDeg 90 (victor_clone selfDV)
      in fold (\<lambda>nbrNbr forceOffset.
             victor_add (repulsion springDistance selfDV selfPerp
               (victor_normalize (victor_subtract center (victor_clone nbrNbr)))) forceOffset)
           others (Victor 0 0))"

definition edgeNodeAnimation :: "config \<Rightarrow> devref \<Rightarrow> world \<Rightarrow> world result" where
  "edgeNodeAnimation cfg this w =
     (let d = devs w this
      in case neighborDevices d of
           [nbr] \<Rightarrow>
             if dragInfo d then ok w
             else (case Device_isLargeIcon w this of Inl e \<Rightarrow> throw e w
               | Inr large \<Rightarrow>
                  (let myPosition = victor_clone (Device_getPosition d);
                       springDistance = (if large then cfg_springDistance cfg * 3 else cfg_springDistance cfg);
                       center = Device_getPosition (devs w nbr);
                       others = map (\<lambda>r. Device_getPosition (devs w r))
                                  (filter (\<lambda>r. r \<noteq> this) (neighborDevices (devs w nbr)));
                       offsetVector = victor_add
                          (repulsion_sum springDistance (Device_getPosition d) center others)
                          (spring_offset springDistance myPosition center);
                       w1 = (if victor_length offsetVector > Fin (1 / 10) then request_updates w else w)
                   in ok (upd_dev this (Device_setPosition (victor_add offsetVector (victor_clone myPosition))) w1)))
         | _ \<Rightarrow> ok w)"

definition animate_effect :: "effect \<Rightarrow> effect list \<times> 'a page_scheme \<Rightarrow> effect list \<times> 'a page_scheme" where
  "animate_effect e st =
     (let (activeEffects, w) = st
      in if \<not> effect_finished e
         then (activeEffects @ [effect_updateAnimation e], request_updates w)
         else (activeEffects, effect_destroy e w))"

definition effectAnimation :: "device \<Rightarrow> 'a page_scheme \<Rightarrow> device \<times> 'a page_scheme" where
  "effectAnimation this w =
     (let (activeEffects, w1) = fold animate_effect (attachedEffects this) ([], w)
      in (this\<lparr>attachedEffects := activeEffects\<rparr>, w1))"

definition Device_updateAnimation :: "config \<Rightarrow> devref \<Rightarrow> world \<Rightarrow> world result" where
  "Device_updateAnimation cfg this w =
     (let w1 = on_dev this effectAnimation w
      in if Device_isSuperNode (devs w1 this) then ok (on_dev this superNodeAnimation w1)
         else edgeNodeAnimation cfg this w1)"

section \<open>Drawing\<close>

definition text_upright :: "config \<Rightarrow> font \<Rightarrow> string \<Rightarrow> gobj \<Rightarrow> gobj" where
  "text_upright cfg font txt t = t\<lparr>go_rotation := 0,
     go_pos := \<lparr>vx = - js_round (text_width font txt / 2), vy = - (deviceIconSize cfg + 10)\<rparr>\<rparr>"

text \<open>The label of a device that hangs off one neighbour is turned away from that neighbour.\<close>

definition text_turned :: "config \<Rightarrow> font \<Rightarrow> string \<Rightarrow> bool \<Rightarrow> victor \<Rightarrow> victor \<Rightarrow> gobj \<Rightarrow> gobj" where
  "text_turned cfg font txt largeIcon self nbr t =
     (let dv = victor_normalize (victor_subtract nbr (victor_clone self));
          perp = victor_normalize (victor_rotateDeg 90 (victor_clone dv));
          horAngle = victor_horizontalAngle dv;
          offset = (if \<not> largeIcon then deviceIconSize cfg / 4 else deviceIconSize cfg)
      in if js_abs horAngle > Fin (pi / 2)
         then t\<lparr>go_pos :=
                \<lparr>vx = vx dv * (offset + text_width font txt) + vx perp * text_height font txt / 2,
                 vy = vy dv * (offset + text_width font txt) + vy perp * text_height font txt / 2\<rparr>,
                go_rotation := horAngle + Fin pi\<rparr>
         else t\<lparr>go_pos :=
                \<lparr>vx = vx dv * offset - vx perp * text_height font txt / 2,
                 vy = vy dv * offset - vy perp * text_height font txt / 2\<rparr>,
                go_rotation := horAngle\<rparr>)"

definition status_color :: "bool option \<Rightarrow> jsnum" where
  "status_color st = (case st of Some True \<Rightarrow> 43520 | Some False \<Rightarrow> 16711680 | None \<Rightarrow> 16776960)"

definition icon_cmds :: "config \<Rightarrow> bool \<Rightarrow> bool option \<Rightarrow> draw list" where
  "icon_cmds cfg largeIcon st =
     (let radius0 = deviceIconSize cfg / 2;
          radius = (if \<not> largeIcon then radius0 / 4 else radius0);
          lineWidth = (if \<not> largeIcon then 0 else 2);
          p = (\<lambda>x y. \<lparr>vx = x, vy = y\<rparr>)
      in [BeginFill (status_color st) 1, LineStyle lineWidth 7829367]
         @ draw_path [p (- radius) (- radius), p (- radius) radius, p radius radius, p radius (- radius),
                      p (- radius) (- radius)]
         @ [EndFill])"

text \<open>The first call creates the icon, arms its mouse events and hangs the host name under it.\<close>

definition create_icon :: "oid \<Rightarrow> config \<Rightarrow> font \<Rightarrow> device \<Rightarrow> 'a page_scheme \<Rightarrow> device \<times> 'a page_scheme" where
  "create_icon deviceLayer cfg font this w =
     (case d_graphicsObjectInfo this of Some _ \<Rightarrow> (this, w)
      | None \<Rightarrow>
         (let (g, w1) = new_drawing [] w;
              w2 = upd_scene (addChild deviceLayer g) w1;
              (t, w3) = new_drawing (hostname this) w2;
              w4 = upd_gobj t (\<lambda>ob. ob\<lparr>go_pos :=
                     \<lparr>vx = vx (go_pos ob) - js_round (text_width font (hostname this) / 2),
                      vy = vy (go_pos ob) - (deviceIconSize cfg + 10)\<rparr>\<rparr>) w3
          in (this\<lparr>d_graphicsObjectInfo := Some (g, deviceLayer), d_text := Some t\<rparr>,
              upd_scene (addChild g t) w4)))"

definition draw_effect :: "font \<Rightarrow> effect \<Rightarrow> effect list \<times> 'a page_scheme \<Rightarrow> effect list \<times> 'a page_scheme" where
  "draw_effect font e st = (let (es, w) = st; (e', w') = effect_updateGraphics font e w in (es @ [e'], w'))"

definition draw_icon :: "config \<Rightarrow> bool \<Rightarrow> device \<Rightarrow> 'a page_scheme \<Rightarrow> device \<times> 'a page_scheme" where
  "draw_icon cfg largeIcon this w =
     (if d_graphicsDirty this
      then (case d_graphicsObjectInfo this of None \<Rightarrow> (this, w)
        | Some (g, p) \<Rightarrow>
           (this\<lparr>d_graphicsDirty := False\<rparr>,
            upd_gobj g (\<lambda>ob. (draw_cmds (icon_cmds cfg largeIcon (d_status this)) (draw_clear ob))
               \<lparr>go_pos := d_position this\<rparr>) w))
      else (this, w))"

definition draw_linkgroup ::
  "real \<Rightarrow> config \<Rightarrow> oid \<Rightarrow> devref obj \<Rightarrow> bool \<Rightarrow> devref \<Rightarrow> string \<times> linkgroup \<Rightarrow> world \<Rightarrow> world result" where
  "draw_linkgroup now cfg linkLayer devices largeIcon this kv w =
     (let (key, value) = kv
      in case obj_get devices key of
           None \<Rightarrow> throw (TypeError ''devices[key] is undefined'') w
         | Some r \<Rightarrow>
             (let localCoord = Device_getPosition (devs w this);
                  remoteCoord = victor_clone (Device_getPosition (devs w r))
              in case (if largeIcon then Device_isLargeIcon w r else Inr False) of
                   Inl e \<Rightarrow> throw e w
                 | Inr largeLink \<Rightarrow>
                     (let (g, w1) = LinkGroup_updateGraphics now cfg linkLayer localCoord remoteCoord largeLink value w
                      in ok (upd_dev this (\<lambda>d. d\<lparr>linkGroups := obj_set key g (linkGroups d)\<rparr>) w1))))"

definition draw_effects :: "font \<Rightarrow> device \<Rightarrow> 'a page_scheme \<Rightarrow> device \<times> 'a page_scheme" where
  "draw_effects font this w = (let (es, w') = fold (draw_effect font) (attachedEffects this) ([], w)
     in (this\<lparr>attachedEffects := es\<rparr>, w'))"

text \<open>How the label is placed: turned away from the first neighbour, or upright under a large icon.\<close>

definition place_label :: "config \<Rightarrow> font \<Rightarrow> bool \<Rightarrow> devref \<Rightarrow> world \<Rightarrow> exn + (gobj \<Rightarrow> gobj)" where
  "place_label cfg font largeIcon this w =
     (let d = devs w this
      in if \<not> largeIcon \<or> \<not> Device_isSuperNode d
         then (case neighborDevices d of
                 [] \<Rightarrow> Inl (TypeError ''neighborDevices[0] is undefined'')
               | n # _ \<Rightarrow> Inr (text_turned cfg font (hostname d) largeIcon
                     (Device_getPosition d) (Device_getPosition (devs w n))))
         else Inr (text_upright cfg font (hostname d)))"

definition Device_updateGraphics ::
  "real \<Rightarrow> config \<Rightarrow> font \<Rightarrow> oid \<Rightarrow> oid \<Rightarrow> devref obj \<Rightarrow> devref \<Rightarrow> world \<Rightarrow> world result" where
  "Device_updateGraphics now cfg font linkLayer deviceLayer devices this w =
     (case Device_isLargeIcon w this of
        Inl e \<Rightarrow> throw e w
      | Inr largeIcon \<Rightarrow>
         (let w1 = on_dev this (create_icon deviceLayer cfg font) w
          in case place_label cfg font largeIcon this w1 of
               Inl e \<Rightarrow> throw e w1
             | Inr f \<Rightarrow>
                (let w2 = (case d_text (devs w1 this) of Some t \<Rightarrow> upd_gobj t f w1 | None \<Rightarrow> w1);
                     w3 = on_dev this (draw_effects font) w2;
                     w4 = on_dev this (draw_icon cfg largeIcon) w3
                 in for_x (draw_linkgroup now cfg linkLayer devices largeIcon this)
                      (obj_entries (linkGroups (devs w4 this))) w4)))"

section \<open>Status and statistics\<close>

text \<open>The size of the screen, as the viewport knows it.\<close>

type_synonym screen = "jsnum \<times> jsnum"

definition effect_radius :: "screen \<Rightarrow> jsnum" where
  "effect_radius scr = (let (screenWidth, screenHeight) = scr
     in if screenHeight > screenWidth then screenHeight else screenWidth)"

definition Device_highlight :: "screen \<Rightarrow> device \<Rightarrow> 'a page_scheme \<Rightarrow> (device \<times> 'a page_scheme) result" where
  "Device_highlight scr this w =
     (case d_graphicsObjectInfo this of
        None \<Rightarrow> throw (TypeError ''graphicsObjectInfo is null'') (this, w)
      | Some (g, p) \<Rightarrow>
          ok (this\<lparr>attachedEffects := attachedEffects this @ [Focus (new_FocusEffect (effect_radius scr) 43775 g)]\<rparr>,
              request_updates w))"

definition Device_interfaceUpdateEvent :: "device \<Rightarrow> device" where
  "Device_interfaceUpdateEvent this =
     this\<lparr>linkGroups := fold (\<lambda>(key, value) gs. obj_set key (LinkGroup_interfacesUpdated value) gs)
        (obj_entries (linkGroups this)) (linkGroups this)\<rparr>"

text \<open>The status document of one device: its state and those of its interfaces.\<close>

record device_status =
  ds_state :: bool
  ds_interfaces :: "bool obj"

definition status_flash :: "screen \<Rightarrow> bool \<Rightarrow> device \<Rightarrow> 'a page_scheme \<Rightarrow> (device \<times> 'a page_scheme) result" where
  "status_flash scr state this w =
     (if d_status this \<noteq> Some state
      then and_then
        (if d_status this \<noteq> None
         then (let color = (if state then 65280 else 16711680)
               in case d_graphicsObjectInfo this of
                    None \<Rightarrow> throw (TypeError ''graphicsObjectInfo is null'') (this, w)
                  | Some (g, p) \<Rightarrow>
                      ok (this\<lparr>attachedEffects := attachedEffects this
                              @ [Focus (new_FocusEffect (effect_radius scr) color g)]\<rparr>, request_updates w))
         else ok (this, w))
        (\<lambda>(this, w). ok (this\<lparr>d_status := Some state, d_graphicsDirty := True\<rparr>, w))
      else ok (this, w))"

definition set_iface_status :: "real \<Rightarrow> device \<Rightarrow> string \<times> bool \<Rightarrow> 'a page_scheme \<Rightarrow> 'a page_scheme" where
  "set_iface_status now this kv w =
     (let (key, value) = kv
      in case obj_get (interfaces this) key of
           None \<Rightarrow> console_error (''received update for '' @ fqdn this @ ''/'' @ key
                     @ '' which is not in device interfaces'') w
         | Some r \<Rightarrow> upd_iface r (Interface_setStatus now value) w)"

definition Device_setStatus ::
  "real \<Rightarrow> screen \<Rightarrow> device_status \<Rightarrow> device \<Rightarrow> 'a page_scheme \<Rightarrow> (device \<times> 'a page_scheme) result" where
  "Device_setStatus now scr newStatus this w =
     and_then (status_flash scr (ds_state newStatus) (this\<lparr>d_lastUpdate := now\<rparr>) w)
       (\<lambda>(this1, w1).
          let w2 = fold (set_iface_status now this1) (obj_entries (ds_interfaces newStatus)) w1
          in ok (Device_interfaceUpdateEvent this1, w2\<lparr>requestGraphicsUpdate := True\<rparr>))"

text \<open>
  \<^verbatim>\<open>updateStatistics\<close>: for an interface the device does not have, the message is built
  from a variable \<^verbatim>\<open>fqdn\<close> that does not exist, so the loop throws.
\<close>

definition set_iface_stats :: "real \<Rightarrow> device \<Rightarrow> string \<times> stats \<Rightarrow> 'a page_scheme \<Rightarrow> 'a page_scheme result" where
  "set_iface_stats now this kv w =
     (let (key, value) = kv
      in case obj_get (interfaces this) key of
           None \<Rightarrow> throw (ReferenceError ''fqdn is not defined'') w
         | Some r \<Rightarrow> ok (upd_iface r (Interface_updateStatistics now value) w))"

definition Device_updateStatistics ::
  "real \<Rightarrow> stats obj \<Rightarrow> device \<Rightarrow> 'a page_scheme \<Rightarrow> (device \<times> 'a page_scheme) result" where
  "Device_updateStatistics now data_interfaces this w =
     (case for_x (set_iface_stats now this) (obj_entries data_interfaces) w of
        (w1, Some e) \<Rightarrow> throw e (this, w1)
      | (w1, None) \<Rightarrow> ok (Device_interfaceUpdateEvent this, w1\<lparr>requestGraphicsUpdate := True\<rparr>))"

section \<open>Positions from the server and from the mouse\<close>

definition Device_requestPosition :: "victor \<Rightarrow> device \<Rightarrow> 'a page_scheme \<Rightarrow> device \<times> 'a page_scheme" where
  "Device_requestPosition newPosition this w =
     (let pos = Victor (js_round (vx newPosition)) (js_round (vy newPosition))
      in if js_eq (vx pos) (vx (d_position this)) \<and> js_eq (vy pos) (vy (d_position this)) then (this, w)
         else (this\<lparr>requestedPosition := Some pos\<rparr>, request_updates w))"

record position_info =
  pi_x :: jsnum
  pi_y :: jsnum
  pi_superNode :: bool
  pi_expandedByDefault :: bool

definition Device_updateWeathermapPosition ::
  "position_info \<Rightarrow> device \<Rightarrow> 'a page_scheme \<Rightarrow> device \<times> 'a page_scheme" where
  "Device_updateWeathermapPosition data this w =
     (let (this1, w1) = Device_requestPosition (Victor (pi_x data) (pi_y data)) this w;
          changed1 = (expandedByDefault this1 \<noteq> pi_expandedByDefault data);
          this2 = (if changed1 then this1\<lparr>expandedByDefault := pi_expandedByDefault data\<rparr> else this1);
          changed2 = (superNodeByConfig this2 \<noteq> pi_superNode data);
          this3 = (if changed2 then this2\<lparr>superNodeByConfig := pi_superNode data\<rparr> else this2)
      in (this3, if changed1 \<or> changed2 then request_updates w1 else w1))"

text \<open>The PUT request; its completion, either way, is \<open>put_done\<close>.\<close>

definition Device_updatePositionInfo :: "device \<Rightarrow> world \<Rightarrow> world" where
  "Device_updatePositionInfo this w = w\<lparr>outbox := outbox w @
     [\<lparr>pp_deviceFqdn = fqdn this, pp_x = vx (d_position this), pp_y = vy (d_position this),
       pp_superNode = superNodeByConfig this, pp_expandedByDefault = expandedByDefault this\<rparr>]\<rparr>"

definition put_done :: "world \<Rightarrow> world" where
  "put_done w = w\<lparr>positionUpdatesFrozen := False\<rparr>"

record mouse_keys =
  shiftKey :: bool
  ctrlKey :: bool
  altKey :: bool

definition bool_text :: "bool \<Rightarrow> string" where
  "bool_text b = (if b then ''true'' else ''false'')"

text \<open>
  The mouse handlers \<^verbatim>\<open>armDragEvents\<close> installs; they exist once the icon does.  Whether
  the event travels on to the viewport is not part of the world.
\<close>

definition flag_toggled :: "string \<Rightarrow> (device \<Rightarrow> bool) \<Rightarrow> (device \<Rightarrow> device) \<Rightarrow> device \<Rightarrow> world \<Rightarrow> (device \<times> world) result" where
  "flag_toggled name get toggle this w =
     (let this1 = toggle this
      in case d_graphicsObjectInfo this1 of
           None \<Rightarrow> throw (TypeError ''graphicsObjectInfo is null'') (this1, w)
         | Some (g, p) \<Rightarrow>
             (let this2 = this1\<lparr>attachedEffects := attachedEffects this1
                    @ [Text (new_TextEffect (Victor 20 0) (name @ ''='' @ bool_text (get this1)) 16711935 g (Some 10))]\<rparr>
              in ok (this2, Device_updatePositionInfo this2 ((request_updates w)\<lparr>positionUpdatesFrozen := True\<rparr>))))"

definition Device_mousedown :: "mouse_keys \<Rightarrow> device \<Rightarrow> world \<Rightarrow> (device \<times> world) result" where
  "Device_mousedown keys this w =
     (if shiftKey keys
      then ok (this\<lparr>dragInfo := True\<rparr>, (request_updates w)\<lparr>positionUpdatesFrozen := True\<rparr>)
      else if ctrlKey keys
      then flag_toggled ''expandedByDefault'' expandedByDefault
             (\<lambda>d. d\<lparr>expandedByDefault := \<not> expandedByDefault d\<rparr>) this w
      else if altKey keys
      then flag_toggled ''superNodeByConfig'' superNodeByConfig
             (\<lambda>d. d\<lparr>superNodeByConfig := \<not> superNodeByConfig d\<rparr>) this w
      else ok (this\<lparr>expanded := Some (\<not> Device_isExpanded this)\<rparr>, request_updates w))"

definition Device_mouseup :: "device \<Rightarrow> world \<Rightarrow> device \<times> world" where
  "Device_mouseup this w =
     (let this1 = this\<lparr>dragInfo := False\<rparr> in (this1, Device_updatePositionInfo this1 w))"

definition Device_mousemove :: "(victor \<Rightarrow> victor) \<Rightarrow> victor \<Rightarrow> device \<Rightarrow> 'a page_scheme \<Rightarrow> device \<times> 'a page_scheme" where
  "Device_mousemove toWorld pt this w =
     (if dragInfo this
      then let worldPoint = toWorld pt
           in (Device_setPosition (Victor (vx worldPoint) (vy worldPoint)) this, request_updates w)
      else (this, w))"

section \<open>Topology lemmas\<close>

definition cables :: "topo_iface obj \<Rightarrow> string \<Rightarrow> string set" where
  "cables data f = {c. \<exists>(k, v) \<in> set data. topo_connectedTo v = Some (f, c)}"

lemma cables_snoc: "cables (ys @ [(k, v)]) f =
    (case topo_connectedTo v of Some (f', c) \<Rightarrow> if f' = f then insert c (cables ys f) else cables ys f | None \<Rightarrow> cables ys f)"
  by (auto simp: cables_def split: option.splits prod.splits)

lemma cables_Nil [simp]: "cables [] f = {}"
  by (simp add: cables_def)

lemma cables_entries [simp]: "cables (obj_entries d) = cables d"
  by (simp add: cables_def fun_eq_iff)

definition updates_ok :: "topo_iface obj \<Rightarrow> linkinfo obj obj \<Rightarrow> bool" where
  "updates_ok ys updates \<longleftrightarrow> obj_ok updates \<and> obj_keys updates = {f. cables ys f \<noteq> {}}
     \<and> (\<forall>f info. obj_get updates f = Some info \<longrightarrow> linkinfo_ok info \<and> obj_keys info = cables ys f)"

definition groups_ok :: "device \<Rightarrow> bool" where
  "groups_ok d \<longleftrightarrow> obj_ok (interfaces d) \<and> obj_ok (linkGroups d)
     \<and> (\<forall>f g. obj_get (linkGroups d) f = Some g \<longrightarrow> obj_ok (groupedLinks g))"

lemma linkinfo_ok_iff: "linkinfo_ok info \<longleftrightarrow> obj_ok info \<and> (\<forall>k r s. obj_get info k = Some (r, s) \<longrightarrow> r = k)"
  unfolding linkinfo_ok_def by (rule conj_cong) (auto simp: obj_get_iff)

lemma linkinfo_ok_set: "linkinfo_ok info \<Longrightarrow> linkinfo_ok (obj_set c (c, r) info)"
  by (auto simp: linkinfo_ok_iff)

lemma linkinfo_ok_Nil [simp]: "linkinfo_ok []"
  by (simp add: linkinfo_ok_def)

lemma ensure_interface_device:
  assumes "ensure_interface k (d, w) = (d', w')"
  shows "linkGroups d' = linkGroups d" and "obj_keys (interfaces d') = insert k (obj_keys (interfaces d))"
    and "obj_ok (interfaces d) \<Longrightarrow> obj_ok (interfaces d')"
    and "obj_get (interfaces d) k' = Some r \<Longrightarrow> obj_get (interfaces d') k' = Some r"
  using assms by (auto simp: ensure_interface_def alloc_iface_def obj_has_def obj_get_key split: if_splits)

lemma ensure_linkgroup_device:
  assumes "ensure_linkgroup f (d, w) = (d', w')"
  shows "interfaces d' = interfaces d" and "obj_keys (linkGroups d') = insert f (obj_keys (linkGroups d))"
    and "groups_ok d \<Longrightarrow> groups_ok d'"
    and "obj_get (linkGroups d) k = Some g \<Longrightarrow> obj_get (linkGroups d') k = Some g"
  using assms
  by (auto simp: ensure_linkgroup_def groups_ok_def obj_has_def obj_get_key new_LinkGroup_def split: if_splits prod.splits)

lemma note_link_get:
  "obj_get (note_link f c r updates) k = (if k = f
     then Some (obj_set c (c, r) (case obj_get updates f of None \<Rightarrow> [] | Some i \<Rightarrow> i)) else obj_get updates k)"
  "obj_keys (note_link f c r updates) = insert f (obj_keys updates)"
  "obj_ok updates \<Longrightarrow> obj_ok (note_link f c r updates)"
  by (auto simp: note_link_def Let_def obj_has_def obj_has_iff split: option.splits)

lemma note_link_ok:
  assumes "updates_ok ys updates" and "topo_connectedTo v = Some (f, c)"
  shows "updates_ok (ys @ [(k, v)]) (note_link f c r updates)"
proof -
  define inner where "inner = (case obj_get updates f of None \<Rightarrow> [] | Some i \<Rightarrow> i)"
  have "linkinfo_ok inner" "obj_keys inner = cables ys f"
    using assms(1) obj_get_None_iff [of updates f] by (auto simp: updates_ok_def inner_def split: option.splits)
  with assms show ?thesis
    by (auto simp: updates_ok_def note_link_get inner_def [symmetric] cables_snoc linkinfo_ok_set split: if_splits)
qed

lemma topo_interface_step:
  assumes "updates_ok ys updates" and "groups_ok d"
    and step: "topo_interface (k, v) (d, updates, w) = (d', updates', w')"
  shows "updates_ok (ys @ [(k, v)]) updates' \<and> groups_ok d'
    \<and> obj_keys (interfaces d') = insert k (obj_keys (interfaces d))
    \<and> obj_keys (linkGroups d') = obj_keys (linkGroups d) \<union> {f. \<exists>c. topo_connectedTo v = Some (f, c)}"
proof -
  obtain d1 w1 where d1: "ensure_interface k (d, w) = (d1, w1)" by fastforce
  note e = ensure_interface_device [OF d1]
  have g1: "groups_ok d1" using assms(2) e(1,3) by (simp add: groups_ok_def)
  show ?thesis
  proof (cases "topo_connectedTo v")
    case None
    with assms(1) have "updates_ok (ys @ [(k, v)]) updates" by (simp add: updates_ok_def cables_snoc)
    with None step e g1 show ?thesis by (auto simp: topo_interface_def d1)
  next
    case (Some fc)
    then obtain f c where fc: "topo_connectedTo v = Some (f, c)" by (cases fc) auto
    define r where "r = the (obj_get (interfaces d1) k)"
    obtain d2 w3 where d2: "ensure_linkgroup f (d1, upd_iface r (Interface_updateTopologyData v) w1) = (d2, w3)" by fastforce
    then have "d' = d2" "updates' = note_link f c r updates"
      using step by (simp_all add: topo_interface_def d1 fc r_def Let_def)
    with ensure_linkgroup_device [OF d2] e g1 note_link_ok [OF assms(1) fc] show ?thesis by (auto simp: fc)
  qed
qed

lemma topo_interfaces:
  assumes "groups_ok d"
  shows "case fold topo_interface xs (d, [], w) of (d', updates, w') \<Rightarrow>
     updates_ok xs updates \<and> groups_ok d'
     \<and> obj_keys (interfaces d') = obj_keys (interfaces d) \<union> obj_keys xs
     \<and> obj_keys (linkGroups d') = obj_keys (linkGroups d) \<union> {f. cables xs f \<noteq> {}}"
proof (induction xs rule: rev_induct)
  case Nil
  then show ?case using assms by (simp add: updates_ok_def)
next
  case (snoc x xs)
  obtain k v where x: "x = (k, v)" by fastforce
  obtain d1 u1 w1 where 1: "fold topo_interface xs (d, [], w) = (d1, u1, w1)" using prod_cases3 by blast
  obtain d2 u2 w2 where 2: "topo_interface (k, v) (d1, u1, w1) = (d2, u2, w2)" using prod_cases3 by blast
  have "{f. cables (xs @ [(k, v)]) f \<noteq> {}} = {f. cables xs f \<noteq> {}} \<union> {f. \<exists>c. topo_connectedTo v = Some (f, c)}"
    by (auto simp: cables_snoc split: option.splits)
  with snoc topo_interface_step [OF _ _ 2, of xs] show ?case by (auto simp: x 1 2 obj_keys_def)
qed

lemma drop_interface_device:
  "linkGroups (fst (drop_interface k (d, w))) = linkGroups d"
  "obj_keys (interfaces (fst (drop_interface k (d, w)))) = obj_keys (interfaces d) - {k}"
  "obj_ok (interfaces d) \<Longrightarrow> obj_ok (interfaces (fst (drop_interface k (d, w))))"
  by (auto simp: drop_interface_def obj_get_None_iff dest: obj_get_key split: option.splits)

lemma expire_interfaces:
  "linkGroups (fst (fold (expire_interface data) xs (d, w))) = linkGroups d
   \<and> obj_keys (interfaces (fst (fold (expire_interface data) xs (d, w))))
       = obj_keys (interfaces d) - (obj_keys xs - obj_keys data)
   \<and> (obj_ok (interfaces d) \<longrightarrow> obj_ok (interfaces (fst (fold (expire_interface data) xs (d, w)))))"
proof (induction xs arbitrary: d w)
  case (Cons x xs)
  obtain k r where x: "x = (k, r)" by fastforce
  obtain d1 w1 where 1: "expire_interface data (k, r) (d, w) = (d1, w1)" by fastforce
  have "linkGroups d1 = linkGroups d"
    "obj_keys (interfaces d1) = obj_keys (interfaces d) - ({k} - obj_keys data)"
    "obj_ok (interfaces d) \<longrightarrow> obj_ok (interfaces d1)"
    using 1 drop_interface_device [where k = k and d = d and w = w] by (auto simp: expire_interface_def obj_has_iff split: if_splits)
  moreover have "obj_keys (x # xs) = insert k (obj_keys xs)" by (simp add: x obj_keys_def)
  moreover have "fold (expire_interface data) (x # xs) (d, w) = fold (expire_interface data) xs (d1, w1)"
    by (simp add: x 1)
  ultimately show ?case using Cons.IH [of d1 w1] by auto
qed simp

text \<open>Each link group is updated, or dropped, once, by the update noted for its key.\<close>

definition group_synced :: "linkinfo obj obj \<Rightarrow> string \<Rightarrow> linkgroup \<Rightarrow> linkgroup option \<Rightarrow> bool" where
  "group_synced updates k g res \<longleftrightarrow> (case obj_get updates k of None \<Rightarrow> res = None
     | Some info \<Rightarrow> \<exists>g' w w'. LinkGroup_updateTopologyData info g (w :: world) = (g', w') \<and> res = Some g')"

lemma topo_linkgroup_device:
  assumes "topo_linkgroup updates (k, g) (d, w :: world) = (d', w')" and "obj_get (linkGroups d) k = Some g"
  shows "interfaces d' = interfaces d"
    and "k' \<noteq> k \<Longrightarrow> obj_get (linkGroups d') k' = obj_get (linkGroups d) k'"
    and "group_synced updates k g (obj_get (linkGroups d') k)"
    and "obj_ok (linkGroups d) \<Longrightarrow> obj_ok (linkGroups d')"
proof -
  have "interfaces d' = interfaces d
    \<and> (\<forall>k'. k' \<noteq> k \<longrightarrow> obj_get (linkGroups d') k' = obj_get (linkGroups d) k')
    \<and> group_synced updates k g (obj_get (linkGroups d') k)
    \<and> (obj_ok (linkGroups d) \<longrightarrow> obj_ok (linkGroups d'))"
  proof (cases "obj_get updates k")
    case None
    with assms show ?thesis by (auto simp: topo_linkgroup_def drop_linkgroup_def group_synced_def)
  next
    case (Some info)
    obtain g' w1 where g': "LinkGroup_updateTopologyData info g w = (g', w1)" by fastforce
    then have "group_synced updates k g (Some g')" using Some by (auto simp: group_synced_def)
    with assms(1) Some g' show ?thesis by (auto simp: topo_linkgroup_def)
  qed
  then show "interfaces d' = interfaces d"
    and "k' \<noteq> k \<Longrightarrow> obj_get (linkGroups d') k' = obj_get (linkGroups d) k'"
    and "group_synced updates k g (obj_get (linkGroups d') k)"
    and "obj_ok (linkGroups d) \<Longrightarrow> obj_ok (linkGroups d')" by blast+
qed

lemma topo_linkgroups:
  assumes "distinct (map fst xs)" and "\<And>k g. (k, g) \<in> set xs \<Longrightarrow> obj_get (linkGroups d) k = Some g"
    and "fold (topo_linkgroup updates) xs (d, w :: world) = (d', w')"
  shows "interfaces d' = interfaces d \<and> (obj_ok (linkGroups d) \<longrightarrow> obj_ok (linkGroups d'))
    \<and> (\<forall>k. k \<notin> obj_keys xs \<longrightarrow> obj_get (linkGroups d') k = obj_get (linkGroups d) k)
    \<and> (\<forall>k g. (k, g) \<in> set xs \<longrightarrow> group_synced updates k g (obj_get (linkGroups d') k))"
  using assms
proof (induction xs arbitrary: d w)
  case (Cons x xs)
  obtain k g where x: "x = (k, g)" by fastforce
  obtain d1 w1 where 1: "topo_linkgroup updates (k, g) (d, w) = (d1, w1)" by fastforce
  have g: "obj_get (linkGroups d) k = Some g" using Cons.prems(2) [of k g] by (simp add: x)
  note step = topo_linkgroup_device [OF 1 g]
  have k: "k \<notin> obj_keys xs" using Cons.prems(1) by (simp add: x obj_keys_def)
  have "obj_get (linkGroups d1) k' = Some g'" if "(k', g') \<in> set xs" for k' g'
  proof -
    have "k' \<noteq> k" using that k by (auto simp: obj_keys_def image_iff)
    then show ?thesis using step(2) [of k'] Cons.prems(2) [of k' g'] that by simp
  qed
  moreover have "fold (topo_linkgroup updates) xs (d1, w1) = (d', w')" using Cons.prems(3) by (simp add: x 1)
  moreover have "distinct (map fst xs)" using Cons.prems(1) by simp
  ultimately have IH: "interfaces d' = interfaces d1" "obj_ok (linkGroups d1) \<longrightarrow> obj_ok (linkGroups d')"
    "\<And>k. k \<notin> obj_keys xs \<Longrightarrow> obj_get (linkGroups d') k = obj_get (linkGroups d1) k"
    "\<And>k g. (k, g) \<in> set xs \<Longrightarrow> group_synced updates k g (obj_get (linkGroups d') k)"
    using Cons.IH [of d1 w1] by blast+
  have keys: "obj_keys (x # xs) = insert k (obj_keys xs)" by (simp add: x obj_keys_def)
  show ?case
  proof (intro conjI allI impI)
    show "interfaces d' = interfaces d" using IH(1) step(1) by simp
    show "obj_ok (linkGroups d) \<Longrightarrow> obj_ok (linkGroups d')" using IH(2) step(4) by blast
    show "obj_get (linkGroups d') k' = obj_get (linkGroups d) k'" if "k' \<notin> obj_keys (x # xs)" for k'
      using that IH(3) [of k'] step(2) [of k'] by (simp add: keys)
    show "group_synced updates k' g' (obj_get (linkGroups d') k')" if "(k', g') \<in> set (x # xs)" for k' g'
      using that IH(4) [of k' g'] step(3) IH(3) [OF k] by (auto simp: x)
  qed
qed simp

text \<open>A device agrees with its part of the topology document: the same interfaces, one link group
  for each neighbour, and in it one link for each cable to that neighbour.\<close>

definition topo_synced :: "topo_iface obj \<Rightarrow> device \<Rightarrow> bool" where
  "topo_synced data d \<longleftrightarrow> groups_ok d \<and> obj_keys (interfaces d) = obj_keys data
     \<and> obj_keys (linkGroups d) = {f. cables data f \<noteq> {}}
     \<and> (\<forall>f g. obj_get (linkGroups d) f = Some g \<longrightarrow> obj_keys (groupedLinks g) = cables data f)"

lemma Device_topology_synced:
  assumes "obj_ok data" and "groups_ok d"
    and "Device_updateTopologyData data d (w :: world) = (d', w')"
  shows "topo_synced data d'"
proof -
  obtain d1 updates w1 where 1: "fold topo_interface (obj_entries data) (d, [], w) = (d1, updates, w1)"
    using prod_cases3 by blast
  obtain d2 w2 where 2: "fold (expire_interface data) (obj_entries (interfaces d1)) (d1, w1) = (d2, w2)" by fastforce
  have 3: "fold (topo_linkgroup updates) (obj_entries (linkGroups d2)) (d2, w2) = (d', w')"
    using assms(3) by (simp add: Device_updateTopologyData_def 1 2)
  have u: "updates_ok data updates" and g1: "groups_ok d1"
    and k1: "obj_keys (interfaces d1) = obj_keys (interfaces d) \<union> obj_keys data"
      "obj_keys (linkGroups d1) = obj_keys (linkGroups d) \<union> {f. cables data f \<noteq> {}}"
    using topo_interfaces [OF assms(2), of "obj_entries data" w] by (auto simp: 1 updates_ok_def)
  have d2: "linkGroups d2 = linkGroups d1" "obj_keys (interfaces d2) = obj_keys data" "obj_ok (interfaces d2)"
    using expire_interfaces [of data "obj_entries (interfaces d1)" d1 w1] g1 k1
    by (auto simp: 2 groups_ok_def)
  have ok2: "obj_ok (linkGroups d2)" using g1 by (simp add: d2 groups_ok_def)
  have "distinct (map fst (obj_entries (linkGroups d2)))"
    using obj_ok_entries [OF ok2] by (simp add: obj_ok_def)
  note sync = topo_linkgroups [OF this _ 3]
  have sync: "interfaces d' = interfaces d2" "obj_ok (linkGroups d')"
    "\<And>k. k \<notin> obj_keys (linkGroups d2) \<Longrightarrow> obj_get (linkGroups d') k = None"
    "\<And>k g. obj_get (linkGroups d2) k = Some g \<Longrightarrow> group_synced updates k g (obj_get (linkGroups d') k)"
    using sync ok2 by (auto simp: obj_get_iff obj_get_None_iff)
  have res: "case obj_get updates f of None \<Rightarrow> obj_get (linkGroups d') f = None
      | Some info \<Rightarrow> \<exists>g'. obj_get (linkGroups d') f = Some g' \<and> obj_keys (groupedLinks g') = cables data f
           \<and> obj_ok (groupedLinks g')" for f
  proof (cases "obj_get updates f")
    case None
    then show ?thesis
      using sync(3,4) [of f] obj_get_None_iff [of "linkGroups d2" f]
      by (cases "obj_get (linkGroups d2) f") (auto simp: group_synced_def)
  next
    case (Some info)
    then have info: "linkinfo_ok info" "obj_keys info = cables data f" and f: "cables data f \<noteq> {}"
      using u obj_get_key by (force simp: updates_ok_def)+
    then obtain g where g: "obj_get (linkGroups d2) f = Some g"
      using k1 d2(1) obj_keys_get [of f "linkGroups d2"] by auto
    then have okg: "obj_ok (groupedLinks g)" using g1 d2(1) by (auto simp: groups_ok_def)
    obtain g' v v' where g': "LinkGroup_updateTopologyData info g (v :: world) = (g', v')"
      "obj_get (linkGroups d') f = Some g'"
      using sync(4) [OF g] Some by (auto simp: group_synced_def)
    then show ?thesis using LinkGroup_topology_sync_aux [OF info(1) okg g'(1)] info(2) Some by auto
  qed
  have upd: "obj_get updates f = None \<longleftrightarrow> cables data f = {}" for f
    using u obj_get_None_iff [of updates f] by (auto simp: updates_ok_def)
  have keys: "obj_get (linkGroups d') f = None \<longleftrightarrow> cables data f = {}" for f
    using res [of f] upd [of f] by (auto split: option.splits)
  have cab: "obj_keys (groupedLinks g) = cables data f \<and> obj_ok (groupedLinks g)"
    if "obj_get (linkGroups d') f = Some g" for f g
    using res [of f] upd [of f] keys [of f] that by (auto split: option.splits)
  have "obj_keys (linkGroups d') = {f. cables data f \<noteq> {}}"
    using keys obj_get_None_iff [of "linkGroups d'"] by blast
  then show ?thesis using cab sync(1,2) d2 by (auto simp: topo_synced_def groups_ok_def)
qed

text \<open>C33: After a topology document has been applied, a device has exactly the interfaces of the
  document, a link group for exactly the neighbours its interfaces are connected to, and in each
  group exactly one link for each remote interface that is connected, whatever it had before.\<close>

theorem Device_topology_sync:
  assumes "obj_ok data" and "groups_ok d"
    and "Device_updateTopologyData data d (w :: world) = (d', w')"
  shows "obj_keys (interfaces d') = obj_keys data
    \<and> obj_keys (linkGroups d') = {f. cables data f \<noteq> {}}
    \<and> (\<forall>f g. obj_get (linkGroups d') f = Some g \<longrightarrow>
          obj_keys (groupedLinks g) = {c. \<exists>(k, v) \<in> set data. topo_connectedTo v = Some (f, c)})
    \<and> groups_ok d'"
  using Device_topology_synced [OF assms] by (simp add: topo_synced_def cables_def)

text \<open>Two interfaces cabled to the same neighbour, and one without a cable.\<close>

definition example_topology :: "topo_iface obj" where
  "example_topology =
     [(''a'', [(''name'', TName ''a''), (''connectedTo'', TConnectedTo (Some (''sw2.net'', ''p'')))]),
      (''b'', [(''connectedTo'', TConnectedTo (Some (''sw2.net'', ''q'')))]),
      (''c'', [(''connectedTo'', TConnectedTo None)])]"

lemma new_Device_groups_ok [simp]: "groups_ok (new_Device name r1 r2)"
  by (simp add: groups_ok_def new_Device_def Device_setPosition_def)

theorem Device_topology_sync_witness:
  "obj_keys (linkGroups (fst (Device_updateTopologyData example_topology (new_Device ''sw1.net'' 0 0) world0)))
     = {''sw2.net''}"
proof -
  have "cables example_topology = (\<lambda>f. if f = ''sw2.net'' then {''p'', ''q''} else {})"
    by (auto simp: fun_eq_iff cables_def example_topology_def topo_connectedTo_def obj_get_def)
  then have "{f. cables example_topology f \<noteq> {}} = {''sw2.net''}" by auto
  moreover have "obj_ok example_topology" by (simp add: example_topology_def obj_ok_def)
  ultimately show ?thesis
    using Device_topology_sync [OF _ new_Device_groups_ok prod.collapse [symmetric], of example_topology] by simp
qed

section \<open>Neighbours and the size of icons\<close>

text \<open>A device is classified: it is a super node unless it has exactly one neighbour.\<close>

definition classified :: "device \<Rightarrow> bool" where
  "classified d \<longleftrightarrow> superNode d = Some (length (neighborDevices d) \<noteq> 1)"

lemma isLargeIcon_classified:
  assumes "classified (devs w r)"
  shows "\<exists>b. Device_isLargeIcon w r = Inr b"
  using assms
  by (cases "neighborDevices (devs w r)") (auto simp: Device_isLargeIcon_def Device_isSuperNode_def classified_def Let_def)

lemma Device_updateLinkgroupData_classified:
  "classified (devs (Device_updateLinkgroupData devices r w) r)"
proof -
  have "(1 < n \<or> n = 0) = (n \<noteq> 1)" for n :: nat by auto
  then show ?thesis
    by (auto simp: Device_updateLinkgroupData_def classified_def upd_dev_def Let_def split: prod.splits)
qed

lemma link_targets:
  "fst (fold (link_target devices this) xs (nbrs, w))
     = nbrs @ map (\<lambda>(k, g). the (obj_get devices k)) (filter (\<lambda>(k, g). obj_has devices k) xs)"
proof (induction xs arbitrary: nbrs w)
  case (Cons x xs)
  obtain k g where x: "x = (k, g)" by fastforce
  obtain nbrs' w' where st: "link_target devices this (k, g) (nbrs, w) = (nbrs', w')" by fastforce
  then have "nbrs' = nbrs @ (if obj_has devices k then [the (obj_get devices k)] else [])"
    by (auto simp: link_target_def obj_has_def split: option.splits prod.splits)
  with Cons.IH [of nbrs' w'] show ?case by (simp add: x st)
qed simp

lemma Device_updateLinkgroupData_neighbours:
  "neighborDevices (devs (Device_updateLinkgroupData devices r w) r)
     = map (\<lambda>(k, g). the (obj_get devices k)) (filter (\<lambda>(k, g). obj_has devices k) (obj_entries (linkGroups (devs w r))))"
  using link_targets [of devices r "obj_entries (linkGroups (devs w r))" "[]" w]
  by (auto simp: Device_updateLinkgroupData_def upd_dev_def Let_def split: prod.splits)

text \<open>Connecting a device to the map makes its neighbours the devices its link groups lead to, in
  the order the groups are walked; it is a super node unless there is exactly one; and from then
  on its icon size can be asked without an exception, however its flags are set.\<close>

theorem Device_neighbours:
  "let w' = Device_updateLinkgroupData devices r w;
       found = filter (\<lambda>(k, g). obj_has devices k) (obj_entries (linkGroups (devs w r)))
   in neighborDevices (devs w' r) = map (\<lambda>(k, g). the (obj_get devices k)) found
    \<and> superNode (devs w' r) = Some (length found \<noteq> 1)
    \<and> (\<exists>large. Device_isLargeIcon (upd_dev r (\<lambda>d. d\<lparr>superNodeByConfig := b, expanded := e, expandedByDefault := x\<rparr>) w') r
          = Inr large)"
proof -
  let ?w = "Device_updateLinkgroupData devices r w"
  let ?v = "upd_dev r (\<lambda>d. d\<lparr>superNodeByConfig := b, expanded := e, expandedByDefault := x\<rparr>) ?w"
  let ?found = "filter (\<lambda>(k, g). obj_has devices k) (obj_entries (linkGroups (devs w r)))"
  have nbrs: "neighborDevices (devs ?w r) = map (\<lambda>(k, g). the (obj_get devices k)) ?found"
    by (rule Device_updateLinkgroupData_neighbours)
  moreover have cl: "classified (devs ?w r)" by (rule Device_updateLinkgroupData_classified)
  moreover from cl have "classified (devs ?v r)" by (simp add: classified_def upd_dev_def)
  then have "\<exists>large. Device_isLargeIcon ?v r = Inr large" by (rule isLargeIcon_classified)
  ultimately show ?thesis by (simp add: Let_def classified_def)
qed

section \<open>Staleness and status\<close>

lemma checkStale_stale:
  "stale (Device_checkStale now d) \<longleftrightarrow> 60 < now - d_lastUpdate d"
  "d_status (Device_checkStale now d) = (if 60 < now - d_lastUpdate d \<and> \<not> stale d then None else d_status d)"
  "d_lastUpdate (Device_checkStale now d) = d_lastUpdate d"
  by (auto simp: Device_checkStale_def)

section \<open>Animation lemmas\<close>

lemma setPosition_pos [simp]:
  "d_position d \<noteq> \<lparr>vx = NaN, vy = NaN\<rparr> \<Longrightarrow> d_position (Device_setPosition (vec a b) d) = vec a b"
  by (cases "d_position d") (auto simp: Device_setPosition_def js_eq_def)

lemma setPosition_requested [simp]: "requestedPosition (Device_setPosition p d) = requestedPosition d"
  by (simp add: Device_setPosition_def)

text \<open>The distance to the requested position, and the number of steps that are left.\<close>

definition target_distance :: "device \<Rightarrow> real" where
  "target_distance d = (case requestedPosition d of None \<Rightarrow> 0
     | Some q \<Rightarrow> sqrt ((the_fin (vx q) - the_fin (vx (d_position d)))\<^sup>2 + (the_fin (vy q) - the_fin (vy (d_position d)))\<^sup>2))"

definition approach_runs :: "device \<times> 'a page_scheme \<Rightarrow> bool" where
  "approach_runs dw \<longleftrightarrow> fin_vec (d_position (fst dw))
     \<and> (case requestedPosition (fst dw) of None \<Rightarrow> True | Some q \<Rightarrow> fin_vec q)"

definition approach_rank :: "device \<times> 'a page_scheme \<Rightarrow> nat" where
  "approach_rank dw = (case requestedPosition (fst dw) of None \<Rightarrow> 0
     | Some q \<Rightarrow> if target_distance (fst dw) < 1 / 4 then 1
                 else Suc (Suc (nat \<lfloor>log (10 / 9) (4 * target_distance (fst dw))\<rfloor>)))"

text \<open>The page takes both requests back before it animates.\<close>

definition requests_taken :: "'a page_scheme \<Rightarrow> 'a page_scheme" where
  "requests_taken w = w\<lparr>requestGraphicsUpdate := False, requestAnimationUpdate := False\<rparr>"

definition approach_step :: "device \<times> 'a page_scheme \<Rightarrow> device \<times> 'a page_scheme" where
  "approach_step dw = superNodeAnimation (fst dw) (requests_taken (snd dw))"

lemma approach_step_vec:
  assumes "d_position d = vec a b" and "requestedPosition d = Some (vec x y)"
  shows "(if sqrt ((x - a)\<^sup>2 + (y - b)\<^sup>2) < 1 / 4
     then d_position (fst (approach_step (d, w))) = vec x y \<and> requestedPosition (fst (approach_step (d, w))) = None
     else d_position (fst (approach_step (d, w))) = vec (a + (x - a) / 10) (b + (y - b) / 10)
        \<and> requestedPosition (fst (approach_step (d, w))) = Some (vec x y))
    \<and> requestAnimationUpdate (snd (approach_step (d, w))) \<and> requestGraphicsUpdate (snd (approach_step (d, w)))"
  by (simp add: approach_step_def superNodeAnimation_def assms Let_def victor_simps)

lemma approach_scaled:
  "sqrt ((x - (a + (x - a) / 10))\<^sup>2 + (y - (b + (y - b) / 10))\<^sup>2) = sqrt ((x - a)\<^sup>2 + (y - b)\<^sup>2) / (10 / 9)"
proof -
  have "(x - (a + (x - a) / 10))\<^sup>2 + (y - (b + (y - b) / 10))\<^sup>2 = ((x - a)\<^sup>2 + (y - b)\<^sup>2) * (9 / 10)\<^sup>2"
    by (simp add: power2_eq_square field_simps)
  then show ?thesis by (simp add: real_sqrt_mult)
qed

text \<open>The third animation: the way of a device to the position the server asks for.\<close>

interpretation approach: animation approach_step "\<lambda>dw. requestedPosition (fst dw) = None" approach_rank approach_runs
proof
  fix dw :: "device \<times> 'a page_scheme" assume runs: "approach_runs dw"
  obtain d w where dw: "dw = (d, w)" by fastforce
  obtain a b where pos: "d_position d = vec a b" using runs by (auto simp: dw approach_runs_def elim: fin_vecE)
  show "approach_runs (approach_step dw)"
  proof (cases "requestedPosition d")
    case None
    then have "fst (approach_step (d, w)) = d" by (simp add: approach_step_def superNodeAnimation_def)
    then show ?thesis using runs by (simp add: dw approach_runs_def)
  next
    case (Some q)
    then obtain x y where "requestedPosition d = Some (vec x y)"
      using runs by (auto simp: dw approach_runs_def elim!: fin_vecE)
    from approach_step_vec [OF pos this, of w] show ?thesis
      by (simp add: dw approach_runs_def split: if_splits)
  qed
  assume "requestedPosition (fst dw) \<noteq> None"
  then obtain x y where req: "requestedPosition d = Some (vec x y)"
    using runs by (auto simp: dw approach_runs_def elim!: fin_vecE)
  define r where "r = sqrt ((x - a)\<^sup>2 + (y - b)\<^sup>2)"
  note step = approach_step_vec [OF pos req, of w, folded r_def]
  have dist: "target_distance d = r" by (simp add: target_distance_def req pos r_def)
  show "approach_rank (approach_step dw) < approach_rank dw"
  proof (cases "r < 1 / 4")
    case True
    then show ?thesis using step by (simp add: dw approach_rank_def req dist)
  next
    case False
    then have dist': "target_distance (fst (approach_step (d, w))) = r / (10 / 9)"
      using step by (simp add: target_distance_def r_def approach_scaled)
    have "log (10 / 9) (4 * (r / (10 / 9))) = log (10 / 9) (4 * r) - 1"
      using log_shrink [of "10 / 9" "4 * r"] False by simp
    moreover have "0 \<le> log (10 / 9) (4 * (r / (10 / 9)))" if "1 / 4 \<le> r / (10 / 9)"
      using that by simp
    moreover have "0 \<le> log (10 / 9) (4 * r)" using False by simp
    ultimately show ?thesis
      using step False by (simp add: dw approach_rank_def req dist dist')
  qed
qed

lemma approach_distance:
  fixes p :: real
  assumes "0 \<le> p"
  shows "sqrt ((x - (x + (a - x) * p))\<^sup>2 + (y - (y + (b - y) * p))\<^sup>2) = sqrt ((x - a)\<^sup>2 + (y - b)\<^sup>2) * p"
proof -
  have "(x - (x + (a - x) * p))\<^sup>2 + (y - (y + (b - y) * p))\<^sup>2 = ((x - a)\<^sup>2 + (y - b)\<^sup>2) * p\<^sup>2"
    by (simp add: power2_eq_square algebra_simps)
  then show ?thesis using assms by (simp add: real_sqrt_mult)
qed

text \<open>The way, step by step, as long as the target is not within a quarter.\<close>

lemma approach_on_course:
  assumes pos: "d_position d = vec a b" and req: "requestedPosition d = Some (vec x y)"
    and far: "\<And>m. m < n \<Longrightarrow> 1 / 4 \<le> sqrt ((x - a)\<^sup>2 + (y - b)\<^sup>2) * (9 / 10) ^ m"
  shows "requestedPosition (fst ((approach_step ^^ n) (d, w))) = Some (vec x y)
    \<and> d_position (fst ((approach_step ^^ n) (d, w))) = vec (x + (a - x) * (9 / 10) ^ n) (y + (b - y) * (9 / 10) ^ n)"
  using far
proof (induction n)
  case 0
  then show ?case using pos req by simp
next
  case (Suc n)
  obtain d' w' where d': "(approach_step ^^ n) (d, w) = (d', w')" by fastforce
  define p where "p = (9 / 10 :: real) ^ n"
  have IH: "requestedPosition d' = Some (vec x y)" "d_position d' = vec (x + (a - x) * p) (y + (b - y) * p)"
    using Suc by (simp_all add: d' p_def)
  have "\<not> sqrt ((x - (x + (a - x) * p))\<^sup>2 + (y - (y + (b - y) * p))\<^sup>2) < 1 / 4"
    using Suc.prems [of n] approach_distance [of p x a y b] by (simp add: p_def)
  with approach_step_vec [OF IH(2,1), of w'] show ?case
    by (simp add: d' p_def field_simps)
qed

lemma approach_requests:
  assumes "fin_vec (d_position (fst dw))" and "requestedPosition (fst dw) = Some (vec x y)"
  shows "requestAnimationUpdate (snd (approach_step dw)) \<and> requestGraphicsUpdate (snd (approach_step dw))"
proof -
  obtain d w where dw: "dw = (d, w)" by fastforce
  obtain a b where "d_position d = vec a b" using assms by (auto simp: dw elim: fin_vecE)
  from approach_step_vec [OF this, of x y w] assms show ?thesis by (simp add: dw)
qed

text \<open>C40: A super node whose position the server has changed reaches exactly that position.  The page takes
  the requests for updates back before each animation, and every step asks again, the last one included, so
  the animation never stalls.  A step covers a tenth of the way that is left; the first one that starts within
  a quarter of the target ends on it, and the number of steps is logarithmic in the distance.\<close>

theorem superNode_reaches_target:
  fixes d and w :: "'a page_scheme"
  assumes "d_position d = vec a b" and "requestedPosition d = Some (vec x y)"
  defines "run \<equiv> \<lambda>n. ((\<lambda>(d, w). superNodeAnimation d (w\<lparr>requestGraphicsUpdate := False, requestAnimationUpdate := False\<rparr>)) ^^ n)
      (d, w)"
    and "distance \<equiv> sqrt ((x - a)\<^sup>2 + (y - b)\<^sup>2)"
  shows "\<exists>n. Suc n \<le> 2 + nat \<lfloor>log (10 / 9) (4 * distance)\<rfloor>
    \<and> requestedPosition (fst (run (Suc n))) = None \<and> d_position (fst (run (Suc n))) = vec x y
    \<and> (\<forall>m \<le> n. requestedPosition (fst (run m)) = Some (vec x y)
          \<and> d_position (fst (run m)) = vec (x + (a - x) * (9 / 10) ^ m) (y + (b - y) * (9 / 10) ^ m)
          \<and> (distance * (9 / 10) ^ m < 1 / 4 \<longleftrightarrow> m = n)
          \<and> requestAnimationUpdate (snd (run (Suc m))) \<and> requestGraphicsUpdate (snd (run (Suc m))))"
proof -
  have step: "(\<lambda>(d, w). superNodeAnimation d (w\<lparr>requestGraphicsUpdate := False, requestAnimationUpdate := False\<rparr>))
      = (approach_step :: _ \<Rightarrow> device \<times> 'a page_scheme)"
    by (auto simp: fun_eq_iff approach_step_def requests_taken_def)
  have run: "run n = (approach_step ^^ n) (d, w)" for n by (simp only: run_def step)
  have td: "target_distance d = distance" by (simp add: target_distance_def assms)
  obtain k where "distance * (9 / 10) ^ k < 1 / 4"
  proof -
    have pos: "0 < 4 * (distance + 1)" by (simp add: distance_def add_nonneg_pos)
    then obtain k where "(9 / 10 :: real) ^ k < 1 / (4 * (distance + 1))"
      using real_arch_pow_inv [of "1 / (4 * (distance + 1))" "9 / 10"] by auto
    then have "(distance + 1) * (9 / 10) ^ k < 1 / 4"
      unfolding pos_less_divide_eq [OF pos] by (simp add: algebra_simps)
    moreover have "distance * (9 / 10) ^ k \<le> (distance + 1) * (9 / 10) ^ k" by (simp add: mult_right_mono)
    ultimately have "distance * (9 / 10) ^ k < 1 / 4" by linarith
    then show ?thesis by (rule that)
  qed
  then obtain n where n: "distance * (9 / 10) ^ n < 1 / 4" "\<And>m. m < n \<Longrightarrow> \<not> distance * (9 / 10) ^ m < 1 / 4"
    using exists_least_iff [of "\<lambda>k. distance * (9 / 10) ^ k < 1 / 4"] by blast
  have course: "requestedPosition (fst (run m)) = Some (vec x y)
      \<and> d_position (fst (run m)) = vec (x + (a - x) * (9 / 10) ^ m) (y + (b - y) * (9 / 10) ^ m)" if "m \<le> n" for m
    unfolding run by (rule approach_on_course [OF assms(1,2)]) (use n(2) that in \<open>force simp: distance_def not_less\<close>)
  have near: "distance * (9 / 10) ^ m < 1 / 4 \<longleftrightarrow> m = n" if "m \<le> n" for m
    using n that by (cases "m = n") auto
  have asked: "requestAnimationUpdate (snd (run (Suc m))) \<and> requestGraphicsUpdate (snd (run (Suc m)))" if "m \<le> n" for m
    using approach_requests [of "run m" x y] course [OF that] by (simp add: run)
  have last: "requestedPosition (fst (run (Suc n))) = None \<and> d_position (fst (run (Suc n))) = vec x y"
  proof -
    define p where "p = (9 / 10 :: real) ^ n"
    have "sqrt ((x - (x + (a - x) * p))\<^sup>2 + (y - (y + (b - y) * p))\<^sup>2) < 1 / 4"
      using n(1) approach_distance [of p x a y b] by (simp add: p_def distance_def)
    moreover have "d_position (fst (run n)) = vec (x + (a - x) * p) (y + (b - y) * p)" using course by (simp add: p_def)
    ultimately show ?thesis
      using approach_step_vec [of "fst (run n)" "x + (a - x) * p" "y + (b - y) * p" x y "snd (run n)"] course [of n]
      by (simp add: run)
  qed
  have "approach_runs (d, w)" using assms(1,2) by (simp add: approach_runs_def)
  from approach.finishes [OF this] obtain k where k: "k \<le> approach_rank (d, w)"
    "requestedPosition (fst (run k)) = None" by (auto simp: run)
  then have "Suc n \<le> k" using course [of k] by (cases "k \<le> n") auto
  moreover have "approach_rank (d, w) \<le> 2 + nat \<lfloor>log (10 / 9) (4 * distance)\<rfloor>"
    by (auto simp: approach_rank_def td split: option.split)
  ultimately have "Suc n \<le> 2 + nat \<lfloor>log (10 / 9) (4 * distance)\<rfloor>" using k(1) by simp
  then show ?thesis using last course near asked by (intro exI [of _ n]) simp
qed

theorem superNode_reaches_target_witness:
  "\<exists>n. let run = (\<lambda>n. ((\<lambda>(d, w). superNodeAnimation d (w\<lparr>requestGraphicsUpdate := False, requestAnimationUpdate := False\<rparr>)) ^^ n)
         ((new_Device ''sw1.net'' 0 0)\<lparr>requestedPosition := Some (vec 3 4)\<rparr>, simulationGlobals))
    in requestedPosition (fst (run (Suc n))) = None \<and> d_position (fst (run (Suc n))) = vec 3 4
      \<and> list_all (\<lambda>m. requestAnimationUpdate (snd (run (Suc m)))) [0..<Suc n]"
proof -
  let ?d = "(new_Device ''sw1.net'' 0 0)\<lparr>requestedPosition := Some (vec 3 4)\<rparr>"
  let ?run = "\<lambda>n. ((\<lambda>(d, w). superNodeAnimation d (w\<lparr>requestGraphicsUpdate := False, requestAnimationUpdate := False\<rparr>)) ^^ n)
      (?d, simulationGlobals)"
  have "fin_vec (d_position ?d)" by (simp add: new_Device_def Device_setPosition_def)
  then obtain a b where pos: "d_position ?d = vec a b" by (rule fin_vecE)
  have req: "requestedPosition ?d = Some (vec 3 4)" by simp
  obtain n where n: "requestedPosition (fst (?run (Suc n))) = None" "d_position (fst (?run (Suc n))) = vec 3 4"
    "\<And>m. m \<le> n \<Longrightarrow> requestAnimationUpdate (snd (?run (Suc m)))"
    using superNode_reaches_target [OF pos req, of simulationGlobals] by blast
  have "list_all (\<lambda>m. requestAnimationUpdate (snd (?run (Suc m)))) [0..<Suc n]"
    unfolding list_all_iff using n(3) by (metis atLeastLessThan_iff less_Suc_eq_le set_upt)
  with n(1,2) show ?thesis unfolding Let_def by blast
qed

section \<open>Effects\<close>

lemma animate_effects:
  "fst (fold animate_effect es (done, w)) = done @ map effect_updateAnimation (filter (\<lambda>e. \<not> effect_finished e) es)"
  by (induction es arbitrary: "done" w) (auto simp: animate_effect_def)

lemma effectAnimation_effects:
  "attachedEffects (fst (effectAnimation d w)) = map effect_updateAnimation (filter (\<lambda>e. \<not> effect_finished e) (attachedEffects d))"
  using animate_effects [of "attachedEffects d" "[]" w] by (auto simp: effectAnimation_def split: prod.split)

text \<open>Effects do not stay: after as many animation steps as the longest-lived effect has left, and
  one more, a device carries none, whatever mix of discs and texts it was given.\<close>

theorem effects_disappear:
  assumes "\<forall>e \<in> set (attachedEffects d). effect_runs e \<and> effect_rank e < n"
  shows "attachedEffects (fst (((\<lambda>(d, w). effectAnimation d w) ^^ n) (d, w))) = []"
  using assms
proof (induction n arbitrary: d w)
  case (Suc n)
  obtain d' w' where d': "effectAnimation d w = (d', w')" by fastforce
  have "effect_runs e \<and> effect_rank e < n" if e: "e \<in> set (attachedEffects d')" for e
  proof -
    obtain e0 where e0: "e0 \<in> set (attachedEffects d)" "\<not> effect_finished e0" "e = effect_updateAnimation e0"
      using e effectAnimation_effects [of d w] by (auto simp: d')
    then have "effect_runs e0" and "effect_rank e0 < Suc n" using Suc.prems by auto
    with e0 eff.step_runs [of e0] eff.step_rank [of e0] show ?thesis by force
  qed
  with Suc.IH [of d' w'] show ?case by (simp add: funpow_Suc_right d' del: funpow.simps)
qed (auto intro: ccontr)

theorem effects_disappear_witness:
  "attachedEffects (fst (((\<lambda>(d, w). effectAnimation d w) ^^ 27)
     ((new_Device ''sw1.net'' 0 0)\<lparr>attachedEffects := [Text (new_TextEffect (vec 20 0) ''x'' 0 0 (Some 10))]\<rparr>, simulationGlobals))) = []"
proof -
  have "\<lceil>51 / 2 :: real\<rceil> = 26" by (simp add: ceiling_eq_iff)
  then show ?thesis
    by (intro effects_disappear) (simp add: new_TextEffect_def text_runs_def text_rank_def)
qed

end
