(* ===== verification/Frames.thy ===== *)
theory Frames
  imports Device
begin

text \<open>
  What the operations on the page leave alone.  Every operation of an effect, a link, a link group
  or of a single device is generic in what the page is extended with, and keeps it: the store of
  the devices and the outgoing requests are as before.
\<close>

named_theorems more_simps \<open>the operations keep what extends the page\<close>

lemma page_ops_more [more_simps]:
  "page.more (upd_iface r f w) = page.more w" "page.more (upd_gobj g h w) = page.more w"
  "page.more (upd_scene k w) = page.more w" "page.more (request_updates w) = page.more w"
  "page.more (console_error m w) = page.more w" "page.more (snd (new_drawing t w)) = page.more w"
  "page.more (snd (alloc_iface i w)) = page.more w"
  by (simp_all add: upd_iface_def upd_gobj_def upd_scene_def request_updates_def console_error_def
      new_drawing_def new_object_def alloc_iface_def)

lemma fold_more:
  assumes "\<And>x st. page.more (snd (f x st)) = page.more (snd st)"
  shows "page.more (snd (fold f xs st)) = page.more (snd st)"
  using assms by (induction xs arbitrary: st) auto

lemma fold_more_page:
  assumes "\<And>x w. page.more (f x w) = page.more w"
  shows "page.more (fold f xs w) = page.more w"
  using assms by (induction xs arbitrary: w) auto

section \<open>Links and link groups\<close>

lemma new_Link_more [more_simps]: "page.more (snd (new_Link r s w)) = page.more w"
  by (simp add: new_Link_def case_prod_unfold Let_def more_simps)

lemma Link_destroy_more [more_simps]: "page.more (snd (Link_destroy l w)) = page.more w"
  by (simp add: Link_destroy_def case_prod_unfold Let_def more_simps split: option.split)

lemma new_LinkGroup_more [more_simps]: "page.more (snd (new_LinkGroup s n w)) = page.more w"
  by (simp add: new_LinkGroup_def case_prod_unfold Let_def more_simps)

lemma link_ops_more [more_simps]:
  "page.more (snd (add_link x st)) = page.more (snd st)"
  "page.more (snd (drop_link k st)) = page.more (snd st)"
  "page.more (snd (expire_link i y st)) = page.more (snd st)"
proof -
  show drop: "page.more (snd (drop_link k st)) = page.more (snd st)" for k and st :: "linkgroup \<times> 'a page_scheme"
    by (simp add: drop_link_def case_prod_unfold Let_def more_simps split: option.split)
  show "page.more (snd (add_link x st)) = page.more (snd st)"
    by (simp add: add_link_def case_prod_unfold Let_def more_simps)
  show "page.more (snd (expire_link i y st)) = page.more (snd st)"
    by (simp add: expire_link_def case_prod_unfold Let_def more_simps drop)
qed

lemma LinkGroup_updateTopologyData_more [more_simps]:
  "page.more (snd (LinkGroup_updateTopologyData i g w)) = page.more w"
  by (simp add: LinkGroup_updateTopologyData_def case_prod_unfold Let_def more_simps fold_more)

lemma LinkGroup_destroy_more [more_simps]: "page.more (snd (LinkGroup_destroy g w)) = page.more w"
  by (simp add: LinkGroup_destroy_def case_prod_unfold Let_def more_simps fold_more split: option.split)

lemma LinkGroup_updateTargetInfo_more [more_simps]:
  "page.more (snd (LinkGroup_updateTargetInfo p t g w)) = page.more w"
  by (simp add: LinkGroup_updateTargetInfo_def case_prod_unfold Let_def more_simps fold_more_page)

lemma Link_updateGraphics_more [more_simps]:
  "page.more (snd (Link_updateGraphics now vp s e o1 o2 l w)) = page.more w"
  by (cases "lk_graphicsObjectInfo l") (simp_all add: Link_updateGraphics_def case_prod_unfold Let_def more_simps)

lemma draw_link_more [more_simps]:
  "page.more (fst (snd (draw_link now vp s e sides width wpl kv acc))) = page.more (fst (snd acc))"
  by (simp add: draw_link_def case_prod_unfold Let_def more_simps)

lemma LinkGroup_redraw_more [more_simps]:
  "page.more (snd (LinkGroup_redraw now cfg vp lc dir sides large g this w)) = page.more w"
proof -
  have "page.more (fst (snd (fold (draw_link now vp s e sides width wpl) xs acc))) = page.more (fst (snd acc))"
    for vp s e sides width wpl xs and acc :: "link obj \<times> 'a page_scheme \<times> nat \<times> jsnum \<times> nat"
    by (induction xs arbitrary: acc) (simp_all add: more_simps)
  then show ?thesis by (simp add: LinkGroup_redraw_def case_prod_unfold Let_def more_simps)
qed

lemma LinkGroup_updateGraphics_more [more_simps]:
  "page.more (snd (LinkGroup_updateGraphics now cfg vp lc rc large this w)) = page.more w"
  by (cases "lg_graphicsObjectInfo this") (simp_all add: LinkGroup_updateGraphics_def case_prod_unfold Let_def more_simps)

section \<open>Effects and devices\<close>

lemma effect_ops_more [more_simps]:
  "page.more (effect_destroy e w) = page.more w"
  "page.more (snd (effect_updateGraphics font e w)) = page.more w"
proof -
  show "page.more (effect_destroy e w) = page.more w"
    by (auto simp: effect_destroy_gfx more_simps split: option.split)
  show "page.more (snd (effect_updateGraphics font e w)) = page.more w"
  proof (cases e)
    case (Focus fe)
    then show ?thesis
      by (cases "fe_graphicsObjectInfo fe") (simp_all add: FocusEffect_updateGraphics_def case_prod_unfold Let_def more_simps)
  next
    case (Text te)
    then show ?thesis
      by (cases "te_graphicsObjectInfo te") (simp_all add: TextEffect_updateGraphics_def case_prod_unfold Let_def more_simps)
  qed
qed

lemma device_topology_more [more_simps]:
  "page.more (snd (ensure_interface k dw)) = page.more (snd dw)"
  "page.more (snd (ensure_linkgroup k dw)) = page.more (snd dw)"
  "page.more (snd (drop_interface k dw)) = page.more (snd dw)"
  "page.more (snd (drop_linkgroup k dw)) = page.more (snd dw)"
  "page.more (snd (expire_interface i x dw)) = page.more (snd dw)"
  "page.more (snd (topo_linkgroup u y dw)) = page.more (snd dw)"
proof -
  show "page.more (snd (ensure_interface k dw)) = page.more (snd dw)"
    by (simp add: ensure_interface_def case_prod_unfold Let_def more_simps)
  show "page.more (snd (ensure_linkgroup k dw)) = page.more (snd dw)"
    by (simp add: ensure_linkgroup_def case_prod_unfold Let_def more_simps)
  show di: "page.more (snd (drop_interface k dw)) = page.more (snd dw)" for k and dw :: "device \<times> 'a page_scheme"
    by (simp add: drop_interface_def case_prod_unfold Let_def more_simps split: option.split)
  show dl: "page.more (snd (drop_linkgroup k dw)) = page.more (snd dw)" for k and dw :: "device \<times> 'a page_scheme"
    by (simp add: drop_linkgroup_def case_prod_unfold Let_def more_simps split: option.split)
  show "page.more (snd (expire_interface i x dw)) = page.more (snd dw)"
    by (simp add: expire_interface_def case_prod_unfold Let_def more_simps di)
  show "page.more (snd (topo_linkgroup u y dw)) = page.more (snd dw)"
    by (simp add: topo_linkgroup_def case_prod_unfold Let_def more_simps dl split: option.split)
qed

lemma topo_interface_more [more_simps]:
  "page.more (snd (snd (topo_interface kv st))) = page.more (snd (snd st))"
  by (simp add: topo_interface_def case_prod_unfold Let_def more_simps split: option.split)

lemma Device_updateTopologyData_more [more_simps]:
  "page.more (snd (Device_updateTopologyData data d w)) = page.more w"
proof -
  have "page.more (snd (snd (fold topo_interface xs st))) = page.more (snd (snd st))"
    for xs and st :: "device \<times> linkinfo obj obj \<times> 'a page_scheme"
    by (induction xs arbitrary: st) (simp_all add: more_simps)
  then show ?thesis by (simp add: Device_updateTopologyData_def case_prod_unfold Let_def more_simps fold_more)
qed

lemma Device_destroy_more [more_simps]: "page.more (snd (Device_destroy d w)) = page.more w"
  by (simp add: Device_destroy_def case_prod_unfold Let_def more_simps fold_more split: option.split)

lemma device_animation_more [more_simps]:
  "page.more (snd (superNodeAnimation d w)) = page.more w"
  "page.more (snd (effectAnimation d w)) = page.more w"
proof -
  show "page.more (snd (superNodeAnimation d w)) = page.more w"
    by (simp add: superNodeAnimation_def case_prod_unfold Let_def more_simps split: option.split)
  have "page.more (snd (animate_effect e st)) = page.more (snd st)" for e and st :: "effect list \<times> 'a page_scheme"
    by (simp add: animate_effect_def case_prod_unfold Let_def more_simps)
  then show "page.more (snd (effectAnimation d w)) = page.more w"
    by (simp add: effectAnimation_def case_prod_unfold Let_def more_simps fold_more)
qed

lemma device_drawing_more [more_simps]:
  "page.more (snd (create_icon layer cfg font d w)) = page.more w"
  "page.more (snd (draw_icon cfg large d w)) = page.more w"
  "page.more (snd (draw_effect font e st)) = page.more (snd st)"
  by (simp_all add: create_icon_def draw_icon_def draw_effect_def case_prod_unfold Let_def more_simps split: option.split)

lemma draw_effects_more [more_simps]: "page.more (snd (draw_effects font d w)) = page.more w"
  by (simp add: draw_effects_def case_prod_unfold Let_def fold_more more_simps)

lemma flags_more [more_simps]: "page.more (w\<lparr>requestGraphicsUpdate := b\<rparr>) = page.more w"
  by simp

lemma device_status_more [more_simps]:
  "page.more (snd (fst (status_flash scr st d w))) = page.more w"
  "page.more (set_iface_status now d kv w) = page.more w"
  "page.more (fst (set_iface_stats now d ks w)) = page.more w"
  "page.more (snd (fst (Device_highlight scr d w))) = page.more w"
  by (auto simp: status_flash_def set_iface_status_def set_iface_stats_def Device_highlight_def case_prod_unfold Let_def more_simps
      ok_def throw_def and_then_def split: option.split)

lemma Device_setStatus_more [more_simps]: "page.more (snd (fst (Device_setStatus now scr st d w))) = page.more w"
proof -
  obtain d1 w1 e where 1: "status_flash scr (ds_state st) (d\<lparr>d_lastUpdate := now\<rparr>) w = ((d1, w1), e)"
    by (metis surj_pair)
  then have "page.more w1 = page.more w"
    using device_status_more(1) [of scr "ds_state st" "d\<lparr>d_lastUpdate := now\<rparr>" w] by simp
  then show ?thesis
    by (cases e) (simp_all add: Device_setStatus_def 1 and_then_def ok_def more_simps fold_more_page)
qed

lemma Device_updateStatistics_more [more_simps]:
  "page.more (snd (fst (Device_updateStatistics now data d w))) = page.more w"
proof -
  have "page.more (fst (for_x (set_iface_stats now d) xs w)) = page.more w" for xs
    by (rule for_x_invariant) (simp_all add: more_simps)
  moreover obtain v e where v: "for_x (set_iface_stats now d) (obj_entries data) w = (v, e)" by fastforce
  ultimately have "page.more v = page.more w" by (metis fst_conv)
  then show ?thesis by (cases e) (simp_all add: Device_updateStatistics_def v ok_def throw_def)
qed

lemma Device_position_more [more_simps]:
  "page.more (snd (Device_requestPosition p d w)) = page.more w"
  "page.more (snd (Device_updateWeathermapPosition data d w)) = page.more w"
  by (simp_all add: Device_requestPosition_def Device_updateWeathermapPosition_def case_prod_unfold Let_def more_simps)

section \<open>One device at a time\<close>

lemma devs_more:
  assumes "page.more w' = page.more (w :: world)"
  shows "devs w' = devs w" and "next_dev w' = next_dev w" and "outbox w' = outbox w"
  using assms by (cases w; cases w'; simp)+

lemma on_dev_world:
  assumes "page.more (snd (m (devs w r) w)) = page.more w"
  shows "devs (on_dev r m w) = (devs w)(r := fst (m (devs w r) w))"
    and "next_dev (on_dev r m w) = next_dev w"
  using devs_more [OF assms] by (simp_all add: on_dev_def case_prod_unfold Let_def)

lemma on_dev_x_world:
  assumes "page.more (snd (fst (m (devs w r) w))) = page.more w"
  shows "devs (fst (on_dev_x r m w)) = (devs w)(r := fst (fst (m (devs w r) w)))"
    and "next_dev (fst (on_dev_x r m w)) = next_dev w"
    and "snd (on_dev_x r m w) = snd (m (devs w r) w)"
  using devs_more [OF assms] by (simp_all add: on_dev_x_def case_prod_unfold Let_def)

lemma on_dev_topology:
  "devs (on_dev r (Device_updateTopologyData v) w) = (devs w)(r := fst (Device_updateTopologyData v (devs w r) w))"
  "next_dev (on_dev r (Device_updateTopologyData v) w) = next_dev w"
  "devs (on_dev r Device_destroy w) = (devs w)(r := fst (Device_destroy (devs w r) w))"
  "next_dev (on_dev r Device_destroy w) = next_dev w"
  by (rule on_dev_world, simp add: more_simps)+

section \<open>The shape of the map\<close>

text \<open>What only a topology document changes: the interfaces and the set of link groups of a device, its
  neighbours and its classification.\<close>

definition same_shape :: "device \<Rightarrow> device \<Rightarrow> bool" where
  "same_shape d d' \<longleftrightarrow> neighborDevices d' = neighborDevices d \<and> superNode d' = superNode d
     \<and> obj_keys (linkGroups d') = obj_keys (linkGroups d) \<and> interfaces d' = interfaces d
     \<and> (groups_ok d \<longrightarrow> groups_ok d')"

definition same_shapes :: "world \<Rightarrow> world \<Rightarrow> bool" where
  "same_shapes w w' \<longleftrightarrow> next_dev w' = next_dev w \<and> (\<forall>r. same_shape (devs w r) (devs w' r))"

lemma same_shape_refl [simp]: "same_shape d d"
  by (simp add: same_shape_def)

lemma same_shape_trans: "same_shape d e \<Longrightarrow> same_shape e f \<Longrightarrow> same_shape d f"
  by (simp add: same_shape_def)

lemma same_shapes_refl [simp]: "same_shapes w w"
  by (simp add: same_shapes_def)

lemma same_shapes_trans: "same_shapes w v \<Longrightarrow> same_shapes v u \<Longrightarrow> same_shapes w u"
  by (simp add: same_shapes_def same_shape_def)

lemma same_shapes_classified: "same_shapes w w' \<Longrightarrow> classified (devs w' r) \<longleftrightarrow> classified (devs w r)"
  by (simp add: same_shapes_def same_shape_def classified_def)

lemma same_shapes_on_dev:
  assumes "page.more (snd (m (devs w r) w)) = page.more w" and "same_shape (devs w r) (fst (m (devs w r) w))"
  shows "same_shapes w (on_dev r m w)"
  using assms on_dev_world [where m = m, OF assms(1)] by (simp add: same_shapes_def)

lemma same_shapes_on_dev_x:
  assumes "page.more (snd (fst (m (devs w r) w))) = page.more w" and "same_shape (devs w r) (fst (fst (m (devs w r) w)))"
  shows "same_shapes w (fst (on_dev_x r m w))"
  using assms on_dev_x_world [where m = m, OF assms(1)] by (simp add: same_shapes_def)

lemma same_shapes_upd_dev: "same_shape (devs w r) (f (devs w r)) \<Longrightarrow> same_shapes w (upd_dev r f w)"
  by (simp add: same_shapes_def upd_dev_def)

lemma same_shapes_more:
  assumes "page.more w' = page.more w"
  shows "same_shapes w w'"
  by (simp add: same_shapes_def devs_more [OF assms])

lemma same_shapes_for_x:
  assumes "\<And>x t. x \<in> set xs \<Longrightarrow> same_shapes t (fst (f x t))"
  shows "same_shapes w (fst (for_x f xs w))"
  by (rule for_x_invariant [where P = "same_shapes w"]) (use assms same_shapes_trans in \<open>simp, blast\<close>)

lemma same_shapes_fold:
  assumes "\<And>x t. x \<in> set xs \<Longrightarrow> same_shapes t (f x t)"
  shows "same_shapes w (fold f xs w)"
  by (rule fold_invariant [where P = "same_shapes w"]) (use assms same_shapes_trans in \<open>simp, blast\<close>)

end
