(* ===== verification/DeviceGraph.thy ===== *)
theory DeviceGraph
  imports Frames
begin

text \<open>
  \<^verbatim>\<open>js/devicegraph.js\<close>: the dictionary of all devices on the map.  It applies the
  documents of the server (topology, states, positions) and the batches of Prometheus samples
  to the devices, and passes the animation and drawing ticks on to them.  The graph's own fields
  are the record \<open>devicegraph\<close>; the device objects are in the store of the world.
\<close>

section \<open>State\<close>

text \<open>
  One entry of the statistics batch.  \<^verbatim>\<open>"interfaces"\<close> starts as an empty array that is
  then used as a dictionary: its entries are what \<^verbatim>\<open>Object.entries\<close> lists, and it has the
  further key \<^verbatim>\<open>length\<close>, a number, which is not listed.  (As for every dictionary, inherited members
  are not modelled.)  The status is absent, null or a number.
\<close>

record batch_entry =
  be_interfaces :: "stats obj"
  be_status :: "jsnum option option"

record devicegraph =
  dg_viewport :: oid
  linkLayer :: oid
  deviceLayer :: oid
  devices :: "devref obj"
  updateBatch :: "batch_entry obj"

definition new_DeviceGraph :: "oid \<Rightarrow> world \<Rightarrow> devicegraph \<times> world" where
  "new_DeviceGraph viewport w =
     (let (ll, w1) = new_drawing [] w;
          (dl, w2) = new_drawing [] w1
      in (\<lparr>dg_viewport = viewport, linkLayer = ll, deviceLayer = dl, devices = [], updateBatch = []\<rparr>,
          upd_scene (addChild viewport dl) (upd_scene (addChild viewport ll) w2)))"

section \<open>Topology\<close>

text \<open>\<open>rnd r\<close>: the two random numbers drawn while device \<open>r\<close> is constructed.\<close>

type_synonym randoms = "devref \<Rightarrow> jsnum \<times> jsnum"

type_synonym topology = "topo_iface obj obj"

definition alloc_dev :: "device \<Rightarrow> world \<Rightarrow> devref \<times> world" where
  "alloc_dev d w = (next_dev w, w\<lparr>devs := (devs w)(next_dev w := d), next_dev := Suc (next_dev w)\<rparr>)"

definition ensure_device :: "randoms \<Rightarrow> string \<Rightarrow> devicegraph \<times> world \<Rightarrow> devicegraph \<times> world" where
  "ensure_device rnd key gw =
     (let (this, w) = gw
      in if \<not> obj_has (devices this) key
         then (let (r, w') = alloc_dev (new_Device key (fst (rnd (next_dev w))) (snd (rnd (next_dev w)))) w
               in (this\<lparr>devices := obj_set key r (devices this)\<rparr>, w'))
         else (this, w))"

definition topo_device ::
  "randoms \<Rightarrow> string \<times> topo_iface obj \<Rightarrow> devicegraph \<times> world \<Rightarrow> devicegraph \<times> world" where
  "topo_device rnd kv gw =
     (let (key, value) = kv;
          (this, w) = ensure_device rnd key gw;
          targetDevice = the (obj_get (devices this) key)
      in (this, on_dev targetDevice (Device_updateTopologyData value) w))"

definition drop_device :: "string \<Rightarrow> devicegraph \<times> world \<Rightarrow> devicegraph \<times> world" where
  "drop_device key gw =
     (let (this, w) = gw
      in case obj_get (devices this) key of None \<Rightarrow> gw
         | Some r \<Rightarrow> (this\<lparr>devices := obj_del key (devices this)\<rparr>, on_dev r Device_destroy w))"

definition expire_device :: "topology \<Rightarrow> string \<times> devref \<Rightarrow> devicegraph \<times> world \<Rightarrow> devicegraph \<times> world" where
  "expire_device data kv gw = (let (key, value) = kv in if \<not> obj_has data key then drop_device key gw else gw)"

definition DeviceGraph_updateTopologyData ::
  "randoms \<Rightarrow> topology \<Rightarrow> devicegraph \<Rightarrow> world \<Rightarrow> devicegraph \<times> world" where
  "DeviceGraph_updateTopologyData rnd data this w =
     (let (this1, w1) = fold (topo_device rnd) (obj_entries data) (this, w);
          (this2, w2) = fold (expire_device data) (obj_entries (devices this1)) (this1, w1)
      in (this2, fold (\<lambda>(key, value). Device_updateLinkgroupData (devices this2) value)
             (obj_entries (devices this2)) w2))"

section \<open>Ticks\<close>

definition DeviceGraph_updateAnimation :: "config \<Rightarrow> devicegraph \<Rightarrow> world \<Rightarrow> world result" where
  "DeviceGraph_updateAnimation cfg this w =
     for_x (\<lambda>(key, value). Device_updateAnimation cfg value) (obj_entries (devices this)) w"

definition DeviceGraph_updateGraphics :: "real \<Rightarrow> config \<Rightarrow> font \<Rightarrow> devicegraph \<Rightarrow> world \<Rightarrow> world result" where
  "DeviceGraph_updateGraphics now cfg font this w =
     for_x (\<lambda>(key, value). Device_updateGraphics now cfg font (linkLayer this) (deviceLayer this) (devices this) value)
       (obj_entries (devices this)) w"

section \<open>The statistics batch\<close>

definition DeviceGraph_beginStatisticsUpdate :: "devicegraph \<Rightarrow> devicegraph" where
  "DeviceGraph_beginStatisticsUpdate this = this\<lparr>updateBatch := []\<rparr>"

definition updateBatchDeviceExists :: "string \<Rightarrow> devicegraph \<Rightarrow> devicegraph" where
  "updateBatchDeviceExists dev this =
     (if \<not> obj_has (updateBatch this) dev
      then this\<lparr>updateBatch := obj_set dev \<lparr>be_interfaces = [], be_status = Some None\<rparr> (updateBatch this)\<rparr>
      else this)"

definition empty_stats :: stats where
  "empty_stats = [(''rx_mbps'', None), (''tx_mbps'', None), (''speed_mbps'', None)]"

text \<open>The operator \<^verbatim>\<open>in\<close> on the array of interfaces.\<close>

definition interfaces_have :: "batch_entry \<Rightarrow> string \<Rightarrow> bool" where
  "interfaces_have e iface \<longleftrightarrow> iface = ''length'' \<or> obj_has (be_interfaces e) iface"

definition updateBatchDeviceInterfaceExists :: "string \<Rightarrow> string \<Rightarrow> devicegraph \<Rightarrow> devicegraph" where
  "updateBatchDeviceInterfaceExists dev iface this =
     (let b1 = (if \<not> obj_has (updateBatch this) dev
                then obj_set dev \<lparr>be_interfaces = [], be_status = None\<rparr> (updateBatch this)
                else updateBatch this);
          e = the (obj_get b1 dev)
      in this\<lparr>updateBatch :=
           (if \<not> interfaces_have e iface
            then obj_set dev (e\<lparr>be_interfaces := obj_set iface empty_stats (be_interfaces e)\<rparr>) b1
            else b1)\<rparr>)"

text \<open>
  \<^verbatim>\<open>this.updateBatch[dev]["interfaces"][name][key] = value\<close>: a module is strict code, in which the
  assignment to a property of a number throws.
\<close>

definition set_batch :: "string \<Rightarrow> string \<Rightarrow> string \<Rightarrow> jsnum \<Rightarrow> devicegraph \<Rightarrow> devicegraph result" where
  "set_batch dev name key value this =
     (let e = the (obj_get (updateBatch this) dev);
          st = the (obj_get (be_interfaces e) name)
      in if name = ''length'' then throw (TypeError ''Cannot create property on number'') this
         else ok (this\<lparr>updateBatch := obj_set dev
           (e\<lparr>be_interfaces := obj_set name (obj_set key (Some value) st) (be_interfaces e)\<rparr>) (updateBatch this)\<rparr>))"

text \<open>
  A member of a Prometheus result: its labels and its value, a time and a decimal text.  Members
  of results that are not instant vectors lack one or both.  A label that is absent reads as
  undefined, which as a key is the text \<^verbatim>\<open>undefined\<close>.
\<close>

record prom_sample =
  ps_metric :: "string obj option"
  ps_value :: "(real \<times> string) option"

definition label :: "string obj \<Rightarrow> string \<Rightarrow> string" where
  "label m key = (case obj_get m key of None \<Rightarrow> ''undefined'' | Some s \<Rightarrow> s)"

definition octets_sample :: "prom_sample \<Rightarrow> devicegraph \<Rightarrow> devicegraph result" where
  "octets_sample metric this =
     (case ps_metric metric of
        None \<Rightarrow> throw (TypeError ''metric is undefined'') this
      | Some m \<Rightarrow>
         (let direction = label m ''direction''; fqdn = label m ''fqdn''; name = label m ''name'';
              this1 = updateBatchDeviceInterfaceExists fqdn name this
          in case ps_value metric of
               None \<Rightarrow> throw (TypeError ''value is undefined'') this1
             | Some (timestamp, txt) \<Rightarrow>
                 set_batch fqdn name (direction @ ''_mbps'') (parse_int 0 txt * 8 / 1000 / 1000) this1))"

definition speed_sample :: "prom_sample \<Rightarrow> devicegraph \<Rightarrow> devicegraph result" where
  "speed_sample metric this =
     (case ps_metric metric of
        None \<Rightarrow> throw (TypeError ''metric is undefined'') this
      | Some m \<Rightarrow>
         (let fqdn = label m ''fqdn''; name = label m ''name'';
              this1 = updateBatchDeviceInterfaceExists fqdn name this
          in case ps_value metric of
               None \<Rightarrow> throw (TypeError ''value is undefined'') this1
             | Some (timestamp, txt) \<Rightarrow> set_batch fqdn name ''speed_mbps'' (parse_int 0 txt) this1))"

definition refresh_stale :: "devicegraph \<Rightarrow> world \<Rightarrow> world" where
  "refresh_stale this w =
     fold (\<lambda>(key, value) w. if Device_isStale (devs w value)
             then upd_dev value Device_interfaceUpdateEvent w else w)
       (obj_entries (devices this)) w"

definition DeviceGraph_updateInterfaceOctetsPerSecond ::
  "prom_sample list \<Rightarrow> devicegraph \<Rightarrow> world \<Rightarrow> (devicegraph \<times> world) result" where
  "DeviceGraph_updateInterfaceOctetsPerSecond v this w =
     (case for_x octets_sample v this of
        (this1, Some e) \<Rightarrow> throw e (this1, w)
      | (this1, None) \<Rightarrow> ok (this1, refresh_stale this1 w))"

definition DeviceGraph_updateInterfaceSpeed ::
  "prom_sample list \<Rightarrow> devicegraph \<Rightarrow> world \<Rightarrow> (devicegraph \<times> world) result" where
  "DeviceGraph_updateInterfaceSpeed v this w =
     (case for_x speed_sample v this of
        (this1, Some e) \<Rightarrow> throw e (this1, w)
      | (this1, None) \<Rightarrow> ok (this1, refresh_stale this1 w))"

definition commit_entry ::
  "real \<Rightarrow> devicegraph \<Rightarrow> string \<times> batch_entry \<Rightarrow> world \<Rightarrow> world result" where
  "commit_entry now this kv w =
     (let (fqdn, data) = kv
      in case obj_get (devices this) fqdn of
           None \<Rightarrow> ok (console_error (''received update for '' @ fqdn @ '' which is not in devices'') w)
         | Some r \<Rightarrow> on_dev_x r (Device_updateStatistics now (be_interfaces data)) w)"

definition DeviceGraph_commitStatisticsUpdate :: "real \<Rightarrow> devicegraph \<Rightarrow> world \<Rightarrow> world result" where
  "DeviceGraph_commitStatisticsUpdate now this w =
     for_x (commit_entry now this) (obj_entries (updateBatch this)) w"

section \<open>Searching, states and positions\<close>

text \<open>
  \<open>regexp name\<close> is what \<^verbatim>\<open>new RegExp(name)\<close> matches, None if the pattern is
  malformed; the regular expressions of the language are a parameter.
\<close>

type_synonym regexp = "string \<Rightarrow> (string \<Rightarrow> bool) option"

definition DeviceGraph_findDevicesByName :: "regexp \<Rightarrow> string \<Rightarrow> devicegraph \<Rightarrow> exn + devref list" where
  "DeviceGraph_findDevicesByName regexp name this =
     (if devices this = [] then Inr []
      else case regexp name of
        None \<Rightarrow> Inl (SyntaxError ''invalid regular expression'')
      | Some matches \<Rightarrow> Inr (map snd (filter (\<lambda>(fqdn, device). matches fqdn) (obj_entries (devices this)))))"

definition status_entry ::
  "real \<Rightarrow> screen \<Rightarrow> devicegraph \<Rightarrow> string \<times> device_status \<Rightarrow> world \<Rightarrow> world result" where
  "status_entry now scr this kv w =
     (let (fqdn, data) = kv
      in case obj_get (devices this) fqdn of
           None \<Rightarrow> ok (console_error (''received status update for non-existing device '' @ fqdn) w)
         | Some r \<Rightarrow> on_dev_x r (Device_setStatus now scr data) w)"

text \<open>One round of the loop that ages the devices.\<close>

definition age_device :: "real \<Rightarrow> string \<times> devref \<Rightarrow> world \<Rightarrow> world" where
  "age_device now kv w = (let (key, value) = kv; w' = upd_dev value (Device_checkStale now) w
     in if Device_isStale (devs w' value) then upd_dev value Device_interfaceUpdateEvent w' else w')"

definition DeviceGraph_updateStatuses ::
  "real \<Rightarrow> screen \<Rightarrow> device_status obj \<Rightarrow> devicegraph \<Rightarrow> world \<Rightarrow> world result" where
  "DeviceGraph_updateStatuses now scr statusInfo this w =
     and_then (for_x (status_entry now scr this) (obj_entries statusInfo) w)
       (\<lambda>w1. ok (fold (age_device now) (obj_entries (devices this)) w1))"

definition DeviceGraph_updatePositions :: "position_info obj \<Rightarrow> devicegraph \<Rightarrow> world \<Rightarrow> world" where
  "DeviceGraph_updatePositions positionInfo this w =
     fold (\<lambda>(fqdn, data) w.
         case obj_get (devices this) fqdn of
           None \<Rightarrow> console_error (''received position update for non-existing device '' @ fqdn) w
         | Some r \<Rightarrow> on_dev r (Device_updateWeathermapPosition data) w)
       (obj_entries positionInfo) w"

section \<open>Topology lemmas\<close>

text \<open>A graph and its store: distinct keys, every device object in the store and in one place only,
  with well-formed dictionaries.\<close>

definition graph_ok :: "devicegraph \<Rightarrow> world \<Rightarrow> bool" where
  "graph_ok g w \<longleftrightarrow> obj_ok (devices g)
     \<and> (\<forall>k r. obj_get (devices g) k = Some r \<longrightarrow> r < next_dev w \<and> groups_ok (devs w r))
     \<and> (\<forall>k k' r. obj_get (devices g) k = Some r \<longrightarrow> obj_get (devices g) k' = Some r \<longrightarrow> k = k')"

lemma graph_okD:
  assumes "graph_ok g w"
  shows "obj_ok (devices g)"
    and "obj_get (devices g) k = Some r \<Longrightarrow> r < next_dev w \<and> groups_ok (devs w r)"
    and "obj_get (devices g) k = Some r \<Longrightarrow> obj_get (devices g) k' = Some r \<Longrightarrow> k = k'"
  using assms unfolding graph_ok_def by blast+

lemma ensure_device_ok:
  assumes ok: "graph_ok g w" and "ensure_device rnd k (g, w) = (g', w')"
  shows "graph_ok g' w' \<and> obj_keys (devices g') = insert k (obj_keys (devices g))
    \<and> (\<forall>k' r. obj_get (devices g) k' = Some r \<longrightarrow> obj_get (devices g') k' = Some r)
    \<and> (\<forall>k' r. k' \<noteq> k \<longrightarrow> obj_get (devices g') k' = Some r \<longrightarrow> obj_get (devices g) k' = Some r \<and> devs w' r = devs w r)"
proof (cases "obj_has (devices g) k")
  case True
  then show ?thesis using assms by (auto simp: ensure_device_def obj_has_iff)
next
  case False
  then have eq: "g' = g\<lparr>devices := obj_set k (next_dev w) (devices g)\<rparr>" "next_dev w' = Suc (next_dev w)"
    "devs w' = (devs w)(next_dev w := new_Device k (fst (rnd (next_dev w))) (snd (rnd (next_dev w))))"
    using assms(2) by (auto simp: ensure_device_def alloc_dev_def)
  have old: "r \<noteq> next_dev w \<and> r < next_dev w \<and> groups_ok (devs w r)" if "obj_get (devices g) k' = Some r" for k' r
    using graph_okD(2) [OF ok that] by auto
  have "obj_get (devices g) k = None" using False by (simp add: obj_has_def)
  then show ?thesis
    using old graph_okD(1,3) [OF ok] False
    by (auto simp: eq graph_ok_def obj_has_iff less_Suc_eq)
qed

lemma topo_device_step:
  assumes ok: "graph_ok g w" and v: "obj_ok v" and step: "topo_device rnd (k, v) (g, w) = (g', w')"
  shows "graph_ok g' w' \<and> obj_keys (devices g') = insert k (obj_keys (devices g))
    \<and> (\<forall>k' r. obj_get (devices g) k' = Some r \<longrightarrow> obj_get (devices g') k' = Some r)
    \<and> (\<exists>r. obj_get (devices g') k = Some r \<and> topo_synced v (devs w' r))
    \<and> (\<forall>k' r. k' \<noteq> k \<longrightarrow> obj_get (devices g') k' = Some r \<longrightarrow> obj_get (devices g) k' = Some r \<and> devs w' r = devs w r)"
proof -
  obtain g1 w1 where 1: "ensure_device rnd k (g, w) = (g1, w1)" by fastforce
  have e: "graph_ok g1 w1" "obj_keys (devices g1) = insert k (obj_keys (devices g))"
    "\<And>k' r. obj_get (devices g) k' = Some r \<Longrightarrow> obj_get (devices g1) k' = Some r"
    "\<And>k' r. k' \<noteq> k \<Longrightarrow> obj_get (devices g1) k' = Some r \<Longrightarrow> obj_get (devices g) k' = Some r \<and> devs w1 r = devs w r"
    using ensure_device_ok [OF ok 1] by blast+
  then obtain r where r: "obj_get (devices g1) k = Some r" using obj_keys_get [of k "devices g1"] by auto
  have g': "g' = g1" "w' = on_dev r (Device_updateTopologyData v) w1"
    using step by (simp_all add: topo_device_def 1 r)
  obtain d' w2 where d': "Device_updateTopologyData v (devs w1 r) w1 = (d', w2)" by fastforce
  have devs: "devs w' = (devs w1)(r := d')" "next_dev w' = next_dev w1"
    by (simp_all add: g' on_dev_topology d')
  have "groups_ok (devs w1 r)" using graph_okD(2) [OF e(1) r] by blast
  then have sync: "topo_synced v d'" using Device_topology_synced [OF v _ d'] by blast
  have other: "r' \<noteq> r" if "obj_get (devices g1) k' = Some r'" "k' \<noteq> k" for k' r'
    using graph_okD(3) [OF e(1) r] that by blast
  have "r' < next_dev w' \<and> groups_ok (devs w' r')" if "obj_get (devices g') k' = Some r'" for k' r'
    using graph_okD(2) [OF e(1), of k' r'] that sync by (simp add: devs g'(1) topo_synced_def)
  then have "graph_ok g' w'"
    using graph_okD(1,3) [OF e(1)] unfolding graph_ok_def g'(1) by blast
  moreover have "\<exists>r. obj_get (devices g') k = Some r \<and> topo_synced v (devs w' r)"
    using r sync by (simp add: g'(1) devs)
  moreover have "obj_get (devices g) k' = Some r' \<and> devs w' r' = devs w r'"
    if "k' \<noteq> k" "obj_get (devices g') k' = Some r'" for k' r'
    using e(4) [of k' r'] other [of k' r'] that by (simp add: g'(1) devs)
  moreover have "obj_keys (devices g') = insert k (obj_keys (devices g))" using e(2) by (simp only: g'(1))
  moreover have "obj_get (devices g') k' = Some r'" if "obj_get (devices g) k' = Some r'" for k' r'
    using e(3) [OF that] by (simp only: g'(1))
  ultimately show ?thesis by blast
qed

lemma topo_devices:
  assumes "graph_ok g w" and "\<And>k v. (k, v) \<in> set xs \<Longrightarrow> obj_ok v" and "distinct (map fst xs)"
    and "fold (topo_device rnd) xs (g, w) = (g', w')"
  shows "graph_ok g' w' \<and> obj_keys (devices g') = obj_keys (devices g) \<union> obj_keys xs
    \<and> (\<forall>k r. obj_get (devices g) k = Some r \<longrightarrow> obj_get (devices g') k = Some r)
    \<and> (\<forall>k v. (k, v) \<in> set xs \<longrightarrow> (\<exists>r. obj_get (devices g') k = Some r \<and> topo_synced v (devs w' r)))"
  using assms
proof (induction xs arbitrary: g' w' rule: rev_induct)
  case (snoc x xs)
  obtain k v where x: "x = (k, v)" by fastforce
  obtain g1 w1 where 1: "fold (topo_device rnd) xs (g, w) = (g1, w1)" by fastforce
  have 2: "topo_device rnd (k, v) (g1, w1) = (g', w')" using snoc.prems(4) by (simp add: 1 x)
  have IH: "graph_ok g1 w1" "obj_keys (devices g1) = obj_keys (devices g) \<union> obj_keys xs"
    "\<And>k r. obj_get (devices g) k = Some r \<Longrightarrow> obj_get (devices g1) k = Some r"
    "\<And>k v. (k, v) \<in> set xs \<Longrightarrow> \<exists>r. obj_get (devices g1) k = Some r \<and> topo_synced v (devs w1 r)"
  proof -
    have "obj_ok v" if "(k, v) \<in> set xs" for k v using snoc.prems(2) [of k v] that by simp
    moreover have "distinct (map fst xs)" using snoc.prems(3) by simp
    ultimately show "graph_ok g1 w1" "obj_keys (devices g1) = obj_keys (devices g) \<union> obj_keys xs"
      "\<And>k r. obj_get (devices g) k = Some r \<Longrightarrow> obj_get (devices g1) k = Some r"
      "\<And>k v. (k, v) \<in> set xs \<Longrightarrow> \<exists>r. obj_get (devices g1) k = Some r \<and> topo_synced v (devs w1 r)"
      using snoc.IH [OF snoc.prems(1) _ _ 1] by blast+
  qed
  have v: "obj_ok v" using snoc.prems(2) [of k v] by (simp add: x)
  note step = topo_device_step [OF IH(1) v 2]
  have "\<exists>r. obj_get (devices g') k' = Some r \<and> topo_synced v' (devs w' r)" if k': "(k', v') \<in> set xs" for k' v'
  proof -
    have "k' \<noteq> k" using k' snoc.prems(3) by (force simp: x)
    moreover obtain r where "obj_get (devices g1) k' = Some r" "topo_synced v' (devs w1 r)" using IH(4) [OF k'] by blast
    ultimately show ?thesis using step by metis
  qed
  then show ?case using step IH(2,3) by (auto simp: x obj_keys_def)
qed simp

lemma drop_device_ok:
  assumes ok: "graph_ok g w" and "drop_device k (g, w) = (g', w')"
  shows "graph_ok g' w' \<and> (\<forall>k'. obj_get (devices g') k' = (if k' = k then None else obj_get (devices g) k'))
    \<and> (\<forall>k' r. obj_get (devices g') k' = Some r \<longrightarrow> devs w' r = devs w r)"
proof (cases "obj_get (devices g) k")
  case None
  then show ?thesis using assms by (auto simp: drop_device_def)
next
  case (Some r)
  then have g': "g' = g\<lparr>devices := obj_del k (devices g)\<rparr>" "w' = on_dev r Device_destroy w"
    using assms(2) by (auto simp: drop_device_def)
  have w': "devs w' = (devs w)(r := fst (Device_destroy (devs w r) w))" "next_dev w' = next_dev w"
    by (simp_all add: g' on_dev_topology)
  have "r' \<noteq> r" if "obj_get (devices g) k' = Some r'" "k' \<noteq> k" for k' r'
    using graph_okD(3) [OF ok Some] that by blast
  then show ?thesis using graph_okD [OF ok] by (auto simp: graph_ok_def w') (auto simp: g' split: if_splits)
qed

lemma expire_devices:
  assumes "graph_ok g w" and "fold (expire_device data) xs (g, w) = (g', w')"
  shows "graph_ok g' w'
    \<and> (\<forall>k. obj_get (devices g') k = (if k \<in> obj_keys xs \<and> \<not> obj_has data k then None else obj_get (devices g) k))
    \<and> (\<forall>k r. obj_get (devices g') k = Some r \<longrightarrow> devs w' r = devs w r)"
  using assms
proof (induction xs arbitrary: g' w' rule: rev_induct)
  case (snoc x xs)
  obtain k v where x: "x = (k, v)" by fastforce
  obtain g1 w1 where 1: "fold (expire_device data) xs (g, w) = (g1, w1)" by fastforce
  note IH = snoc.IH [OF snoc.prems(1) 1]
  have 2: "expire_device data (k, v) (g1, w1) = (g', w')" using snoc.prems(2) by (simp add: 1 x)
  have keys: "obj_keys (xs @ [x]) = insert k (obj_keys xs)" by (auto simp: x obj_keys_def)
  show ?case
  proof (cases "obj_has data k")
    case True
    then have "g' = g1" "w' = w1" using 2 by (simp_all add: expire_device_def)
    then show ?thesis using IH True by (auto simp: keys)
  next
    case False
    then have "drop_device k (g1, w1) = (g', w')" using 2 by (simp add: expire_device_def)
    from drop_device_ok [OF conjunct1 [OF IH] this] IH False show ?thesis
      by (auto simp: keys split: if_splits)
  qed
qed simp

text \<open>Connecting the devices to each other leaves their topology as it is.\<close>

definition same_topology :: "device \<Rightarrow> device \<Rightarrow> bool" where
  "same_topology d d' \<longleftrightarrow> interfaces d' = interfaces d \<and> (obj_ok (linkGroups d) \<longrightarrow> obj_ok (linkGroups d'))
     \<and> (\<forall>f. map_option groupedLinks (obj_get (linkGroups d') f) = map_option groupedLinks (obj_get (linkGroups d) f))"

lemma same_topology_refl [simp]: "same_topology d d"
  by (simp add: same_topology_def)

lemma same_topology_trans: "same_topology a b \<Longrightarrow> same_topology b c \<Longrightarrow> same_topology a c"
  by (simp add: same_topology_def)

lemma same_topology_get:
  assumes "same_topology d d'" and "obj_get (linkGroups d') f = Some g'"
  shows "\<exists>g. obj_get (linkGroups d) f = Some g \<and> groupedLinks g' = groupedLinks g"
proof -
  have "map_option groupedLinks (obj_get (linkGroups d) f) = Some (groupedLinks g')"
    using assms by (metis (no_types) option.simps(9) same_topology_def)
  then show ?thesis by auto
qed

lemma same_topology_keys:
  assumes "same_topology d d'"
  shows "obj_keys (linkGroups d') = obj_keys (linkGroups d)"
proof -
  have "obj_get (linkGroups d') f = None \<longleftrightarrow> obj_get (linkGroups d) f = None" for f
    using assms by (metis (no_types) option.map_disc_iff same_topology_def)
  then show ?thesis unfolding obj_get_None_iff by blast
qed

lemma same_topology_ok:
  assumes "same_topology d d'" and "groups_ok d"
  shows "groups_ok d'"
proof -
  have "obj_ok (interfaces d')" "obj_ok (linkGroups d')"
    using assms by (simp_all add: same_topology_def groups_ok_def)
  moreover have "obj_ok (groupedLinks g)" if "obj_get (linkGroups d') f = Some g" for f g
    using same_topology_get [OF assms(1) that] assms(2) by (auto simp: groups_ok_def)
  ultimately show ?thesis by (simp add: groups_ok_def)
qed

lemma same_topology_synced:
  assumes "same_topology d d'" and "topo_synced data d"
  shows "topo_synced data d'"
proof -
  have "obj_keys (groupedLinks g) = cables data f" if "obj_get (linkGroups d') f = Some g" for f g
    using same_topology_get [OF assms(1) that] assms(2) by (auto simp: topo_synced_def)
  moreover have "interfaces d' = interfaces d" using assms(1) by (simp add: same_topology_def)
  ultimately show ?thesis
    using assms(2) same_topology_ok [OF assms(1)] same_topology_keys [OF assms(1)] by (simp add: topo_synced_def)
qed

lemma link_target_devs:
  assumes "map_option groupedLinks (obj_get (linkGroups (devs w r)) k) = Some (groupedLinks g)"
    and "link_target ds r (k, g) (nbrs, w) = (nbrs', w')"
  shows "next_dev w' = next_dev w \<and> (\<forall>r'. r' \<noteq> r \<longrightarrow> devs w' r' = devs w r')
    \<and> same_topology (devs w r) (devs w' r)"
proof (cases "obj_get ds k")
  case None
  have "page.more (console_error m w) = page.more w" for m by (simp add: more_simps)
  from devs_more [OF this] None assms(2) show ?thesis by (auto simp: link_target_def)
next
  case (Some t)
  obtain g' w1 where g': "LinkGroup_updateTargetInfo (Device_getPosition (devs w t)) (interfaces (devs w t)) g w = (g', w1)"
    by fastforce
  then have "page.more w1 = page.more w" and gl: "groupedLinks g' = groupedLinks g"
    using LinkGroup_updateTargetInfo_more [of "Device_getPosition (devs w t)" "interfaces (devs w t)" g w]
    by (auto simp: LinkGroup_updateTargetInfo_def)
  note w1 = devs_more [OF this(1)]
  have w': "w' = upd_dev r (\<lambda>d. d\<lparr>linkGroups := obj_set k g' (linkGroups d)\<rparr>) w1"
    using assms(2) Some g' by (simp add: link_target_def)
  have "same_topology d (d\<lparr>linkGroups := obj_set k g' (linkGroups d)\<rparr>)"
    if "map_option groupedLinks (obj_get (linkGroups d) k) = Some (groupedLinks g)" for d
    using that by (auto simp: same_topology_def gl)
  with assms(1) show ?thesis by (simp add: w' upd_dev_def w1)
qed

lemma link_targets_devs:
  assumes "\<And>k g. (k, g) \<in> set xs \<Longrightarrow> map_option groupedLinks (obj_get (linkGroups (devs w r)) k) = Some (groupedLinks g)"
    and "fold (link_target ds r) xs (nbrs, w) = (nbrs', w')"
  shows "next_dev w' = next_dev w \<and> (\<forall>r'. r' \<noteq> r \<longrightarrow> devs w' r' = devs w r')
    \<and> same_topology (devs w r) (devs w' r)"
  using assms
proof (induction xs arbitrary: nbrs w)
  case (Cons x xs)
  obtain k g where x: "x = (k, g)" by fastforce
  obtain n1 w1 where 1: "link_target ds r (k, g) (nbrs, w) = (n1, w1)" by fastforce
  have "map_option groupedLinks (obj_get (linkGroups (devs w r)) k) = Some (groupedLinks g)"
    using Cons.prems(1) [of k g] by (simp add: x)
  note step = link_target_devs [OF this 1]
  have 2: "fold (link_target ds r) xs (n1, w1) = (nbrs', w')" using Cons.prems(2) by (simp add: x 1)
  have "map_option groupedLinks (obj_get (linkGroups (devs w1 r)) k') = Some (groupedLinks g')"
    if "(k', g') \<in> set xs" for k' g'
    using Cons.prems(1) [of k' g'] step that by (simp add: same_topology_def)
  from Cons.IH [OF this 2] step show ?case by (metis same_topology_trans)
qed simp

lemma Device_updateLinkgroupData_devs:
  assumes "groups_ok (devs w r)"
  shows "next_dev (Device_updateLinkgroupData ds r w) = next_dev w"
    and "r' \<noteq> r \<Longrightarrow> devs (Device_updateLinkgroupData ds r w) r' = devs w r'"
    and "same_topology (devs w r) (devs (Device_updateLinkgroupData ds r w) r)"
proof -
  obtain nbrs w1 where 1: "fold (link_target ds r) (obj_entries (linkGroups (devs w r))) ([], w) = (nbrs, w1)"
    by fastforce
  have "map_option groupedLinks (obj_get (linkGroups (devs w r)) k) = Some (groupedLinks g)"
    if "(k, g) \<in> set (obj_entries (linkGroups (devs w r)))" for k g
    using that assms by (simp add: groups_ok_def obj_get_in)
  note fld = link_targets_devs [OF this 1]
  have flds: "same_topology d (d\<lparr>neighborDevices := n, superNode := s\<rparr>)" for d n s
    by (simp add: same_topology_def)
  show "next_dev (Device_updateLinkgroupData ds r w) = next_dev w"
    "r' \<noteq> r \<Longrightarrow> devs (Device_updateLinkgroupData ds r w) r' = devs w r'"
    "same_topology (devs w r) (devs (Device_updateLinkgroupData ds r w) r)"
    using fld same_topology_trans [OF _ flds]
    by (auto simp: Device_updateLinkgroupData_def 1 upd_dev_def Let_def)
qed

text \<open>The devices on the map, and a device that is connected to it: it is classified, and its neighbours are
  on the map.\<close>

definition map_devices :: "devicegraph \<Rightarrow> devref set" where
  "map_devices g = {r. \<exists>k. obj_get (devices g) k = Some r}"

definition connected :: "devicegraph \<Rightarrow> device \<Rightarrow> bool" where
  "connected g d \<longleftrightarrow> classified d \<and> set (neighborDevices d) \<subseteq> map_devices g"

lemma Device_updateLinkgroupData_connected:
  "connected g (devs (Device_updateLinkgroupData (devices g) r w) r)"
  by (auto simp: connected_def Device_updateLinkgroupData_classified Device_updateLinkgroupData_neighbours
      map_devices_def obj_has_def)

lemma link_devices:
  assumes "graph_ok g w" and "\<And>k r. (k, r) \<in> set xs \<Longrightarrow> obj_get (devices g) k = Some r"
  defines "w' \<equiv> fold (\<lambda>(key, value). Device_updateLinkgroupData (devices g) value) xs w"
  shows "next_dev w' = next_dev w \<and> graph_ok g w'
    \<and> (\<forall>k r. obj_get (devices g) k = Some r \<longrightarrow> same_topology (devs w r) (devs w' r))
    \<and> (\<forall>k r. (k, r) \<in> set xs \<longrightarrow> connected g (devs w' r))"
  using assms(1,2) unfolding w'_def
proof (induction xs rule: rev_induct)
  case (snoc x xs)
  obtain k r where x: "x = (k, r)" by fastforce
  define w1 where "w1 = fold (\<lambda>(key, value). Device_updateLinkgroupData (devices g) value) xs w"
  have IH: "next_dev w1 = next_dev w" "graph_ok g w1"
    "\<And>k r. obj_get (devices g) k = Some r \<Longrightarrow> same_topology (devs w r) (devs w1 r)"
    "\<And>k r. (k, r) \<in> set xs \<Longrightarrow> connected g (devs w1 r)"
    using snoc.IH [OF snoc.prems(1)] snoc.prems(2) unfolding w1_def by auto
  have r: "obj_get (devices g) k = Some r" using snoc.prems(2) [of k r] by (simp add: x)
  define w2 where "w2 = Device_updateLinkgroupData (devices g) r w1"
  have "groups_ok (devs w1 r)" using graph_okD(2) [OF IH(2) r] by blast
  note step = Device_updateLinkgroupData_devs [OF this, where ds = "devices g", folded w2_def]
  have same: "same_topology (devs w1 r') (devs w2 r')" for r' using step(2,3) by (cases "r' = r") auto
  have "connected g (devs w2 r')" if "(k', r') \<in> set (xs @ [x])" for k' r'
    using that IH(4) step(2) Device_updateLinkgroupData_connected [of g r w1, folded w2_def]
    by (cases "r' = r") (auto simp: x)
  moreover have "graph_ok g w2"
    using IH(2) same same_topology_ok step(1) unfolding graph_ok_def by metis
  moreover have "same_topology (devs w r') (devs w2 r')" if "obj_get (devices g) k' = Some r'" for k' r'
    using IH(3) [OF that] same by (rule same_topology_trans)
  moreover have "fold (\<lambda>(key, value). Device_updateLinkgroupData (devices g) value) (xs @ [x]) w = w2"
    by (simp add: x w2_def w1_def)
  ultimately show ?case using step(1) IH(1) by auto
qed simp

definition topology_ok :: "topology \<Rightarrow> bool" where
  "topology_ok data \<longleftrightarrow> obj_ok data \<and> (\<forall>(k, v) \<in> set data. obj_ok v)"

text \<open>What a device has besides its place in the topology; no topology document changes it.\<close>

definition own_state :: "device \<Rightarrow> device" where
  "own_state d = d\<lparr>interfaces := [], linkGroups := [], neighborDevices := [], superNode := None\<rparr>"

lemma own_state_fields [simp]:
  "own_state (d\<lparr>interfaces := i\<rparr>) = own_state d" "own_state (d\<lparr>linkGroups := l\<rparr>) = own_state d"
  "own_state (d\<lparr>neighborDevices := n\<rparr>) = own_state d" "own_state (d\<lparr>superNode := s\<rparr>) = own_state d"
  by (simp_all add: own_state_def)

lemma own_state_eq:
  "own_state d' = own_state d \<Longrightarrow>
    d' = d\<lparr>interfaces := interfaces d', linkGroups := linkGroups d', neighborDevices := neighborDevices d', superNode := superNode d'\<rparr>"
  by (cases d; cases d'; simp add: own_state_def)

lemma own_state_steps:
  "own_state (fst (drop_interface k (d, w))) = own_state d"
  "own_state (fst (drop_linkgroup k (d, w))) = own_state d"
  "own_state (fst (ensure_interface k (d, w))) = own_state d"
  "own_state (fst (ensure_linkgroup k (d, w))) = own_state d"
  by (simp_all add: drop_interface_def drop_linkgroup_def ensure_interface_def ensure_linkgroup_def case_prod_unfold Let_def
      split: option.split)

lemma own_state_topology_steps:
  "own_state (fst (topo_interface kv (d, u, w))) = own_state d"
  "own_state (fst (expire_interface data kv' (d, w))) = own_state d"
  "own_state (fst (topo_linkgroup v kv'' (d, w))) = own_state d"
  using own_state_steps(3,4)
  by (simp_all add: topo_interface_def expire_interface_def topo_linkgroup_def own_state_steps case_prod_unfold Let_def
      split: option.split)

lemma fold_own_state:
  assumes "\<And>x s. own_state (fst (f x s)) = own_state (fst s)"
  shows "own_state (fst (fold f xs s)) = own_state (fst s)"
  using assms by (induction xs arbitrary: s) simp_all

lemma Device_topology_own: "own_state (fst (Device_updateTopologyData data d w)) = own_state d"
proof -
  have a: "own_state (fst (fold topo_interface xs s)) = own_state (fst s)" for xs and s :: "device \<times> linkinfo obj obj \<times> 'a page_scheme"
    by (rule fold_own_state) (metis own_state_topology_steps(1) prod.collapse)
  have b: "own_state (fst (fold (expire_interface data) xs s)) = own_state (fst s)" for xs and s :: "device \<times> 'a page_scheme"
    by (rule fold_own_state) (metis own_state_topology_steps(2) prod.collapse)
  have c: "own_state (fst (fold (topo_linkgroup u) xs s)) = own_state (fst s)" for u xs and s :: "device \<times> 'a page_scheme"
    by (rule fold_own_state) (metis own_state_topology_steps(3) prod.collapse)
  show ?thesis
    by (simp add: Device_updateTopologyData_def case_prod_unfold Let_def a b c)
qed

lemma topo_device_own:
  assumes "r < next_dev w" and "topo_device rnd kv (g, w) = (g', w')"
  shows "own_state (devs w' r) = own_state (devs w r) \<and> next_dev w \<le> next_dev w'"
proof -
  obtain k v where kv: "kv = (k, v)" by fastforce
  obtain g1 w1 where 1: "ensure_device rnd k (g, w) = (g1, w1)" by fastforce
  have e: "devs w1 r = devs w r" "next_dev w \<le> next_dev w1"
    using assms(1) 1 by (auto simp: ensure_device_def alloc_dev_def case_prod_unfold Let_def split: if_splits)
  have "w' = on_dev (the (obj_get (devices g1) k)) (Device_updateTopologyData v) w1"
    using assms(2) by (auto simp: topo_device_def 1 kv)
  then have "own_state (devs w' r) = own_state (devs w1 r)" "next_dev w' = next_dev w1"
    by (auto simp: on_dev_topology Device_topology_own)
  with e show ?thesis by simp
qed

lemma topo_devices_own:
  assumes "r < next_dev w" and "fold (topo_device rnd) xs (g, w) = (g', w')"
  shows "own_state (devs w' r) = own_state (devs w r) \<and> next_dev w \<le> next_dev w'"
  using assms
proof (induction xs arbitrary: g w)
  case (Cons x xs)
  obtain g1 w1 where 1: "topo_device rnd x (g, w) = (g1, w1)" by fastforce
  have s: "own_state (devs w1 r) = own_state (devs w r)" "next_dev w \<le> next_dev w1"
    using topo_device_own [OF Cons.prems(1) 1] by auto
  have "own_state (devs w' r) = own_state (devs w1 r) \<and> next_dev w1 \<le> next_dev w'"
    by (rule Cons.IH [of w1 g1]) (use s Cons.prems 1 in auto)
  with s show ?case by simp
qed simp

lemma link_target_own: "own_state (devs (snd (link_target ds this kv (nbrs, w))) r) = own_state (devs w r)"
proof -
  obtain k v where kv: "kv = (k, v)" by fastforce
  show ?thesis
  proof (cases "obj_get ds k")
    case None
    have "page.more (console_error m w) = page.more w" for m by (simp add: more_simps)
    from devs_more [OF this] None show ?thesis by (simp add: link_target_def kv)
  next
    case (Some t)
    have "page.more (snd (LinkGroup_updateTargetInfo p i v w)) = page.more w" for p i by (simp add: more_simps LinkGroup_updateTargetInfo_more)
    from devs_more [OF this] Some show ?thesis
      by (simp add: link_target_def kv case_prod_unfold Let_def upd_dev_def)
  qed
qed

lemma Device_updateLinkgroupData_own:
  "own_state (devs (Device_updateLinkgroupData ds this w) r) = own_state (devs w r)"
proof -
  have "own_state (devs (snd (fold (link_target ds this) xs s)) r) = own_state (devs (snd s) r)" for xs s r
    by (induction xs arbitrary: s) (simp, metis fold_simps(2) link_target_own prod.collapse)
  then show ?thesis
    by (simp add: Device_updateLinkgroupData_def case_prod_unfold Let_def upd_dev_def)
qed

lemma link_devices_own:
  "own_state (devs (fold (\<lambda>(key, value). Device_updateLinkgroupData ds value) xs w) r) = own_state (devs w r)"
  by (induction xs arbitrary: w) (auto simp: Device_updateLinkgroupData_own)

lemma DeviceGraph_topology_aux:
  assumes ok: "graph_ok g w" and data: "topology_ok data"
    and step: "DeviceGraph_updateTopologyData rnd data g w = (g', w')"
  shows "obj_keys (devices g') = obj_keys data"
    and "obj_get (devices g) k = Some r \<Longrightarrow> obj_has data k \<Longrightarrow> obj_get (devices g') k = Some r"
    and "obj_get data k = Some v \<Longrightarrow> \<exists>r. obj_get (devices g') k = Some r \<and> topo_synced v (devs w' r)"
    and "obj_get (devices g') k = Some r \<Longrightarrow> connected g' (devs w' r)"
    and "graph_ok g' w'"
    and "obj_get (devices g) k = Some r \<Longrightarrow> obj_has data k \<Longrightarrow> own_state (devs w' r) = own_state (devs w r)"
proof -
  obtain g1 w1 where 1: "fold (topo_device rnd) (obj_entries data) (g, w) = (g1, w1)" by fastforce
  obtain g2 w2 where 2: "fold (expire_device data) (obj_entries (devices g1)) (g1, w1) = (g2, w2)" by fastforce
  have 3: "g' = g2" "w' = fold (\<lambda>(key, value). Device_updateLinkgroupData (devices g2) value) (obj_entries (devices g2)) w2"
    using step by (auto simp: DeviceGraph_updateTopologyData_def 1 2)
  have d: "obj_ok data" "\<And>k v. (k, v) \<in> set (obj_entries data) \<Longrightarrow> obj_ok v"
    using data by (auto simp: topology_ok_def)
  have "distinct (map fst (obj_entries data))" using obj_ok_entries [OF d(1)] by (simp add: obj_ok_def)
  note t = topo_devices [OF ok d(2) this 1]
  have t: "graph_ok g1 w1" "obj_keys (devices g1) = obj_keys (devices g) \<union> obj_keys data"
    "\<And>k r. obj_get (devices g) k = Some r \<Longrightarrow> obj_get (devices g1) k = Some r"
    "\<And>k v. obj_get data k = Some v \<Longrightarrow> \<exists>r. obj_get (devices g1) k = Some r \<and> topo_synced v (devs w1 r)"
    using t by (auto simp: obj_getD)
  have e: "graph_ok g2 w2"
    "\<And>k. obj_get (devices g2) k = (if \<not> obj_has data k then None else obj_get (devices g1) k)"
    "\<And>k r. obj_get (devices g2) k = Some r \<Longrightarrow> devs w2 r = devs w1 r"
    using expire_devices [OF t(1) 2] obj_get_None_iff [of "devices g1"] by auto
  have entry: "obj_get (devices g2) k = Some r" if "(k, r) \<in> set (obj_entries (devices g2))" for k r
    using that graph_okD(1) [OF e(1)] by (simp add: obj_get_in)
  note l = link_devices [where xs = "obj_entries (devices g2)", OF e(1) entry, folded 3(2)]
  have l: "graph_ok g2 w'" "\<And>k r. obj_get (devices g2) k = Some r \<Longrightarrow> same_topology (devs w2 r) (devs w' r)"
    "\<And>k r. obj_get (devices g2) k = Some r \<Longrightarrow> connected g2 (devs w' r)"
    using l by (auto simp: 3(1) dest: obj_getD)
  show "graph_ok g' w'" using l(1) by (simp add: 3(1))
  show "obj_get (devices g') k = Some r \<Longrightarrow> connected g' (devs w' r)" using l(3) by (simp add: 3(1))
  show "obj_get (devices g) k = Some r \<Longrightarrow> obj_has data k \<Longrightarrow> obj_get (devices g') k = Some r"
    using t(3) e(2) by (simp add: 3(1))
  show "own_state (devs w' r) = own_state (devs w r)" if "obj_get (devices g) k = Some r" "obj_has data k"
  proof -
    have "r < next_dev w" using graph_okD(2) [OF ok that(1)] by blast
    then have "own_state (devs w1 r) = own_state (devs w r)" using topo_devices_own [OF _ 1] by blast
    moreover have "obj_get (devices g2) k = Some r" using t(3) e(2) that by simp
    then have "devs w2 r = devs w1 r" by (rule e(3))
    ultimately show ?thesis by (simp add: 3(2) link_devices_own)
  qed
  show "\<exists>r. obj_get (devices g') k = Some r \<and> topo_synced v (devs w' r)" if v: "obj_get data k = Some v"
  proof -
    obtain r where r: "obj_get (devices g1) k = Some r" "topo_synced v (devs w1 r)" using t(4) [OF v] by blast
    then have g2: "obj_get (devices g2) k = Some r" using e(2) v by (simp add: obj_has_def)
    then have "topo_synced v (devs w' r)" using r(2) l(2) [OF g2] e(3) [OF g2] same_topology_synced by metis
    with g2 show ?thesis by (simp add: 3(1))
  qed
  have "obj_get (devices g2) k = None \<longleftrightarrow> k \<notin> obj_keys data" for k
    using e(2) [of k] t(2) obj_get_None_iff [of "devices g1" k] by (auto simp: obj_has_iff)
  then show "obj_keys (devices g') = obj_keys data" unfolding 3(1) obj_get_None_iff by blast
qed

text \<open>C4: A topology document makes the map agree with it: the devices are exactly those of the document,
  the ones already there are the same objects as before, with everything but their place in the topology
  (interfaces, link groups, neighbours, class) as it was: status, staleness, position, requested position,
  drawing objects, effects, drag and settings.  Every one has the interfaces, link groups and links of its
  part of the document, and a classification as super node or edge node.\<close>

theorem DeviceGraph_topology_sync:
  assumes "graph_ok g w" and "topology_ok data"
    and "DeviceGraph_updateTopologyData rnd data g w = (g', w')"
  shows "obj_keys (devices g') = obj_keys data
    \<and> (\<forall>k r. obj_get (devices g) k = Some r \<longrightarrow> obj_has data k \<longrightarrow>
          obj_get (devices g') k = Some r
          \<and> devs w' r = (devs w r)\<lparr>interfaces := interfaces (devs w' r), linkGroups := linkGroups (devs w' r),
               neighborDevices := neighborDevices (devs w' r), superNode := superNode (devs w' r)\<rparr>)
    \<and> (\<forall>k v. obj_get data k = Some v \<longrightarrow>
          (\<exists>r. obj_get (devices g') k = Some r \<and> topo_synced v (devs w' r) \<and> classified (devs w' r)))
    \<and> graph_ok g' w'"
  using DeviceGraph_topology_aux [OF assms] own_state_eq unfolding connected_def by blast

lemma graph_ok_empty [simp]: "graph_ok (fst (new_DeviceGraph v w)) w'"
  by (simp add: new_DeviceGraph_def graph_ok_def case_prod_unfold)

section \<open>Drawing lemmas\<close>

lemma draw_linkgroup_missing:
  assumes "obj_get ds k = None"
  shows "draw_linkgroup now cfg layer ds large r (k, g) w = throw (TypeError ''devices[key] is undefined'') w"
  unfolding draw_linkgroup_def prod.case Let_def assms option.case by (rule refl)

lemma draw_linkgroup_present:
  assumes "obj_get ds k = Some t" and "classified (devs w t)"
  shows "\<exists>g' w1. draw_linkgroup now cfg layer ds large r (k, g) w
      = ok (upd_dev r (\<lambda>d. d\<lparr>linkGroups := obj_set k g' (linkGroups d)\<rparr>) w1) \<and> page.more w1 = page.more w
      \<and> (obj_ok (groupedLinks g) \<longrightarrow> obj_ok (groupedLinks g'))"
proof -
  obtain b where b: "Device_isLargeIcon w t = Inr b" using isLargeIcon_classified assms(2) by blast
  have big: "(if large then Device_isLargeIcon w t else Inr False) = Inr (large \<and> b)" by (simp add: b)
  obtain g' w1 where g': "LinkGroup_updateGraphics now cfg layer (Device_getPosition (devs w r))
      (victor_clone (Device_getPosition (devs w t))) (large \<and> b) g w = (g', w1)" by fastforce
  have "page.more w1 = page.more w"
    using LinkGroup_updateGraphics_more [of now cfg layer "Device_getPosition (devs w r)"
        "victor_clone (Device_getPosition (devs w t))" "large \<and> b" g w] by (simp add: g')
  moreover have "obj_ok (groupedLinks g) \<longrightarrow> obj_ok (groupedLinks g')"
    using LinkGroup_updateGraphics_links(2) [of g now cfg layer "Device_getPosition (devs w r)"
        "victor_clone (Device_getPosition (devs w t))" "large \<and> b" w] by (simp add: g')
  moreover have "draw_linkgroup now cfg layer ds large r (k, g) w
      = ok (upd_dev r (\<lambda>d. d\<lparr>linkGroups := obj_set k g' (linkGroups d)\<rparr>) w1)"
    unfolding draw_linkgroup_def Let_def prod.case assms(1) option.case big sum.case g' ..
  ultimately show ?thesis by blast
qed

lemma draw_linkgroup_result:
  assumes "k \<in> obj_keys (linkGroups (devs w r))" and "obj_ok (groupedLinks g)"
    and "\<And>t. obj_get ds k = Some t \<Longrightarrow> classified (devs w t)"
  shows "(returns (draw_linkgroup now cfg layer ds large r (k, g) w) \<longleftrightarrow> k \<in> obj_keys ds)
    \<and> same_shapes w (fst (draw_linkgroup now cfg layer ds large r (k, g) w))"
proof (cases "obj_get ds k")
  case None
  then show ?thesis by (simp add: draw_linkgroup_missing) (simp add: obj_get_None_iff)
next
  case (Some t)
  from draw_linkgroup_present [OF Some assms(3) [OF Some], of now cfg layer large r g] assms(2)
  obtain g' w1 where eq: "draw_linkgroup now cfg layer ds large r (k, g) w
      = ok (upd_dev r (\<lambda>d. d\<lparr>linkGroups := obj_set k g' (linkGroups d)\<rparr>) w1)" and "page.more w1 = page.more w" and "obj_ok (groupedLinks g')" by blast
  note w1 = devs_more [OF this(2)] and g' = this(3)
  have "same_shapes w (upd_dev r (\<lambda>d. d\<lparr>linkGroups := obj_set k g' (linkGroups d)\<rparr>) w1)"
    using assms(1) g' by (auto simp: same_shapes_def same_shape_def groups_ok_def upd_dev_def w1)
  then show ?thesis using obj_get_key [OF Some] by (simp add: eq)
qed

lemma place_label_classified:
  assumes "classified (devs w r)" and "Device_isSuperNode (devs w r) \<Longrightarrow> large"
  shows "\<exists>f. place_label cfg font large r w = Inr f"
  using assms
  by (cases "neighborDevices (devs w r)") (auto simp: place_label_def Let_def classified_def Device_isSuperNode_def)

lemma isLargeIcon_superNode: "Device_isLargeIcon w r = Inr large \<Longrightarrow> Device_isSuperNode (devs w r) \<Longrightarrow> large"
  by (simp add: Device_isLargeIcon_def Let_def)

lemma Device_updateGraphics_result:
  assumes cl: "classified (devs w r)" and gr: "groups_ok (devs w r)" and ds: "\<And>k t. obj_get ds k = Some t \<Longrightarrow> classified (devs w t)"
  shows "(returns (Device_updateGraphics now cfg font ll dl ds r w) \<longleftrightarrow> obj_keys (linkGroups (devs w r)) \<subseteq> obj_keys ds)
    \<and> same_shapes w (fst (Device_updateGraphics now cfg font ll dl ds r w))"
proof -
  obtain large where large: "Device_isLargeIcon w r = Inr large" using isLargeIcon_classified [of w r] cl by blast
  define w1 where "w1 = on_dev r (create_icon dl cfg font) w"
  have dev1: "devs w1 r = fst (create_icon dl cfg font (devs w r) w)"
    by (simp add: w1_def on_dev_world more_simps)
  have s1: "same_shapes w w1" unfolding w1_def
    by (rule same_shapes_on_dev) (simp_all add: more_simps create_icon_def same_shape_def groups_ok_def case_prod_unfold Let_def split: option.split)
  have "Device_isSuperNode (devs w1 r) = Device_isSuperNode (devs w r)"
    by (simp add: dev1 create_icon_def Device_isSuperNode_def case_prod_unfold Let_def split: option.split)
  with place_label_classified [of w1 r large] same_shapes_classified [OF s1] cl isLargeIcon_superNode [OF large]
  obtain f where f: "place_label cfg font large r w1 = Inr f" by blast
  define w2 where "w2 = (case d_text (devs w1 r) of Some t \<Rightarrow> upd_gobj t f w1 | None \<Rightarrow> w1)"
  define w3 where "w3 = on_dev r (draw_effects font) w2"
  define w4 where "w4 = on_dev r (draw_icon cfg large) w3"
  have "same_shapes w1 w2" by (rule same_shapes_more) (simp add: w2_def more_simps split: option.split)
  moreover have "same_shapes w2 w3" unfolding w3_def
    by (rule same_shapes_on_dev, simp add: more_simps)
      (simp add: draw_effects_def same_shape_def groups_ok_def case_prod_unfold Let_def)
  moreover have "same_shapes w3 w4" unfolding w4_def
    by (rule same_shapes_on_dev) (simp_all add: more_simps draw_icon_def same_shape_def groups_ok_def split: option.split)
  ultimately have s4: "same_shapes w w4" using s1 same_shapes_trans by metis
  have eq: "Device_updateGraphics now cfg font ll dl ds r w
      = for_x (draw_linkgroup now cfg ll ds large r) (obj_entries (linkGroups (devs w4 r))) w4"
    unfolding Device_updateGraphics_def large sum.case w1_def [symmetric] Let_def f w2_def [symmetric]
      w3_def [symmetric] w4_def [symmetric] ..
  have loop: "(returns (draw_linkgroup now cfg ll ds large r x t) \<longleftrightarrow> fst x \<in> obj_keys ds)
      \<and> same_shapes w (fst (draw_linkgroup now cfg ll ds large r x t))"
    if "x \<in> set (obj_entries (linkGroups (devs w4 r)))" "same_shapes w t" for x t
  proof -
    obtain k g where x: "x = (k, g)" by fastforce
    have "k \<in> obj_keys (linkGroups (devs w4 r))" using that(1) by (force simp: x obj_keys_def)
    then have k: "k \<in> obj_keys (linkGroups (devs t r))"
      using that(2) s4 by (simp add: same_shapes_def same_shape_def)
    have "groups_ok (devs w4 r)" using s4 gr by (simp add: same_shapes_def same_shape_def)
    then have "obj_ok (groupedLinks g)" using that(1) by (auto simp: x groups_ok_def dest: obj_get_in)
    note k this
    moreover have "classified (devs t t')" if "obj_get ds k = Some t'" for t'
      using ds [OF that] same_shapes_classified [OF \<open>same_shapes w t\<close>] by simp
    ultimately show ?thesis using draw_linkgroup_result [of k t r g ds now cfg ll large] same_shapes_trans [OF that(2)]
      by (simp add: x)
  qed
  have "fst ` set (obj_entries (linkGroups (devs w4 r))) = obj_keys (linkGroups (devs w r))"
    using s4 by (simp add: same_shapes_def same_shape_def obj_keys_def)
  moreover have "(returns (for_x (draw_linkgroup now cfg ll ds large r) (obj_entries (linkGroups (devs w4 r))) w4)
        \<longleftrightarrow> (\<forall>x \<in> set (obj_entries (linkGroups (devs w4 r))). fst x \<in> obj_keys ds))
      \<and> same_shapes w (fst (for_x (draw_linkgroup now cfg ll ds large r) (obj_entries (linkGroups (devs w4 r))) w4))"
    by (rule for_x_returns_iff [where P = "same_shapes w", OF s4]) (rule loop)
  moreover have "(\<forall>x \<in> set xs. fst x \<in> K) \<longleftrightarrow> fst ` set xs \<subseteq> K" for xs :: "(string \<times> linkgroup) list" and K
    by auto
  ultimately show ?thesis unfolding eq by simp
qed

text \<open>No link group of a device on the map leads to a device that is not there.\<close>

definition no_dangling :: "devicegraph \<Rightarrow> world \<Rightarrow> bool" where
  "no_dangling g w \<longleftrightarrow> (\<forall>(k, r) \<in> set (devices g). obj_keys (linkGroups (devs w r)) \<subseteq> obj_keys (devices g))"

lemma DeviceGraph_updateGraphics_result:
  assumes ok: "graph_ok g w" and cl: "\<forall>(k, r) \<in> set (devices g). classified (devs w r)"
  shows "(returns (DeviceGraph_updateGraphics now cfg font g w) \<longleftrightarrow> no_dangling g w)
    \<and> same_shapes w (fst (DeviceGraph_updateGraphics now cfg font g w))"
proof -
  let ?f = "\<lambda>(key, value). Device_updateGraphics now cfg font (linkLayer g) (deviceLayer g) (devices g) value"
  have "(returns (?f x t) \<longleftrightarrow> obj_keys (linkGroups (devs w (snd x))) \<subseteq> obj_keys (devices g))
      \<and> same_shapes w (fst (?f x t))"
    if x: "x \<in> set (obj_entries (devices g))" and t: "same_shapes w t" for x t
  proof -
    obtain k r where kr: "x = (k, r)" by fastforce
    have "classified (devs t r)" using x cl same_shapes_classified [OF t] by (auto simp: kr)
    moreover have "groups_ok (devs t r)"
      using x t graph_okD(2) [OF ok, of k r] graph_okD(1) [OF ok]
      by (simp add: kr obj_get_in same_shapes_def same_shape_def)
    moreover have "classified (devs t t')" if "obj_get (devices g) k' = Some t'" for k' t'
      using cl obj_getD [OF that] same_shapes_classified [OF t] by auto
    ultimately have "(returns (Device_updateGraphics now cfg font (linkLayer g) (deviceLayer g) (devices g) r t)
        \<longleftrightarrow> obj_keys (linkGroups (devs t r)) \<subseteq> obj_keys (devices g))
      \<and> same_shapes t (fst (Device_updateGraphics now cfg font (linkLayer g) (deviceLayer g) (devices g) r t))"
      by (rule Device_updateGraphics_result)
    moreover have "obj_keys (linkGroups (devs t r)) = obj_keys (linkGroups (devs w r))"
      using t by (simp add: same_shapes_def same_shape_def)
    ultimately show ?thesis using same_shapes_trans [OF t] by (simp add: kr)
  qed
  then have "(returns (for_x ?f (obj_entries (devices g)) w)
        \<longleftrightarrow> (\<forall>x \<in> set (obj_entries (devices g)). obj_keys (linkGroups (devs w (snd x))) \<subseteq> obj_keys (devices g)))
      \<and> same_shapes w (fst (for_x ?f (obj_entries (devices g)) w))"
    by (rule for_x_returns_iff [where P = "same_shapes w", OF same_shapes_refl])
  then show ?thesis unfolding DeviceGraph_updateGraphics_def no_dangling_def by (simp add: case_prod_unfold)
qed

text \<open>C5: Drawing the map throws exactly when some device has a link group to a device that is not on the
  map: once every device is classified this is the only way \<^verbatim>\<open>updateGraphics\<close> can fail, and
  no device's neighbours, classification or set of link groups changes by it.\<close>

theorem updateGraphics_fails_iff_dangling:
  assumes "graph_ok g w" and "\<forall>(k, r) \<in> set (devices g). classified (devs w r)"
  shows "(returns (DeviceGraph_updateGraphics now cfg font g w) \<longleftrightarrow>
       (\<forall>(k, r) \<in> set (devices g). \<forall>target \<in> obj_keys (linkGroups (devs w r)). obj_has (devices g) target))
    \<and> (\<forall>r. let w' = fst (DeviceGraph_updateGraphics now cfg font g w)
          in neighborDevices (devs w' r) = neighborDevices (devs w r) \<and> superNode (devs w' r) = superNode (devs w r)
           \<and> obj_keys (linkGroups (devs w' r)) = obj_keys (linkGroups (devs w r)))"
proof -
  have "no_dangling g w \<longleftrightarrow>
       (\<forall>(k, r) \<in> set (devices g). \<forall>target \<in> obj_keys (linkGroups (devs w r)). obj_has (devices g) target)"
    by (auto simp: no_dangling_def obj_has_iff)
  then show ?thesis
    using DeviceGraph_updateGraphics_result [OF assms, of now cfg font]
    by (simp add: same_shapes_def same_shape_def Let_def)
qed

text \<open>A map of one device that is linked to a neighbour the map does not have.\<close>

definition lonely_graph :: devicegraph where
  "lonely_graph = (fst (new_DeviceGraph 0 world0))\<lparr>devices := [(''sw1.net'', 0)]\<rparr>"

definition lonely_world :: world where
  "lonely_world = world0\<lparr>next_dev := 1, devs := (\<lambda>_. (new_Device ''sw1.net'' 0 0)
     \<lparr>superNode := Some True, linkGroups := [(''sw2.net'', example_group)]\<rparr>)\<rparr>"

lemma lonely_ok: "graph_ok lonely_graph lonely_world" "\<forall>(k, r) \<in> set (devices lonely_graph). classified (devs lonely_world r)"
  by (auto simp: graph_ok_def lonely_graph_def lonely_world_def obj_get_def obj_ok_def groups_ok_def classified_def
      new_Device_def Device_setPosition_def example_group_def split: if_splits)

theorem DeviceGraph_topology_sync_witness:
  "\<exists>g' w'. DeviceGraph_updateTopologyData (\<lambda>_. (0, 0)) [(''sw1.net'', example_topology), (''sw2.net'', [])]
       lonely_graph (upd_dev 0 (\<lambda>d. d\<lparr>d_status := Some True, d_position := vec 3 4\<rparr>) lonely_world) = (g', w')
    \<and> obj_keys (devices g') = {''sw1.net'', ''sw2.net''} \<and> obj_get (devices g') ''sw1.net'' = Some 0
    \<and> d_status (devs w' 0) = Some True \<and> d_position (devs w' 0) = vec 3 4"
proof -
  let ?data = "[(''sw1.net'', example_topology), (''sw2.net'', [])]"
  let ?w = "upd_dev 0 (\<lambda>d. d\<lparr>d_status := Some True, d_position := vec 3 4\<rparr>) lonely_world"
  have data: "topology_ok ?data" by (simp add: topology_ok_def obj_ok_def example_topology_def)
  have ok: "graph_ok lonely_graph ?w"
  proof -
    have "next_dev ?w = next_dev lonely_world" "groups_ok (devs ?w r) = groups_ok (devs lonely_world r)" for r
      by (simp_all add: upd_dev_def groups_ok_def)
    then show ?thesis using lonely_ok(1) unfolding graph_ok_def by metis
  qed
  obtain g' w' where eq: "DeviceGraph_updateTopologyData (\<lambda>_. (0, 0)) ?data lonely_graph ?w = (g', w')" by fastforce
  note t = DeviceGraph_topology_sync [OF ok data eq]
  have old: "obj_get (devices lonely_graph) ''sw1.net'' = Some 0" "obj_has ?data ''sw1.net''"
    by (simp_all add: lonely_graph_def obj_get_def obj_has_def)
  note same = conjunct1 [OF conjunct2 [OF t], rule_format, OF old]
  have "d_status (devs w' 0) = Some True" "d_position (devs w' 0) = vec 3 4"
    using arg_cong [OF conjunct2 [OF same], of d_status] arg_cong [OF conjunct2 [OF same], of d_position]
    by (simp_all add: upd_dev_def)
  moreover from conjunct1 [OF t] have "obj_keys (devices g') = {''sw1.net'', ''sw2.net''}" by (simp add: obj_keys_def)
  ultimately show ?thesis using eq conjunct1 [OF same] by (intro exI conjI)
qed

theorem updateGraphics_fails_iff_dangling_witness:
  "\<not> returns (DeviceGraph_updateGraphics 0 config_dist \<lparr>text_width = (\<lambda>_. 8), text_height = (\<lambda>_. 14)\<rparr> lonely_graph lonely_world)"
  using updateGraphics_fails_iff_dangling [OF lonely_ok, of 0 config_dist "\<lparr>text_width = (\<lambda>_. 8), text_height = (\<lambda>_. 14)\<rparr>"]
  by (simp add: lonely_graph_def lonely_world_def obj_has_def obj_get_def obj_keys_def)

section \<open>Statistics\<close>

lemma interfaceUpdateEvent_frame [simp]:
  "interfaces (Device_interfaceUpdateEvent d) = interfaces d"
  "d_status (Device_interfaceUpdateEvent d) = d_status d"
  "d_lastUpdate (Device_interfaceUpdateEvent d) = d_lastUpdate d"
  "stale (Device_interfaceUpdateEvent d) = stale d"
  "d_graphicsObjectInfo (Device_interfaceUpdateEvent d) = d_graphicsObjectInfo d"
  by (simp_all add: Device_interfaceUpdateEvent_def)

lemma Device_updateStatistics_result:
  "(returns (Device_updateStatistics now data d w) \<longleftrightarrow> obj_keys data \<subseteq> obj_keys (interfaces d))
   \<and> interfaces (fst (fst (Device_updateStatistics now data d w))) = interfaces d
   \<and> (\<forall>e. snd (Device_updateStatistics now data d w) = Some e \<longrightarrow> e = ReferenceError ''fqdn is not defined'')"
proof -
  have round: "(returns (set_iface_stats now d x t) \<longleftrightarrow> fst x \<in> obj_keys (interfaces d)) \<and> True"
    for x and t :: "'a page_scheme"
  proof (cases "obj_get (interfaces d) (fst x)")
    case None
    moreover from None have "fst x \<notin> obj_keys (interfaces d)" by (simp add: obj_get_None_iff)
    ultimately show ?thesis by (simp add: set_iface_stats_def case_prod_unfold)
  next
    case (Some r)
    then show ?thesis using obj_get_key [OF Some] by (simp add: set_iface_stats_def case_prod_unfold)
  qed
  have loop: "returns (for_x (set_iface_stats now d) (obj_entries data) w) \<longleftrightarrow> obj_keys data \<subseteq> obj_keys (interfaces d)"
    using for_x_returns_iff [where P = "\<lambda>_. True" and f = "set_iface_stats now d" and xs = "obj_entries data"
        and s = w and Q = "\<lambda>x. fst x \<in> obj_keys (interfaces d)", OF TrueI round]
    by (auto simp: obj_keys_def)
  have err: "e = ReferenceError ''fqdn is not defined''" if "snd (for_x (set_iface_stats now d) xs w) = Some e" for xs e
    by (rule for_x_throws [OF _ that])
      (simp add: set_iface_stats_def case_prod_unfold ok_def throw_def split: option.splits)
  show ?thesis
  proof (cases "for_x (set_iface_stats now d) (obj_entries data) w" rule: result_cases)
    case (ok w1)
    have "Device_updateStatistics now data d w = ok (Device_interfaceUpdateEvent d, w1\<lparr>requestGraphicsUpdate := True\<rparr>)"
      unfolding Device_updateStatistics_def ok ok_def prod.case option.case by (rule refl)
    then show ?thesis using loop ok by simp
  next
    case (throw e w1)
    have "Device_updateStatistics now data d w = throw e (d, w1)"
      unfolding Device_updateStatistics_def throw throw_def prod.case option.case by (rule refl)
    then show ?thesis using loop throw err [of "obj_entries data" e] by simp
  qed
qed

lemma commit_entry_result:
  "(returns (commit_entry now g (f, data) w) \<longleftrightarrow> (\<forall>r. obj_get (devices g) f = Some r \<longrightarrow>
        obj_keys (be_interfaces data) \<subseteq> obj_keys (interfaces (devs w r))))
   \<and> (\<forall>r. interfaces (devs (fst (commit_entry now g (f, data) w)) r) = interfaces (devs w r))
   \<and> (\<forall>e. snd (commit_entry now g (f, data) w) = Some e \<longrightarrow> e = ReferenceError ''fqdn is not defined'')"
proof (cases "obj_get (devices g) f")
  case None
  have "page.more (console_error m w) = page.more w" for m by (simp add: more_simps)
  note devs = devs_more(1) [OF this]
  show ?thesis by (simp add: commit_entry_def None devs)
next
  case (Some r)
  have more: "page.more (snd (fst (Device_updateStatistics now (be_interfaces data) (devs w r) w))) = page.more w"
    by (simp add: more_simps)
  have eq: "commit_entry now g (f, data) w = on_dev_x r (Device_updateStatistics now (be_interfaces data)) w"
    by (simp add: commit_entry_def Some)
  note dev = on_dev_x_world [where m = "Device_updateStatistics now (be_interfaces data)", OF more]
  show ?thesis
    using Device_updateStatistics_result [of now "be_interfaces data" "devs w r" w]
    unfolding eq by (simp add: returns_def dev Some)
qed

text \<open>C34: Committing a batch of statistics throws exactly when it names an interface that an existing device
  does not have, and then it throws a ReferenceError: the message for that case is built from a variable
  that does not exist, so instead of a line on the console the rest of the batch is lost.\<close>

theorem commit_fails_iff_unknown_interface:
  "(returns (DeviceGraph_commitStatisticsUpdate now g w) \<longleftrightarrow>
      (\<forall>(f, data) \<in> set (updateBatch g). \<forall>r. obj_get (devices g) f = Some r \<longrightarrow>
          (\<forall>name \<in> obj_keys (be_interfaces data). obj_has (interfaces (devs w r)) name)))
   \<and> (\<forall>e. snd (DeviceGraph_commitStatisticsUpdate now g w) = Some e \<longrightarrow> e = ReferenceError ''fqdn is not defined'')"
proof -
  let ?Q = "\<lambda>(f, data). \<forall>r. obj_get (devices g) f = Some r \<longrightarrow> obj_keys (be_interfaces data) \<subseteq> obj_keys (interfaces (devs w r))"
  have round: "(returns (commit_entry now g x t) \<longleftrightarrow> ?Q x)
      \<and> (\<forall>r. interfaces (devs (fst (commit_entry now g x t)) r) = interfaces (devs w r))"
    if "\<forall>r. interfaces (devs t r) = interfaces (devs w r)" for x t
    using commit_entry_result [of now g "fst x" "snd x" t] that by (simp add: case_prod_unfold)
  have "(returns (for_x (commit_entry now g) (obj_entries (updateBatch g)) w) \<longleftrightarrow> (\<forall>x \<in> set (obj_entries (updateBatch g)). ?Q x))
      \<and> (\<forall>r. interfaces (devs (fst (for_x (commit_entry now g) (obj_entries (updateBatch g)) w)) r) = interfaces (devs w r))"
    by (rule for_x_returns_iff [where P = "\<lambda>t. \<forall>r. interfaces (devs t r) = interfaces (devs w r)"]) (simp, rule round)
  moreover have "e = ReferenceError ''fqdn is not defined''"
    if "snd (for_x (commit_entry now g) (obj_entries (updateBatch g)) w) = Some e" for e
    by (rule for_x_throws [OF _ that]) (use commit_entry_result in \<open>metis prod.collapse\<close>)
  moreover have "(\<forall>x \<in> set (obj_entries (updateBatch g)). ?Q x) \<longleftrightarrow>
      (\<forall>(f, data) \<in> set (updateBatch g). \<forall>r. obj_get (devices g) f = Some r \<longrightarrow>
          (\<forall>name \<in> obj_keys (be_interfaces data). obj_has (interfaces (devs w r)) name))"
    by (simp add: obj_has_iff subset_eq)
  ultimately show ?thesis
    unfolding DeviceGraph_commitStatisticsUpdate_def by blast
qed

theorem commit_fails_iff_unknown_interface_witness:
  "\<not> returns (DeviceGraph_commitStatisticsUpdate 0
     (lonely_graph\<lparr>updateBatch := [(''sw1.net'', \<lparr>be_interfaces = [(''ge9'', [])], be_status = None\<rparr>)]\<rparr>) lonely_world)"
  using commit_fails_iff_unknown_interface [of 0
      "lonely_graph\<lparr>updateBatch := [(''sw1.net'', \<lparr>be_interfaces = [(''ge9'', [])], be_status = None\<rparr>)]\<rparr>" lonely_world]
  by (simp add: lonely_graph_def lonely_world_def new_Device_def Device_setPosition_def obj_get_def obj_has_def obj_keys_def)

section \<open>The batch\<close>

text \<open>What the batch holds for a device, an interface and a field.\<close>

definition batch_get :: "devicegraph \<Rightarrow> string \<Rightarrow> string \<Rightarrow> string \<Rightarrow> jsnum option option" where
  "batch_get g f n key = (case obj_get (updateBatch g) f of None \<Rightarrow> None
     | Some e \<Rightarrow> (case obj_get (be_interfaces e) n of None \<Rightarrow> None | Some st \<Rightarrow> obj_get st key))"

definition batch_has :: "devicegraph \<Rightarrow> string \<Rightarrow> string \<Rightarrow> bool" where
  "batch_has g f n \<longleftrightarrow> (\<exists>e. obj_get (updateBatch g) f = Some e \<and> obj_has (be_interfaces e) n)"

lemma batch_ensure:
  "n \<noteq> ''length'' \<Longrightarrow> batch_has (updateBatchDeviceInterfaceExists f n g) f n"
  "batch_has g f' n' \<Longrightarrow> batch_get (updateBatchDeviceInterfaceExists f n g) f' n' key = batch_get g f' n' key"
  "devices (updateBatchDeviceInterfaceExists f n g) = devices g"
  by (auto simp: updateBatchDeviceInterfaceExists_def interfaces_have_def batch_has_def batch_get_def obj_has_def Let_def
      split: option.splits)

lemma batch_get_has: "batch_get g f n key = Some x \<Longrightarrow> batch_has g f n"
  by (auto simp: batch_get_def batch_has_def obj_has_def split: option.splits)

lemma batch_ensure_get:
  "batch_get g f' n' key = Some x \<Longrightarrow> batch_get (updateBatchDeviceInterfaceExists f n g) f' n' key = Some x"
  using batch_ensure(2) [OF batch_get_has] by metis

lemma batch_set:
  assumes "batch_has g f n" and "n \<noteq> ''length''"
  shows "batch_get (fst (set_batch f n key x g)) f' n' key' =
      (if f' = f \<and> n' = n \<and> key' = key then Some (Some x) else batch_get g f' n' key')"
  using assms by (auto simp: set_batch_def batch_has_def batch_get_def obj_has_def ok_def Let_def split: option.splits)

lemma set_batch_devices: "devices (fst (set_batch f n key x g)) = devices g"
  by (simp add: set_batch_def throw_def ok_def Let_def)

text \<open>A sample that carries labels and a value, what it says, and where it goes.\<close>

definition sample_ok :: "prom_sample \<Rightarrow> bool" where
  "sample_ok s \<longleftrightarrow> ps_metric s \<noteq> None \<and> ps_value s \<noteq> None"

definition sample_label :: "prom_sample \<Rightarrow> string \<Rightarrow> string" where
  "sample_label s key = label (the (ps_metric s)) key"

definition sample_number :: "prom_sample \<Rightarrow> jsnum" where
  "sample_number s = parse_int 0 (snd (the (ps_value s)))"

definition octets_place :: "prom_sample \<Rightarrow> string \<times> string \<times> string" where
  "octets_place s = (sample_label s ''fqdn'', sample_label s ''name'', sample_label s ''direction'' @ ''_mbps'')"

definition put_sample :: "prom_sample \<Rightarrow> devicegraph \<Rightarrow> devicegraph" where
  "put_sample s g = fst (set_batch (sample_label s ''fqdn'') (sample_label s ''name'')
      (sample_label s ''direction'' @ ''_mbps'') (sample_number s * 8 / 1000 / 1000)
      (updateBatchDeviceInterfaceExists (sample_label s ''fqdn'') (sample_label s ''name'') g))"

lemma octets_sample_ok:
  assumes "sample_ok s"
  shows "octets_sample s g =
    (if sample_label s ''name'' = ''length''
     then throw (TypeError ''Cannot create property on number'')
       (updateBatchDeviceInterfaceExists (sample_label s ''fqdn'') ''length'' g)
     else ok (put_sample s g))"
proof -
  obtain m ts t where s: "ps_metric s = Some m" "ps_value s = Some (ts, t)"
    using assms by (auto simp: sample_ok_def)
  have "octets_sample s g = set_batch (sample_label s ''fqdn'') (sample_label s ''name'')
      (sample_label s ''direction'' @ ''_mbps'') (sample_number s * 8 / 1000 / 1000)
      (updateBatchDeviceInterfaceExists (sample_label s ''fqdn'') (sample_label s ''name'') g)"
    unfolding octets_sample_def s option.case Let_def prod.case sample_label_def sample_number_def option.sel snd_conv
    by (rule refl)
  then show ?thesis by (auto simp: put_sample_def set_batch_def Let_def ok_def)
qed

lemma put_sample_devices: "devices (put_sample s g) = devices g"
  by (simp add: put_sample_def set_batch_devices batch_ensure)

lemma put_sample_get:
  assumes "sample_label s ''name'' \<noteq> ''length''"
  shows "octets_place s = (f, n, key) \<Longrightarrow> batch_get (put_sample s g) f n key = Some (Some (sample_number s * 8 / 1000 / 1000))"
    and "octets_place s \<noteq> (f, n, key) \<Longrightarrow> batch_get g f n key = Some x \<Longrightarrow> batch_get (put_sample s g) f n key = Some x"
  by (auto simp: put_sample_def octets_place_def batch_set [OF batch_ensure(1) [OF assms] assms] batch_ensure_get)

lemma put_samples_get:
  assumes "\<forall>s \<in> set v. sample_label s ''name'' \<noteq> ''length''" and "(f, n, key) \<notin> octets_place ` set v"
    and "batch_get g f n key = Some x"
  shows "batch_get (fold put_sample v g) f n key = Some x"
  using assms
proof (induction v arbitrary: g)
  case (Cons s v)
  have "batch_get (put_sample s g) f n key = Some x" by (rule put_sample_get(2)) (use Cons.prems in auto)
  then show ?case using Cons by simp
qed simp

lemma put_samples_devices: "devices (fold put_sample v g) = devices g"
  by (induction v arbitrary: g) (simp_all add: put_sample_devices)

text \<open>The samples up to the first one that names an interface \<^verbatim>\<open>length\<close>.\<close>

definition taken_in :: "prom_sample list \<Rightarrow> prom_sample list" where
  "taken_in v = takeWhile (\<lambda>s. sample_label s ''name'' \<noteq> ''length'') v"

lemma octets_samples:
  assumes "\<forall>s \<in> set v. sample_ok s"
  shows "\<exists>g' e. for_x octets_sample v g = (g', e)
    \<and> (case e of None \<Rightarrow> taken_in v = v | Some x \<Rightarrow> taken_in v \<noteq> v \<and> (\<exists>m. x = TypeError m))
    \<and> (\<forall>f n key x. batch_get (fold put_sample (taken_in v) g) f n key = Some x \<longrightarrow> batch_get g' f n key = Some x)
    \<and> devices g' = devices g"
  using assms
proof (induction v arbitrary: g)
  case Nil
  then show ?case by (simp add: ok_def taken_in_def)
next
  case (Cons s v)
  have s: "sample_ok s" using Cons.prems by simp
  show ?case
  proof (cases "sample_label s ''name'' = ''length''")
    case True
    then show ?thesis
      using octets_sample_ok [OF s, of g]
      by (auto simp: taken_in_def batch_ensure_get batch_ensure(3) and_then_def throw_def)
  next
    case False
    then have "for_x octets_sample (s # v) g = for_x octets_sample v (put_sample s g)"
      using octets_sample_ok [OF s, of g] by simp
    moreover have "taken_in (s # v) = s # taken_in v" using False by (simp add: taken_in_def)
    ultimately show ?thesis
      using Cons.IH [of "put_sample s g"] Cons.prems by (auto simp: put_sample_devices split: option.splits)
  qed
qed

text \<open>C35: A vector of octet rates is taken in sample by sample, whatever its labels, up to the first one whose
  interface is named \<^verbatim>\<open>length\<close>: the interfaces of the batch are an array, which has that member, and
  the assignment to it throws a TypeError.  For every device, interface and direction the batch then holds the
  rate of the last sample taken in that names them, eight bits to the octet, in units of a million; what no
  sample names is as before.\<close>

theorem octets_batch:
  assumes "\<forall>s \<in> set v. sample_ok s" and "DeviceGraph_updateInterfaceOctetsPerSecond v g w = ((g', w'), e)"
  shows "(e = None \<longleftrightarrow> (\<forall>s \<in> set v. sample_label s ''name'' \<noteq> ''length''))
    \<and> (e \<noteq> None \<longrightarrow> (\<exists>m. e = Some (TypeError m)) \<and> w' = w)
    \<and> (\<forall>before s after. takeWhile (\<lambda>s. sample_label s ''name'' \<noteq> ''length'') v = before @ s # after \<longrightarrow>
          octets_place s \<notin> octets_place ` set after \<longrightarrow>
          batch_get g' (sample_label s ''fqdn'') (sample_label s ''name'') (sample_label s ''direction'' @ ''_mbps'')
            = Some (Some (sample_number s * 8 / 1000 / 1000)))
    \<and> (\<forall>f n key x. (f, n, key) \<notin> octets_place ` set v \<longrightarrow> batch_get g f n key = Some x \<longrightarrow> batch_get g' f n key = Some x)
    \<and> devices g' = devices g"
proof -
  obtain g1 where run: "for_x octets_sample v g = (g1, e)" and g1: "g' = g1" "e \<noteq> None \<Longrightarrow> w' = w"
    using assms(2) by (auto simp: DeviceGraph_updateInterfaceOctetsPerSecond_def ok_def throw_def split: prod.splits option.splits)
  have r: "case e of None \<Rightarrow> taken_in v = v | Some x \<Rightarrow> taken_in v \<noteq> v \<and> (\<exists>m. x = TypeError m)"
    "\<And>f n key x. batch_get (fold put_sample (taken_in v) g) f n key = Some x \<Longrightarrow> batch_get g' f n key = Some x"
    "devices g' = devices g"
    using octets_samples [OF assms(1), of g] by (auto simp: run g1)
  have none: "e = None \<longleftrightarrow> taken_in v = v" using r(1) by (cases e) auto
  have all: "taken_in v = v \<longleftrightarrow> (\<forall>s \<in> set v. sample_label s ''name'' \<noteq> ''length'')"
    by (simp add: taken_in_def takeWhile_eq_all_conv)
  have names: "\<forall>s \<in> set (taken_in v). sample_label s ''name'' \<noteq> ''length''"
    by (auto simp: taken_in_def dest: set_takeWhileD)
  have sub: "set (taken_in v) \<subseteq> set v" by (auto simp: taken_in_def dest: set_takeWhileD)
  have last: "batch_get g' (sample_label s ''fqdn'') (sample_label s ''name'') (sample_label s ''direction'' @ ''_mbps'')
      = Some (Some (sample_number s * 8 / 1000 / 1000))"
    if t: "taken_in v = before @ s # after" and new: "octets_place s \<notin> octets_place ` set after" for before s after
  proof (rule r(2))
    have s: "sample_label s ''name'' \<noteq> ''length''" and after: "\<forall>s \<in> set after. sample_label s ''name'' \<noteq> ''length''"
      using names by (simp_all add: t)
    have "batch_get (fold put_sample after (put_sample s (fold put_sample before g)))
        (sample_label s ''fqdn'') (sample_label s ''name'') (sample_label s ''direction'' @ ''_mbps'')
        = Some (Some (sample_number s * 8 / 1000 / 1000))"
      by (rule put_samples_get [OF after]) (use new put_sample_get(1) [OF s] in \<open>simp_all add: octets_place_def\<close>)
    then show "batch_get (fold put_sample (taken_in v) g)
        (sample_label s ''fqdn'') (sample_label s ''name'') (sample_label s ''direction'' @ ''_mbps'')
        = Some (Some (sample_number s * 8 / 1000 / 1000))" by (simp add: t)
  qed
  have kept: "batch_get g' f n key = Some x"
    if "(f, n, key) \<notin> octets_place ` set v" and "batch_get g f n key = Some x" for f n key x
    by (rule r(2)) (rule put_samples_get [OF names _ that(2)], use that(1) sub in auto)
  have thrown: "e \<noteq> None \<longrightarrow> (\<exists>m. e = Some (TypeError m)) \<and> w' = w" using r(1) g1(2) by (cases e) auto
  show ?thesis using none all thrown last kept r(3) unfolding taken_in_def by blast
qed

definition example_sample :: "string \<Rightarrow> string \<Rightarrow> string \<Rightarrow> prom_sample" where
  "example_sample name dir num = \<lparr>ps_metric = Some [(''fqdn'', ''sw1.net''), (''name'', name), (''direction'', dir)],
     ps_value = Some (1, num)\<rparr>"

definition example_vector :: "prom_sample list" where
  "example_vector = [example_sample ''a'' ''tx'' ''250000'', example_sample ''a'' ''rx'' ''1'', example_sample ''length'' ''rx'' ''1'']"

theorem octets_batch_witness:
  "\<exists>g' m. DeviceGraph_updateInterfaceOctetsPerSecond example_vector lonely_graph lonely_world
       = ((g', lonely_world), Some (TypeError m))
    \<and> batch_get g' ''sw1.net'' ''a'' ''tx_mbps'' = Some (Some 2)"
proof -
  have num: "sample_number (example_sample ''a'' ''tx'' ''250000'') = Fin 250000"
    by (simp add: sample_number_def example_sample_def parse_int_def is_space_def is_radix_digit_def digit_val_def
        digits_value_def)
  have labels: "sample_label (example_sample n d x) ''name'' = n" "sample_label (example_sample n d x) ''direction'' = d"
    "sample_label (example_sample n d x) ''fqdn'' = ''sw1.net''" for n d x
    by (simp_all add: example_sample_def sample_label_def label_def obj_get_def)
  have ok: "\<forall>s \<in> set example_vector. sample_ok s" by (simp add: example_vector_def example_sample_def sample_ok_def)
  have taken: "takeWhile (\<lambda>s. sample_label s ''name'' \<noteq> ''length'') example_vector
      = [] @ example_sample ''a'' ''tx'' ''250000'' # [example_sample ''a'' ''rx'' ''1'']"
    by (simp add: example_vector_def labels)
  obtain g' w' e where u: "DeviceGraph_updateInterfaceOctetsPerSecond example_vector lonely_graph lonely_world = ((g', w'), e)"
    by (metis surj_pair)
  note o = octets_batch [OF ok u]
  have "e \<noteq> None" using o by (auto simp: example_vector_def labels)
  moreover have "batch_get g' ''sw1.net'' ''a'' ''tx_mbps'' = Some (Some 2)"
    using conjunct1 [OF conjunct2 [OF conjunct2 [OF o]], rule_format, OF taken] by (simp add: labels num octets_place_def)
  ultimately show ?thesis using o u by blast
qed

section \<open>Status tracking\<close>

definition status_view :: "device \<Rightarrow> bool option \<times> real \<times> bool" where
  "status_view d = (d_status d, d_lastUpdate d, stale d)"

text \<open>A change of a known status flashes the icon, which fails while the device has none.\<close>

definition flash_fails :: "bool \<Rightarrow> device \<Rightarrow> bool" where
  "flash_fails st d \<longleftrightarrow> d_status d \<noteq> None \<and> d_status d \<noteq> Some st \<and> d_graphicsObjectInfo d = None"

lemma status_flash_cases:
  "status_flash scr st d w = throw (TypeError ''graphicsObjectInfo is null'') (d, w) \<and> flash_fails st d
   \<or> (\<exists>d' w'. status_flash scr st d w = ok (d', w') \<and> \<not> flash_fails st d \<and> d_status d' = Some st
        \<and> d_lastUpdate d' = d_lastUpdate d \<and> stale d' = stale d \<and> d_graphicsObjectInfo d' = d_graphicsObjectInfo d
        \<and> interfaces d' = interfaces d)"
  by (cases "d_graphicsObjectInfo d"; cases "d_status d = Some st"; cases "d_status d")
    (auto simp: status_flash_def flash_fails_def Let_def)

lemma Device_setStatus_result:
  assumes "Device_setStatus now scr data d w = ((d', w'), e)"
  shows "e = None \<longleftrightarrow> \<not> flash_fails (ds_state data) d"
    and "e = None \<Longrightarrow> status_view d' = (Some (ds_state data), now, stale d)"
    and "d_graphicsObjectInfo d' = d_graphicsObjectInfo d"
proof -
  have ff: "flash_fails st (d\<lparr>d_lastUpdate := now\<rparr>) = flash_fails st d" for st by (simp add: flash_fails_def)
  from status_flash_cases [of scr "ds_state data" "d\<lparr>d_lastUpdate := now\<rparr>" w]
  have "(e = None \<longleftrightarrow> \<not> flash_fails (ds_state data) d)
    \<and> (e = None \<longrightarrow> status_view d' = (Some (ds_state data), now, stale d))
    \<and> d_graphicsObjectInfo d' = d_graphicsObjectInfo d"
  proof
    assume "status_flash scr (ds_state data) (d\<lparr>d_lastUpdate := now\<rparr>) w
        = throw (TypeError ''graphicsObjectInfo is null'') (d\<lparr>d_lastUpdate := now\<rparr>, w)
      \<and> flash_fails (ds_state data) (d\<lparr>d_lastUpdate := now\<rparr>)"
    with assms ff show ?thesis by (auto simp: Device_setStatus_def throw_def)
  next
    assume "\<exists>d1 w1. status_flash scr (ds_state data) (d\<lparr>d_lastUpdate := now\<rparr>) w = ok (d1, w1)
      \<and> \<not> flash_fails (ds_state data) (d\<lparr>d_lastUpdate := now\<rparr>) \<and> d_status d1 = Some (ds_state data)
      \<and> d_lastUpdate d1 = d_lastUpdate (d\<lparr>d_lastUpdate := now\<rparr>) \<and> stale d1 = stale (d\<lparr>d_lastUpdate := now\<rparr>)
      \<and> d_graphicsObjectInfo d1 = d_graphicsObjectInfo (d\<lparr>d_lastUpdate := now\<rparr>)
      \<and> interfaces d1 = interfaces (d\<lparr>d_lastUpdate := now\<rparr>)"
    then obtain d1 w1 where 1: "status_flash scr (ds_state data) (d\<lparr>d_lastUpdate := now\<rparr>) w = ok (d1, w1)"
      "\<not> flash_fails (ds_state data) d" "status_view d1 = (Some (ds_state data), now, stale d)"
      "d_graphicsObjectInfo d1 = d_graphicsObjectInfo d" by (auto simp: ff status_view_def)
    then have "e = None" "d' = Device_interfaceUpdateEvent d1"
      using assms by (auto simp: Device_setStatus_def Let_def) (auto simp: ok_def)
    with 1 show ?thesis by (simp add: status_view_def)
  qed
  then show "e = None \<longleftrightarrow> \<not> flash_fails (ds_state data) d"
    and "e = None \<Longrightarrow> status_view d' = (Some (ds_state data), now, stale d)"
    and "d_graphicsObjectInfo d' = d_graphicsObjectInfo d" by blast+
qed

lemma status_entry_step:
  assumes "status_entry now scr g (f, data) w = (w', e)"
  shows "e = None \<longleftrightarrow> (\<forall>r. obj_get (devices g) f = Some r \<longrightarrow> \<not> flash_fails (ds_state data) (devs w r))"
    and "e = None \<Longrightarrow> status_view (devs w' r) =
      (if obj_get (devices g) f = Some r then (Some (ds_state data), now, stale (devs w r)) else status_view (devs w r))"
proof -
  have "(e = None \<longleftrightarrow> (\<forall>r. obj_get (devices g) f = Some r \<longrightarrow> \<not> flash_fails (ds_state data) (devs w r)))
    \<and> (e = None \<longrightarrow> status_view (devs w' r) =
      (if obj_get (devices g) f = Some r then (Some (ds_state data), now, stale (devs w r)) else status_view (devs w r)))"
  proof (cases "obj_get (devices g) f")
    case None
    have "page.more (console_error m w) = page.more w" for m by (simp add: more_simps)
    from devs_more(1) [OF this] show ?thesis using assms by (auto simp: status_entry_def None ok_def)
  next
    case (Some t)
    obtain d' w1 e1 where 1: "Device_setStatus now scr data (devs w t) w = ((d', w1), e1)" by (metis surj_pair)
    have "page.more w1 = page.more w" using Device_setStatus_more [of now scr data "devs w t" w] by (simp add: 1)
    then have "w' = w1\<lparr>devs := (devs w)(t := d')\<rparr>" "e = e1"
      using assms by (auto simp: status_entry_def Some on_dev_x_def 1 devs_more(1) [of w1 w])
    then show ?thesis using Device_setStatus_result [OF 1] by (auto simp: Some)
  qed
  then show "e = None \<longleftrightarrow> (\<forall>r. obj_get (devices g) f = Some r \<longrightarrow> \<not> flash_fails (ds_state data) (devs w r))"
    and "e = None \<Longrightarrow> status_view (devs w' r) =
      (if obj_get (devices g) f = Some r then (Some (ds_state data), now, stale (devs w r)) else status_view (devs w r))"
    by blast+
qed

lemma status_entries:
  assumes "graph_ok g w" and "distinct (map fst xs)"
    and "for_x (status_entry now scr g) xs v = ok v'" and "obj_get (devices g) k = Some r"
  shows "status_view (devs v' r) = (case map_of xs k of None \<Rightarrow> status_view (devs v r)
     | Some st \<Rightarrow> (Some (ds_state st), now, stale (devs v r)))"
  using assms(2,3)
proof (induction xs arbitrary: v)
  case (Cons x xs)
  obtain f data where x: "x = (f, data)" by fastforce
  obtain v1 e where 1: "status_entry now scr g (f, data) v = (v1, e)" by fastforce
  have "and_then (v1, e) (for_x (status_entry now scr g) xs) = ok v'"
    using Cons.prems(2) by (simp only: x 1 for_x.simps)
  then have e: "e = None" and 2: "for_x (status_entry now scr g) xs v1 = ok v'"
    by (cases e; simp add: ok_def)+
  have "obj_get (devices g) f = Some r \<longleftrightarrow> f = k"
    using graph_okD(3) [OF assms(1) assms(4)] assms(4) by metis
  then have view: "status_view (devs v1 r) = (if f = k then (Some (ds_state data), now, stale (devs v r)) else status_view (devs v r))"
    using status_entry_step(2) [OF 1 e, of r] by simp
  then have stl: "stale (devs v1 r) = stale (devs v r)" by (auto simp: status_view_def split: if_splits)
  have IH: "status_view (devs v' r) = (case map_of xs k of None \<Rightarrow> status_view (devs v1 r)
     | Some st \<Rightarrow> (Some (ds_state st), now, stale (devs v1 r)))"
    using Cons.IH [OF _ 2] Cons.prems(1) by simp
  show ?case
  proof (cases "f = k")
    case True
    then have "map_of xs k = None" using Cons.prems(1) by (simp add: x map_of_eq_None_iff)
    with IH view True show ?thesis by (simp add: x)
  next
    case False
    with IH view stl show ?thesis by (simp add: x split: option.splits)
  qed
qed (simp add: ok_def)

lemma age_devices:
  "r \<notin> snd ` set xs \<Longrightarrow> devs (fold (age_device now) xs w) r = devs w r"
  "distinct (map snd xs) \<Longrightarrow> r \<in> snd ` set xs \<Longrightarrow>
     status_view (devs (fold (age_device now) xs w) r) = status_view (Device_checkStale now (devs w r))"
proof -
  have step: "devs (age_device now (k, t) v) r = (if r = t then
      (if Device_isStale (Device_checkStale now (devs v t)) then Device_interfaceUpdateEvent (Device_checkStale now (devs v t))
       else Device_checkStale now (devs v t)) else devs v r)" for k t v r
    by (auto simp: age_device_def upd_dev_def Let_def)
  show other: "r \<notin> snd ` set xs \<Longrightarrow> devs (fold (age_device now) xs w) r = devs w r" for xs w
    by (induction xs arbitrary: w) (auto simp: step)
  show "distinct (map snd xs) \<Longrightarrow> r \<in> snd ` set xs \<Longrightarrow>
     status_view (devs (fold (age_device now) xs w) r) = status_view (Device_checkStale now (devs w r))"
  proof (induction xs arbitrary: w)
    case (Cons x xs)
    obtain k t where x: "x = (k, t)" by fastforce
    show ?case
    proof (cases "r = t")
      case True
      then have "r \<notin> snd ` set xs" using Cons.prems(1) by (simp add: x)
      from other [OF this] show ?thesis using True by (simp add: x step status_view_def)
    next
      case False
      then have "r \<in> snd ` set xs" using Cons.prems(2) by (simp add: x)
      then show ?thesis using Cons.IH [of "age_device now x w"] Cons.prems(1) False by (simp add: x step)
    qed
  qed simp
qed

text \<open>C36: After a status document has been applied without an exception, the devices it names have its
  state and are not stale; of the others exactly those not heard of for more than 60 seconds are stale, and
  a status is forgotten at the moment its device becomes stale, not before and not again later.\<close>

theorem updateStatuses_tracks:
  assumes "graph_ok g w" and "obj_ok statusInfo"
    and "DeviceGraph_updateStatuses now scr statusInfo g w = ok w'" and "obj_get (devices g) k = Some r"
  shows "case obj_get statusInfo k of
      Some st \<Rightarrow> d_status (devs w' r) = Some (ds_state st) \<and> \<not> stale (devs w' r) \<and> d_lastUpdate (devs w' r) = now
    | None \<Rightarrow> stale (devs w' r) = (60 < now - d_lastUpdate (devs w r))
        \<and> d_status (devs w' r) = (if stale (devs w' r) \<and> \<not> stale (devs w r) then None else d_status (devs w r))"
proof -
  obtain w1 where 1: "for_x (status_entry now scr g) (obj_entries statusInfo) w = ok w1"
    and w': "w' = fold (age_device now) (obj_entries (devices g)) w1"
    using assms(3) by (cases "for_x (status_entry now scr g) (obj_entries statusInfo) w" rule: result_cases)
      (simp_all add: DeviceGraph_updateStatuses_def)
  have "distinct (map fst (obj_entries statusInfo))" using obj_ok_entries [OF assms(2)] by (simp add: obj_ok_def)
  from status_entries [OF assms(1) this 1 assms(4)] have view: "status_view (devs w1 r) =
      (case obj_get statusInfo k of None \<Rightarrow> status_view (devs w r) | Some st \<Rightarrow> (Some (ds_state st), now, stale (devs w r)))"
    using obj_get_entries [OF assms(2), of k] by (simp add: obj_get_def)
  have inj: "inj_on snd (set (devices g))"
    using graph_okD(1,3) [OF assms(1)] by (force simp: inj_on_def obj_get_iff)
  then have "distinct (map snd (obj_entries (devices g)))"
    using graph_okD(1) [OF assms(1)] distinct_map_entries [of snd "devices g"]
    by (simp add: distinct_map obj_ok_def)
  moreover have "r \<in> snd ` set (obj_entries (devices g))" using obj_getD [OF assms(4)] by force
  ultimately have "status_view (devs w' r) = status_view (Device_checkStale now (devs w1 r))"
    unfolding w' by (rule age_devices(2))
  then show ?thesis using view by (auto simp: status_view_def checkStale_stale split: option.splits)
qed

theorem updateStatuses_tracks_witness:
  "let w' = fst (DeviceGraph_updateStatuses 100 (800, 600) [] lonely_graph lonely_world) in stale (devs w' 0)"
proof -
  obtain w' where w': "DeviceGraph_updateStatuses 100 (800, 600) [] lonely_graph lonely_world = ok w'"
    by (auto simp: DeviceGraph_updateStatuses_def obj_entries_def)
  have "obj_get (devices lonely_graph) ''sw1.net'' = Some 0" by (simp add: lonely_graph_def obj_get_def)
  from updateStatuses_tracks [OF lonely_ok(1) _ w' this]
  have "stale (devs w' 0)" by (simp add: lonely_world_def new_Device_def Device_setPosition_def)
  then show ?thesis by (simp only: w' Let_def returns_simps)
qed

text \<open>A status document is refused half way, with a TypeError, as soon as it changes the known status of a
  device whose icon has not been drawn yet: that device keeps its old status but counts as heard of, and
  the devices after it in the document and the ageing of all devices are skipped.\<close>

theorem updateStatuses_before_first_draw:
  assumes "obj_entries statusInfo = (k, st) # rest" and "obj_get (devices g) k = Some r"
    and "d_status (devs w r) = Some (\<not> ds_state st)" and "d_graphicsObjectInfo (devs w r) = None"
  shows "\<exists>w'. DeviceGraph_updateStatuses now scr statusInfo g w = throw (TypeError ''graphicsObjectInfo is null'') w'
    \<and> devs w' = (devs w)(r := (devs w r)\<lparr>d_lastUpdate := now\<rparr>)"
proof -
  have "status_flash scr (ds_state st) ((devs w r)\<lparr>d_lastUpdate := now\<rparr>) w
      = throw (TypeError ''graphicsObjectInfo is null'') ((devs w r)\<lparr>d_lastUpdate := now\<rparr>, w)"
    using status_flash_cases [of scr "ds_state st" "(devs w r)\<lparr>d_lastUpdate := now\<rparr>" w] assms(3,4)
    by (auto simp: flash_fails_def)
  then have "Device_setStatus now scr st (devs w r) w
      = throw (TypeError ''graphicsObjectInfo is null'') ((devs w r)\<lparr>d_lastUpdate := now\<rparr>, w)"
    by (simp add: Device_setStatus_def)
  then have "status_entry now scr g (k, st) w
      = throw (TypeError ''graphicsObjectInfo is null'') (w\<lparr>devs := (devs w)(r := (devs w r)\<lparr>d_lastUpdate := now\<rparr>)\<rparr>)"
    by (simp add: status_entry_def assms(2) on_dev_x_def throw_def)
  then show ?thesis by (simp add: DeviceGraph_updateStatuses_def assms(1))
qed

theorem updateStatuses_before_first_draw_witness:
  "\<not> returns (DeviceGraph_updateStatuses 100 (800, 600) [(''sw1.net'', \<lparr>ds_state = False, ds_interfaces = []\<rparr>)]
     lonely_graph (upd_dev 0 (\<lambda>d. d\<lparr>d_status := Some True\<rparr>) lonely_world))"
proof -
  have "\<not> is_index ''sw1.net''" by code_simp
  then have "obj_entries [(''sw1.net'', x)] = [(''sw1.net'', x)]" for x :: device_status
    by (simp add: obj_entries_def)
  note entries = this
  let ?w = "upd_dev 0 (\<lambda>d. d\<lparr>d_status := Some True\<rparr>) lonely_world"
  have "obj_get (devices lonely_graph) ''sw1.net'' = Some 0" by (simp add: lonely_graph_def obj_get_def)
  moreover have "d_status (devs ?w 0) = Some (\<not> ds_state \<lparr>ds_state = False, ds_interfaces = []\<rparr>)"
    by (simp add: upd_dev_def)
  moreover have "d_graphicsObjectInfo (devs ?w 0) = None"
    by (simp add: upd_dev_def lonely_world_def new_Device_def Device_setPosition_def)
  ultimately obtain w' where "DeviceGraph_updateStatuses 100 (800, 600) [(''sw1.net'', \<lparr>ds_state = False, ds_interfaces = []\<rparr>)]
     lonely_graph ?w = throw (TypeError ''graphicsObjectInfo is null'') w'"
    using updateStatuses_before_first_draw [OF entries] by blast
  then show ?thesis by simp
qed

end
