(* ===== verification/Transitions.thy ===== *)
theory Transitions
  imports Main
begin

text \<open>
  Runs of a program that reacts to events: the states a run from an initial state can lead to, and
  what holds in all of them.  The application is an instance; so are the smaller machines.
\<close>

locale transition_system =
  fixes init :: "'s \<Rightarrow> bool"
    and step :: "'s \<Rightarrow> 'e \<Rightarrow> 's \<Rightarrow> bool"
begin

inductive run :: "'s \<Rightarrow> 'e list \<Rightarrow> 's \<Rightarrow> bool" where
  run_nil: "run s [] s"
| run_snoc: "run s es t \<Longrightarrow> step t e u \<Longrightarrow> run s (es @ [e]) u"

definition reachable :: "'s \<Rightarrow> bool" where
  "reachable t \<longleftrightarrow> (\<exists>s es. init s \<and> run s es t)"

lemma run_invariant:
  assumes "run s es t" and "I s" and "\<And>s e t. I s \<Longrightarrow> step s e t \<Longrightarrow> I t"
  shows "I t"
  using assms by (induction rule: run.induct) blast+

lemma run_append: "run t fs u \<Longrightarrow> run s es t \<Longrightarrow> run s (es @ fs) u"
  by (induction rule: run.induct) (auto simp: run_snoc simp flip: append_assoc)

text \<open>What a property relates at the two ends of every step it relates at the two ends of a run.\<close>

lemma run_relation:
  assumes "run s es t" and "\<And>s. R s s" and "\<And>s e t u. R s t \<Longrightarrow> step t e u \<Longrightarrow> R s u"
  shows "R s t"
  using assms by (induction rule: run.induct) blast+

end

text \<open>An invariant: it holds initially and every step keeps it.\<close>

locale invariant_of = transition_system init step
  for init :: "'s \<Rightarrow> bool" and step :: "'s \<Rightarrow> 'e \<Rightarrow> 's \<Rightarrow> bool" +
  fixes inv :: "'s \<Rightarrow> bool"
  assumes inv_init: "init s \<Longrightarrow> inv s"
    and inv_step: "inv s \<Longrightarrow> step s e t \<Longrightarrow> inv t"
begin

lemma inv_run: "run s es t \<Longrightarrow> inv s \<Longrightarrow> inv t"
  by (erule run_invariant) (simp_all add: inv_step)

lemma inv_reachable: "reachable s \<Longrightarrow> inv s"
  unfolding reachable_def using inv_init inv_run by blast

end

end
