(* ===== verification/App.thy ===== *)
theory App
  imports DeviceGraph Transitions
begin

text \<open>
  \<^verbatim>\<open>js/app.js\<close>: the application.  Its main loop starts the periodic fetches and the
  animation and drawing ticks; replies, mouse events, searches and resizes come in between, one
  at a time.  \<open>app\<close> is the state of the page with the requests in flight; \<open>app_step\<close>
  is one turn of the event loop.  What a promise rejects with, or an event handler throws, goes
  to \<open>uncaught\<close>; the messages of \<^verbatim>\<open>console.log\<close> are not modelled.
\<close>

section \<open>State\<close>

text \<open>The replies of Prometheus, and the requests in flight.  \<open>FetchData rs\<close> is a data update
  that has the replies \<open>rs\<close> so far and waits for the next of its four queries.\<close>

record prom_reply =
  pr_status :: string
  pr_resultType :: string
  pr_result :: "prom_sample list"

datatype request =
    FetchTopology
  | FetchData "prom_reply list"
  | FetchStatus
  | FetchPosition

record app =
  ap_world :: world
  deviceGraph :: devicegraph
  stage :: oid
  ap_screen :: screen
  lastTopologyUpdate :: real
  lastDataUpdate :: real
  lastStatusUpdate :: real
  lastGraphicsUpdate :: real
  lastAnimationUpdate :: real
  lastPositionUpdate :: real
  ticker_updates :: nat
  pending :: "request list"
  looping :: bool
  uncaught :: "exn list"
  puts_done :: nat

text \<open>What does not change while the page is open.\<close>

record env =
  env_config :: config
  env_font :: font
  env_regexp :: regexp

text \<open>The constructor; the renderer, the ticker and the document are the browser's.\<close>

definition new_WeatherMap :: "screen \<Rightarrow> app" where
  "new_WeatherMap window =
     (let (st, w1) = new_drawing [] world0;
          (vp, w2) = new_drawing [] w1;
          w3 = upd_scene (addChild st vp) (w2\<lparr>viewport_obj := Some vp\<rparr>);
          (g, w4) = new_DeviceGraph vp w3
      in \<lparr>ap_world = w4, deviceGraph = g, stage = st, ap_screen = window,
          lastTopologyUpdate = 0, lastDataUpdate = 0, lastStatusUpdate = 0, lastGraphicsUpdate = 0,
          lastAnimationUpdate = 0, lastPositionUpdate = 0, ticker_updates = 0, pending = [],
          looping = True, uncaught = [], puts_done = 0\<rparr>)"

definition upd_world :: "(world \<Rightarrow> world) \<Rightarrow> app \<Rightarrow> app" where
  "upd_world f a = a\<lparr>ap_world := f (ap_world a)\<rparr>"

definition upd_world_x :: "(world \<Rightarrow> world result) \<Rightarrow> app \<Rightarrow> app result" where
  "upd_world_x f a = (case f (ap_world a) of (w, e) \<Rightarrow> (a\<lparr>ap_world := w\<rparr>, e))"

definition upd_graph_x :: "(devicegraph \<Rightarrow> world \<Rightarrow> (devicegraph \<times> world) result) \<Rightarrow> app \<Rightarrow> app result" where
  "upd_graph_x f a = (case f (deviceGraph a) (ap_world a) of
     ((g, w), e) \<Rightarrow> (a\<lparr>deviceGraph := g, ap_world := w\<rparr>, e))"

text \<open>A handler or a promise ends here: what it throws is reported, the page goes on.\<close>

definition settle :: "app result \<Rightarrow> app" where
  "settle r = (case r of (a, None) \<Rightarrow> a | (a, Some e) \<Rightarrow> a\<lparr>uncaught := uncaught a @ [e]\<rparr>)"

section \<open>Prometheus data\<close>

definition when_success ::
  "prom_reply \<Rightarrow> (prom_sample list \<Rightarrow> app \<Rightarrow> app result) \<Rightarrow> app \<Rightarrow> app result" where
  "when_success prometheusData k this =
     (if pr_status prometheusData = ''success''
      then k (pr_result prometheusData)
        (if pr_resultType prometheusData \<noteq> ''vector''
         then upd_world (\<lambda>w. console_error ''[data]'' (console_error ''prometheus query returned unexpected data'' w)) this
         else this)
      else ok (upd_world (\<lambda>w. console_error ''[reply]'' (console_error ''prometheus query failed'' w)) this))"

definition updateInterfaceOctetsPerSecond :: "prom_reply \<Rightarrow> app \<Rightarrow> app result" where
  "updateInterfaceOctetsPerSecond prometheusData =
     when_success prometheusData (\<lambda>v. upd_graph_x (DeviceGraph_updateInterfaceOctetsPerSecond v))"

definition updateInterfaceSpeed :: "prom_reply \<Rightarrow> app \<Rightarrow> app result" where
  "updateInterfaceSpeed prometheusData =
     when_success prometheusData (\<lambda>v. upd_graph_x (DeviceGraph_updateInterfaceSpeed v))"

text \<open>These two call methods of the device graph that are commented out there.\<close>

definition updateInterfaceUp :: "prom_reply \<Rightarrow> app \<Rightarrow> app result" where
  "updateInterfaceUp prometheusData =
     when_success prometheusData (\<lambda>v. throw (TypeError ''updateInterfaceUp is not a function''))"

definition updateDeviceUp :: "prom_reply \<Rightarrow> app \<Rightarrow> app result" where
  "updateDeviceUp prometheusData =
     when_success prometheusData (\<lambda>v. throw (TypeError ''updateDeviceUp is not a function''))"

definition beginStatisticsUpdate :: "app \<Rightarrow> app" where
  "beginStatisticsUpdate this = this\<lparr>deviceGraph := DeviceGraph_beginStatisticsUpdate (deviceGraph this)\<rparr>"

definition commitStatisticsUpdate :: "real \<Rightarrow> app \<Rightarrow> app result" where
  "commitStatisticsUpdate now this =
     upd_world_x (DeviceGraph_commitStatisticsUpdate now (deviceGraph this)) this"

definition set_requested :: "app \<Rightarrow> app" where
  "set_requested = upd_world (\<lambda>w. w\<lparr>animationUpdateRequested := True, graphicsUpdateRequested := True\<rparr>)"

text \<open>The queries in the order \<^verbatim>\<open>dataUpdate\<close> awaits them.\<close>

definition data_queries :: "string list" where
  "data_queries =
     [''min(jaspy_device_up{}) by (fqdn)'',
      ''min(jaspy_interface_up{neighbors=\"yes\"}) by (fqdn, name)'',
      ''min(jaspy_interface_speed{neighbors=\"yes\"}) by (fqdn, name)'',
      ''sum(rate(jaspy_interface_octets{neighbors=\"yes\"}[120s])) by (fqdn, name, direction)'']"

text \<open>What the update does once it has all four replies.\<close>

definition dataUpdate_finish :: "real \<Rightarrow> prom_reply list \<Rightarrow> app \<Rightarrow> app result" where
  "dataUpdate_finish now rs this =
     and_then (updateInterfaceSpeed (rs ! 2) (beginStatisticsUpdate this))
       (\<lambda>a. and_then (updateInterfaceOctetsPerSecond (rs ! 3) a)
         (\<lambda>a. and_then (commitStatisticsUpdate now a) (\<lambda>a. ok (set_requested a))))"

text \<open>One reply: an error rejects the update, else the next query is sent or the data used.\<close>

definition dataUpdate_reply :: "real \<Rightarrow> prom_reply list \<Rightarrow> prom_reply \<Rightarrow> app \<Rightarrow> app result" where
  "dataUpdate_reply now rs r this =
     (if pr_status r = ''error'' then throw (Error ''prometheus error'') this
      else let rs' = rs @ [r]
           in if length rs' < length data_queries
              then ok (this\<lparr>pending := pending this @ [FetchData rs']\<rparr>)
              else dataUpdate_finish now rs' this)"

section \<open>The other replies\<close>

definition updateTopologyData_reply :: "randoms \<Rightarrow> topology \<Rightarrow> app \<Rightarrow> app" where
  "updateTopologyData_reply rnd data this =
     (let (g, w) = DeviceGraph_updateTopologyData rnd data (deviceGraph this) (ap_world this)
      in this\<lparr>deviceGraph := g, ap_world := w\<rparr>)"

definition statusUpdate_reply :: "real \<Rightarrow> device_status obj \<Rightarrow> app \<Rightarrow> app result" where
  "statusUpdate_reply now statusInfo this =
     upd_world_x (DeviceGraph_updateStatuses now (ap_screen this) statusInfo (deviceGraph this)) this"

definition positionUpdate_reply :: "position_info obj \<Rightarrow> app \<Rightarrow> app" where
  "positionUpdate_reply positionInfo this =
     set_requested (upd_world (DeviceGraph_updatePositions positionInfo (deviceGraph this)) this)"

section \<open>The main loop\<close>

definition send :: "request \<Rightarrow> app \<Rightarrow> app" where
  "send r this = this\<lparr>pending := pending this @ [r]\<rparr>"

definition frame_fetch :: "real \<Rightarrow> app \<Rightarrow> app" where
  "frame_fetch curtime this =
     (let a1 = (if curtime - lastTopologyUpdate this > 60
                then send FetchTopology (this\<lparr>lastTopologyUpdate := curtime\<rparr>) else this);
          a2 = (if curtime - lastDataUpdate a1 > 10
                then send (FetchData []) (a1\<lparr>lastDataUpdate := curtime\<rparr>) else a1);
          a3 = (if curtime - lastStatusUpdate a2 > 1
                then send FetchStatus (a2\<lparr>lastStatusUpdate := curtime\<rparr>) else a2)
      in if curtime - lastPositionUpdate a3 > 1 \<and> \<not> positionUpdatesFrozen (ap_world a3)
         then send FetchPosition (a3\<lparr>lastPositionUpdate := curtime\<rparr>) else a3)"

text \<open>The pair carries \<^verbatim>\<open>tickerUpdate\<close>.\<close>

definition frame_graphics :: "env \<Rightarrow> real \<Rightarrow> bool \<times> app \<Rightarrow> (bool \<times> app) result" where
  "frame_graphics ev curtime ta =
     (let (tickerUpdate, this) = ta
      in if curtime - lastGraphicsUpdate this > 10 \<or> requestGraphicsUpdate (ap_world this)
         then (case upd_world_x (DeviceGraph_updateGraphics curtime (env_config ev) (env_font ev) (deviceGraph this))
                 (upd_world (\<lambda>w. w\<lparr>requestGraphicsUpdate := False\<rparr>) (this\<lparr>lastGraphicsUpdate := curtime\<rparr>)) of
                (a, None) \<Rightarrow> ok (True, a) | (a, Some e) \<Rightarrow> throw e (tickerUpdate, a))
         else ok (tickerUpdate, this))"

definition frame_animation :: "env \<Rightarrow> real \<Rightarrow> bool \<times> app \<Rightarrow> (bool \<times> app) result" where
  "frame_animation ev curtime ta =
     (let (tickerUpdate, this) = ta
      in if curtime - lastAnimationUpdate this > 10 \<or> requestAnimationUpdate (ap_world this)
         then (case upd_world_x (DeviceGraph_updateAnimation (env_config ev) (deviceGraph this))
                 (upd_world (\<lambda>w. w\<lparr>requestAnimationUpdate := False\<rparr>) (this\<lparr>lastAnimationUpdate := curtime\<rparr>)) of
                (a, None) \<Rightarrow> ok (True, a) | (a, Some e) \<Rightarrow> throw e (tickerUpdate, a))
         else ok (tickerUpdate, this))"

definition frame_ticker :: "bool \<times> app \<Rightarrow> app" where
  "frame_ticker ta =
     (let (tickerUpdate, this) = ta;
          (tickerUpdate1, this1) =
            (if requestPIXIFrame (ap_world this)
             then (True, upd_world (\<lambda>w. w\<lparr>requestPIXIFrame := False\<rparr>) this) else (tickerUpdate, this))
      in if tickerUpdate1 then this1\<lparr>ticker_updates := Suc (ticker_updates this1)\<rparr> else this1)"

definition frame :: "env \<Rightarrow> real \<Rightarrow> app \<Rightarrow> app result" where
  "frame ev curtime this =
     (case and_then (frame_graphics ev curtime (False, frame_fetch curtime this)) (frame_animation ev curtime) of
        (ta, None) \<Rightarrow> ok (frame_ticker ta) | ((t, a), Some e) \<Rightarrow> throw e a)"

text \<open>Only a frame that returns asks for the next one.\<close>

definition mainLoop :: "env \<Rightarrow> real \<Rightarrow> app \<Rightarrow> app result" where
  "mainLoop ev curtime this =
     and_then (frame ev curtime (this\<lparr>looping := False\<rparr>)) (\<lambda>a. ok (a\<lparr>looping := True\<rparr>))"

section \<open>The event handlers of the page\<close>

definition devicesearch_submit :: "env \<Rightarrow> string \<Rightarrow> app \<Rightarrow> app result" where
  "devicesearch_submit ev value this =
     (case DeviceGraph_findDevicesByName (env_regexp ev) value (deviceGraph this) of
        Inl e \<Rightarrow> throw e this
      | Inr ds \<Rightarrow> upd_world_x (for_x (\<lambda>d. on_dev_x d (Device_highlight (ap_screen this))) ds) this)"

definition rendererResize :: "screen \<Rightarrow> app \<Rightarrow> app" where
  "rendererResize window this = this\<lparr>ap_screen := window\<rparr>"

definition viewport_moved :: "app \<Rightarrow> app" where
  "viewport_moved = upd_world (\<lambda>w. w\<lparr>requestPIXIFrame := True\<rparr>)"

section \<open>The event loop\<close>

text \<open>
  What the browser can deliver next.  Times and random numbers come with the event, and so does the
  viewport's coordinate change at that moment.  A handler exists from the moment its drawing
  does until the drawing is removed.
\<close>

datatype label_event = Over | Out | Move real "victor \<Rightarrow> victor" victor

datatype event =
    Tick real
  | TopologyReply randoms topology
  | DataReply real "prom_reply list" prom_reply
  | StatusReply real "device_status obj"
  | PositionReply "position_info obj"
  | FetchFails request
  | PutDone
  | MouseDown devref mouse_keys
  | MouseUp devref
  | MouseMove devref "victor \<Rightarrow> victor" victor
  | GroupLabel devref string label_event
  | LinkLabel devref string string label_event
  | Search string
  | Resize screen
  | Moved

text \<open>A reply takes its request out of those in flight.\<close>

definition answered :: "request \<Rightarrow> app \<Rightarrow> app" where
  "answered r a = a\<lparr>pending := remove1 r (pending a)\<rparr>"

definition on_icon :: "devref \<Rightarrow> (device \<Rightarrow> world \<Rightarrow> (device \<times> world) result) \<Rightarrow> app \<Rightarrow> app" where
  "on_icon r m a = settle (upd_world_x (on_dev_x r m) a)"

definition total_op :: "('s \<Rightarrow> 't \<Rightarrow> 's \<times> 't) \<Rightarrow> 's \<Rightarrow> 't \<Rightarrow> ('s \<times> 't) result" where
  "total_op m s t = ok (m s t)"

definition group_label :: "oid \<Rightarrow> oid \<Rightarrow> label_event \<Rightarrow> linkgroup \<Rightarrow> world \<Rightarrow> world" where
  "group_label viewport g e this w = (case e of
     Over \<Rightarrow> LinkGroup_mouseover viewport g this w
   | Out \<Rightarrow> LinkGroup_mouseout viewport g this w
   | Move now toWorld pt \<Rightarrow> LinkGroup_mousemove now toWorld g pt this w)"

definition link_label :: "oid \<Rightarrow> oid \<Rightarrow> label_event \<Rightarrow> link \<Rightarrow> world \<Rightarrow> world result" where
  "link_label viewport g e this w = (case e of
     Over \<Rightarrow> ok (Link_mouseover viewport g this w)
   | Out \<Rightarrow> ok (Link_mouseout viewport g this w)
   | Move now toWorld pt \<Rightarrow> Link_mousemove now toWorld g pt this w)"

text \<open>The link groups and links that are drawn.\<close>

definition drawn_group :: "app \<Rightarrow> devref \<Rightarrow> string \<Rightarrow> linkgroup \<Rightarrow> oid \<Rightarrow> bool" where
  "drawn_group a r k grp g \<longleftrightarrow> r \<in> snd ` set (devices (deviceGraph a))
     \<and> obj_get (linkGroups (devs (ap_world a) r)) k = Some grp \<and> map_option fst (lg_graphicsObjectInfo grp) = Some g"

definition drawn_link :: "app \<Rightarrow> devref \<Rightarrow> string \<Rightarrow> string \<Rightarrow> link \<Rightarrow> oid \<Rightarrow> bool" where
  "drawn_link a r k c lnk g \<longleftrightarrow> (\<exists>grp. r \<in> snd ` set (devices (deviceGraph a))
     \<and> obj_get (linkGroups (devs (ap_world a) r)) k = Some grp
     \<and> obj_get (groupedLinks grp) c = Some lnk \<and> map_option fst (lk_graphicsObjectInfo lnk) = Some g)"

inductive app_step :: "env \<Rightarrow> app \<Rightarrow> event \<Rightarrow> app \<Rightarrow> bool" for ev :: env where
  tick: "looping a \<Longrightarrow> app_step ev a (Tick t) (settle (mainLoop ev t a))"
| topology: "FetchTopology \<in> set (pending a) \<Longrightarrow> topology_ok data \<Longrightarrow>
    app_step ev a (TopologyReply rnd data) (updateTopologyData_reply rnd data (answered FetchTopology a))"
| data: "FetchData rs \<in> set (pending a) \<Longrightarrow>
    app_step ev a (DataReply now rs r) (settle (dataUpdate_reply now rs r (answered (FetchData rs) a)))"
| status: "FetchStatus \<in> set (pending a) \<Longrightarrow> obj_ok info \<Longrightarrow>
    app_step ev a (StatusReply now info) (settle (statusUpdate_reply now info (answered FetchStatus a)))"
| position: "FetchPosition \<in> set (pending a) \<Longrightarrow> obj_ok pos \<Longrightarrow>
    app_step ev a (PositionReply pos) (positionUpdate_reply pos (answered FetchPosition a))"
| fetch_fails: "r \<in> set (pending a) \<Longrightarrow>
    app_step ev a (FetchFails r) (settle (throw (Error ''fetch failed'') (answered r a)))"
| put_done: "puts_done a < length (outbox (ap_world a)) \<Longrightarrow>
    app_step ev a PutDone (upd_world put_done (a\<lparr>puts_done := Suc (puts_done a)\<rparr>))"
| mouse_down: "d_graphicsObjectInfo (devs (ap_world a) r) \<noteq> None \<Longrightarrow>
    app_step ev a (MouseDown r keys) (on_icon r (Device_mousedown keys) a)"
| mouse_up: "d_graphicsObjectInfo (devs (ap_world a) r) \<noteq> None \<Longrightarrow>
    app_step ev a (MouseUp r) (on_icon r (total_op Device_mouseup) a)"
| mouse_move: "d_graphicsObjectInfo (devs (ap_world a) r) \<noteq> None \<Longrightarrow>
    app_step ev a (MouseMove r toWorld pt) (on_icon r (total_op (Device_mousemove toWorld pt)) a)"
| group_mouse: "drawn_group a r k grp g \<Longrightarrow>
    app_step ev a (GroupLabel r k e) (upd_world (group_label (dg_viewport (deviceGraph a)) g e grp) a)"
| link_mouse: "drawn_link a r k c lnk g \<Longrightarrow>
    app_step ev a (LinkLabel r k c e) (settle (upd_world_x (link_label (dg_viewport (deviceGraph a)) g e lnk) a))"
| search: "app_step ev a (Search txt) (settle (devicesearch_submit ev txt a))"
| resize: "app_step ev a (Resize window) (rendererResize window a)"
| moved: "app_step ev a Moved (viewport_moved a)"

end
