(* ===== verification/MapInvariant.thy ===== *)
theory MapInvariant
  imports App
begin

text \<open>
  What holds of the map whatever happens.  Only a topology document changes the shape of the map;
  all other operations leave the interfaces, the set of link groups, the neighbours and the
  classification of every device alone.  \<open>map_ok\<close> is the invariant of the application.
\<close>

section \<open>Operations of a device\<close>

lemma same_shape_fields:
  assumes "neighborDevices d' = neighborDevices d" and "superNode d' = superNode d"
    and "linkGroups d' = linkGroups d" and "interfaces d' = interfaces d"
  shows "same_shape d d'"
  using assms by (simp add: same_shape_def groups_ok_def)

lemma interfaceUpdateEvent_shape [simp]: "same_shape d (Device_interfaceUpdateEvent d)"
proof -
  define dirty where "dirty = (\<lambda>(key, value) gs. obj_set key (LinkGroup_interfacesUpdated value) gs)"
  have "obj_keys (fold dirty xs gs) = obj_keys gs \<and> (obj_ok gs \<longrightarrow> obj_ok (fold dirty xs gs))
      \<and> (\<forall>f g. obj_get (fold dirty xs gs) f = Some g \<longrightarrow>
            (\<exists>g0. ((f, g0) \<in> set xs \<or> obj_get gs f = Some g0) \<and> groupedLinks g = groupedLinks g0))"
    if "fst ` set xs \<subseteq> obj_keys gs" for xs gs
    using that
  proof (induction xs arbitrary: gs)
    case (Cons x xs)
    obtain k v where x: "x = (k, v)" by fastforce
    have step: "dirty (k, v) gs = obj_set k (LinkGroup_interfacesUpdated v) gs" by (simp add: dirty_def)
    have "fst ` set xs \<subseteq> obj_keys (dirty (k, v) gs)" "k \<in> obj_keys gs" using Cons.prems by (auto simp: x step)
    note IH = Cons.IH [OF this(1)]
    have "obj_keys (fold dirty (x # xs) gs) = obj_keys gs"
      using IH \<open>k \<in> obj_keys gs\<close> by (auto simp: step x)
    moreover have "obj_ok gs \<longrightarrow> obj_ok (fold dirty (x # xs) gs)"
      using IH by (auto simp: step x)
    moreover have "\<exists>g0. ((f, g0) \<in> set (x # xs) \<or> obj_get gs f = Some g0) \<and> groupedLinks g = groupedLinks g0"
      if get: "obj_get (fold dirty (x # xs) gs) f = Some g" for f g
    proof -
      obtain g0 where "(f, g0) \<in> set xs \<or> obj_get (dirty (k, v) gs) f = Some g0" "groupedLinks g = groupedLinks g0"
        using IH get unfolding x fold_simps by metis
      then show ?thesis
        by (cases "f = k") (auto simp: step x LinkGroup_interfacesUpdated_def)
    qed
    ultimately show ?case by blast
  qed auto
  from this [of "obj_entries (linkGroups d)" "linkGroups d"]
  show ?thesis
    by (force simp: same_shape_def groups_ok_def Device_interfaceUpdateEvent_def dirty_def [symmetric] obj_keys_def
        dest: obj_get_in)
qed

lemma device_ops_shape:
  "same_shape d (Device_setPosition p d)" "same_shape d (Device_checkStale now d)"
  "same_shape d (fst (superNodeAnimation d w))" "same_shape d (fst (effectAnimation d w))"
  "same_shape d (fst (fst (Device_highlight scr d w)))"
  "same_shape d (fst (Device_updateWeathermapPosition data d w))"
  "same_shape d (fst (Device_mousemove toWorld pt d w))"
  "same_shape d (fst (Device_mouseup d w'))"
  "same_shape d (fst (fst (Device_mousedown keys d w')))"
  "same_shape d (fst (fst (status_flash scr st d w)))"
  by (rule same_shape_fields;
      simp add: Device_setPosition_def Device_checkStale_def superNodeAnimation_def effectAnimation_def Device_highlight_def
        Device_requestPosition_def Device_updateWeathermapPosition_def Device_mousemove_def Device_mouseup_def
        Device_mousedown_def flag_toggled_def status_flash_def and_then_def ok_def throw_def case_prod_unfold Let_def
        split: option.split)+


lemma setStatus_shape: "same_shape d (fst (fst (Device_setStatus now scr st d w)))"
proof -
  obtain d1 w1 e where 1: "status_flash scr (ds_state st) (d\<lparr>d_lastUpdate := now\<rparr>) w = ((d1, w1), e)"
    by (metis surj_pair)
  have "same_shape d (d\<lparr>d_lastUpdate := now\<rparr>)" by (rule same_shape_fields) simp_all
  also have "same_shape (d\<lparr>d_lastUpdate := now\<rparr>) d1" for x
    using device_ops_shape(10) [of "d\<lparr>d_lastUpdate := now\<rparr>" scr "ds_state st" w] by (simp add: 1)
  finally (same_shape_trans) have "same_shape d d1" .
  moreover from this have "same_shape d (Device_interfaceUpdateEvent d1)"
    by (rule same_shape_trans) simp
  ultimately show ?thesis
    by (cases e) (simp_all add: Device_setStatus_def 1 Let_def)
qed

lemma updateStatistics_shape: "same_shape d (fst (fst (Device_updateStatistics now data d w)))"
  by (cases "for_x (set_iface_stats now d) (obj_entries data) w" rule: result_cases)
    (simp_all add: Device_updateStatistics_def ok_def throw_def)

section \<open>Operations of the device graph\<close>

lemma animation_shapes: "same_shapes w (fst (Device_updateAnimation cfg r w))"
proof -
  have super: "same_shapes v (on_dev r superNodeAnimation v)" for v
    by (rule same_shapes_on_dev) (simp_all add: more_simps device_ops_shape)
  have "same_shapes v (fst (edgeNodeAnimation cfg r v))" for v
  proof (cases "\<exists>nbr. neighborDevices (devs v r) = [nbr] \<and> \<not> dragInfo (devs v r)")
    case True
    then obtain nbr where nbr: "neighborDevices (devs v r) = [nbr]" "\<not> dragInfo (devs v r)" by blast
    show ?thesis
    proof (cases "Device_isLargeIcon v r")
      case (Inl e)
      then show ?thesis by (simp add: edgeNodeAnimation_def nbr)
    next
      case (Inr large)
      have "same_shapes v (upd_dev r (Device_setPosition p) (if b then request_updates v else v))" for p b
        using same_shapes_trans [OF same_shapes_more same_shapes_upd_dev, of "request_updates v" v r "Device_setPosition p"]
          same_shapes_upd_dev [of v r "Device_setPosition p"]
        by (simp add: more_simps device_ops_shape)
      then show ?thesis by (simp add: edgeNodeAnimation_def nbr Inr Let_def)
    qed
  next
    case False
    then show ?thesis by (auto simp: edgeNodeAnimation_def Let_def split: list.splits)
  qed
  note edge = this
  have "same_shapes w (on_dev r effectAnimation w)"
    by (rule same_shapes_on_dev) (simp_all add: more_simps device_ops_shape)
  from same_shapes_trans [OF this super] same_shapes_trans [OF this edge]
  show ?thesis by (simp add: Device_updateAnimation_def Let_def)
qed

lemma graph_ops_shapes:
  "same_shapes w (fst (DeviceGraph_updateAnimation cfg g w))"
  "same_shapes w (fst (DeviceGraph_commitStatisticsUpdate now g w))"
  "same_shapes w (fst (DeviceGraph_updateStatuses now scr info g w))"
  "same_shapes w (DeviceGraph_updatePositions pos g w)"
proof -
  show "same_shapes w (fst (DeviceGraph_updateAnimation cfg g w))"
    unfolding DeviceGraph_updateAnimation_def by (rule same_shapes_for_x) (simp add: case_prod_unfold animation_shapes)
  show "same_shapes w (fst (DeviceGraph_commitStatisticsUpdate now g w))"
    unfolding DeviceGraph_commitStatisticsUpdate_def
  proof (rule same_shapes_for_x)
    fix x t
    have "same_shapes t (fst (on_dev_x r (Device_updateStatistics now d) t))" for r d
      by (rule same_shapes_on_dev_x) (simp_all add: more_simps updateStatistics_shape)
    then show "same_shapes t (fst (commit_entry now g x t))"
      by (cases x) (simp add: commit_entry_def same_shapes_more more_simps split: option.split)
  qed
  have "same_shapes w (fst (for_x (status_entry now scr g) xs w))" for xs
  proof (rule same_shapes_for_x)
    fix x t
    have "same_shapes t (fst (on_dev_x r (Device_setStatus now scr d) t))" for r d
      by (rule same_shapes_on_dev_x) (simp_all add: more_simps setStatus_shape)
    then show "same_shapes t (fst (status_entry now scr g x t))"
      by (cases x) (simp add: status_entry_def same_shapes_more more_simps split: option.split)
  qed
  moreover have "same_shapes v (fold (age_device now) xs v)" for xs v
  proof (rule same_shapes_fold)
    fix x t
    have c: "same_shapes t (upd_dev r (Device_checkStale now) t)" for r t
      by (rule same_shapes_upd_dev) (rule device_ops_shape)
    have i: "same_shapes t (upd_dev r Device_interfaceUpdateEvent t)" for r t
      by (rule same_shapes_upd_dev) simp
    show "same_shapes t (age_device now x t)"
      using c same_shapes_trans [OF c i] by (cases x) (simp add: age_device_def Let_def)
  qed
  ultimately show "same_shapes w (fst (DeviceGraph_updateStatuses now scr info g w))"
    by (cases "for_x (status_entry now scr g) (obj_entries info) w" rule: result_cases)
      (simp_all add: DeviceGraph_updateStatuses_def, metis fst_conv ok_def same_shapes_trans, metis fst_conv throw_def)
  show "same_shapes w (DeviceGraph_updatePositions pos g w)"
    unfolding DeviceGraph_updatePositions_def
  proof (rule same_shapes_fold)
    fix x and t :: world
    have "same_shapes t (on_dev r (Device_updateWeathermapPosition d) t)" for r d
      by (rule same_shapes_on_dev) (simp_all add: more_simps device_ops_shape)
    then show "same_shapes t ((\<lambda>(fqdn, data) w. case obj_get (devices g) fqdn of
           None \<Rightarrow> console_error (''received position update for non-existing device '' @ fqdn) w
         | Some r \<Rightarrow> on_dev r (Device_updateWeathermapPosition data) w) x t)"
      by (cases x) (simp add: same_shapes_more more_simps split: option.split)
  qed
qed

section \<open>The invariant\<close>

definition map_ok :: "devicegraph \<Rightarrow> world \<Rightarrow> bool" where
  "map_ok g w \<longleftrightarrow> graph_ok g w \<and> (\<forall>r \<in> map_devices g. connected g (devs w r))"

definition app_ok :: "app \<Rightarrow> bool" where
  "app_ok a \<longleftrightarrow> map_ok (deviceGraph a) (ap_world a)"

lemma map_devices_set: "graph_ok g w \<Longrightarrow> map_devices g = snd ` set (devices g)"
  by (force simp: map_devices_def graph_ok_def obj_get_iff)

lemma map_ok_shapes:
  assumes "map_ok g w" and "same_shapes w w'"
  shows "map_ok g w'"
proof -
  have "next_dev w' = next_dev w" and shape: "same_shape (devs w r) (devs w' r)" for r
    using assms(2) by (simp_all add: same_shapes_def)
  then have "graph_ok g w'"
    using assms(1) by (auto simp: map_ok_def graph_ok_def same_shape_def)
  moreover have "connected g (devs w r) \<longleftrightarrow> connected g (devs w' r)" for r
    using shape [of r] by (simp add: connected_def classified_def same_shape_def)
  ultimately show ?thesis using assms(1) by (simp add: map_ok_def)
qed

lemma map_ok_graph:
  assumes "map_ok g w" and "devices g' = devices g"
  shows "map_ok g' w"
  using assms by (simp add: map_ok_def graph_ok_def map_devices_def connected_def)

lemma map_ok_classified: "map_ok g w \<Longrightarrow> \<forall>(k, r) \<in> set (devices g). classified (devs w r)"
  using map_devices_set [of g w] by (force simp: map_ok_def connected_def)

lemma map_ok_topology:
  assumes "map_ok g w" and "topology_ok data" and "DeviceGraph_updateTopologyData rnd data g w = (g', w')"
  shows "map_ok g' w'"
  using DeviceGraph_topology_aux [OF _ assms(2,3)] assms(1) unfolding map_ok_def map_devices_def by blast

lemma graphics_shapes: "map_ok g w \<Longrightarrow> same_shapes w (fst (DeviceGraph_updateGraphics now cfg font g w))"
  using DeviceGraph_updateGraphics_result [OF _ map_ok_classified, of g w] by (simp add: map_ok_def)

section \<open>Steps of the application\<close>

lemma app_ok_more: "app_ok a \<Longrightarrow> app_ok (a\<lparr>pending := p\<rparr>)" "app_ok a \<Longrightarrow> app_ok (a\<lparr>uncaught := u\<rparr>)"
  "app_ok a \<Longrightarrow> app_ok (a\<lparr>puts_done := n\<rparr>)" "app_ok a \<Longrightarrow> app_ok (a\<lparr>looping := b\<rparr>)"
  "app_ok a \<Longrightarrow> app_ok (a\<lparr>ap_screen := s\<rparr>)" "app_ok a \<Longrightarrow> app_ok (a\<lparr>ticker_updates := n\<rparr>)"
  "app_ok a \<Longrightarrow> app_ok (a\<lparr>lastTopologyUpdate := t\<rparr>)" "app_ok a \<Longrightarrow> app_ok (a\<lparr>lastDataUpdate := t\<rparr>)"
  "app_ok a \<Longrightarrow> app_ok (a\<lparr>lastStatusUpdate := t\<rparr>)" "app_ok a \<Longrightarrow> app_ok (a\<lparr>lastGraphicsUpdate := t\<rparr>)"
  "app_ok a \<Longrightarrow> app_ok (a\<lparr>lastAnimationUpdate := t\<rparr>)" "app_ok a \<Longrightarrow> app_ok (a\<lparr>lastPositionUpdate := t\<rparr>)"
  by (simp_all add: app_ok_def)

lemma settle_ok: "app_ok (fst r) \<Longrightarrow> app_ok (settle r)"
  by (auto simp: settle_def app_ok_more split: prod.split option.split)

lemma upd_world_ok: "app_ok a \<Longrightarrow> same_shapes (ap_world a) (f (ap_world a)) \<Longrightarrow> app_ok (upd_world f a)"
  by (simp add: app_ok_def upd_world_def map_ok_shapes)

lemma upd_world_x_ok:
  "app_ok a \<Longrightarrow> same_shapes (ap_world a) (fst (f (ap_world a))) \<Longrightarrow> app_ok (fst (upd_world_x f a))"
  by (cases "f (ap_world a)") (simp add: app_ok_def upd_world_x_def map_ok_shapes)

lemma and_then_app_ok:
  assumes "app_ok (fst r)" and "\<And>a. app_ok a \<Longrightarrow> app_ok (fst (k a))"
  shows "app_ok (fst (and_then r k))"
  using assms by (cases r rule: result_cases) simp_all

lemma same_shapes_devs:
  assumes "devs w' = devs w" and "next_dev w' = next_dev w"
  shows "same_shapes w w'"
  using assms by (simp add: same_shapes_def)

subsection \<open>Statistics\<close>

lemma batch_devices:
  "devices (fst (octets_sample m g)) = devices g" "devices (fst (speed_sample m g)) = devices g"
  by (simp_all add: octets_sample_def speed_sample_def updateBatchDeviceInterfaceExists_def set_batch_def Let_def
      split: option.split)

lemma batch_loop_devices:
  assumes "\<And>x g. devices (fst (f x g)) = devices g"
  shows "devices (fst (for_x f xs g)) = devices g"
  by (rule for_x_invariant [where P = "\<lambda>h. devices h = devices g"]) (simp_all add: assms)

lemma refresh_shapes: "same_shapes w (refresh_stale g w)"
proof -
  have i: "same_shapes t (upd_dev r Device_interfaceUpdateEvent t)" for r t
    by (rule same_shapes_upd_dev) simp
  show ?thesis unfolding refresh_stale_def
    by (rule same_shapes_fold) (simp add: case_prod_unfold i)
qed

lemma when_success_ok:
  assumes "app_ok a" and "\<And>v a. app_ok a \<Longrightarrow> app_ok (fst (k v a))"
  shows "app_ok (fst (when_success p k a))"
  using assms by (simp add: when_success_def upd_world_ok same_shapes_more more_simps)

lemma upd_graph_x_ok:
  assumes "app_ok a" and "m (deviceGraph a) (ap_world a) = ((g, w), e)"
    and "devices g = devices (deviceGraph a)" and "same_shapes (ap_world a) w"
  shows "app_ok (fst (upd_graph_x m a))"
  using map_ok_graph [OF map_ok_shapes [OF assms(1) [unfolded app_ok_def] assms(4)] assms(3)]
  by (simp add: upd_graph_x_def assms(2) app_ok_def)

lemma octets_ok: "app_ok a \<Longrightarrow> app_ok (fst (upd_graph_x (DeviceGraph_updateInterfaceOctetsPerSecond v) a))"
  using batch_loop_devices [of octets_sample v "deviceGraph a", OF batch_devices(1)]
    refresh_shapes [of "ap_world a" "fst (for_x octets_sample v (deviceGraph a))"]
  by (cases "for_x octets_sample v (deviceGraph a)" rule: result_cases)
    (rule upd_graph_x_ok, assumption, simp add: DeviceGraph_updateInterfaceOctetsPerSecond_def ok_def throw_def, simp, simp)+

lemma speed_ok: "app_ok a \<Longrightarrow> app_ok (fst (upd_graph_x (DeviceGraph_updateInterfaceSpeed v) a))"
  using batch_loop_devices [of speed_sample v "deviceGraph a", OF batch_devices(2)]
    refresh_shapes [of "ap_world a" "fst (for_x speed_sample v (deviceGraph a))"]
  by (cases "for_x speed_sample v (deviceGraph a)" rule: result_cases)
    (rule upd_graph_x_ok, assumption, simp add: DeviceGraph_updateInterfaceSpeed_def ok_def throw_def, simp, simp)+

lemma rates_ok:
  assumes "app_ok a"
  shows "app_ok (fst (updateInterfaceOctetsPerSecond p a))" and "app_ok (fst (updateInterfaceSpeed p a))"
  unfolding updateInterfaceOctetsPerSecond_def updateInterfaceSpeed_def
  by (rule when_success_ok [OF assms], erule octets_ok) (rule when_success_ok [OF assms], erule speed_ok)

lemma set_requested_ok: "app_ok a \<Longrightarrow> app_ok (set_requested a)"
  by (simp add: set_requested_def upd_world_ok same_shapes_devs)

lemma dataUpdate_reply_ok:
  assumes "app_ok a"
  shows "app_ok (fst (dataUpdate_reply now rs r a))"
proof -
  have start: "app_ok a \<Longrightarrow> app_ok (beginStatisticsUpdate a)" for a
    by (simp add: app_ok_def beginStatisticsUpdate_def DeviceGraph_beginStatisticsUpdate_def map_ok_graph)
  have commit: "app_ok a \<Longrightarrow> app_ok (fst (commitStatisticsUpdate now a))" for a
    by (simp add: commitStatisticsUpdate_def upd_world_x_ok graph_ops_shapes)
  have "app_ok (fst (dataUpdate_finish now rs a))" for rs
    unfolding dataUpdate_finish_def
    by (intro and_then_app_ok rates_ok start commit assms) (simp_all add: set_requested_ok)
  then show ?thesis
    using assms by (simp add: dataUpdate_reply_def Let_def app_ok_more)
qed

subsection \<open>The other steps\<close>

lemma replies_ok:
  assumes "app_ok a"
  shows "topology_ok data \<Longrightarrow> app_ok (updateTopologyData_reply rnd data a)"
    and "app_ok (fst (statusUpdate_reply now info a))"
    and "app_ok (positionUpdate_reply pos a)"
proof -
  show "app_ok (updateTopologyData_reply rnd data a)" if "topology_ok data"
    using map_ok_topology [OF _ that, of "deviceGraph a" "ap_world a"] assms
    by (simp add: updateTopologyData_reply_def app_ok_def split: prod.split)
  show "app_ok (fst (statusUpdate_reply now info a))"
    using assms by (simp add: statusUpdate_reply_def upd_world_x_ok graph_ops_shapes)
  show "app_ok (positionUpdate_reply pos a)"
    using assms by (simp add: positionUpdate_reply_def set_requested_ok upd_world_ok graph_ops_shapes)
qed

lemma frame_fetch_ok: "app_ok a \<Longrightarrow> app_ok (frame_fetch t a)"
  by (simp add: frame_fetch_def send_def Let_def app_ok_more)

lemma flag_ok:
  assumes "app_ok c"
  shows "app_ok (upd_world (\<lambda>w. w\<lparr>requestGraphicsUpdate := b\<rparr>) c)" "app_ok (upd_world (\<lambda>w. w\<lparr>requestAnimationUpdate := b\<rparr>) c)"
    "app_ok (upd_world (\<lambda>w. w\<lparr>requestPIXIFrame := b\<rparr>) c)"
  using assms by (simp_all add: upd_world_ok same_shapes_devs)

lemma frame_graphics_ok:
  assumes c: "app_ok c"
  shows "app_ok (snd (fst (frame_graphics ev t (b, c))))"
proof -
  have "app_ok (fst (upd_world_x (DeviceGraph_updateGraphics t (env_config ev) (env_font ev) (deviceGraph c))
      (upd_world (\<lambda>w. w\<lparr>requestGraphicsUpdate := False\<rparr>) (c\<lparr>lastGraphicsUpdate := t\<rparr>))))" (is "app_ok (fst (upd_world_x ?m ?c))")
  proof (rule upd_world_x_ok)
    show "app_ok ?c" by (intro flag_ok app_ok_more c)
    then have "map_ok (deviceGraph c) (ap_world ?c)" by (simp add: app_ok_def upd_world_def)
    then show "same_shapes (ap_world ?c) (fst (?m (ap_world ?c)))" by (rule graphics_shapes)
  qed
  then show ?thesis using c
    by (auto simp: frame_graphics_def ok_def throw_def split: prod.split option.split)
qed

lemma frame_animation_ok:
  assumes c: "app_ok c"
  shows "app_ok (snd (fst (frame_animation ev t (b, c))))"
proof -
  have "app_ok (fst (upd_world_x (DeviceGraph_updateAnimation (env_config ev) (deviceGraph c))
      (upd_world (\<lambda>w. w\<lparr>requestAnimationUpdate := False\<rparr>) (c\<lparr>lastAnimationUpdate := t\<rparr>))))"
    by (intro upd_world_x_ok graph_ops_shapes flag_ok app_ok_more c)
  then show ?thesis using c
    by (auto simp: frame_animation_def ok_def throw_def split: prod.split option.split)
qed

lemma frame_ok:
  assumes "app_ok a"
  shows "app_ok (fst (frame ev t a))"
proof -
  have "app_ok (snd (fst (and_then (frame_graphics ev t (False, c)) (frame_animation ev t))))" if c: "app_ok c" for c
    using frame_graphics_ok [OF c, of ev t False] frame_animation_ok
    by (cases "frame_graphics ev t (False, c)" rule: result_cases) (simp_all, metis prod.collapse)
  moreover have "app_ok (frame_ticker (b, c))" if "app_ok c" for b c
    using that by (simp add: frame_ticker_def Let_def app_ok_more flag_ok)
  ultimately show ?thesis using frame_fetch_ok [OF assms, of t]
    by (simp add: frame_def ok_def throw_def split: prod.split option.split) (metis fst_conv snd_conv)
qed

lemma mainLoop_ok: "app_ok a \<Longrightarrow> app_ok (fst (mainLoop ev t a))"
  unfolding mainLoop_def by (intro and_then_app_ok frame_ok app_ok_more) (simp_all add: app_ok_more)

subsection \<open>Every step\<close>

lemma on_icon_ok:
  assumes "app_ok a"
    and "devs (snd (fst (m (devs (ap_world a) r) (ap_world a)))) = devs (ap_world a)"
    and "next_dev (snd (fst (m (devs (ap_world a) r) (ap_world a)))) = next_dev (ap_world a)"
    and "same_shape (devs (ap_world a) r) (fst (fst (m (devs (ap_world a) r) (ap_world a))))"
  shows "app_ok (on_icon r m a)"
  unfolding on_icon_def
  by (intro settle_ok upd_world_x_ok assms(1))
    (use assms(2-4) in \<open>simp add: on_dev_x_def same_shapes_def case_prod_unfold Let_def\<close>)

lemma mousedown_world:
  "devs (snd (fst (Device_mousedown keys d w))) = devs w" "next_dev (snd (fst (Device_mousedown keys d w))) = next_dev w"
  "devs (snd (Device_mouseup d w)) = devs w" "next_dev (snd (Device_mouseup d w)) = next_dev w"
  "devs (snd (Device_mousemove f p d w)) = devs w" "next_dev (snd (Device_mousemove f p d w)) = next_dev w"
  by (simp_all add: Device_mousedown_def Device_mouseup_def Device_mousemove_def flag_toggled_def Device_updatePositionInfo_def
      request_updates_def Let_def split: option.split)

lemma label_ops_more [more_simps]:
  "page.more (LinkGroup_mousemove now toWorld g pt grp w) = page.more w"
  "page.more (LinkGroup_mouseout vp g grp w) = page.more w" "page.more (LinkGroup_mouseover vp g grp w) = page.more w"
  "page.more (fst (Link_mousemove now toWorld g pt l w)) = page.more w"
  "page.more (Link_mouseout vp g l w) = page.more w" "page.more (Link_mouseover vp g l w) = page.more w"
  by (simp_all add: LinkGroup_mousemove_def LinkGroup_mouseout_def LinkGroup_mouseover_def Link_mousemove_def Link_mouseout_def
      Link_mouseover_def Let_def more_simps split: sum.split)

lemma label_shapes:
  "same_shapes w (group_label vp g e grp w)" "same_shapes w (fst (link_label vp g e l w))"
  by (rule same_shapes_more, simp add: group_label_def link_label_def more_simps split: label_event.split)+

lemma search_ok: "app_ok a \<Longrightarrow> app_ok (fst (devicesearch_submit ev txt a))"
proof -
  have "same_shapes w (fst (on_dev_x d (Device_highlight s) w))" for d s w
    by (rule same_shapes_on_dev_x) (simp_all add: more_simps device_ops_shape)
  then show "app_ok a \<Longrightarrow> app_ok (fst (devicesearch_submit ev txt a))"
    by (simp add: devicesearch_submit_def upd_world_x_ok same_shapes_for_x split: sum.split)
qed

lemma answered_ok: "app_ok a \<Longrightarrow> app_ok (answered r a)"
  by (simp add: answered_def app_ok_more)

lemma app_step_ok:
  assumes "app_ok a" and "app_step ev a e b"
  shows "app_ok b"
  using assms(2,1)
proof cases
  case (tick t)
  then show ?thesis using assms(1) by (simp add: settle_ok mainLoop_ok)
next
  case (mouse_down r keys)
  then show ?thesis using assms(1) by (simp add: on_icon_ok mousedown_world device_ops_shape)
next
  case (mouse_up r)
  then show ?thesis using assms(1) by (simp add: on_icon_ok total_op_def mousedown_world device_ops_shape)
next
  case (mouse_move r toWorld pt)
  then show ?thesis using assms(1) by (simp add: on_icon_ok total_op_def mousedown_world device_ops_shape)
next
  case put_done
  then show ?thesis using assms(1) by (simp add: upd_world_ok app_ok_more same_shapes_devs put_done_def)
qed (simp_all add: assms(1) settle_ok answered_ok replies_ok dataUpdate_reply_ok upd_world_ok upd_world_x_ok label_shapes
      search_ok rendererResize_def app_ok_more viewport_moved_def same_shapes_devs)

definition app_init :: "app \<Rightarrow> bool" where
  "app_init a \<longleftrightarrow> (\<exists>window. a = new_WeatherMap window)"

lemma app_init_ok: "app_init a \<Longrightarrow> app_ok a"
  by (auto simp: app_init_def new_WeatherMap_def new_DeviceGraph_def app_ok_def map_ok_def graph_ok_def map_devices_def
      case_prod_unfold Let_def)

interpretation app: invariant_of app_init "app_step ev" app_ok for ev
  by unfold_locales (simp_all add: app_init_ok app_step_ok)

end
