(* ===== verification/Runs.thy ===== *)
theory Runs
  imports MapInvariant
begin

text \<open>
  Properties of whole runs of the page: how often it asks the servers, what survives an exception
  in the main loop, what the batch of Prometheus replies can contain.
\<close>

section \<open>What a step leaves alone\<close>

text \<open>The clocks of the main loop; only a tick changes them.\<close>

definition clocks :: "app \<Rightarrow> real list \<times> bool \<times> nat" where
  "clocks a = ([lastTopologyUpdate a, lastDataUpdate a, lastStatusUpdate a, lastPositionUpdate a,
     lastGraphicsUpdate a, lastAnimationUpdate a], looping a, ticker_updates a)"

named_theorems view_simps \<open>the clocks and requests after an operation\<close>

lemma world_ops_view [view_simps]:
  "clocks (upd_world f a) = clocks a" "pending (upd_world f a) = pending a"
  "clocks (fst (upd_world_x h a)) = clocks a" "pending (fst (upd_world_x h a)) = pending a"
  "clocks (fst (upd_graph_x k a)) = clocks a" "pending (fst (upd_graph_x k a)) = pending a"
  "clocks (settle r) = clocks (fst r)" "pending (settle r) = pending (fst r)"
  "clocks (answered q a) = clocks a" "pending (answered q a) = remove1 q (pending a)"
  "clocks (beginStatisticsUpdate a) = clocks a" "pending (beginStatisticsUpdate a) = pending a"
  "clocks (set_requested a) = clocks a" "pending (set_requested a) = pending a"
  by (simp_all add: clocks_def upd_world_def upd_world_x_def upd_graph_x_def settle_def answered_def beginStatisticsUpdate_def
      set_requested_def split: prod.split option.split)

lemma when_success_view [view_simps]:
  assumes "\<And>v a. clocks (fst (k v a)) = clocks a \<and> pending (fst (k v a)) = pending a"
  shows "clocks (fst (when_success p k a)) = clocks a" "pending (fst (when_success p k a)) = pending a"
  using assms by (simp_all add: when_success_def view_simps)

lemma and_then_view:
  assumes "\<And>a. clocks (fst (k a)) = clocks a \<and> pending (fst (k a)) = pending a"
  shows "clocks (fst (and_then r k)) = clocks (fst r)" "pending (fst (and_then r k)) = pending (fst r)"
  using assms by (cases r rule: result_cases; simp)+

lemma statistics_view [view_simps]:
  "clocks (fst (updateInterfaceSpeed p a)) = clocks a" "pending (fst (updateInterfaceSpeed p a)) = pending a"
  "clocks (fst (updateInterfaceOctetsPerSecond p a)) = clocks a" "pending (fst (updateInterfaceOctetsPerSecond p a)) = pending a"
  "clocks (fst (commitStatisticsUpdate now a)) = clocks a" "pending (fst (commitStatisticsUpdate now a)) = pending a"
  by (simp_all add: updateInterfaceSpeed_def updateInterfaceOctetsPerSecond_def commitStatisticsUpdate_def view_simps)

lemma dataUpdate_finish_view [view_simps]:
  "clocks (fst (dataUpdate_finish now rs a)) = clocks a" "pending (fst (dataUpdate_finish now rs a)) = pending a"
  by (simp_all add: dataUpdate_finish_def and_then_view view_simps)

lemma dataUpdate_reply_view [view_simps]:
  "clocks (fst (dataUpdate_reply now rs r a)) = clocks a"
  "pending (fst (dataUpdate_reply now rs r a)) =
     (if pr_status r \<noteq> ''error'' \<and> length rs < 3 then pending a @ [FetchData (rs @ [r])] else pending a)"
  by (auto simp: dataUpdate_reply_def Let_def view_simps data_queries_def) (simp add: clocks_def)

lemma reply_ops_view [view_simps]:
  "clocks (updateTopologyData_reply rnd d a) = clocks a" "pending (updateTopologyData_reply rnd d a) = pending a"
  "clocks (fst (statusUpdate_reply now info a)) = clocks a" "pending (fst (statusUpdate_reply now info a)) = pending a"
  "clocks (positionUpdate_reply pos a) = clocks a" "pending (positionUpdate_reply pos a) = pending a"
  "clocks (on_icon r m a) = clocks a" "pending (on_icon r m a) = pending a"
  "clocks (fst (devicesearch_submit ev txt a)) = clocks a" "pending (fst (devicesearch_submit ev txt a)) = pending a"
  "clocks (rendererResize window a) = clocks a" "pending (rendererResize window a) = pending a"
  "clocks (viewport_moved a) = clocks a" "pending (viewport_moved a) = pending a"
  by (simp_all add: statusUpdate_reply_def positionUpdate_reply_def on_icon_def devicesearch_submit_def viewport_moved_def
      view_simps split: sum.split)
    (simp_all add: updateTopologyData_reply_def rendererResize_def clocks_def case_prod_unfold Let_def)

lemma puts_view [view_simps]: "clocks (a\<lparr>puts_done := n\<rparr>) = clocks a" "pending (a\<lparr>puts_done := n\<rparr>) = pending a"
  by (simp_all add: clocks_def)

text \<open>The requests an event answers.\<close>

fun answers_to :: "event \<Rightarrow> request option" where
  "answers_to (TopologyReply rnd d) = Some FetchTopology"
| "answers_to (DataReply now rs r) = Some (FetchData rs)"
| "answers_to (StatusReply now info) = Some FetchStatus"
| "answers_to (PositionReply pos) = Some FetchPosition"
| "answers_to (FetchFails r) = Some r"
| "answers_to e = None"

fun is_tick :: "event \<Rightarrow> bool" where
  "is_tick (Tick t) = True"
| "is_tick e = False"

lemma app_step_view:
  assumes "app_step ev a e b" and "\<not> is_tick e"
  shows "clocks b = clocks a"
    and "\<exists>more. pending b = (case answers_to e of Some q \<Rightarrow> remove1 q (pending a) | None \<Rightarrow> pending a) @ more
      \<and> set more \<subseteq> {FetchData rs |rs. rs \<noteq> []}"
    and "\<And>q. answers_to e = Some q \<Longrightarrow> q \<in> set (pending a)"
proof -
  from assms have "clocks b = clocks a
    \<and> (\<exists>more. pending b = (case answers_to e of Some q \<Rightarrow> remove1 q (pending a) | None \<Rightarrow> pending a) @ more
      \<and> set more \<subseteq> {FetchData rs |rs. rs \<noteq> []})
    \<and> (\<forall>q. answers_to e = Some q \<longrightarrow> q \<in> set (pending a))"
    by cases (simp_all add: view_simps)
  then show "clocks b = clocks a"
    and "\<exists>more. pending b = (case answers_to e of Some q \<Rightarrow> remove1 q (pending a) | None \<Rightarrow> pending a) @ more
      \<and> set more \<subseteq> {FetchData rs |rs. rs \<noteq> []}"
    and "\<And>q. answers_to e = Some q \<Longrightarrow> q \<in> set (pending a)" by blast+
qed

section \<open>How often the servers are asked\<close>

text \<open>What the fetching part of a frame decides, the rest of the frame leaves alone.\<close>

definition request_view :: "app \<Rightarrow> request list \<times> real \<times> real \<times> real \<times> real" where
  "request_view a = (pending a, lastTopologyUpdate a, lastDataUpdate a, lastStatusUpdate a, lastPositionUpdate a)"

lemma frame_view:
  assumes "\<And>a w. V (a\<lparr>ap_world := w\<rparr>) = V a" and "\<And>a x. V (a\<lparr>lastGraphicsUpdate := x\<rparr>) = V a"
    and "\<And>a x. V (a\<lparr>lastAnimationUpdate := x\<rparr>) = V a" and "\<And>a n. V (a\<lparr>ticker_updates := n\<rparr>) = V a"
  shows "V (fst (frame ev t a)) = V (frame_fetch t a)"
proof -
  note V = assms
  have x: "upd_world_x h a = (b, e) \<Longrightarrow> V b = V a" for h a b e
    by (auto simp: upd_world_x_def V split: prod.splits)
  have w: "V (upd_world f a) = V a" for f a by (simp add: upd_world_def V)
  have g: "V (snd (fst (frame_graphics ev t ta))) = V (snd ta)" for ta
    by (cases ta) (auto simp: frame_graphics_def ok_def throw_def w V split: prod.split option.split dest!: x)
  have n: "V (snd (fst (frame_animation ev t ta))) = V (snd ta)" for ta
    by (cases ta) (auto simp: frame_animation_def ok_def throw_def w V split: prod.split option.split dest!: x)
  have k: "V (frame_ticker ta) = V (snd ta)" for ta
    by (cases ta) (simp add: frame_ticker_def Let_def w V)
  show ?thesis
  proof (cases "frame_graphics ev t (False, frame_fetch t a)" rule: result_cases)
    case (ok u)
    then have u: "V (snd u) = V (frame_fetch t a)" using g [of "(False, frame_fetch t a)"] by simp
    obtain v e where v: "frame_animation ev t u = (v, e)" by fastforce
    then have "V (snd v) = V (snd u)" using n [of u] by simp
    with u show ?thesis by (cases e) (simp_all add: frame_def ok v k case_prod_unfold)
  next
    case (throw e u)
    then have "V (snd u) = V (frame_fetch t a)" using g [of "(False, frame_fetch t a)"] by simp
    then show ?thesis unfolding frame_def throw and_then_throw
      by (simp add: throw_def case_prod_unfold)
  qed
qed

lemma tick_requests: "request_view (settle (mainLoop ev t a)) = request_view (frame_fetch t a)"
proof -
  have f: "request_view (fst (frame ev t b)) = request_view (frame_fetch t b)" for b
    by (rule frame_view) (simp_all add: request_view_def)
  have l: "request_view (b\<lparr>looping := x\<rparr>) = request_view b" "request_view (b\<lparr>uncaught := y\<rparr>) = request_view b" for b x y
    by (simp_all add: request_view_def)
  have "request_view (frame_fetch t (a\<lparr>looping := False\<rparr>)) = request_view (frame_fetch t a)"
    by (simp add: frame_fetch_def send_def Let_def request_view_def)
  then have "request_view (fst (mainLoop ev t a)) = request_view (frame_fetch t a)"
    using f [of "a\<lparr>looping := False\<rparr>"]
    by (cases "frame ev t (a\<lparr>looping := False\<rparr>)" rule: result_cases) (simp_all add: mainLoop_def l)
  then show ?thesis by (cases "mainLoop ev t a" rule: result_cases) (simp_all add: settle_def ok_def throw_def l)
qed

text \<open>A kind of request with its period and its clock: between two requests lies more than the period.\<close>

definition paced :: "request \<Rightarrow> real \<Rightarrow> (app \<Rightarrow> real) \<Rightarrow> bool" where
  "paced q period clock \<longleftrightarrow>
     (q, period, clock) = (FetchTopology, 60, lastTopologyUpdate)
   \<or> (q, period, clock) = (FetchData [], 10, lastDataUpdate)
   \<or> (q, period, clock) = (FetchStatus, 1, lastStatusUpdate)
   \<or> (q, period, clock) = (FetchPosition, 1, lastPositionUpdate)"

lemma frame_fetch_paced:
  assumes "paced q period clock"
  shows "period * real (count_list (pending (frame_fetch t a)) q) - clock (frame_fetch t a)
      \<le> period * real (count_list (pending a) q) - clock a"
    and "clock (frame_fetch t a) = clock a \<or> clock (frame_fetch t a) = t"
  using assms by (auto simp: paced_def frame_fetch_def send_def Let_def)

lemma clocks_paced: "clocks b = clocks a \<Longrightarrow> paced q period clock \<Longrightarrow> clock b = clock a"
  by (auto simp: clocks_def paced_def)

lemma request_view_paced:
  assumes "request_view b = request_view a" and "paced q period clock"
  shows "clock b = clock a \<and> pending b = pending a"
  using assms by (auto simp: request_view_def paced_def)

lemma count_list_remove1: "x \<in> set xs \<Longrightarrow> count_list xs y = count_list (remove1 x xs) y + (if x = y then 1 else 0)"
  by (induction xs) auto

lemma paced_step:
  assumes q: "paced q period clock" and step: "app_step ev a e b"
  shows "period * (real (count_list (pending b) q) + (if answers_to e = Some q then 1 else 0)) - clock b
      \<le> period * real (count_list (pending a) q) - clock a"
    and "clock b = clock a \<or> e = Tick (clock b)"
proof -
  have "period * (real (count_list (pending b) q) + (if answers_to e = Some q then 1 else 0)) - clock b
      \<le> period * real (count_list (pending a) q) - clock a
    \<and> (clock b = clock a \<or> e = Tick (clock b))"
  proof (cases "is_tick e")
    case True
    then obtain t where e: "e = Tick t" by (cases e) auto
    with step have "b = settle (mainLoop ev t a)" by (auto elim: app_step.cases)
    with request_view_paced [OF tick_requests q, of ev t a] frame_fetch_paced [OF q, of t a] show ?thesis
      by (auto simp: e)
  next
    case False
    note view = app_step_view [OF step False]
    obtain more where p: "pending b = (case answers_to e of Some q \<Rightarrow> remove1 q (pending a) | None \<Rightarrow> pending a) @ more"
      and more: "set more \<subseteq> {FetchData rs |rs. rs \<noteq> []}" using view(2) by blast
    have "count_list more q = 0" using more q by (auto simp: count_list_0_iff paced_def)
    then have "count_list (pending b) q + (if answers_to e = Some q then 1 else 0) = count_list (pending a) q"
      using count_list_remove1 [OF view(3), where y = q] by (cases "answers_to e") (auto simp: p)
    then have "real (count_list (pending b) q) + (if answers_to e = Some q then 1 else 0) = real (count_list (pending a) q)"
      by (cases "answers_to e = Some q") (simp_all flip: of_nat_Suc)
    then show ?thesis using clocks_paced [OF view(1) q] by simp
  qed
  then show "period * (real (count_list (pending b) q) + (if answers_to e = Some q then 1 else 0)) - clock b
      \<le> period * real (count_list (pending a) q) - clock a" and "clock b = clock a \<or> e = Tick (clock b)" by blast+
qed

lemma paced_run:
  assumes "paced q period clock" and "app.run ev s es a"
  shows "period * (real (length (filter (\<lambda>e. answers_to e = Some q) es)) + real (count_list (pending a) q))
      \<le> (clock a - clock s) + period * real (count_list (pending s) q)
    \<and> (clock a = clock s \<or> Tick (clock a) \<in> set es)"
  using assms(2)
proof (induction rule: app.run.induct)
  case (run_snoc s es t e u)
  let ?n = "real (length (filter (\<lambda>e. answers_to e = Some q) es))" and ?d = "if answers_to e = Some q then 1 else 0 :: real"
  have "period * (real (length (filter (\<lambda>e. answers_to e = Some q) (es @ [e]))) + real (count_list (pending u) q))
      = period * ?n + period * (real (count_list (pending u) q) + ?d)" by (simp add: algebra_simps)
  with paced_step [OF assms(1) run_snoc.hyps(2)] run_snoc.IH show ?case
    by (auto simp: algebra_simps)
qed simp

text \<open>C18: In every run of the page, between whatever events, the servers answer at most one topology request
  per 60 seconds, one data update per 10 seconds, one status and one position request per second, those still
  in flight included: \<open>n\<close> answers and requests in flight need a clock that has moved on by \<open>n\<close>
  periods, and the clock moves only to the time of a frame.\<close>

theorem requests_paced:
  assumes "paced q period clock" and "app.run ev s es a"
  shows "period * (real (length (filter (\<lambda>e. answers_to e = Some q) es)) + real (count_list (pending a) q))
      \<le> (clock a - clock s) + period * real (count_list (pending s) q)
    \<and> (clock a = clock s \<or> Tick (clock a) \<in> set es)"
  by (rule paced_run [OF assms])

definition example_env :: env where
  "example_env = \<lparr>env_config = config_dist, env_font = \<lparr>text_width = (\<lambda>_. 8), text_height = (\<lambda>_. 14)\<rparr>,
     env_regexp = (\<lambda>_. None)\<rparr>"

definition first_frame :: app where
  "first_frame = settle (mainLoop example_env 100 (new_WeatherMap (800, 600)))"

lemma first_frame_run: "app.run example_env (new_WeatherMap (800, 600)) [Tick 100] first_frame"
proof -
  have "looping (new_WeatherMap (800, 600))" by (simp add: new_WeatherMap_def case_prod_unfold Let_def)
  then have "app_step example_env (new_WeatherMap (800, 600)) (Tick 100) first_frame"
    unfolding first_frame_def by (rule app_step.tick)
  from app.run_snoc [OF app.run_nil this] show ?thesis by simp
qed

theorem requests_paced_witness: "60 * real (count_list (pending first_frame) FetchTopology) \<le> lastTopologyUpdate first_frame"
proof -
  have "pending (new_WeatherMap (800, 600)) = []" "lastTopologyUpdate (new_WeatherMap (800, 600)) = 0"
    by (simp_all add: new_WeatherMap_def case_prod_unfold Let_def)
  then show ?thesis
    using requests_paced [OF _ first_frame_run, of FetchTopology 60 lastTopologyUpdate] by (simp add: paced_def)
qed

section \<open>An exception in the main loop\<close>

lemma edgeNodeAnimation_returns: "classified (devs w r) \<Longrightarrow> returns (edgeNodeAnimation cfg r w)"
  using isLargeIcon_classified [of w r]
  by (auto simp: edgeNodeAnimation_def Let_def split: list.splits)

lemma updateAnimation_returns:
  assumes "map_ok g w"
  shows "returns (DeviceGraph_updateAnimation cfg g w)"
proof -
  let ?f = "\<lambda>(key, value). Device_updateAnimation cfg value"
  have "returns (?f x v) \<and> same_shapes w (fst (?f x v))"
    if x: "x \<in> set (obj_entries (devices g))" and v: "same_shapes w v" for x v
  proof -
    obtain k r where kr: "x = (k, r)" by fastforce
    have "same_shapes v (on_dev r effectAnimation v)"
      by (rule same_shapes_on_dev) (simp_all add: more_simps device_ops_shape)
    then have "same_shapes w (on_dev r effectAnimation v)" by (rule same_shapes_trans [OF v])
    moreover have "classified (devs w r)" using map_ok_classified [OF assms] x by (auto simp: kr)
    ultimately have "classified (devs (on_dev r effectAnimation v) r)" by (simp add: same_shapes_classified)
    from edgeNodeAnimation_returns [OF this] have "returns (Device_updateAnimation cfg r v)"
      by (simp add: Device_updateAnimation_def Let_def)
    with same_shapes_trans [OF v animation_shapes] show ?thesis by (simp add: kr)
  qed
  then show ?thesis unfolding DeviceGraph_updateAnimation_def
    using for_x_returns [where P = "same_shapes w" and f = ?f and xs = "obj_entries (devices g)" and s = w] by simp
qed

text \<open>A tick draws when drawing was asked for, or the last time is more than ten seconds ago.\<close>

definition drawing_due :: "real \<Rightarrow> app \<Rightarrow> bool" where
  "drawing_due t a \<longleftrightarrow> t - lastGraphicsUpdate a > 10 \<or> requestGraphicsUpdate (ap_world a)"

lemma fetch_keeps:
  "ap_world (frame_fetch t a) = ap_world a" "deviceGraph (frame_fetch t a) = deviceGraph a"
  "drawing_due t (frame_fetch t a) = drawing_due t a"
  by (simp_all add: frame_fetch_def send_def Let_def drawing_due_def)

lemma frame_graphics_returns:
  assumes "app_ok c"
  shows "returns (frame_graphics ev t (b, c)) \<longleftrightarrow> \<not> (drawing_due t c \<and> \<not> no_dangling (deviceGraph c) (ap_world c))"
proof -
  define d where "d = upd_world (\<lambda>w. w\<lparr>requestGraphicsUpdate := False\<rparr>) (c\<lparr>lastGraphicsUpdate := t\<rparr>)"
  have d: "map_ok (deviceGraph c) (ap_world d)" "no_dangling (deviceGraph c) (ap_world d) = no_dangling (deviceGraph c) (ap_world c)"
    using map_ok_shapes [of "deviceGraph c" "ap_world c" "ap_world d"] assms
    by (simp_all add: d_def upd_world_def app_ok_def same_shapes_devs no_dangling_def)
  then have draw: "returns (DeviceGraph_updateGraphics t (env_config ev) (env_font ev) (deviceGraph c) (ap_world d))
      \<longleftrightarrow> no_dangling (deviceGraph c) (ap_world c)"
    using DeviceGraph_updateGraphics_result [OF _ map_ok_classified [OF d(1)], of t "env_config ev" "env_font ev"]
    by (simp add: map_ok_def)
  obtain w e where we: "DeviceGraph_updateGraphics t (env_config ev) (env_font ev) (deviceGraph c) (ap_world d) = (w, e)" by fastforce
  have "upd_world_x (DeviceGraph_updateGraphics t (env_config ev) (env_font ev) (deviceGraph c)) d = (d\<lparr>ap_world := w\<rparr>, e)"
    by (simp add: upd_world_x_def we)
  with draw we show ?thesis
    by (cases e) (auto simp: frame_graphics_def drawing_due_def d_def [symmetric] returns_def [where r = "(_, _)"])
qed

lemma frame_animation_returns:
  assumes "app_ok c"
  shows "returns (frame_animation ev t (b, c))"
proof -
  define d where "d = upd_world (\<lambda>w. w\<lparr>requestAnimationUpdate := False\<rparr>) (c\<lparr>lastAnimationUpdate := t\<rparr>)"
  have "map_ok (deviceGraph c) (ap_world d)"
    using assms map_ok_shapes [OF _ same_shapes_devs] by (simp add: d_def app_ok_def upd_world_def)
  from updateAnimation_returns [OF this, of "env_config ev"]
  obtain w where "DeviceGraph_updateAnimation (env_config ev) (deviceGraph c) (ap_world d) = (w, None)"
    by (metis prod.collapse returns_def)
  then have "upd_world_x (DeviceGraph_updateAnimation (env_config ev) (deviceGraph c)) d = (d\<lparr>ap_world := w\<rparr>, None)"
    by (simp add: upd_world_x_def)
  then show ?thesis by (simp add: frame_animation_def d_def [symmetric])
qed

lemma frame_returns_iff:
  assumes "app_ok a"
  shows "returns (frame ev t a) \<longleftrightarrow> \<not> (drawing_due t a \<and> \<not> no_dangling (deviceGraph a) (ap_world a))"
proof -
  have c: "app_ok (frame_fetch t a)" by (rule frame_fetch_ok [OF assms])
  note g = frame_graphics_returns [OF c, of ev t False, unfolded fetch_keeps]
  show ?thesis
  proof (cases "frame_graphics ev t (False, frame_fetch t a)" rule: result_cases)
    case (ok u)
    then have "app_ok (snd u)" using frame_graphics_ok [OF c, of ev t False] by simp
    then have "returns (frame_animation ev t u)" using frame_animation_returns by (metis prod.collapse)
    then obtain v where "frame_animation ev t u = ok v" by (metis returns_ok)
    then show ?thesis using g by (simp add: ok frame_def) (simp add: ok_def returns_def)
  next
    case (throw e u)
    then show ?thesis using g by (simp add: frame_def case_prod_unfold throw_def) (simp add: returns_def)
  qed
qed

lemma mainLoop_looping:
  assumes "app_ok a"
  shows "(looping (settle (mainLoop ev t a)) \<longleftrightarrow>
      \<not> ((t - lastGraphicsUpdate a > 10 \<or> requestGraphicsUpdate (ap_world a))
         \<and> (\<exists>(k, r) \<in> set (devices (deviceGraph a)). \<exists>target \<in> obj_keys (linkGroups (devs (ap_world a) r)).
               \<not> obj_has (devices (deviceGraph a)) target)))
    \<and> length (uncaught (settle (mainLoop ev t a))) = length (uncaught a) + (if looping (settle (mainLoop ev t a)) then 0 else 1)"
proof -
  define b where "b = a\<lparr>looping := False\<rparr>"
  have b: "app_ok b" using assms by (simp add: b_def app_ok_more)
  note r = frame_returns_iff [OF b, of ev t]
  have u: "uncaught (fst (frame ev t b)) = uncaught a"
    by (subst frame_view [where V = uncaught]) (simp_all add: frame_fetch_def send_def Let_def b_def)
  have nolo: "looping (fst (frame ev t b)) = False"
    by (subst frame_view [where V = looping]) (simp_all add: frame_fetch_def send_def Let_def b_def)
  have dangling: "no_dangling (deviceGraph b) (ap_world b) \<longleftrightarrow>
      \<not> (\<exists>(k, r) \<in> set (devices (deviceGraph a)). \<exists>target \<in> obj_keys (linkGroups (devs (ap_world a) r)).
               \<not> obj_has (devices (deviceGraph a)) target)"
    by (auto simp: no_dangling_def b_def obj_has_iff)
  show ?thesis
  proof (cases "frame ev t b" rule: result_cases)
    case (ok c)
    then have "settle (mainLoop ev t a) = c\<lparr>looping := True\<rparr>" by (simp add: mainLoop_def b_def settle_def ok_def)
    then show ?thesis using r u unfolding dangling by (simp add: ok) (auto simp: drawing_due_def b_def)
  next
    case (throw e c)
    then have "settle (mainLoop ev t a) = c\<lparr>uncaught := uncaught c @ [e]\<rparr>"
      by (simp add: mainLoop_def b_def [symmetric] settle_def throw_def)
    then show ?thesis using r u nolo by (simp add: throw dangling) (simp add: drawing_due_def b_def)
  qed
qed

text \<open>C7: In every state the page can reach, a turn of the main loop asks for the next frame unless it draws
  (because drawing was requested or the last time is over ten seconds ago) while a device on the map
  has a link group to a device that is not on it: nothing else in a frame can throw, the animation in
  particular, and then the loop is left with exactly one more exception reported.\<close>

theorem mainLoop_stops_iff_dangling:
  assumes "app.reachable ev a"
  shows "(looping (settle (mainLoop ev t a)) \<longleftrightarrow>
      \<not> ((t - lastGraphicsUpdate a > 10 \<or> requestGraphicsUpdate (ap_world a))
         \<and> (\<exists>(k, r) \<in> set (devices (deviceGraph a)). \<exists>target \<in> obj_keys (linkGroups (devs (ap_world a) r)).
               \<not> obj_has (devices (deviceGraph a)) target)))
    \<and> length (uncaught (settle (mainLoop ev t a))) = length (uncaught a) + (if looping (settle (mainLoop ev t a)) then 0 else 1)"
  by (rule mainLoop_looping [OF app.inv_reachable [OF assms]])

text \<open>The first topology document names one device only, which is linked to another one.\<close>

definition half_topology :: topology where
  "half_topology = [(''sw1.net'', example_topology)]"

definition half_map :: app where
  "half_map = updateTopologyData_reply (\<lambda>_. (0, 0)) half_topology (answered FetchTopology first_frame)"

lemma half_map_run:
  "app.run example_env (new_WeatherMap (800, 600)) [Tick 100, TopologyReply (\<lambda>_. (0, 0)) half_topology] half_map"
proof -
  have "pending first_frame = pending (frame_fetch 100 (new_WeatherMap (800, 600)))"
    using tick_requests [of example_env 100 "new_WeatherMap (800, 600)"] by (simp add: request_view_def first_frame_def)
  then have "FetchTopology \<in> set (pending first_frame)"
    by (simp add: frame_fetch_def send_def new_WeatherMap_def case_prod_unfold Let_def)
  moreover have "topology_ok half_topology"
    by (simp add: half_topology_def topology_ok_def obj_ok_def example_topology_def)
  ultimately have "app_step example_env first_frame (TopologyReply (\<lambda>_. (0, 0)) half_topology) half_map"
    unfolding half_map_def by (rule app_step.topology)
  from app.run_snoc [OF first_frame_run this] show ?thesis by simp
qed

lemma half_map_reachable: "app.reachable example_env half_map"
  using half_map_run by (auto simp: app.reachable_def app_init_def)

lemma half_map_dangling:
  "\<exists>(k, r) \<in> set (devices (deviceGraph half_map)). \<exists>target \<in> obj_keys (linkGroups (devs (ap_world half_map) r)).
     \<not> obj_has (devices (deviceGraph half_map)) target"
proof -
  obtain g w where gw: "DeviceGraph_updateTopologyData (\<lambda>_. (0, 0)) half_topology
      (deviceGraph (answered FetchTopology first_frame)) (ap_world (answered FetchTopology first_frame)) = (g, w)" by fastforce
  then have eq: "deviceGraph half_map = g" "ap_world half_map = w"
    by (simp_all add: half_map_def updateTopologyData_reply_def)
  have "app_ok first_frame" by (rule app.inv_run [OF first_frame_run app_init_ok]) (auto simp: app_init_def)
  then have ok: "graph_ok (deviceGraph (answered FetchTopology first_frame)) (ap_world (answered FetchTopology first_frame))"
    by (simp add: app_ok_def map_ok_def answered_def)
  have top: "topology_ok half_topology"
    by (simp add: half_topology_def topology_ok_def obj_ok_def example_topology_def)
  have "obj_get half_topology ''sw1.net'' = Some example_topology" by (simp add: half_topology_def obj_get_def)
  from DeviceGraph_topology_aux(3) [OF ok top gw this]
  obtain r where r: "obj_get (devices g) ''sw1.net'' = Some r" "topo_synced example_topology (devs w r)" by blast
  have keys: "obj_keys (devices g) = {''sw1.net''}"
    using DeviceGraph_topology_aux(1) [OF ok top gw] by (simp add: half_topology_def obj_keys_def)
  have "cables example_topology ''sw2.net'' \<noteq> {}" by (auto simp: cables_def example_topology_def topo_connectedTo_def obj_get_def)
  then have "''sw2.net'' \<in> obj_keys (linkGroups (devs w r))" using r(2) by (simp add: topo_synced_def)
  moreover have "\<not> obj_has (devices g) ''sw2.net''" by (simp add: obj_has_iff keys)
  ultimately show ?thesis unfolding eq using obj_getD [OF r(1)] by blast
qed

theorem mainLoop_stops_iff_dangling_witness:
  "\<not> looping (settle (mainLoop example_env (lastGraphicsUpdate half_map + 11) half_map))"
  using mainLoop_stops_iff_dangling [OF half_map_reachable, of "lastGraphicsUpdate half_map + 11"] half_map_dangling by simp

text \<open>Once an exception has left the main loop it never runs again, whatever replies, clicks and searches
  follow: there is no further frame, nothing is drawn or animated, and none of the clocks moves, so no
  further request is sent.\<close>

theorem stopped_loop_stays_stopped:
  assumes "app.run ev s es a" and "\<not> looping s"
  shows "\<not> looping a \<and> clocks a = clocks s \<and> (\<forall>t. Tick t \<notin> set es)
    \<and> (\<forall>q period clock. paced q period clock \<longrightarrow> count_list (pending a) q \<le> count_list (pending s) q)"
proof -
  have "\<not> looping a \<and> clocks a = clocks s \<and> (\<forall>t. Tick t \<notin> set es)" using assms
  proof (induction rule: app.run.induct)
    case (run_snoc s es t e u)
    then have t: "\<not> looping t" "clocks t = clocks s" by auto
    have "\<not> is_tick e" using run_snoc.hyps(2) t(1) by cases auto
    moreover from app_step_view(1) [OF run_snoc.hyps(2) this] have "clocks u = clocks t" .
    ultimately show ?case using t run_snoc by (auto simp: clocks_def)
  qed simp
  moreover have "count_list (pending a) q \<le> count_list (pending s) q" if p: "paced q period clock" for q period clock
  proof -
    have "clock a = clock s" using calculation clocks_paced [OF _ p] by blast
    moreover have "0 < period" using p by (auto simp: paced_def)
    ultimately have "real (length (filter (\<lambda>e. answers_to e = Some q) es)) + real (count_list (pending a) q)
        \<le> real (count_list (pending s) q)"
      using paced_run [OF p assms(1)] by simp
    then show ?thesis by linarith
  qed
  ultimately show ?thesis by blast
qed

text \<open>After the map has died on the dangling link a reply still arrives, but no frame.\<close>

definition dead_page :: app where
  "dead_page = settle (mainLoop example_env (lastGraphicsUpdate half_map + 11) half_map)"

theorem stopped_loop_stays_stopped_witness: "clocks (viewport_moved dead_page) = clocks dead_page"
proof -
  have "\<not> looping dead_page"
    using half_map_dangling mainLoop_looping [OF app.inv_reachable [OF half_map_reachable],
        where t = "lastGraphicsUpdate half_map + 11" and ev = example_env]
    by (simp add: dead_page_def)
  moreover have "app.run example_env dead_page [Moved] (viewport_moved dead_page)"
    using app.run_snoc [OF app.run_nil app_step.moved] by simp
  ultimately show ?thesis using stopped_loop_stays_stopped by blast
qed

section \<open>The map in every reachable state\<close>

text \<open>C6: Whatever happens, the map stays in one piece: in every state the page can reach, the devices on the
  map are distinct objects with well-formed dictionaries of interfaces, link groups and links, each is
  classified as super node or edge node, and its neighbours are devices on the map, never ones that
  have been removed.\<close>

theorem reachable_map:
  assumes "app.reachable ev a"
  defines "g \<equiv> deviceGraph a" and "w \<equiv> ap_world a"
  shows "obj_ok (devices g)
    \<and> (\<forall>k r. obj_get (devices g) k = Some r \<longrightarrow> r < next_dev w \<and> groups_ok (devs w r) \<and> classified (devs w r)
        \<and> (\<forall>n \<in> set (neighborDevices (devs w r)). \<exists>k'. obj_get (devices g) k' = Some n))
    \<and> (\<forall>k k' r. obj_get (devices g) k = Some r \<longrightarrow> obj_get (devices g) k' = Some r \<longrightarrow> k = k')"
  using app.inv_reachable [OF assms(1)]
  by (auto simp: app_ok_def map_ok_def graph_ok_def connected_def map_devices_def g_def w_def)

theorem reachable_map_witness:
  "\<exists>k r. obj_get (devices (deviceGraph half_map)) k = Some r \<and> classified (devs (ap_world half_map) r)"
proof -
  obtain k r where "(k, r) \<in> set (devices (deviceGraph half_map))" using half_map_dangling by blast
  moreover have "obj_ok (devices (deviceGraph half_map))" using reachable_map [OF half_map_reachable] by blast
  ultimately have "obj_get (devices (deviceGraph half_map)) k = Some r" by (rule obj_get_in [rotated])
  then show ?thesis using reachable_map [OF half_map_reachable] by blast
qed

text \<open>The replies a data update has collected: never more than three before the last, and none of them an error.\<close>

definition data_ok :: "app \<Rightarrow> bool" where
  "data_ok a \<longleftrightarrow> (\<forall>rs. FetchData rs \<in> set (pending a) \<longrightarrow> length rs < 4 \<and> (\<forall>r \<in> set rs. pr_status r \<noteq> ''error''))"

lemma data_step:
  assumes "data_ok a" and "app_step ev a e b"
  shows "data_ok b"
proof (cases "is_tick e")
  case True
  then obtain t where e: "e = Tick t" by (cases e) auto
  with assms(2) have "b = settle (mainLoop ev t a)" by (auto elim: app_step.cases)
  then have "pending b = pending (frame_fetch t a)" using tick_requests [of ev t a] by (simp add: request_view_def)
  then have "set (pending b) \<subseteq> set (pending a) \<union> {FetchTopology, FetchData [], FetchStatus, FetchPosition}"
    by (auto simp: frame_fetch_def send_def Let_def)
  then show ?thesis using assms(1) by (fastforce simp: data_ok_def)
next
  case False
  show ?thesis
  proof (cases "\<exists>now rs r. e = DataReply now rs r")
    case True
    then obtain now rs r where e: "e = DataReply now rs r" by blast
    with assms(2) have "FetchData rs \<in> set (pending a)"
      and b: "b = settle (dataUpdate_reply now rs r (answered (FetchData rs) a))" by (auto elim: app_step.cases)
    then have "length rs < 4 \<and> (\<forall>r \<in> set rs. pr_status r \<noteq> ''error'')" using assms(1) by (simp add: data_ok_def)
    moreover have "set (pending b) \<subseteq> set (pending a) \<union>
        (if pr_status r \<noteq> ''error'' \<and> length rs < 3 then {FetchData (rs @ [r])} else {})"
      by (auto simp: b view_simps dest: set_mp [OF set_remove1_subset])
    ultimately show ?thesis using assms(1) by (fastforce simp: data_ok_def split: if_splits)
  next
    case no: False
    have "set (pending b) \<subseteq> set (pending a)" using assms(2) no False
      by cases (auto simp: view_simps dest: set_mp [OF set_remove1_subset])
    then show ?thesis using assms(1) by (auto simp: data_ok_def)
  qed
qed

interpretation data: invariant_of app_init "app_step ev" data_ok for ev
  by unfold_locales
    (auto simp: app_init_def data_ok_def new_WeatherMap_def case_prod_unfold Let_def dest: data_step [unfolded data_ok_def])

text \<open>C19: A data update uses exactly four replies in the order of its queries.  Each reply either rejects the
  update, and then neither the map nor the batch nor any device has changed; or it is kept and the next
  query sent; or it is the fourth, and then the speeds come from the third reply and the rates from the
  fourth, none of the four being an error.\<close>

theorem data_update_replies:
  assumes "app.reachable ev a" and "app_step ev a (DataReply now rs r) b"
  shows "if pr_status r = ''error''
      then deviceGraph b = deviceGraph a \<and> ap_world b = ap_world a \<and> length (uncaught b) = Suc (length (uncaught a))
      else if length rs < 3
      then deviceGraph b = deviceGraph a \<and> ap_world b = ap_world a \<and> FetchData (rs @ [r]) \<in> set (pending b)
      else (\<exists>deviceUp interfaceUp speeds. rs = [deviceUp, interfaceUp, speeds]
        \<and> (\<forall>x \<in> set (rs @ [r]). pr_status x \<noteq> ''error'')
        \<and> b = settle (and_then (updateInterfaceSpeed speeds (beginStatisticsUpdate (answered (FetchData rs) a)))
               (\<lambda>a. and_then (updateInterfaceOctetsPerSecond r a)
                 (\<lambda>a. and_then (commitStatisticsUpdate now a) (\<lambda>a. ok (set_requested a))))))"
proof -
  have in_flight: "FetchData rs \<in> set (pending a)"
    and b: "b = settle (dataUpdate_reply now rs r (answered (FetchData rs) a))"
    using assms(2) by (auto elim: app_step.cases)
  have "length rs < 4" and good: "\<forall>x \<in> set rs. pr_status x \<noteq> ''error''"
    using data.inv_reachable [OF assms(1)] in_flight by (auto simp: data_ok_def)
  show ?thesis
  proof (cases "pr_status r = ''error'' \<or> length rs < 3")
    case True
    then show ?thesis
      by (auto simp: b dataUpdate_reply_def settle_def throw_def ok_def answered_def data_queries_def)
  next
    case False
    with \<open>length rs < 4\<close> have "length rs = 3" by simp
    then obtain x y z where rs: "rs = [x, y, z]" by (auto simp: numeral_3_eq_3 length_Suc_conv)
    with False good show ?thesis
      by (simp add: b dataUpdate_reply_def data_queries_def dataUpdate_finish_def)
  qed
qed

theorem data_update_replies_witness:
  "\<exists>b. app_step example_env first_frame (DataReply 101 [] \<lparr>pr_status = ''error'', pr_resultType = [], pr_result = []\<rparr>) b
     \<and> deviceGraph b = deviceGraph first_frame"
proof -
  have "pending first_frame = pending (frame_fetch 100 (new_WeatherMap (800, 600)))"
    using tick_requests [of example_env 100 "new_WeatherMap (800, 600)"] by (simp add: request_view_def first_frame_def)
  then have "FetchData [] \<in> set (pending first_frame)"
    by (simp add: frame_fetch_def send_def new_WeatherMap_def case_prod_unfold Let_def)
  note step = app_step.data [OF this, where now = 101 and r = "\<lparr>pr_status = ''error'', pr_resultType = [], pr_result = []\<rparr>"
      and ev = example_env]
  have "app.reachable example_env first_frame"
    using first_frame_run by (auto simp: app.reachable_def app_init_def)
  from data_update_replies [OF this step] step show ?thesis by auto
qed

end
