(* ===== verification/Geometry.thy ===== *)
theory Geometry
  imports VictorVec
begin

text \<open>
  The geometry of \<^verbatim>\<open>js/pixi.js\<close> that places and hits the drawings of the map: points,
  affine matrices and the shapes that hit testing asks.  Points are pairs of coordinates, as in
  \<open>victor\<close>; a method that mutates its receiver returns it.
\<close>

section \<open>Points\<close>

text \<open>\<open>y\<close> is None when it is not given.\<close>

definition Point_set :: "jsnum \<Rightarrow> jsnum option \<Rightarrow> victor \<Rightarrow> victor" where
  "Point_set x y this =
     (let x' = or0 x
      in this\<lparr>vx := x', vy := (case y of None \<Rightarrow> x' | Some b \<Rightarrow> if truthy b then b else if b \<noteq> 0 then x' else 0)\<rparr>)"

definition Point_copy :: "victor \<Rightarrow> victor \<Rightarrow> victor" where
  "Point_copy p this = Point_set (vx p) (Some (vy p)) this"

definition Point_equals :: "victor \<Rightarrow> victor \<Rightarrow> bool" where
  "Point_equals p this \<longleftrightarrow> js_eq (vx p) (vx this) \<and> js_eq (vy p) (vy this)"

text \<open>An observable point tells its owner when it changes: the Boolean.\<close>

definition ObservablePoint_set :: "jsnum \<Rightarrow> jsnum option \<Rightarrow> victor \<Rightarrow> victor \<times> bool" where
  "ObservablePoint_set x y this =
     (let p = Point_set x y this
      in if \<not> js_eq (vx this) (vx p) \<or> \<not> js_eq (vy this) (vy p) then (p, True) else (this, False))"

definition ObservablePoint_copy :: "victor \<Rightarrow> victor \<Rightarrow> victor \<times> bool" where
  "ObservablePoint_copy p this =
     (if \<not> js_eq (vx this) (vx p) \<or> \<not> js_eq (vy this) (vy p)
      then (this\<lparr>vx := vx p, vy := vy p\<rparr>, True) else (this, False))"

definition ObservablePoint_x :: "jsnum \<Rightarrow> victor \<Rightarrow> victor \<times> bool" where
  "ObservablePoint_x value this = (if \<not> js_eq (vx this) value then (this\<lparr>vx := value\<rparr>, True) else (this, False))"

definition ObservablePoint_y :: "jsnum \<Rightarrow> victor \<Rightarrow> victor \<times> bool" where
  "ObservablePoint_y value this = (if \<not> js_eq (vy this) value then (this\<lparr>vy := value\<rparr>, True) else (this, False))"

section \<open>Matrices\<close>

record matrix =
  ma :: jsnum
  mb :: jsnum
  mc :: jsnum
  md :: jsnum
  mtx :: jsnum
  mty :: jsnum

definition Matrix_identity :: matrix where
  "Matrix_identity = \<lparr>ma = 1, mb = 0, mc = 0, md = 1, mtx = 0, mty = 0\<rparr>"

definition Matrix_set :: "jsnum \<Rightarrow> jsnum \<Rightarrow> jsnum \<Rightarrow> jsnum \<Rightarrow> jsnum \<Rightarrow> jsnum \<Rightarrow> matrix \<Rightarrow> matrix" where
  "Matrix_set a b c d tx ty this = this\<lparr>ma := a, mb := b, mc := c, md := d, mtx := tx, mty := ty\<rparr>"

definition Matrix_fromArray :: "jsnum list \<Rightarrow> matrix \<Rightarrow> matrix" where
  "Matrix_fromArray arr this =
     (let el = (\<lambda>i. if i < length arr then arr ! i else NaN)
      in this\<lparr>ma := el 0, mb := el 1, mc := el 3, md := el 4, mtx := el 2, mty := el 5\<rparr>)"

definition Matrix_toArray :: "bool \<Rightarrow> matrix \<Rightarrow> jsnum list" where
  "Matrix_toArray transposed m =
     (if transposed then [ma m, mb m, 0, mc m, md m, 0, mtx m, mty m, 1]
      else [ma m, mc m, mtx m, mb m, md m, mty m, 0, 0, 1])"

definition Matrix_apply :: "victor \<Rightarrow> matrix \<Rightarrow> victor" where
  "Matrix_apply pos m =
     (let x = vx pos; y = vy pos
      in \<lparr>vx = ma m * x + mc m * y + mtx m, vy = mb m * x + md m * y + mty m\<rparr>)"

definition Matrix_applyInverse :: "victor \<Rightarrow> matrix \<Rightarrow> victor" where
  "Matrix_applyInverse pos m =
     (let id = 1 / (ma m * md m + mc m * - mb m); x = vx pos; y = vy pos
      in \<lparr>vx = md m * id * x + - mc m * id * y + (mty m * mc m - mtx m * md m) * id,
          vy = ma m * id * y + - mb m * id * x + (- mty m * ma m + mtx m * mb m) * id\<rparr>)"

definition Matrix_translate :: "jsnum \<Rightarrow> jsnum \<Rightarrow> matrix \<Rightarrow> matrix" where
  "Matrix_translate x y this = this\<lparr>mtx := mtx this + x, mty := mty this + y\<rparr>"

definition Matrix_scale :: "jsnum \<Rightarrow> jsnum \<Rightarrow> matrix \<Rightarrow> matrix" where
  "Matrix_scale x y this =
     this\<lparr>ma := ma this * x, md := md this * y, mc := mc this * x, mb := mb this * y,
       mtx := mtx this * x, mty := mty this * y\<rparr>"

definition Matrix_rotate :: "jsnum \<Rightarrow> matrix \<Rightarrow> matrix" where
  "Matrix_rotate angle this =
     (let cos = js_cos angle; sin = js_sin angle; a1 = ma this; c1 = mc this; tx1 = mtx this
      in this\<lparr>ma := a1 * cos - mb this * sin, mb := a1 * sin + mb this * cos,
           mc := c1 * cos - md this * sin, md := c1 * sin + md this * cos,
           mtx := tx1 * cos - mty this * sin, mty := tx1 * sin + mty this * cos\<rparr>)"

definition Matrix_append :: "matrix \<Rightarrow> matrix \<Rightarrow> matrix" where
  "Matrix_append m this =
     (let a1 = ma this; b1 = mb this; c1 = mc this; d1 = md this
      in \<lparr>ma = ma m * a1 + mb m * c1, mb = ma m * b1 + mb m * d1,
          mc = mc m * a1 + md m * c1, md = mc m * b1 + md m * d1,
          mtx = mtx m * a1 + mty m * c1 + mtx this, mty = mtx m * b1 + mty m * d1 + mty this\<rparr>)"

definition Matrix_prepend :: "matrix \<Rightarrow> matrix \<Rightarrow> matrix" where
  "Matrix_prepend m this =
     (let tx1 = mtx this;
          this1 = (if \<not> js_eq (ma m) 1 \<or> \<not> js_eq (mb m) 0 \<or> \<not> js_eq (mc m) 0 \<or> \<not> js_eq (md m) 1
            then (let a1 = ma this; c1 = mc this
                  in this\<lparr>ma := a1 * ma m + mb this * mc m, mb := a1 * mb m + mb this * md m,
                       mc := c1 * ma m + md this * mc m, md := c1 * mb m + md this * md m\<rparr>)
            else this)
      in this1\<lparr>mtx := tx1 * ma m + mty this * mc m + mtx m, mty := tx1 * mb m + mty this * md m + mty m\<rparr>)"

definition Matrix_setTransform ::
  "jsnum \<Rightarrow> jsnum \<Rightarrow> jsnum \<Rightarrow> jsnum \<Rightarrow> jsnum \<Rightarrow> jsnum \<Rightarrow> jsnum \<Rightarrow> jsnum \<Rightarrow> jsnum \<Rightarrow> matrix \<Rightarrow> matrix" where
  "Matrix_setTransform x y pivotX pivotY scaleX scaleY rotation skewX skewY this =
     (let a = js_cos (rotation + skewY) * scaleX; b = js_sin (rotation + skewY) * scaleX;
          c = - js_sin (rotation - skewX) * scaleY; d = js_cos (rotation - skewX) * scaleY
      in this\<lparr>ma := a, mb := b, mc := c, md := d,
           mtx := x - (pivotX * a + pivotY * c), mty := y - (pivotX * b + pivotY * d)\<rparr>)"

definition Matrix_invert :: "matrix \<Rightarrow> matrix" where
  "Matrix_invert this =
     (let a1 = ma this; b1 = mb this; c1 = mc this; d1 = md this; tx1 = mtx this; n = a1 * d1 - b1 * c1
      in this\<lparr>ma := d1 / n, mb := - b1 / n, mc := - c1 / n, md := a1 / n,
           mtx := (c1 * mty this - d1 * tx1) / n, mty := - (a1 * mty this - b1 * tx1) / n\<rparr>)"

definition Matrix_copy :: "matrix \<Rightarrow> matrix \<Rightarrow> matrix" where
  "Matrix_copy m this = m\<lparr>ma := ma this, mb := mb this, mc := mc this, md := md this, mtx := mtx this, mty := mty this\<rparr>"

definition Matrix_clone :: "matrix \<Rightarrow> matrix" where
  "Matrix_clone this = Matrix_copy Matrix_identity this"

section \<open>Shapes\<close>

record rectangle =
  r_x :: jsnum
  r_y :: jsnum
  r_width :: jsnum
  r_height :: jsnum

definition Rectangle_contains :: "jsnum \<Rightarrow> jsnum \<Rightarrow> rectangle \<Rightarrow> bool" where
  "Rectangle_contains x y this \<longleftrightarrow> \<not> (r_width this \<le> 0 \<or> r_height this \<le> 0)
     \<and> r_x this \<le> x \<and> x < r_x this + r_width this \<and> r_y this \<le> y \<and> y < r_y this + r_height this"

definition Rectangle_copy :: "rectangle \<Rightarrow> rectangle \<Rightarrow> rectangle" where
  "Rectangle_copy r this = this\<lparr>r_x := r_x r, r_y := r_y r, r_width := r_width r, r_height := r_height r\<rparr>"

definition Rectangle_pad :: "jsnum \<Rightarrow> jsnum option \<Rightarrow> rectangle \<Rightarrow> rectangle" where
  "Rectangle_pad paddingX paddingY this =
     (let px = or0 paddingX;
          py = (case paddingY of None \<Rightarrow> px | Some b \<Rightarrow> if truthy b then b else if b \<noteq> 0 then px else 0)
      in this\<lparr>r_x := r_x this - px, r_y := r_y this - py,
           r_width := r_width this + px * 2, r_height := r_height this + py * 2\<rparr>)"

definition clip0 :: "jsnum \<Rightarrow> jsnum" where
  "clip0 w = (if w < 0 then 0 else w)"

definition Rectangle_fit :: "rectangle \<Rightarrow> rectangle \<Rightarrow> rectangle" where
  "Rectangle_fit r this =
     (let t1 = (if r_x this < r_x r then this\<lparr>r_width := clip0 (r_width this + r_x this), r_x := r_x r\<rparr> else this);
          t2 = (if r_y t1 < r_y r then t1\<lparr>r_height := clip0 (r_height t1 + r_y t1), r_y := r_y r\<rparr> else t1);
          t3 = (if r_x r + r_width r < r_x t2 + r_width t2 then t2\<lparr>r_width := clip0 (r_width r - r_x t2)\<rparr> else t2)
      in if r_y r + r_height r < r_y t3 + r_height t3 then t3\<lparr>r_height := clip0 (r_height r - r_y t3)\<rparr> else t3)"

definition Rectangle_enlarge :: "rectangle \<Rightarrow> rectangle \<Rightarrow> rectangle" where
  "Rectangle_enlarge r this =
     (let x1 = js_min (r_x this) (r_x r); x2 = js_max (r_x this + r_width this) (r_x r + r_width r);
          y1 = js_min (r_y this) (r_y r); y2 = js_max (r_y this + r_height this) (r_y r + r_height r)
      in this\<lparr>r_x := x1, r_width := x2 - x1, r_y := y1, r_height := y2 - y1\<rparr>)"

record circle =
  c_x :: jsnum
  c_y :: jsnum
  c_radius :: jsnum

definition Circle_contains :: "jsnum \<Rightarrow> jsnum \<Rightarrow> circle \<Rightarrow> bool" where
  "Circle_contains x y this \<longleftrightarrow>
     (if c_radius this \<le> 0 then False
      else let r2 = c_radius this * c_radius this; dx = c_x this - x; dy = c_y this - y
           in dx * dx + dy * dy \<le> r2)"

definition Circle_getBounds :: "circle \<Rightarrow> rectangle" where
  "Circle_getBounds this = \<lparr>r_x = c_x this - c_radius this, r_y = c_y this - c_radius this,
     r_width = c_radius this * 2, r_height = c_radius this * 2\<rparr>"

text \<open>The width and height of an ellipse are its half axes.\<close>

definition Ellipse_contains :: "jsnum \<Rightarrow> jsnum \<Rightarrow> rectangle \<Rightarrow> bool" where
  "Ellipse_contains x y this \<longleftrightarrow>
     (if r_width this \<le> 0 \<or> r_height this \<le> 0 then False
      else let normx = (x - r_x this) / r_width this; normy = (y - r_y this) / r_height this
           in normx * normx + normy * normy \<le> 1)"

definition Ellipse_getBounds :: "rectangle \<Rightarrow> rectangle" where
  "Ellipse_getBounds this = \<lparr>r_x = r_x this - r_width this, r_y = r_y this - r_height this,
     r_width = r_width this, r_height = r_height this\<rparr>"

text \<open>A polygon by its corners; the loop goes over the edges, each from the corner before.\<close>

definition edge_crossed :: "jsnum \<Rightarrow> jsnum \<Rightarrow> victor \<Rightarrow> victor \<Rightarrow> bool" where
  "edge_crossed x y pj pk \<longleftrightarrow> ((y < vy pk) \<noteq> (y < vy pj))
     \<and> x < (vx pj - vx pk) * ((y - vy pk) / (vy pj - vy pk)) + vx pk"

definition Polygon_contains :: "jsnum \<Rightarrow> jsnum \<Rightarrow> victor list \<Rightarrow> bool" where
  "Polygon_contains x y pts =
     (if pts = [] then False
      else snd (fold (\<lambda>p (q, inside). (p, if edge_crossed x y q p then \<not> inside else inside)) pts (last pts, False)))"

definition Polygon_close :: "victor list \<Rightarrow> victor list" where
  "Polygon_close pts =
     (if pts = [] then pts
      else if \<not> js_eq (vx (hd pts)) (vx (last pts)) \<or> \<not> js_eq (vy (hd pts)) (vy (last pts)) then pts @ [hd pts] else pts)"

record rounded_rectangle = rectangle +
  r_radius :: jsnum

definition RoundedRectangle_contains :: "jsnum \<Rightarrow> jsnum \<Rightarrow> rounded_rectangle \<Rightarrow> bool" where
  "RoundedRectangle_contains x y this \<longleftrightarrow>
     (let X = r_x this; Y = r_y this; W = r_width this; H = r_height this; R = r_radius this
      in if W \<le> 0 \<or> H \<le> 0 then False
         else if X \<le> x \<and> x \<le> X + W \<and> Y \<le> y \<and> y \<le> Y + H
         then (if Y + R \<le> y \<and> y \<le> Y + H - R \<or> X + R \<le> x \<and> x \<le> X + W - R then True
               else let radius2 = R * R; dx1 = x - (X + R); dy1 = y - (Y + R);
                        dx2 = x - (X + W - R); dy2 = y - (Y + H - R)
                    in dx1 * dx1 + dy1 * dy1 \<le> radius2 \<or> dx2 * dx2 + dy1 * dy1 \<le> radius2
                     \<or> dx2 * dx2 + dy2 * dy2 \<le> radius2 \<or> dx1 * dx1 + dy2 * dy2 \<le> radius2)
         else False)"

section \<open>Finite matrices\<close>

abbreviation mat :: "real \<Rightarrow> real \<Rightarrow> real \<Rightarrow> real \<Rightarrow> real \<Rightarrow> real \<Rightarrow> matrix" where
  "mat a b c d tx ty \<equiv> \<lparr>ma = Fin a, mb = Fin b, mc = Fin c, md = Fin d, mtx = Fin tx, mty = Fin ty\<rparr>"

definition fin_mat :: "matrix \<Rightarrow> bool" where
  "fin_mat m \<longleftrightarrow> is_fin (ma m) \<and> is_fin (mb m) \<and> is_fin (mc m) \<and> is_fin (md m) \<and> is_fin (mtx m) \<and> is_fin (mty m)"

definition det :: "matrix \<Rightarrow> jsnum" where
  "det m = ma m * md m - mb m * mc m"

lemma fin_mat_mat [simp]: "fin_mat (mat a b c d tx ty)"
  by (simp add: fin_mat_def)

lemma fin_matE:
  assumes "fin_mat m" obtains a b c d tx ty where "m = mat a b c d tx ty"
  using assms by (cases m) (auto simp: fin_mat_def elim!: is_finE)

named_theorems matrix_simps

lemma det_mat [simp, matrix_simps]: "det (mat a b c d tx ty) = Fin (a * d - b * c)"
  by (simp add: det_def)

lemma Matrix_apply_mat [matrix_simps]:
  "Matrix_apply (vec x y) (mat a b c d tx ty) = vec (a * x + c * y + tx) (b * x + d * y + ty)"
  by (simp add: Matrix_apply_def Let_def)

text \<open>Cramer's rule for two unknowns.\<close>

lemma cramer:
  fixes a b c d p q n :: real
  assumes "n = a * d - b * c" and "n \<noteq> 0"
  shows "a * ((d * p - c * q) / n) + c * ((a * q - b * p) / n) = p"
    and "b * ((d * p - c * q) / n) + d * ((a * q - b * p) / n) = q"
    and "(d * (a * p + c * q) - c * (b * p + d * q)) / n = p"
    and "(a * (b * p + d * q) - b * (a * p + c * q)) / n = q"
proof -
  have "a * ((d * p - c * q) / n) + c * ((a * q - b * p) / n) = (a * (d * p - c * q) + c * (a * q - b * p)) / n"
    by (simp add: add_divide_distrib)
  also have "a * (d * p - c * q) + c * (a * q - b * p) = n * p" by (simp add: assms(1) algebra_simps)
  finally show "a * ((d * p - c * q) / n) + c * ((a * q - b * p) / n) = p" using assms(2) by simp
  have "b * ((d * p - c * q) / n) + d * ((a * q - b * p) / n) = (b * (d * p - c * q) + d * (a * q - b * p)) / n"
    by (simp add: add_divide_distrib)
  also have "b * (d * p - c * q) + d * (a * q - b * p) = n * q" by (simp add: assms(1) algebra_simps)
  finally show "b * ((d * p - c * q) / n) + d * ((a * q - b * p) / n) = q" using assms(2) by simp
  have "d * (a * p + c * q) - c * (b * p + d * q) = n * p" by (simp add: assms(1) algebra_simps)
  then show "(d * (a * p + c * q) - c * (b * p + d * q)) / n = p" using assms(2) by simp
  have "a * (b * p + d * q) - b * (a * p + c * q) = n * q" by (simp add: assms(1) algebra_simps)
  then show "(a * (b * p + d * q) - b * (a * p + c * q)) / n = q" using assms(2) by simp
qed

lemma Matrix_applyInverse_mat:
  assumes "n = a * d - b * c" and "n \<noteq> 0"
  shows "Matrix_applyInverse (vec x y) (mat a b c d tx ty) =
    vec ((d * (x - tx) - c * (y - ty)) / n) ((a * (y - ty) - b * (x - tx)) / n)"
proof -
  have "a * d + c * - b = n" using assms by simp
  then show ?thesis
    using assms(2) by (simp add: Matrix_applyInverse_def Let_def diff_divide_distrib add_divide_distrib algebra_simps)
qed

lemma Matrix_append_mat [matrix_simps]:
  "Matrix_append (mat a b c d tx ty) (mat a' b' c' d' tx' ty') =
    mat (a * a' + b * c') (a * b' + b * d') (c * a' + d * c') (c * b' + d * d')
      (tx * a' + ty * c' + tx') (tx * b' + ty * d' + ty')"
  by (simp add: Matrix_append_def Let_def)

lemma Matrix_invert_mat:
  assumes "n = a * d - b * c" and "n \<noteq> 0"
  shows "Matrix_invert (mat a b c d tx ty) =
    mat (d / n) (- b / n) (- c / n) (a / n) ((c * ty - d * tx) / n) (- (a * ty - b * tx) / n)"
  using assms by (simp add: Matrix_invert_def Let_def)

text \<open>\<open>prepend\<close>, with its shortcut for matrices that only move, is \<open>append\<close> with the
  operands exchanged.\<close>

lemma prepend_is_append:
  assumes "fin_mat m" and "fin_mat this"
  shows "Matrix_prepend m this = Matrix_append this m"
  using assms by (elim fin_matE) (auto simp: Matrix_prepend_def Matrix_append_def Let_def)


text \<open>\<open>append\<close> composes: the appended matrix is applied first.\<close>

lemma append_composes:
  assumes "fin_mat m" and "fin_mat this" and "fin_vec p"
  shows "Matrix_apply p (Matrix_append m this) = Matrix_apply (Matrix_apply p m) this"
  using assms by (elim fin_matE fin_vecE) (simp add: matrix_simps algebra_simps)

lemma apply_applyInverse:
  assumes "fin_mat m" and "det m \<noteq> 0" and "fin_vec p"
  shows "Matrix_applyInverse (Matrix_apply p m) m = p" and "Matrix_apply (Matrix_applyInverse p m) m = p"
    and "Matrix_apply p (Matrix_invert m) = Matrix_applyInverse p m"
proof -
  obtain a b c d tx ty where m: "m = mat a b c d tx ty" using assms by (elim fin_matE)
  obtain x y where p: "p = vec x y" using assms by (elim fin_vecE)
  define n where "n = a * d - b * c"
  have n: "n \<noteq> 0" using assms m n_def by simp
  note inv = Matrix_applyInverse_mat [OF n_def n] Matrix_invert_mat [OF n_def n] and cr = cramer [OF n_def n]
  show "Matrix_apply p (Matrix_invert m) = Matrix_applyInverse p m"
    by (simp add: m p inv Matrix_apply_mat diff_divide_distrib add_divide_distrib algebra_simps)
  show "Matrix_apply (Matrix_applyInverse p m) m = p"
    using cr(1,2) [of "x - tx" "y - ty"] by (simp add: m p inv Matrix_apply_mat)
  show "Matrix_applyInverse (Matrix_apply p m) m = p"
    using cr(3,4) [of x y] by (simp add: m p inv Matrix_apply_mat)
qed

text \<open>An invertible matrix: mapping a point to the screen and back gives the point, and the
  inverted matrix maps as \<open>applyInverse\<close> does.\<close>

theorem applyInverse_roundtrip:
  assumes "fin_mat m" and "det m \<noteq> 0" and "fin_vec p"
  shows "Matrix_applyInverse (Matrix_apply p m) m = p \<and> Matrix_apply (Matrix_applyInverse p m) m = p
    \<and> Matrix_apply p (Matrix_invert m) = Matrix_applyInverse p m"
  using apply_applyInverse [OF assms] by simp

theorem applyInverse_roundtrip_witness:
  "Matrix_applyInverse (Matrix_apply (vec 3 4) (mat 2 0 0 2 10 20)) (mat 2 0 0 2 10 20) = vec 3 4"
  using applyInverse_roundtrip [of "mat 2 0 0 2 10 20" "vec 3 4"] by simp

section \<open>What the shapes contain\<close>

text \<open>The ray test of polygons agrees with the rectangle test on the polygon of a rectangle's
  corners, its borders included.\<close>

theorem polygon_of_rectangle:
  assumes "0 < w" and "0 < h"
  shows "Polygon_contains (Fin px) (Fin py) [vec x y, vec (x + w) y, vec (x + w) (y + h), vec x (y + h)]
    \<longleftrightarrow> Rectangle_contains (Fin px) (Fin py) \<lparr>r_x = Fin x, r_y = Fin y, r_width = Fin w, r_height = Fin h\<rparr>"
  using assms by (auto simp: Polygon_contains_def Rectangle_contains_def edge_crossed_def)

theorem polygon_of_rectangle_witness:
  "Polygon_contains 3 4 [vec 0 0, vec (0 + 10) 0, vec (0 + 10) (0 + 5), vec 0 (0 + 5)]"
  using polygon_of_rectangle [of 10 5 3 4 0 0] by (simp add: Rectangle_contains_def)

text \<open>The rectangle that \<open>enlarge\<close> makes holds what either rectangle held.\<close>

lemma enlarge_covers:
  assumes "Rectangle_contains (Fin px) (Fin py) r \<or> Rectangle_contains (Fin px) (Fin py) t"
    and "r = \<lparr>r_x = Fin x, r_y = Fin y, r_width = Fin w, r_height = Fin h\<rparr>"
    and "t = \<lparr>r_x = Fin x', r_y = Fin y', r_width = Fin w', r_height = Fin h'\<rparr>"
  shows "Rectangle_contains (Fin px) (Fin py) (Rectangle_enlarge r t)"
  using assms by (auto simp: Rectangle_contains_def Rectangle_enlarge_def js_min_def js_max_def)

text \<open>A circle lies in its bounds; an ellipse reaches out of its bounds, which span its half axes
  only.\<close>

lemma Circle_in_bounds:
  assumes "Circle_contains (Fin px) (Fin py) \<lparr>c_x = Fin x, c_y = Fin y, c_radius = Fin r\<rparr>"
  shows "x - r \<le> px \<and> px \<le> x + r \<and> y - r \<le> py \<and> py \<le> y + r"
proof -
  have r: "0 < r" and d: "(x - px)\<^sup>2 + (y - py)\<^sup>2 \<le> r\<^sup>2"
    using assms by (auto simp: Circle_contains_def Let_def power2_eq_square split: if_splits)
  have "(x - px)\<^sup>2 \<le> r\<^sup>2" "(y - py)\<^sup>2 \<le> r\<^sup>2"
    using d zero_le_power2 [of "x - px"] zero_le_power2 [of "y - py"] by linarith+
  then have "\<bar>x - px\<bar> \<le> r" "\<bar>y - py\<bar> \<le> r" using r abs_le_square_iff [of "x - px" r] abs_le_square_iff [of "y - py" r] by simp_all
  then show ?thesis by linarith
qed

lemma Ellipse_out_of_bounds:
  assumes "0 < w" and "0 < h" and "e = \<lparr>r_x = Fin x, r_y = Fin y, r_width = Fin w, r_height = Fin h\<rparr>"
  shows "Ellipse_contains (Fin (x + w)) (Fin y) e" "\<not> Rectangle_contains (Fin (x + w)) (Fin y) (Ellipse_getBounds e)"
  using assms by (auto simp: Ellipse_contains_def Rectangle_contains_def Ellipse_getBounds_def Let_def)

lemma RoundedRectangle_inside:
  assumes "RoundedRectangle_contains (Fin px) (Fin py) t"
    and "t = \<lparr>r_x = Fin x, r_y = Fin y, r_width = Fin w, r_height = Fin h, r_radius = Fin r\<rparr>"
  shows "x \<le> px \<and> px \<le> x + w \<and> y \<le> py \<and> py \<le> y + h"
  using assms by (auto simp: RoundedRectangle_contains_def Let_def split: if_splits)

text \<open>\<open>fit\<close> adds this rectangle's corner to its extent where the distance to the other's corner
  is meant: the fitted rectangle can reach out of this one.\<close>

lemma fit_reaches_out:
  "Rectangle_fit \<lparr>r_x = 10, r_y = 10, r_width = 20, r_height = 20\<rparr> \<lparr>r_x = 5, r_y = 10, r_width = 10, r_height = 10\<rparr>
    = \<lparr>r_x = 10, r_y = 10, r_width = 15, r_height = 10\<rparr>"
  by (simp add: Rectangle_fit_def clip0_def Let_def)

end
