(* ===== verification/GroupD8.thy ===== *)
theory GroupD8
  imports Geometry
begin

text \<open>The group of texture rotations of \<^verbatim>\<open>js/pixi.js\<close>.\<close>

section \<open>The rotations and mirrors of textures\<close>

text \<open>
  \<^verbatim>\<open>GroupD8\<close>: sixteen symmetries by number, each by the images of the two axes; the
  multiplication table is filled by search when the library loads.
\<close>

definition d8_ux :: "int list" where
  "d8_ux = [1, 1, 0, -1, -1, -1, 0, 1, 1, 1, 0, -1, -1, -1, 0, 1]"

definition d8_uy :: "int list" where
  "d8_uy = [0, 1, 1, 1, 0, -1, -1, -1, 0, 1, 1, 1, 0, -1, -1, -1]"

definition d8_vx :: "int list" where
  "d8_vx = [0, -1, -1, -1, 0, 1, 1, 1, 0, 1, 1, 1, 0, -1, -1, -1]"

definition d8_vy :: "int list" where
  "d8_vy = [1, 1, 0, -1, -1, -1, 0, 1, -1, -1, 0, 1, 1, 1, 0, -1]"

definition signum :: "int \<Rightarrow> int" where
  "signum x = (if x < 0 then - 1 else if 0 < x then 1 else 0)"

text \<open>A product that is none of the sixteen would leave its row one entry short.\<close>

definition d8_product :: "nat \<Rightarrow> nat \<Rightarrow> nat option" where
  "d8_product i j =
     (let ux' = signum (d8_ux ! i * d8_ux ! j + d8_vx ! i * d8_uy ! j);
          uy' = signum (d8_uy ! i * d8_ux ! j + d8_vy ! i * d8_uy ! j);
          vx' = signum (d8_ux ! i * d8_vx ! j + d8_vx ! i * d8_vy ! j);
          vy' = signum (d8_uy ! i * d8_vx ! j + d8_vy ! i * d8_vy ! j)
      in List.find (\<lambda>k. d8_ux ! k = ux' \<and> d8_uy ! k = uy' \<and> d8_vx ! k = vx' \<and> d8_vy ! k = vy') [0..<16])"

definition d8_mul :: "nat list list" where
  "d8_mul = map (\<lambda>i. List.map_filter (d8_product i) [0..<16]) [0..<16]"

definition GroupD8_inv :: "int \<Rightarrow> int" where
  "GroupD8_inv rotation = (if and rotation 8 \<noteq> 0 then and rotation 15 else and (- rotation) 7)"

text \<open>No row of that number is a TypeError, no such entry is undefined: None for both.\<close>

definition GroupD8_add :: "int \<Rightarrow> int \<Rightarrow> int option" where
  "GroupD8_add rotationSecond rotationFirst =
     (if 0 \<le> rotationSecond \<and> nat rotationSecond < length d8_mul \<and> 0 \<le> rotationFirst
         \<and> nat rotationFirst < length (d8_mul ! nat rotationSecond)
      then Some (int (d8_mul ! nat rotationSecond ! nat rotationFirst)) else None)"

definition GroupD8_sub :: "int \<Rightarrow> int \<Rightarrow> int option" where
  "GroupD8_sub rotationSecond rotationFirst = GroupD8_add rotationSecond (GroupD8_inv rotationFirst)"

definition GroupD8_rotate180 :: "int \<Rightarrow> int" where
  "GroupD8_rotate180 rotation = xor rotation 4"

definition GroupD8_isVertical :: "int \<Rightarrow> bool" where
  "GroupD8_isVertical rotation \<longleftrightarrow> and rotation 3 = 2"

definition GroupD8_byDirection :: "jsnum \<Rightarrow> jsnum \<Rightarrow> int" where
  "GroupD8_byDirection dx dy =
     (if js_abs dx * 2 \<le> js_abs dy then (if 0 \<le> dy then 2 else 6)
      else if js_abs dy * 2 \<le> js_abs dx then (if 0 < dx then 0 else 4)
      else if 0 < dy then (if 0 < dx then 1 else 3)
      else if 0 < dx then 7 else 5)"

definition d8_matrix :: "nat \<Rightarrow> matrix" where
  "d8_matrix i = Matrix_set (Fin (of_int (d8_ux ! i))) (Fin (of_int (d8_uy ! i)))
     (Fin (of_int (d8_vx ! i))) (Fin (of_int (d8_vy ! i))) 0 0 Matrix_identity"

text \<open>For a rotation between 0 and 15.\<close>

definition GroupD8_matrixAppendRotationInv :: "int \<Rightarrow> jsnum \<Rightarrow> jsnum \<Rightarrow> matrix \<Rightarrow> matrix" where
  "GroupD8_matrixAppendRotationInv rotation tx ty m =
     Matrix_append ((d8_matrix (nat (GroupD8_inv rotation)))\<lparr>mtx := tx, mty := ty\<rparr>) m"

lemma d8_mul_table: "d8_mul =
  [[0, 1, 2, 3, 4, 5, 6, 7, 8, 9, 10, 11, 12, 13, 14, 15],
   [1, 2, 3, 4, 5, 6, 7, 0, 9, 10, 11, 12, 13, 14, 15, 8],
   [2, 3, 4, 5, 6, 7, 0, 1, 10, 11, 12, 13, 14, 15, 8, 9],
   [3, 4, 5, 6, 7, 0, 1, 2, 11, 12, 13, 14, 15, 8, 9, 10],
   [4, 5, 6, 7, 0, 1, 2, 3, 12, 13, 14, 15, 8, 9, 10, 11],
   [5, 6, 7, 0, 1, 2, 3, 4, 13, 14, 15, 8, 9, 10, 11, 12],
   [6, 7, 0, 1, 2, 3, 4, 5, 14, 15, 8, 9, 10, 11, 12, 13],
   [7, 0, 1, 2, 3, 4, 5, 6, 15, 8, 9, 10, 11, 12, 13, 14],
   [8, 15, 14, 13, 12, 11, 10, 9, 0, 7, 6, 5, 4, 3, 2, 1],
   [9, 8, 15, 14, 13, 12, 11, 10, 1, 0, 7, 6, 5, 4, 3, 2],
   [10, 9, 8, 15, 14, 13, 12, 11, 2, 1, 0, 7, 6, 5, 4, 3],
   [11, 10, 9, 8, 15, 14, 13, 12, 3, 2, 1, 0, 7, 6, 5, 4],
   [12, 11, 10, 9, 8, 15, 14, 13, 4, 3, 2, 1, 0, 7, 6, 5],
   [13, 12, 11, 10, 9, 8, 15, 14, 5, 4, 3, 2, 1, 0, 7, 6],
   [14, 13, 12, 11, 10, 9, 8, 15, 6, 5, 4, 3, 2, 1, 0, 7],
   [15, 14, 13, 12, 11, 10, 9, 8, 7, 6, 5, 4, 3, 2, 1, 0]]"
  by code_simp

text \<open>The rotations by eighths of a turn and their mirror images.\<close>

definition d8_law :: "int \<Rightarrow> int \<Rightarrow> int" where
  "d8_law i j =
     (if i < 8 then (if j < 8 then (i + j) mod 8 else 8 + (i + j) mod 8)
      else if j < 8 then 8 + (i - j) mod 8 else (i - j) mod 8)"

lemma d8_law_side: "d8_law a b < 8 \<longleftrightarrow> (a < 8 \<longleftrightarrow> b < 8)"
  using pos_mod_bound [of 8 "a + b"] pos_mod_bound [of 8 "a - b"] pos_mod_sign [of 8 "a + b"] pos_mod_sign [of 8 "a - b"]
  unfolding d8_law_def by (cases "a < 8"; cases "b < 8") simp_all

lemma d8_law_alt: "d8_law a b = (if a < 8 \<longleftrightarrow> b < 8 then 0 else 8) + (if a < 8 then a + b else a - b) mod 8"
  by (simp add: d8_law_def)

lemma d8_law_mod: "d8_law a b mod 8 = (if a < 8 then a + b else a - b) mod 8"
  by (simp add: d8_law_alt)

lemma d8_law_sums:
  "(d8_law a b + c) mod 8 = ((if a < 8 then a + b else a - b) + c) mod 8"
  "(d8_law a b - c) mod 8 = ((if a < 8 then a + b else a - b) - c) mod 8"
  "(c + d8_law a b) mod 8 = (c + (if a < 8 then a + b else a - b)) mod 8"
  "(c - d8_law a b) mod 8 = (c - (if a < 8 then a + b else a - b)) mod 8"
  by (rule mod_add_cong mod_diff_cong; simp only: d8_law_mod)+

lemma d8_law_assoc: "d8_law (d8_law a b) c = d8_law a (d8_law b c)"
proof -
  have "d8_law (d8_law a b) c = (if (a < 8 \<longleftrightarrow> b < 8) \<longleftrightarrow> c < 8 then 0 else 8)
      + (if a < 8 \<longleftrightarrow> b < 8 then (if a < 8 then a + b else a - b) + c else (if a < 8 then a + b else a - b) - c) mod 8"
    by (simp only: d8_law_alt [of "d8_law a b"] d8_law_side d8_law_sums if_distrib [of "\<lambda>x. x mod 8"])
  moreover have "d8_law a (d8_law b c) = (if a < 8 \<longleftrightarrow> (b < 8 \<longleftrightarrow> c < 8) then 0 else 8)
      + (if a < 8 then a + (if b < 8 then b + c else b - c) else a - (if b < 8 then b + c else b - c)) mod 8"
    by (simp only: d8_law_alt [of a "d8_law b c"] d8_law_side d8_law_sums if_distrib [of "\<lambda>x. x mod 8"])
  ultimately show ?thesis by (cases "a < 8"; cases "b < 8") (simp_all add: algebra_simps)
qed

lemma d8_law_range: "d8_law a b \<in> {0..15}"
proof -
  have "0 \<le> x mod 8 \<and> x mod 8 \<le> 7" for x :: int using pos_mod_bound [of 8 x] pos_mod_sign [of 8 x] by linarith
  from this [of "if a < 8 then a + b else a - b"] show ?thesis unfolding d8_law_alt by (auto simp del: if_split_asm)
qed

lemma d8_law_table: "d8_mul = map (\<lambda>i. map (\<lambda>j. nat (d8_law (int i) (int j))) [0..<16]) [0..<16]"
  unfolding d8_mul_table by (simp add: upt_rec d8_law_def)

lemma d8_mul_shape: "length d8_mul = 16" "i < 16 \<Longrightarrow> length (d8_mul ! i) = 16"
proof -
  show "length d8_mul = 16" by (simp add: d8_mul_table)
  have "list_all (\<lambda>r. length r = 16) d8_mul" by (simp add: d8_mul_table)
  then show "i < 16 \<Longrightarrow> length (d8_mul ! i) = 16"
    using \<open>length d8_mul = 16\<close> by (simp add: list_all_length)
qed

lemma GroupD8_add_law:
  assumes "a \<in> {0..15}" and "b \<in> {0..15}"
  shows "GroupD8_add a b = Some (d8_law a b)"
proof -
  obtain i j where ab: "a = int i" "b = int j" "i < 16" "j < 16"
    using assms by (auto dest!: zero_le_imp_eq_int)
  moreover have "0 \<le> d8_law a b" using d8_law_range [of a b] by simp
  ultimately have "int (d8_mul ! i ! j) = d8_law a b" by (simp add: d8_law_table)
  then show ?thesis using ab by (simp add: GroupD8_add_def d8_mul_shape)
qed

lemma GroupD8_inv_cases:
  assumes "a \<in> {0..15}"
  shows "GroupD8_inv a = (if a < 8 then - a mod 8 else a)"
proof -
  have "a \<in> set [0, 1, 2, 3, 4, 5, 6, 7, 8, 9, 10, 11, 12, 13, 14, 15]" using assms by simp presburger
  then show ?thesis by (auto simp: GroupD8_inv_def)
qed

text \<open>The sixteen rotations and mirrors of \<^verbatim>\<open>GroupD8\<close> form a group under \<open>add\<close>, with
  \<open>E\<close> as unit and \<open>inv\<close> as inverse, and \<open>add\<close> never fails on them.\<close>

theorem GroupD8_group:
  assumes "a \<in> {0..15}" and "b \<in> {0..15}" and "c \<in> {0..15}"
  shows "(\<exists>ab bc r. GroupD8_add a b = Some ab \<and> GroupD8_add b c = Some bc
      \<and> GroupD8_add ab c = Some r \<and> GroupD8_add a bc = Some r)
    \<and> GroupD8_add a 0 = Some a \<and> GroupD8_add 0 a = Some a
    \<and> GroupD8_add a (GroupD8_inv a) = Some 0 \<and> GroupD8_sub a a = Some 0"
proof -
  have "\<exists>ab bc r. GroupD8_add a b = Some ab \<and> GroupD8_add b c = Some bc
      \<and> GroupD8_add ab c = Some r \<and> GroupD8_add a bc = Some r"
    using assms by (simp add: GroupD8_add_law d8_law_range d8_law_assoc del: atLeastAtMost_iff)
  moreover have "8 + a mod 8 = a" if "8 \<le> a" using that assms by simp presburger
  then have "GroupD8_add a 0 = Some a" and "GroupD8_add 0 a = Some a"
    using assms by (auto simp: GroupD8_add_law d8_law_def not_less)
  moreover have "GroupD8_inv a \<in> {0..15}" "d8_law a (GroupD8_inv a) = 0"
    using assms by (auto simp: GroupD8_inv_cases d8_law_def mod_simps)
  then have "GroupD8_add a (GroupD8_inv a) = Some 0" "GroupD8_sub a a = Some 0"
    using assms by (simp_all add: GroupD8_add_law GroupD8_sub_def del: atLeastAtMost_iff)
  ultimately show ?thesis by blast
qed

theorem GroupD8_group_witness: "GroupD8_add 10 (GroupD8_inv 10) = Some 0"
  using GroupD8_group [of 10 3 5] by simp

end
