(* ===== verification/Transforms.thy ===== *)
theory Transforms
  imports Geometry Transitions
begin

text \<open>
  The transforms of the display tree of \<^verbatim>\<open>js/pixi.js\<close>: the version counters that spare
  recomputing matrices, changes of coordinates between an object and the screen, and the bounds of
  what is drawn.
\<close>

section \<open>The transform of a display object\<close>

text \<open>
  \<^verbatim>\<open>TransformStatic\<close>: the placement of an object in its parent, the two matrices computed
  from it and the counters that tell whether they are up to date.
\<close>

record transform =
  t_position :: victor
  t_scale :: victor
  t_pivot :: victor
  t_skew :: victor
  t_rotation :: jsnum
  t_cx :: jsnum
  t_sx :: jsnum
  t_cy :: jsnum
  t_sy :: jsnum
  localTransform :: matrix
  worldTransform :: matrix
  t_localID :: int
  t_currentLocalID :: int
  t_parentID :: int
  t_worldID :: int

definition new_TransformStatic :: transform where
  "new_TransformStatic = \<lparr>t_position = \<lparr>vx = 0, vy = 0\<rparr>, t_scale = \<lparr>vx = 1, vy = 1\<rparr>, t_pivot = \<lparr>vx = 0, vy = 0\<rparr>,
     t_skew = \<lparr>vx = 0, vy = 0\<rparr>, t_rotation = 0, t_cx = 1, t_sx = 0, t_cy = 0, t_sy = 1,
     localTransform = Matrix_identity, worldTransform = Matrix_identity,
     t_localID = 0, t_currentLocalID = 0, t_parentID = 0, t_worldID = 0\<rparr>"

definition TransformStatic_onChange :: "transform \<Rightarrow> transform" where
  "TransformStatic_onChange this = this\<lparr>t_localID := t_localID this + 1\<rparr>"

definition TransformStatic_updateSkew :: "transform \<Rightarrow> transform" where
  "TransformStatic_updateSkew this =
     this\<lparr>t_cx := js_cos (t_rotation this + vy (t_skew this)), t_sx := js_sin (t_rotation this + vy (t_skew this)),
       t_cy := - js_sin (t_rotation this - vx (t_skew this)), t_sy := js_cos (t_rotation this - vx (t_skew this)),
       t_localID := t_localID this + 1\<rparr>"

definition TransformStatic_setRotation :: "jsnum \<Rightarrow> transform \<Rightarrow> transform" where
  "TransformStatic_setRotation value this = TransformStatic_updateSkew (this\<lparr>t_rotation := value\<rparr>)"

definition local_matrix :: "transform \<Rightarrow> matrix" where
  "local_matrix this =
     (let a = t_cx this * vx (t_scale this); b = t_sx this * vx (t_scale this);
          c = t_cy this * vy (t_scale this); d = t_sy this * vy (t_scale this)
      in \<lparr>ma = a, mb = b, mc = c, md = d,
          mtx = vx (t_position this) - (vx (t_pivot this) * a + vy (t_pivot this) * c),
          mty = vy (t_position this) - (vx (t_pivot this) * b + vy (t_pivot this) * d)\<rparr>)"

definition TransformStatic_updateLocalTransform :: "transform \<Rightarrow> transform" where
  "TransformStatic_updateLocalTransform this =
     (if t_localID this \<noteq> t_currentLocalID this
      then this\<lparr>localTransform := local_matrix this, t_currentLocalID := t_localID this, t_parentID := - 1\<rparr>
      else this)"

definition world_matrix :: "matrix \<Rightarrow> matrix \<Rightarrow> matrix" where
  "world_matrix pt lt =
     \<lparr>ma = ma lt * ma pt + mb lt * mc pt, mb = ma lt * mb pt + mb lt * md pt,
      mc = mc lt * ma pt + md lt * mc pt, md = mc lt * mb pt + md lt * md pt,
      mtx = mtx lt * ma pt + mty lt * mc pt + mtx pt, mty = mtx lt * mb pt + mty lt * md pt + mty pt\<rparr>"

definition TransformStatic_updateTransform :: "transform \<Rightarrow> transform \<Rightarrow> transform" where
  "TransformStatic_updateTransform parentTransform this =
     (let this1 = TransformStatic_updateLocalTransform this
      in if t_parentID this1 \<noteq> t_worldID parentTransform
         then this1\<lparr>worldTransform := world_matrix (worldTransform parentTransform) (localTransform this1),
                t_parentID := t_worldID parentTransform, t_worldID := t_worldID this1 + 1\<rparr>
         else this1)"

text \<open>
  The setters of the points of a transform: a point that changes calls its owner back, with
  \<^verbatim>\<open>updateSkew\<close> for the skew and \<^verbatim>\<open>onChange\<close> for the others.
\<close>

definition observed :: "(victor \<Rightarrow> transform \<Rightarrow> transform) \<Rightarrow> (transform \<Rightarrow> transform) \<Rightarrow> victor \<times> bool \<Rightarrow> transform \<Rightarrow> transform" where
  "observed put cb r this = (if snd r then cb (put (fst r) this) else put (fst r) this)"

abbreviation put_position :: "victor \<Rightarrow> transform \<Rightarrow> transform" where
  "put_position p t \<equiv> t\<lparr>t_position := p\<rparr>"

abbreviation put_scale :: "victor \<Rightarrow> transform \<Rightarrow> transform" where
  "put_scale p t \<equiv> t\<lparr>t_scale := p\<rparr>"

abbreviation put_pivot :: "victor \<Rightarrow> transform \<Rightarrow> transform" where
  "put_pivot p t \<equiv> t\<lparr>t_pivot := p\<rparr>"

abbreviation put_skew :: "victor \<Rightarrow> transform \<Rightarrow> transform" where
  "put_skew p t \<equiv> t\<lparr>t_skew := p\<rparr>"

definition set_skew_x :: "jsnum \<Rightarrow> transform \<Rightarrow> transform" where
  "set_skew_x v t = observed put_skew TransformStatic_updateSkew (ObservablePoint_x v (t_skew t)) t"

definition set_skew_y :: "jsnum \<Rightarrow> transform \<Rightarrow> transform" where
  "set_skew_y v t = observed put_skew TransformStatic_updateSkew (ObservablePoint_y v (t_skew t)) t"

definition set_scale_x :: "jsnum \<Rightarrow> transform \<Rightarrow> transform" where
  "set_scale_x v t = observed put_scale TransformStatic_onChange (ObservablePoint_x v (t_scale t)) t"

definition set_scale_y :: "jsnum \<Rightarrow> transform \<Rightarrow> transform" where
  "set_scale_y v t = observed put_scale TransformStatic_onChange (ObservablePoint_y v (t_scale t)) t"

definition set_position_x :: "jsnum \<Rightarrow> transform \<Rightarrow> transform" where
  "set_position_x v t = observed put_position TransformStatic_onChange (ObservablePoint_x v (t_position t)) t"

definition set_position_y :: "jsnum \<Rightarrow> transform \<Rightarrow> transform" where
  "set_position_y v t = observed put_position TransformStatic_onChange (ObservablePoint_y v (t_position t)) t"

definition set_pivot_x :: "jsnum \<Rightarrow> transform \<Rightarrow> transform" where
  "set_pivot_x v t = observed put_pivot TransformStatic_onChange (ObservablePoint_x v (t_pivot t)) t"

definition set_pivot_y :: "jsnum \<Rightarrow> transform \<Rightarrow> transform" where
  "set_pivot_y v t = observed put_pivot TransformStatic_onChange (ObservablePoint_y v (t_pivot t)) t"

text \<open>\<^verbatim>\<open>setTransform\<close>; the defaults of its parameters are the caller's.\<close>

definition DisplayObject_setTransform ::
  "jsnum \<Rightarrow> jsnum \<Rightarrow> jsnum \<Rightarrow> jsnum \<Rightarrow> jsnum \<Rightarrow> jsnum \<Rightarrow> jsnum \<Rightarrow> jsnum \<Rightarrow> jsnum \<Rightarrow> transform \<Rightarrow> transform" where
  "DisplayObject_setTransform x y scaleX scaleY rotation skewX skewY pivotX pivotY t =
     (let t1 = set_position_y y (set_position_x x t);
          t2 = set_scale_x (if truthy scaleX then scaleX else 1) t1;
          t3 = set_scale_y (if truthy scaleY then scaleY else 1) t2;
          t4 = TransformStatic_setRotation rotation t3;
          t5 = set_skew_y skewY (set_skew_x skewX t4)
      in set_pivot_y pivotY (set_pivot_x pivotX t5))"

definition Matrix_decompose :: "matrix \<Rightarrow> transform \<Rightarrow> transform" where
  "Matrix_decompose m t =
     (let a = ma m; b = mb m; c = mc m; d = md m;
          skewX = - js_atan2 (- c) d;
          skewY = js_atan2 b a;
          delta = js_abs (skewX + skewY);
          t1 =
            (if delta < Fin (1 / 100000) \<or> js_abs (Fin (2 * pi) - delta) < Fin (1 / 100000)
             then (let r1 = TransformStatic_setRotation skewY t;
                       r2 = (if a < 0 \<and> 0 \<le> d
                         then TransformStatic_setRotation
                                (t_rotation r1 + (if t_rotation r1 \<le> 0 then Fin pi else - Fin pi)) r1
                         else r1)
                   in set_skew_x 0 (set_skew_y 0 r2))
             else set_skew_y skewY (set_skew_x skewX (TransformStatic_setRotation 0 t)));
          t2 = set_scale_y (js_sqrt (c * c + d * d)) (set_scale_x (js_sqrt (a * a + b * b)) t1)
      in set_position_y (mty m) (set_position_x (mtx m) t2))"

definition TransformStatic_setFromMatrix :: "matrix \<Rightarrow> transform \<Rightarrow> transform" where
  "TransformStatic_setFromMatrix m this = (let t = Matrix_decompose m this in t\<lparr>t_localID := t_localID t + 1\<rparr>)"

text \<open>
  The plain \<^verbatim>\<open>Transform\<close> has the same fields without the counters of local changes: it
  computes both matrices in every update.
\<close>

definition Transform_updateLocalTransform :: "transform \<Rightarrow> transform" where
  "Transform_updateLocalTransform this = this\<lparr>localTransform := local_matrix this\<rparr>"

definition TransformBase_updateTransform :: "transform \<Rightarrow> transform \<Rightarrow> transform" where
  "TransformBase_updateTransform parentTransform this =
     this\<lparr>worldTransform := world_matrix (worldTransform parentTransform) (localTransform this),
       t_worldID := t_worldID this + 1\<rparr>"

definition Transform_updateTransform :: "transform \<Rightarrow> transform \<Rightarrow> transform" where
  "Transform_updateTransform parentTransform this =
     (let lt = local_matrix this
      in this\<lparr>localTransform := lt, worldTransform := world_matrix (worldTransform parentTransform) lt,
           t_worldID := t_worldID this + 1\<rparr>)"

section \<open>From an object to the screen and back\<close>

text \<open>
  A branch of the display tree is the list of the transforms from an object up to its root; above
  the root stands the unmoved transform of \<^verbatim>\<open>_tempDisplayObjectParent\<close>.
\<close>

definition parent_of :: "transform list \<Rightarrow> transform" where
  "parent_of anc = (case anc of [] \<Rightarrow> new_TransformStatic | p # _ \<Rightarrow> p)"

fun recursivePostUpdateTransform :: "transform list \<Rightarrow> transform list" where
  "recursivePostUpdateTransform [] = []"
| "recursivePostUpdateTransform (t # anc) =
     (let anc' = recursivePostUpdateTransform anc
      in TransformStatic_updateTransform (parent_of anc') t # anc')"

text \<open>The object updates itself once more; \<open>skipUpdate\<close> leaves the branch as it is.\<close>

definition updated :: "bool \<Rightarrow> transform list \<Rightarrow> transform list" where
  "updated skipUpdate ts =
     (if skipUpdate then ts
      else case recursivePostUpdateTransform ts of [] \<Rightarrow> []
        | t # anc \<Rightarrow> TransformStatic_updateTransform (parent_of anc) t # anc)"

definition DisplayObject_toGlobal :: "victor \<Rightarrow> bool \<Rightarrow> transform list \<Rightarrow> victor \<times> transform list" where
  "DisplayObject_toGlobal position skipUpdate this =
     (let ts = updated skipUpdate this in (Matrix_apply position (worldTransform (parent_of ts)), ts))"

text \<open>\<open>position\<close> is already the global one when \<^verbatim>\<open>from\<close> is given.\<close>

definition DisplayObject_toLocal :: "victor \<Rightarrow> bool \<Rightarrow> transform list \<Rightarrow> victor \<times> transform list" where
  "DisplayObject_toLocal position skipUpdate this =
     (let ts = updated skipUpdate this in (Matrix_applyInverse position (worldTransform (parent_of ts)), ts))"

section \<open>Cached transforms are exact\<close>

text \<open>What a transform stands for, by its placement alone, and a branch of them.\<close>

definition placement :: "transform \<Rightarrow> matrix" where
  "placement t = Matrix_setTransform (vx (t_position t)) (vy (t_position t)) (vx (t_pivot t)) (vy (t_pivot t))
     (vx (t_scale t)) (vy (t_scale t)) (t_rotation t) (vx (t_skew t)) (vy (t_skew t)) Matrix_identity"

fun placed :: "transform list \<Rightarrow> matrix" where
  "placed [] = Matrix_identity"
| "placed (t # anc) = Matrix_append (placement t) (placed anc)"

text \<open>The changes that a caller makes to a transform.\<close>

datatype edit =
  Position_x jsnum | Position_y jsnum | Scale_x jsnum | Scale_y jsnum | Pivot_x jsnum | Pivot_y jsnum
| Skew_x jsnum | Skew_y jsnum | Rotation jsnum | From_matrix matrix

fun edited :: "edit \<Rightarrow> transform \<Rightarrow> transform" where
  "edited (Position_x v) t = set_position_x v t"
| "edited (Position_y v) t = set_position_y v t"
| "edited (Scale_x v) t = set_scale_x v t"
| "edited (Scale_y v) t = set_scale_y v t"
| "edited (Pivot_x v) t = set_pivot_x v t"
| "edited (Pivot_y v) t = set_pivot_y v t"
| "edited (Skew_x v) t = set_skew_x v t"
| "edited (Skew_y v) t = set_skew_y v t"
| "edited (Rotation v) t = TransformStatic_setRotation v t"
| "edited (From_matrix m) t = TransformStatic_setFromMatrix m t"

text \<open>
  What happens to a branch: a transform is edited or its local matrix is asked for, an object updates
  itself with all above it, or the lower part moves below \<open>k\<close> new objects, when
  \<^verbatim>\<open>addChild\<close> resets the parent counter.
\<close>

datatype branch_event = Edit nat edit | Local nat | Update nat | Move nat nat

definition detached :: "transform \<Rightarrow> transform" where
  "detached t = t\<lparr>t_parentID := - 1\<rparr>"

fun branch_next :: "transform list \<Rightarrow> branch_event \<Rightarrow> transform list" where
  "branch_next ts (Edit n e) = (if n < length ts then ts[n := edited e (ts ! n)] else ts)"
| "branch_next ts (Local n) = (if n < length ts then ts[n := TransformStatic_updateLocalTransform (ts ! n)] else ts)"
| "branch_next ts (Update n) = take n ts @ recursivePostUpdateTransform (drop n ts)"
| "branch_next ts (Move n k) =
     (if n < length ts then take n ts @ detached (ts ! n) # replicate k new_TransformStatic else ts)"

definition branch_step :: "transform list \<Rightarrow> branch_event \<Rightarrow> transform list \<Rightarrow> bool" where
  "branch_step ts ev ts' \<longleftrightarrow> ts' = branch_next ts ev"

definition branch_init :: "transform list \<Rightarrow> bool" where
  "branch_init ts \<longleftrightarrow> set ts \<subseteq> {new_TransformStatic}"

text \<open>The trigonometric fields follow the angles and the local matrix follows its counter.\<close>

definition trig_ok :: "transform \<Rightarrow> bool" where
  "trig_ok t \<longleftrightarrow> t_cx t = js_cos (t_rotation t + vy (t_skew t)) \<and> t_sx t = js_sin (t_rotation t + vy (t_skew t))
     \<and> t_cy t = - js_sin (t_rotation t - vx (t_skew t)) \<and> t_sy t = js_cos (t_rotation t - vx (t_skew t))"

definition local_ok :: "transform \<Rightarrow> bool" where
  "local_ok t \<longleftrightarrow> trig_ok t \<and> t_currentLocalID t \<le> t_localID t \<and> 0 \<le> t_worldID t
     \<and> (t_currentLocalID t = t_localID t \<longrightarrow> localTransform t = local_matrix t)"

text \<open>A transform that has seen its parent's counter has the product of the two matrices.\<close>

definition link_ok :: "transform \<Rightarrow> transform \<Rightarrow> bool" where
  "link_ok t p \<longleftrightarrow> t_parentID t \<le> t_worldID p
     \<and> (t_parentID t = t_worldID p \<longrightarrow> worldTransform t = world_matrix (worldTransform p) (localTransform t))"

fun linked :: "transform list \<Rightarrow> bool" where
  "linked [] \<longleftrightarrow> True"
| "linked (t # anc) \<longleftrightarrow> local_ok t \<and> link_ok t (parent_of anc) \<and> linked anc"

text \<open>A transform whose world matrix changes counts up.\<close>

definition advances :: "transform \<Rightarrow> transform \<Rightarrow> bool" where
  "advances p q \<longleftrightarrow> t_worldID p \<le> t_worldID q \<and> (t_worldID q = t_worldID p \<longrightarrow> worldTransform q = worldTransform p)"

definition same_caches :: "transform \<Rightarrow> transform \<Rightarrow> bool" where
  "same_caches t u \<longleftrightarrow> localTransform u = localTransform t \<and> worldTransform u = worldTransform t
     \<and> t_currentLocalID u = t_currentLocalID t \<and> t_parentID u = t_parentID t \<and> t_worldID u = t_worldID t"

definition good_edit :: "transform \<Rightarrow> transform \<Rightarrow> bool" where
  "good_edit t u \<longleftrightarrow> same_caches t u \<and> (trig_ok t \<longrightarrow> trig_ok u) \<and> t_localID t \<le> t_localID u
     \<and> (t_localID u = t_localID t \<longrightarrow> local_matrix u = local_matrix t)"

lemma good_edit_refl [simp]: "good_edit t t"
  by (simp add: good_edit_def same_caches_def)

lemma good_edit_trans: "good_edit t u \<Longrightarrow> good_edit u v \<Longrightarrow> good_edit t v"
  by (auto simp: good_edit_def same_caches_def)

lemma js_eq_same: "js_eq a b \<Longrightarrow> a = b"
  by (simp add: js_eq_def)

lemmas point_setter_defs = observed_def ObservablePoint_x_def ObservablePoint_y_def
  TransformStatic_onChange_def TransformStatic_updateSkew_def

lemma good_setters [simp, intro]:
  "good_edit t (set_position_x v t)" "good_edit t (set_position_y v t)"
  "good_edit t (set_scale_x v t)" "good_edit t (set_scale_y v t)"
  "good_edit t (set_pivot_x v t)" "good_edit t (set_pivot_y v t)"
  "good_edit t (set_skew_x v t)" "good_edit t (set_skew_y v t)"
  "good_edit t (TransformStatic_setRotation v t)"
  by (simp_all add: set_position_x_def set_position_y_def set_scale_x_def set_scale_y_def set_pivot_x_def
      set_pivot_y_def set_skew_x_def set_skew_y_def TransformStatic_setRotation_def point_setter_defs
      good_edit_def same_caches_def trig_ok_def)

lemma good_decompose [simp, intro]: "good_edit t (Matrix_decompose m t)"
  unfolding Matrix_decompose_def Let_def
  by (auto intro!: good_setters [THEN [2] good_edit_trans])

lemma good_edited: "good_edit t (edited e t)"
proof (cases e)
  case (From_matrix m)
  have "good_edit (Matrix_decompose m t) (TransformStatic_setFromMatrix m t)"
    by (simp add: TransformStatic_setFromMatrix_def Let_def good_edit_def same_caches_def trig_ok_def)
  then show ?thesis using From_matrix good_edit_trans [OF good_decompose] by simp
qed simp_all

lemma good_edit_ok:
  assumes "good_edit t u" and "local_ok t" and "link_ok t p"
  shows "local_ok u" and "link_ok u p" and "advances t u"
  using assms by (auto simp: good_edit_def same_caches_def local_ok_def link_ok_def advances_def)

lemma local_matrix_placement: "trig_ok t \<Longrightarrow> local_matrix t = placement t"
  by (simp add: trig_ok_def local_matrix_def placement_def Matrix_setTransform_def Matrix_identity_def Let_def)

lemma world_matrix_append: "world_matrix pt lt = Matrix_append lt pt"
  by (simp add: world_matrix_def Matrix_append_def Let_def)

lemma parent_of_Cons [simp]: "parent_of (t # anc) = t"
  by (simp add: parent_of_def)

lemma advances_refl [simp]: "advances p p"
  by (simp add: advances_def)

lemma link_ok_advances: "link_ok t p \<Longrightarrow> advances p q \<Longrightarrow> link_ok t q"
  by (auto simp: link_ok_def advances_def)

lemma new_TransformStatic_ok [simp]: "local_ok new_TransformStatic" "link_ok new_TransformStatic new_TransformStatic"
  by (simp_all add: local_ok_def trig_ok_def link_ok_def new_TransformStatic_def local_matrix_def
      world_matrix_def Matrix_identity_def Let_def)

lemma linked_local_ok: "linked ts \<Longrightarrow> local_ok (parent_of ts)"
  by (cases ts) (simp_all add: parent_of_def)

lemma updateLocalTransform_ok:
  assumes "local_ok t" and "link_ok t p" and "local_ok p" and "u = TransformStatic_updateLocalTransform t"
  shows "local_ok u" and "link_ok u p" and "localTransform u = placement u" and "placement u = placement t"
    and "advances t u" and "t_worldID u = t_worldID t"
proof -
  have "local_matrix (t\<lparr>localTransform := m, t_currentLocalID := i, t_parentID := j\<rparr>) = local_matrix t" for m i j
    by (simp add: local_matrix_def)
  then show "local_ok u" and "link_ok u p" and "localTransform u = placement u" and "placement u = placement t"
      and "advances t u" and "t_worldID u = t_worldID t"
    using assms local_matrix_placement [of t]
    by (auto simp: TransformStatic_updateLocalTransform_def local_ok_def link_ok_def trig_ok_def advances_def placement_def)
qed

lemma updateTransform_ok:
  assumes "local_ok t" and "link_ok t p" and "local_ok p" and "u = TransformStatic_updateTransform p t"
  shows "local_ok u" and "link_ok u p" and "advances t u" and "placement u = placement t"
    and "worldTransform u = Matrix_append (placement t) (worldTransform p)" and "t_parentID u = t_worldID p"
proof -
  define v where "v = TransformStatic_updateLocalTransform t"
  note l = updateLocalTransform_ok [OF assms(1-3) v_def]
  have f: "local_matrix (v\<lparr>worldTransform := m, t_parentID := i, t_worldID := j\<rparr>) = local_matrix v" for m i j
    by (simp add: local_matrix_def)
  show "local_ok u" and "link_ok u p" and "advances t u" and "placement u = placement t"
    and "worldTransform u = Matrix_append (placement t) (worldTransform p)" and "t_parentID u = t_worldID p"
    using l f assms(4)
    by (auto simp: TransformStatic_updateTransform_def v_def [symmetric] local_ok_def link_ok_def trig_ok_def
        advances_def placement_def world_matrix_append)
qed

lemma recursivePostUpdateTransform_ok:
  assumes "linked ts"
  shows "linked (recursivePostUpdateTransform ts)"
    and "advances (parent_of ts) (parent_of (recursivePostUpdateTransform ts))"
    and "map worldTransform (recursivePostUpdateTransform ts) = map (\<lambda>i. placed (drop i ts)) [0..<length ts]"
    and "map placement (recursivePostUpdateTransform ts) = map placement ts"
proof -
  have "linked (recursivePostUpdateTransform ts)
    \<and> advances (parent_of ts) (parent_of (recursivePostUpdateTransform ts))
    \<and> map worldTransform (recursivePostUpdateTransform ts) = map (\<lambda>i. placed (drop i ts)) [0..<length ts]
    \<and> map placement (recursivePostUpdateTransform ts) = map placement ts
    \<and> worldTransform (parent_of (recursivePostUpdateTransform ts)) = placed ts"
    using assms
  proof (induction ts)
    case Nil
    then show ?case by (simp add: parent_of_def new_TransformStatic_def)
  next
    case (Cons t anc)
    let ?anc = "recursivePostUpdateTransform anc"
    have IH: "linked ?anc" "advances (parent_of anc) (parent_of ?anc)"
      "map worldTransform ?anc = map (\<lambda>i. placed (drop i anc)) [0..<length anc]"
      "map placement ?anc = map placement anc" "worldTransform (parent_of ?anc) = placed anc"
      and t: "local_ok t" "link_ok t (parent_of anc)" using Cons by simp_all
    have u: "[0..<Suc (length anc)] = 0 # map Suc [0..<length anc]"
      by (simp add: upt_conv_Cons map_Suc_upt del: upt_Suc)
    note up = updateTransform_ok [OF t(1) link_ok_advances [OF t(2) IH(2)] linked_local_ok [OF IH(1)] refl]
    show ?case
      using IH up by (simp add: u Let_def o_def del: upt_Suc)
  qed
  then show "linked (recursivePostUpdateTransform ts)"
    and "advances (parent_of ts) (parent_of (recursivePostUpdateTransform ts))"
    and "map worldTransform (recursivePostUpdateTransform ts) = map (\<lambda>i. placed (drop i ts)) [0..<length ts]"
    and "map placement (recursivePostUpdateTransform ts) = map placement ts" by simp_all
qed

lemma linked_append:
  "linked (xs @ ys) \<Longrightarrow> linked zs \<Longrightarrow> advances (parent_of ys) (parent_of zs) \<Longrightarrow> linked (xs @ zs)"
proof (induction xs)
  case (Cons x xs)
  have "advances (parent_of (xs @ ys)) (parent_of (xs @ zs))" using Cons.prems by (cases xs) (simp_all add: parent_of_def)
  then show ?case using Cons link_ok_advances by auto
qed simp

lemma linked_drop: "linked ts \<Longrightarrow> linked (drop n ts)"
  by (induction ts arbitrary: n) (auto simp: drop_Cons split: nat.split)

lemma linked_update:
  assumes "linked ts" and "n < length ts"
    and "\<And>p. local_ok (ts ! n) \<Longrightarrow> link_ok (ts ! n) p \<Longrightarrow> local_ok p \<Longrightarrow> local_ok u \<and> link_ok u p \<and> advances (ts ! n) u"
  shows "linked (ts[n := u])"
proof -
  have d: "drop n ts = ts ! n # drop (Suc n) ts" using assms(2) by (simp add: Cons_nth_drop_Suc)
  have "linked (take n ts @ drop n ts)" using assms(1) by simp
  moreover have l: "linked (ts ! n # drop (Suc n) ts)" using linked_drop [OF assms(1), of n] d by simp
  then have "local_ok u \<and> link_ok u (parent_of (drop (Suc n) ts)) \<and> advances (ts ! n) u"
    using assms(3) [of "parent_of (drop (Suc n) ts)"] linked_local_ok [of "drop (Suc n) ts"] by simp
  then have "linked (u # drop (Suc n) ts)" "advances (parent_of (drop n ts)) (parent_of (u # drop (Suc n) ts))"
    using l d by (simp_all add: parent_of_def)
  ultimately have "linked (take n ts @ u # drop (Suc n) ts)" using linked_append by blast
  then show ?thesis using assms(2) by (simp add: upd_conv_take_nth_drop)
qed

lemma linked_fresh: "linked (replicate k new_TransformStatic)" "parent_of (replicate k new_TransformStatic) = new_TransformStatic"
proof -
  show "parent_of (replicate k new_TransformStatic) = new_TransformStatic" for k by (cases k) (simp_all add: parent_of_def)
  then show "linked (replicate k new_TransformStatic)" by (induction k) simp_all
qed

lemma branch_next_linked:
  assumes "linked ts"
  shows "linked (branch_next ts ev)"
proof (cases ev)
  case (Edit n e)
  have "n < length ts \<Longrightarrow> linked (ts[n := edited e (ts ! n)])"
    by (rule linked_update [OF assms]) (blast intro: good_edit_ok [OF good_edited])+
  then show ?thesis using Edit assms by simp
next
  case (Local n)
  have "n < length ts \<Longrightarrow> linked (ts[n := TransformStatic_updateLocalTransform (ts ! n)])"
    by (rule linked_update [OF assms]) (blast intro: updateLocalTransform_ok(1,2,5) [OF _ _ _ refl])+
  then show ?thesis using Local assms by simp
next
  case (Update n)
  have "linked (take n ts @ drop n ts)" using assms by simp
  from linked_append [OF this recursivePostUpdateTransform_ok(1,2) [OF linked_drop [OF assms]]]
  show ?thesis using Update by simp
next
  case (Move n k)
  show ?thesis
  proof (cases "n < length ts")
    case True
    then have d: "drop n ts = ts ! n # drop (Suc n) ts" by (simp add: Cons_nth_drop_Suc)
    have t: "local_ok (ts ! n)" using linked_drop [OF assms, of n] d by simp
    let ?zs = "detached (ts ! n) # replicate k new_TransformStatic"
    have "linked ?zs"
      using t linked_fresh [of k]
      by (simp add: detached_def local_ok_def link_ok_def trig_ok_def local_matrix_def)
        (simp add: new_TransformStatic_def)
    moreover have "advances (parent_of (drop n ts)) (parent_of ?zs)"
      using d by (simp add: parent_of_def detached_def advances_def)
    ultimately have "linked (take n ts @ ?zs)" using linked_append [of "take n ts" "drop n ts"] assms by simp
    then show ?thesis using Move True by simp
  qed (use Move assms in simp)
qed

interpretation branch: invariant_of branch_init branch_step linked
proof unfold_locales
  show "linked ts" if "branch_init ts" for ts
  proof -
    have "ts = replicate (length ts) new_TransformStatic"
      using that by (auto simp: branch_init_def intro!: replicate_length_same [symmetric])
    then show ?thesis using linked_fresh(1) [of "length ts"] by simp
  qed
  show "linked ts'" if "linked ts" "branch_step ts ev ts'" for ts ts' ev
    using that branch_next_linked by (simp add: branch_step_def)
qed

text \<open>The updates do not move anything, and every update of a branch starts with this one.\<close>

lemma updated_ok:
  assumes "linked ts"
  shows "worldTransform (parent_of (updated False ts)) = placed ts"
    and "map worldTransform (updated False ts) = map (\<lambda>i. placed (drop i ts)) [0..<length ts]"
proof -
  have "worldTransform (parent_of (updated False ts)) = placed ts
    \<and> map worldTransform (updated False ts) = map (\<lambda>i. placed (drop i ts)) [0..<length ts]"
  proof (cases ts)
    case Nil
    then show ?thesis by (simp add: updated_def parent_of_def new_TransformStatic_def)
  next
    case (Cons t anc)
    note r = recursivePostUpdateTransform_ok [OF assms]
    obtain u anc' where u: "recursivePostUpdateTransform ts = u # anc'" using Cons by (simp add: Let_def)
    have l: "local_ok u" "link_ok u (parent_of anc')" "linked anc'" using r(1) u by simp_all
    let ?v = "TransformStatic_updateTransform (parent_of anc') u"
    have e: "[0..<length ts] = 0 # map Suc [0..<length anc]"
      using Cons by (simp add: upt_conv_Cons map_Suc_upt del: upt_Suc)
    have m: "worldTransform u = placed ts" "map worldTransform anc' = map (\<lambda>i. placed (drop i anc)) [0..<length anc]"
      using r(3) u Cons e by (simp_all add: o_def del: upt_Suc)
    have "worldTransform (parent_of anc') = placed anc" "placement u = placement t"
    proof -
      show "placement u = placement t" using r(4) u Cons by simp
      show "worldTransform (parent_of anc') = placed anc"
        using m(2) by (cases anc; cases anc') (simp_all add: parent_of_def new_TransformStatic_def upt_conv_Cons del: upt_Suc)
    qed
    then have "worldTransform ?v = placed ts"
      using updateTransform_ok [OF l(1,2) linked_local_ok [OF l(3)] refl] Cons by simp
    then show ?thesis using u m e Cons by (simp add: updated_def o_def del: upt_Suc)
  qed
  then show "worldTransform (parent_of (updated False ts)) = placed ts"
    and "map worldTransform (updated False ts) = map (\<lambda>i. placed (drop i ts)) [0..<length ts]" by simp_all
qed

text \<open>C23: The version counters are exact.  However transforms were edited, updated in part or moved
  to other parents, after an update of an object every object from it to the root has the world
  matrix that its placement and those above it define: no change is missed.\<close>

theorem transform_cache_exact:
  assumes "branch.reachable ts"
  shows "map worldTransform (updated False ts) = map (\<lambda>i. placed (drop i ts)) [0..<length ts]"
  using updated_ok(2) [OF branch.inv_reachable [OF assms]] .

lemma branch_reachable_step:
  assumes "branch.reachable ts" shows "branch.reachable (branch_next ts ev)"
proof -
  obtain s es where "branch_init s" "branch.run s es ts" using assms unfolding branch.reachable_def by blast
  moreover from this(2) have "branch.run s (es @ [ev]) (branch_next ts ev)"
    by (rule branch.run_snoc) (simp add: branch_step_def)
  ultimately show ?thesis unfolding branch.reachable_def by blast
qed

lemma branch_reachable_init: "branch_init ts \<Longrightarrow> branch.reachable ts"
  unfolding branch.reachable_def using branch.run_nil by blast

theorem transform_cache_exact_witness:
  "map worldTransform (updated False (branch_next (branch_next [new_TransformStatic, new_TransformStatic]
      (Update 0)) (Edit 1 (Position_x 5)))) = [mat 1 0 0 1 5 0, mat 1 0 0 1 5 0]"
proof -
  have "branch.reachable (branch_next (branch_next [new_TransformStatic, new_TransformStatic] (Update 0)) (Edit 1 (Position_x 5)))"
    by (intro branch_reachable_step branch_reachable_init) (simp add: branch_init_def)
  from transform_cache_exact [OF this] show ?thesis
    by (simp add: new_TransformStatic_def TransformStatic_updateTransform_def TransformStatic_updateLocalTransform_def
        set_position_x_def point_setter_defs placement_def Matrix_setTransform_def Matrix_append_def Matrix_identity_def
        Let_def parent_of_def)
qed

text \<open>An update leaves a branch as it should be, and everything in its place.\<close>

lemma placed_placements: "map placement us = map placement ts \<Longrightarrow> placed us = placed ts"
proof (induction ts arbitrary: us)
  case (Cons t ts)
  then obtain u us' where "us = u # us'" "placement u = placement t" "map placement us' = map placement ts" by auto
  then show ?case using Cons.IH [of us'] by (simp only: placed.simps)
qed simp

lemma updated_linked:
  assumes "linked ts"
  shows "linked (updated False ts)" and "placed (updated False ts) = placed ts"
proof -
  have "linked (updated False ts) \<and> placed (updated False ts) = placed ts"
  proof (cases ts)
    case Nil
    then show ?thesis by (simp add: updated_def)
  next
    case (Cons t anc)
    note r = recursivePostUpdateTransform_ok [OF assms]
    obtain u anc' where u: "recursivePostUpdateTransform ts = u # anc'" using Cons by (simp add: Let_def)
    have l: "local_ok u" "link_ok u (parent_of anc')" "linked anc'" using r(1) u by simp_all
    note v = updateTransform_ok [OF l(1,2) linked_local_ok [OF l(3)] refl]
    have "placed (u # anc') = placed ts" by (rule placed_placements) (use r(4) u in simp)
    then show ?thesis using u v l(3) by (simp add: updated_def)
  qed
  then show "linked (updated False ts)" and "placed (updated False ts) = placed ts" by simp_all
qed

text \<open>
  When a placement can be undone: no object of the branch has a scale of zero or skews that add up to
  a right angle.
\<close>

definition regular :: "transform \<Rightarrow> bool" where
  "regular t \<longleftrightarrow> fin_vec (t_position t) \<and> fin_vec (t_pivot t) \<and> fin_vec (t_scale t) \<and> fin_vec (t_skew t) \<and> is_fin (t_rotation t)
     \<and> vx (t_scale t) \<noteq> 0 \<and> vy (t_scale t) \<noteq> 0 \<and> js_cos (vx (t_skew t) + vy (t_skew t)) \<noteq> 0"

lemma regular_placement:
  assumes "regular t"
  shows "fin_mat (placement t) \<and> det (placement t) \<noteq> 0"
proof -
  obtain x y px py sx sy kx ky r where f: "t_position t = vec x y" "t_pivot t = vec px py" "t_scale t = vec sx sy"
      "t_skew t = vec kx ky" "t_rotation t = Fin r"
    using assms by (auto simp: regular_def elim!: fin_vecE is_finE)
  have nz: "sx \<noteq> 0" "sy \<noteq> 0" "cos (kx + ky) \<noteq> 0" using assms by (simp_all add: regular_def f)
  have "cos (r + ky) * sx * (cos (r - kx) * sy) - sin (r + ky) * sx * (- sin (r - kx) * sy)
      = sx * sy * (cos (r + ky) * cos (r - kx) + sin (r + ky) * sin (r - kx))" by algebra
  also have "\<dots> = sx * sy * cos ((r + ky) - (r - kx))" by (simp only: cos_diff)
  also have "(r + ky) - (r - kx) = kx + ky" by simp
  finally have "cos (r + ky) * sx * (cos (r - kx) * sy) - sin (r + ky) * sx * (- sin (r - kx) * sy) = sx * sy * cos (kx + ky)" .
  then show ?thesis using nz
    by (simp add: placement_def f Matrix_setTransform_def Let_def fin_mat_def det_def Matrix_identity_def)
qed

lemma regular_placed: "\<forall>t \<in> set ts. regular t \<Longrightarrow> fin_mat (placed ts) \<and> det (placed ts) \<noteq> 0"
proof (induction ts)
  case Nil
  show ?case by (simp add: Matrix_identity_def)
next
  case (Cons t anc)
  have product: "det (Matrix_append m n) \<noteq> 0 \<and> fin_mat (Matrix_append m n)"
    if "fin_mat m" "fin_mat n" "det m \<noteq> 0" "det n \<noteq> 0" for m n
  proof -
    obtain a b c d x y a' b' c' d' x' y' where mn: "m = mat a b c d x y" "n = mat a' b' c' d' x' y'"
      using \<open>fin_mat m\<close> \<open>fin_mat n\<close> by (elim fin_matE)
    have "(a * a' + b * c') * (c * b' + d * d') - (a * b' + b * d') * (c * a' + d * c') = (a * d - b * c) * (a' * d' - b' * c')"
      by algebra
    then show ?thesis using that(3,4) by (simp add: mn Matrix_append_def Let_def)
  qed
  show ?case using Cons product [of "placement t" "placed anc"] regular_placement [of t] by simp
qed

text \<open>C31: \<open>toLocal\<close> undoes \<open>toGlobal\<close>: whatever was cached, the screen position of a point of an object is
  mapped back to that point on the branch that \<open>toGlobal\<close> leaves, with or without another update, if the
  placement of the object on the screen has an inverse.  It has one when no object on the way has a scale of
  zero or skews that add up to a right angle (\<open>regular_placed\<close>).\<close>

theorem toLocal_toGlobal:
  assumes "branch.reachable ts" and "fin_mat (placed ts)" and "det (placed ts) \<noteq> 0" and "fin_vec p"
    and "DisplayObject_toGlobal p False ts = (q, ts')"
  shows "fst (DisplayObject_toLocal q skipUpdate ts') = p"
proof -
  have l: "linked ts" by (rule branch.inv_reachable [OF assms(1)])
  have ts': "ts' = updated False ts" and q: "q = Matrix_apply p (placed ts)"
    using assms(5) updated_ok(1) [OF l] by (auto simp: DisplayObject_toGlobal_def Let_def)
  have "worldTransform (parent_of (updated skipUpdate ts')) = placed ts"
    using updated_ok(1) [OF l] updated_ok(1) [OF updated_linked(1) [OF l]] updated_linked(2) [OF l]
    by (cases skipUpdate) (simp_all add: ts' updated_def [of True])
  then show ?thesis
    using assms(2-4) by (simp add: DisplayObject_toLocal_def Let_def q apply_applyInverse)
qed

theorem toLocal_toGlobal_witness:
  "let (q, ts') = DisplayObject_toGlobal (vec 3 4) False [set_scale_x 2 new_TransformStatic, set_position_x 5 new_TransformStatic]
   in fst (DisplayObject_toLocal q False ts') = vec 3 4"
proof -
  let ?ts = "[set_scale_x 2 new_TransformStatic, set_position_x 5 new_TransformStatic]"
  have "branch.reachable (branch_next (branch_next [new_TransformStatic, new_TransformStatic] (Edit 0 (Scale_x 2))) (Edit 1 (Position_x 5)))"
    by (intro branch_reachable_step branch_reachable_init) (simp add: branch_init_def)
  then have r: "branch.reachable ?ts" by simp
  have "regular t" if "t \<in> set ?ts" for t
    using that by (auto simp: regular_def new_TransformStatic_def set_scale_x_def set_position_x_def point_setter_defs)
  then have m: "fin_mat (placed ?ts)" "det (placed ?ts) \<noteq> 0" using regular_placed [of ?ts] by blast+
  show ?thesis
    using toLocal_toGlobal [OF r m, of "vec 3 4" _ _ False] by (simp add: case_prod_unfold Let_def)
qed

text \<open>
  The plain \<^verbatim>\<open>Transform\<close> computes both matrices in every update; the cached one agrees with it.
\<close>

lemma cached_is_plain:
  assumes "local_ok t" and "link_ok t p" and "local_ok p"
  shows "worldTransform (TransformStatic_updateTransform p t) = worldTransform (Transform_updateTransform p t)"
    and "localTransform (TransformStatic_updateLocalTransform t) = localTransform (Transform_updateLocalTransform t)"
proof -
  show "worldTransform (TransformStatic_updateTransform p t) = worldTransform (Transform_updateTransform p t)"
    using updateTransform_ok [OF assms refl] local_matrix_placement [of t] assms
    by (simp add: Transform_updateTransform_def Let_def world_matrix_append local_ok_def)
  show "localTransform (TransformStatic_updateLocalTransform t) = localTransform (Transform_updateLocalTransform t)"
    using updateLocalTransform_ok [OF assms refl] local_matrix_placement [of t] assms
    by (simp add: Transform_updateLocalTransform_def local_ok_def)
qed

section \<open>Decomposing a matrix\<close>

lemma ObservablePoint_axis [simp]: "fst (ObservablePoint_x v p) = p\<lparr>vx := v\<rparr>" "fst (ObservablePoint_y v p) = p\<lparr>vy := v\<rparr>"
  by (auto simp: ObservablePoint_x_def ObservablePoint_y_def dest!: js_eq_same)

lemma setters_fields [simp]:
  "t_position (set_skew_x v t) = t_position t" "t_position (set_skew_y v t) = t_position t"
  "t_position (TransformStatic_setRotation v t) = t_position t"
  "t_position (set_scale_x v t) = t_position t" "t_position (set_scale_y v t) = t_position t"
  "t_position (set_position_x v t) = (t_position t)\<lparr>vx := v\<rparr>" "t_position (set_position_y v t) = (t_position t)\<lparr>vy := v\<rparr>"
  "t_pivot (set_skew_x v t) = t_pivot t" "t_pivot (set_skew_y v t) = t_pivot t"
  "t_pivot (TransformStatic_setRotation v t) = t_pivot t"
  "t_pivot (set_scale_x v t) = t_pivot t" "t_pivot (set_scale_y v t) = t_pivot t"
  "t_pivot (set_position_x v t) = t_pivot t" "t_pivot (set_position_y v t) = t_pivot t"
  "t_scale (set_skew_x v t) = t_scale t" "t_scale (set_skew_y v t) = t_scale t"
  "t_scale (TransformStatic_setRotation v t) = t_scale t"
  "t_scale (set_scale_x v t) = (t_scale t)\<lparr>vx := v\<rparr>" "t_scale (set_scale_y v t) = (t_scale t)\<lparr>vy := v\<rparr>"
  "t_scale (set_position_x v t) = t_scale t" "t_scale (set_position_y v t) = t_scale t"
  "t_skew (set_skew_x v t) = (t_skew t)\<lparr>vx := v\<rparr>" "t_skew (set_skew_y v t) = (t_skew t)\<lparr>vy := v\<rparr>"
  "t_skew (TransformStatic_setRotation v t) = t_skew t"
  "t_skew (set_scale_x v t) = t_skew t" "t_skew (set_scale_y v t) = t_skew t"
  "t_skew (set_position_x v t) = t_skew t" "t_skew (set_position_y v t) = t_skew t"
  "t_rotation (set_skew_x v t) = t_rotation t" "t_rotation (set_skew_y v t) = t_rotation t"
  "t_rotation (TransformStatic_setRotation v t) = v"
  "t_rotation (set_scale_x v t) = t_rotation t" "t_rotation (set_scale_y v t) = t_rotation t"
  "t_rotation (set_position_x v t) = t_rotation t" "t_rotation (set_position_y v t) = t_rotation t"
  by (simp_all add: set_position_x_def set_position_y_def set_scale_x_def set_scale_y_def
      set_skew_x_def set_skew_y_def TransformStatic_setRotation_def observed_def
      TransformStatic_onChange_def TransformStatic_updateSkew_def)

text \<open>The angle between the two axes is a right one up to the tolerance of the source.\<close>

definition unskewed :: "matrix \<Rightarrow> bool" where
  "unskewed m \<longleftrightarrow> (let delta = js_abs (- js_atan2 (- mc m) (md m) + js_atan2 (mb m) (ma m))
     in delta < Fin (1 / 100000) \<or> js_abs (Fin (2 * pi) - delta) < Fin (1 / 100000))"

lemma axis_polar:
  fixes x y :: real
  shows "cos (real_atan2 y x) * sqrt (x * x + y * y) = x" "sin (real_atan2 y x) * sqrt (x * x + y * y) = y"
  using atan2_polar [where x = x and y = y] by (simp_all add: power2_eq_square mult.commute)

text \<open>Decomposing a finite matrix of a skewed (or mirrored) object into angles and scales and
  placing a transform without pivot by them gives the matrix back.\<close>

theorem decompose_roundtrip:
  assumes "fin_mat m" and "\<not> unskewed m" and "t_pivot t = vec 0 0"
  shows "placement (TransformStatic_setFromMatrix m t) = m"
proof -
  obtain a b c d tx ty where m: "m = mat a b c d tx ty" using assms by (elim fin_matE)
  define u where "u = TransformStatic_setFromMatrix m t"
  have f: "t_position u = vec tx ty" "t_pivot u = vec 0 0"
    "t_scale u = vec (sqrt (a * a + b * b)) (sqrt (c * c + d * d))"
    "t_skew u = vec (- real_atan2 (- c) d) (real_atan2 b a)" "t_rotation u = 0"
    using assms(2,3)
    by (simp_all add: u_def TransformStatic_setFromMatrix_def Matrix_decompose_def m unskewed_def Let_def not_less add_nonneg_nonneg)
  have "placement u = m"
    using axis_polar [where x = a and y = b] axis_polar [where x = d and y = "- c"]
    by (simp add: placement_def f m Matrix_setTransform_def Matrix_identity_def Let_def add.commute [of "d * d"])
  then show ?thesis by (simp add: u_def)
qed

theorem decompose_roundtrip_witness:
  "placement (TransformStatic_setFromMatrix (mat 0 1 1 0 7 8) new_TransformStatic) = mat 0 1 1 0 7 8"
  using pi_ge_two by (intro decompose_roundtrip)
    (simp_all add: unskewed_def new_TransformStatic_def real_atan2_def Let_def abs_if)

end
