(* ===== verification/Bounds.thy ===== *)
theory Bounds
  imports Transforms
begin

text \<open>The bounding boxes of \<^verbatim>\<open>js/pixi.js\<close>: \<^verbatim>\<open>Bounds\<close>, which an object stretches over what it draws.\<close>

section \<open>Bounds of drawings\<close>

record bounds =
  minX :: jsnum
  minY :: jsnum
  maxX :: jsnum
  maxY :: jsnum
  b_updateID :: jsnum

text \<open>The counter is never set: counting up from undefined gives NaN.\<close>

definition new_Bounds :: bounds where
  "new_Bounds = \<lparr>minX = PInf, minY = PInf, maxX = NInf, maxY = NInf, b_updateID = NaN\<rparr>"

definition Bounds_isEmpty :: "bounds \<Rightarrow> bool" where
  "Bounds_isEmpty this \<longleftrightarrow> maxX this < minX this \<or> maxY this < minY this"

definition Bounds_clear :: "bounds \<Rightarrow> bounds" where
  "Bounds_clear this = this\<lparr>b_updateID := b_updateID this + 1, minX := PInf, minY := PInf, maxX := NInf, maxY := NInf\<rparr>"

definition Bounds_getRectangle :: "bounds \<Rightarrow> rectangle" where
  "Bounds_getRectangle this =
     (if maxX this < minX this \<or> maxY this < minY this then \<lparr>r_x = 0, r_y = 0, r_width = 0, r_height = 0\<rparr>
      else \<lparr>r_x = minX this, r_y = minY this, r_width = maxX this - minX this, r_height = maxY this - minY this\<rparr>)"

definition Bounds_addPoint :: "victor \<Rightarrow> bounds \<Rightarrow> bounds" where
  "Bounds_addPoint p this =
     this\<lparr>minX := js_min (minX this) (vx p), maxX := js_max (maxX this) (vx p),
       minY := js_min (minY this) (vy p), maxY := js_max (maxY this) (vy p)\<rparr>"

text \<open>One vertex, by comparisons.\<close>

definition stretch :: "jsnum \<Rightarrow> jsnum \<Rightarrow> bounds \<Rightarrow> bounds" where
  "stretch x y this =
     this\<lparr>minX := if x < minX this then x else minX this, minY := if y < minY this then y else minY this,
       maxX := if maxX this < x then x else maxX this, maxY := if maxY this < y then y else maxY this\<rparr>"

text \<open>The four corners of a quad; a missing coordinate is not a number.\<close>

definition coordinate :: "jsnum list \<Rightarrow> nat \<Rightarrow> jsnum" where
  "coordinate vertices i = (if i < length vertices then vertices ! i else NaN)"

definition Bounds_addQuad :: "jsnum list \<Rightarrow> bounds \<Rightarrow> bounds" where
  "Bounds_addQuad vertices this =
     (let v = coordinate vertices
      in stretch (v 6) (v 7) (stretch (v 4) (v 5) (stretch (v 2) (v 3) (stretch (v 0) (v 1) this))))"

definition Bounds_addFrame :: "transform \<Rightarrow> jsnum \<Rightarrow> jsnum \<Rightarrow> jsnum \<Rightarrow> jsnum \<Rightarrow> bounds \<Rightarrow> bounds" where
  "Bounds_addFrame t x0 y0 x1 y1 this =
     (let m = worldTransform t; a = ma m; b = mb m; c = mc m; d = md m; tx = mtx m; ty = mty m;
          b1 = stretch (a * x0 + c * y0 + tx) (b * x0 + d * y0 + ty) this;
          b2 = stretch (a * x1 + c * y0 + tx) (b * x1 + d * y0 + ty) b1;
          b3 = stretch (a * x0 + c * y1 + tx) (b * x0 + d * y1 + ty) b2
      in stretch (a * x1 + c * y1 + tx) (b * x1 + d * y1 + ty) b3)"

function vertices_loop :: "matrix \<Rightarrow> jsnum list \<Rightarrow> nat \<Rightarrow> nat \<Rightarrow> bounds \<Rightarrow> bounds" where
  "vertices_loop m vertices i endOffset bs =
     (if i < endOffset
      then (let rawX = coordinate vertices i; rawY = coordinate vertices (i + 1);
                x = ma m * rawX + mc m * rawY + mtx m; y = md m * rawY + mb m * rawX + mty m
            in vertices_loop m vertices (i + 2) endOffset (stretch x y bs))
      else bs)"
  by pat_completeness auto
termination
  by (relation "measure (\<lambda>(m, vs, i, e, bs). e - i)") auto

declare vertices_loop.simps [simp del]

definition Bounds_addVertices :: "transform \<Rightarrow> jsnum list \<Rightarrow> nat \<Rightarrow> nat \<Rightarrow> bounds \<Rightarrow> bounds" where
  "Bounds_addVertices t vertices beginOffset endOffset this =
     vertices_loop (worldTransform t) vertices beginOffset endOffset this"

definition Bounds_addBounds :: "bounds \<Rightarrow> bounds \<Rightarrow> bounds" where
  "Bounds_addBounds b this =
     this\<lparr>minX := if minX b < minX this then minX b else minX this,
       minY := if minY b < minY this then minY b else minY this,
       maxX := if maxX this < maxX b then maxX b else maxX this,
       maxY := if maxY this < maxY b then maxY b else maxY this\<rparr>"

definition clipped :: "jsnum \<Rightarrow> jsnum \<Rightarrow> jsnum \<Rightarrow> jsnum \<Rightarrow> bounds \<Rightarrow> bounds \<Rightarrow> bounds" where
  "clipped x0 y0 x1 y1 b this =
     (let l = (if x0 < minX b then minX b else x0); u = (if y0 < minY b then minY b else y0);
          r = (if maxX b < x1 then maxX b else x1); d = (if maxY b < y1 then maxY b else y1)
      in if l \<le> r \<and> u \<le> d
         then this\<lparr>minX := if l < minX this then l else minX this, minY := if u < minY this then u else minY this,
                maxX := if maxX this < r then r else maxX this, maxY := if maxY this < d then d else maxY this\<rparr>
         else this)"

definition Bounds_addBoundsMask :: "bounds \<Rightarrow> bounds \<Rightarrow> bounds \<Rightarrow> bounds" where
  "Bounds_addBoundsMask b msk this = clipped (minX msk) (minY msk) (maxX msk) (maxY msk) b this"

definition Bounds_addBoundsArea :: "bounds \<Rightarrow> rectangle \<Rightarrow> bounds \<Rightarrow> bounds" where
  "Bounds_addBoundsArea b ar this =
     clipped (r_x ar) (r_y ar) (r_x ar + r_width ar) (r_y ar + r_height ar) b this"

text \<open>A point within bounds, and bounds that are numbers.\<close>

definition in_bounds :: "victor \<Rightarrow> bounds \<Rightarrow> bool" where
  "in_bounds p b \<longleftrightarrow> minX b \<le> vx p \<and> vx p \<le> maxX b \<and> minY b \<le> vy p \<and> vy p \<le> maxY b"

definition numeric :: "bounds \<Rightarrow> bool" where
  "numeric b \<longleftrightarrow> minX b \<noteq> NaN \<and> minY b \<noteq> NaN \<and> maxX b \<noteq> NaN \<and> maxY b \<noteq> NaN"

lemma jsnum_total: "x \<noteq> NaN \<Longrightarrow> y \<noteq> NaN \<Longrightarrow> \<not> x < y \<longleftrightarrow> y \<le> x" for x y :: jsnum
  by (cases x; cases y) auto

lemma jsnum_trans: "x \<le> y \<Longrightarrow> y \<le> z \<Longrightarrow> x \<le> z" for x y z :: jsnum
  by (cases x; cases y; cases z) auto

lemma jsnum_less_le: "x < y \<Longrightarrow> x \<le> y" "x \<noteq> NaN \<Longrightarrow> x \<le> x" for x y :: jsnum
  by (cases x; cases y; auto)+

lemma le_Fin_trans: "z \<le> Fin r \<Longrightarrow> r \<le> s \<Longrightarrow> z \<le> Fin s" "Fin s \<le> z \<Longrightarrow> r \<le> s \<Longrightarrow> Fin r \<le> z"
  by (cases z; simp)+

lemma stretch_addPoint:
  assumes "numeric b" and "fin_vec p"
  shows "stretch (vx p) (vy p) b = Bounds_addPoint p b"
  using assms by (auto simp: numeric_def stretch_def Bounds_addPoint_def js_min_def js_max_def fin_vec_def)

lemma stretch_numeric: "numeric b \<Longrightarrow> numeric (stretch (Fin x) (Fin y) b)"
  by (simp add: numeric_def stretch_def)

lemma stretch_in_bounds:
  assumes "numeric b"
  shows "in_bounds (vec x y) (stretch (Fin x) (Fin y) b)"
    and "in_bounds p b \<Longrightarrow> in_bounds p (stretch (Fin x) (Fin y) b)"
  using assms
  by (auto simp: numeric_def stretch_def in_bounds_def jsnum_total jsnum_less_le
      intro: jsnum_trans jsnum_trans [OF _ jsnum_less_le(1)] jsnum_trans [OF jsnum_less_le(1)])

text \<open>The extremes of a linear form over a rectangle are at its corners.\<close>

lemma corner_extremes:
  fixes a c x y x0 x1 y0 y1 :: real
  assumes "x0 \<le> x" "x \<le> x1" "y0 \<le> y" "y \<le> y1"
  obtains u v u' v' where "u \<in> {x0, x1}" "v \<in> {y0, y1}" "u' \<in> {x0, x1}" "v' \<in> {y0, y1}"
    "a * u + c * v \<le> a * x + c * y" "a * x + c * y \<le> a * u' + c * v'"
proof -
  have one: "\<exists>u\<in>{l, r}. \<exists>v\<in>{l, r}. k * u \<le> k * z \<and> k * z \<le> k * v" if "l \<le> z" "z \<le> r" for k l r z :: real
    using that by (cases "0 \<le> k") (auto simp: mult_left_mono mult_left_mono_neg)
  show ?thesis using one [of x0 x x1 a] one [of y0 y y1 c] assms that by (meson add_mono)
qed

lemma corner_in_bounds:
  assumes "u \<in> {x0, x1}" "v \<in> {y0, y1}" and "numeric b" and "worldTransform t = mat m11 m12 m21 m22 tx ty"
  shows "in_bounds (vec (m11 * u + m21 * v + tx) (m12 * u + m22 * v + ty)) (Bounds_addFrame t (Fin x0) (Fin y0) (Fin x1) (Fin y1) b)"
  using assms by (auto simp: Bounds_addFrame_def Let_def stretch_numeric stretch_in_bounds)

text \<open>The bounds that \<open>addFrame\<close> computes from the four corners of a frame hold the image of
  every point of the frame, under any finite world matrix: rotated and skewed drawings included.\<close>

theorem addFrame_covers:
  assumes "fin_mat (worldTransform t)" and "numeric b"
    and "x0 \<le> x" and "x \<le> x1" and "y0 \<le> y" and "y \<le> y1"
  shows "in_bounds (Matrix_apply (vec x y) (worldTransform t)) (Bounds_addFrame t (Fin x0) (Fin y0) (Fin x1) (Fin y1) b)"
proof -
  obtain m11 m12 m21 m22 tx ty where m: "worldTransform t = mat m11 m12 m21 m22 tx ty"
    using assms(1) by (elim fin_matE)
  let ?B = "Bounds_addFrame t (Fin x0) (Fin y0) (Fin x1) (Fin y1) b"
  note c = corner_in_bounds [OF _ _ assms(2) m]
  obtain u v u' v' where X: "u \<in> {x0, x1}" "v \<in> {y0, y1}" "u' \<in> {x0, x1}" "v' \<in> {y0, y1}"
    "m11 * u + m21 * v \<le> m11 * x + m21 * y" "m11 * x + m21 * y \<le> m11 * u' + m21 * v'"
    using corner_extremes [OF assms(3-6)] by metis
  obtain r s r' s' where Y: "r \<in> {x0, x1}" "s \<in> {y0, y1}" "r' \<in> {x0, x1}" "s' \<in> {y0, y1}"
    "m12 * r + m22 * s \<le> m12 * x + m22 * y" "m12 * x + m22 * y \<le> m12 * r' + m22 * s'"
    using corner_extremes [OF assms(3-6)] by metis
  have "minX ?B \<le> Fin (m11 * u + m21 * v + tx)" "Fin (m11 * u' + m21 * v' + tx) \<le> maxX ?B"
    "minY ?B \<le> Fin (m12 * r + m22 * s + ty)" "Fin (m12 * r' + m22 * s' + ty) \<le> maxY ?B"
    using c [OF X(1,2)] c [OF X(3,4)] c [OF Y(1,2)] c [OF Y(3,4)] by (simp_all add: in_bounds_def)
  then have "minX ?B \<le> Fin (m11 * x + m21 * y + tx)" "Fin (m11 * x + m21 * y + tx) \<le> maxX ?B"
    "minY ?B \<le> Fin (m12 * x + m22 * y + ty)" "Fin (m12 * x + m22 * y + ty) \<le> maxY ?B"
    using X(5,6) Y(5,6) by (auto elim!: le_Fin_trans)
  then show ?thesis by (simp add: m Matrix_apply_mat in_bounds_def)
qed

text \<open>The vertices of a drawing are added one by one, two coordinates each.\<close>

lemma addVertices_points:
  assumes "worldTransform t = mat a b c d tx ty"
  shows "Bounds_addVertices t (concat (map (\<lambda>(x, y). [Fin x, Fin y]) ps)) 0 (2 * length ps) bs =
    fold (\<lambda>(x, y). stretch (Fin (a * x + c * y + tx)) (Fin (d * y + b * x + ty))) ps bs"
proof -
  have "vertices_loop (mat a b c d tx ty) (qs @ concat (map (\<lambda>(x, y). [Fin x, Fin y]) ps)) (length qs) (length qs + 2 * length ps) bs =
    fold (\<lambda>(x, y). stretch (Fin (a * x + c * y + tx)) (Fin (d * y + b * x + ty))) ps bs" for qs
  proof (induction ps arbitrary: qs bs)
    case Nil
    then show ?case by (simp add: vertices_loop.simps)
  next
    case (Cons p ps)
    obtain x y where p: "p = (x, y)" by (cases p)
    show ?case
      using Cons [of "qs @ [Fin x, Fin y]"]
      by (subst vertices_loop.simps) (simp add: p coordinate_def nth_append Let_def)
  qed
  from this [of "[]"] show ?thesis using assms by (simp add: Bounds_addVertices_def)
qed

theorem addFrame_covers_witness:
  "in_bounds (Matrix_apply (vec 1 1) (worldTransform new_TransformStatic))
     (Bounds_addFrame new_TransformStatic (Fin 0) (Fin 0) (Fin 2) (Fin 2) new_Bounds)"
  by (rule addFrame_covers) (simp_all add: new_TransformStatic_def Matrix_identity_def numeric_def new_Bounds_def)

end
