(* ===== verification/Penner.thy ===== *)
theory Penner
  imports JsNum Prelude
begin

text \<open>
  The easing equations of Robert Penner that \<^verbatim>\<open>js/pixi-viewport.js\<close> bundles: the value at
  time \<open>t\<close> of a motion that starts at \<open>b\<close>, changes by \<open>c\<close> and takes time \<open>d\<close>.
\<close>

fun js_pow2 :: "jsnum \<Rightarrow> jsnum" where
  "js_pow2 (Fin x) = Fin (2 powr x)"
| "js_pow2 PInf = PInf"
| "js_pow2 NInf = 0"
| "js_pow2 NaN = NaN"

fun js_asin :: "jsnum \<Rightarrow> jsnum" where
  "js_asin (Fin x) = (if - 1 \<le> x \<and> x \<le> 1 then Fin (arcsin x) else NaN)"
| "js_asin _ = NaN"

type_synonym easing = "jsnum \<Rightarrow> jsnum \<Rightarrow> jsnum \<Rightarrow> jsnum \<Rightarrow> jsnum"

section \<open>The equations\<close>

definition linear :: easing where
  "linear t b c d = c * t / d + b"

definition easeInQuad :: easing where
  "easeInQuad t b c d = (let t = t / d in c * t * t + b)"

definition easeOutQuad :: easing where
  "easeOutQuad t b c d = (let t = t / d in - c * t * (t - 2) + b)"

definition easeInOutQuad :: easing where
  "easeInOutQuad t b c d =
     (let t = t / (d / 2)
      in if t < 1 then c / 2 * t * t + b else (let t = t - 1 in - c / 2 * (t * (t - 2) - 1) + b))"

definition easeInCubic :: easing where
  "easeInCubic t b c d = (let t = t / d in c * t * t * t + b)"

definition easeOutCubic :: easing where
  "easeOutCubic t b c d = (let t = t / d - 1 in c * (t * t * t + 1) + b)"

definition easeInOutCubic :: easing where
  "easeInOutCubic t b c d =
     (let t = t / (d / 2)
      in if t < 1 then c / 2 * t * t * t + b else (let t = t - 2 in c / 2 * (t * t * t + 2) + b))"

definition easeInQuart :: easing where
  "easeInQuart t b c d = (let t = t / d in c * t * t * t * t + b)"

definition easeOutQuart :: easing where
  "easeOutQuart t b c d = (let t = t / d - 1 in - c * (t * t * t * t - 1) + b)"

definition easeInOutQuart :: easing where
  "easeInOutQuart t b c d =
     (let t = t / (d / 2)
      in if t < 1 then c / 2 * t * t * t * t + b else (let t = t - 2 in - c / 2 * (t * t * t * t - 2) + b))"

definition easeInQuint :: easing where
  "easeInQuint t b c d = (let t = t / d in c * t * t * t * t * t + b)"

definition easeOutQuint :: easing where
  "easeOutQuint t b c d = (let t = t / d - 1 in c * (t * t * t * t * t + 1) + b)"

definition easeInOutQuint :: easing where
  "easeInOutQuint t b c d =
     (let t = t / (d / 2)
      in if t < 1 then c / 2 * t * t * t * t * t + b else (let t = t - 2 in c / 2 * (t * t * t * t * t + 2) + b))"

definition easeInSine :: easing where
  "easeInSine t b c d = - c * js_cos (t / d * (Fin pi / 2)) + c + b"

definition easeOutSine :: easing where
  "easeOutSine t b c d = c * js_sin (t / d * (Fin pi / 2)) + b"

definition easeInOutSine :: easing where
  "easeInOutSine t b c d = - c / 2 * (js_cos (Fin pi * t / d) - 1) + b"

definition easeInExpo :: easing where
  "easeInExpo t b c d = (if js_eq t 0 then b else c * js_pow2 (10 * (t / d - 1)) + b)"

definition easeOutExpo :: easing where
  "easeOutExpo t b c d = (if js_eq t d then b + c else c * (- js_pow2 (- 10 * t / d) + 1) + b)"

text \<open>The values for the two ends are computed but not returned in the source.\<close>

definition easeInOutExpo :: easing where
  "easeInOutExpo t b c d =
     (let t = t / (d / 2)
      in if t < 1 then c / 2 * js_pow2 (10 * (t - 1)) + b
         else (let t = t - 1 in c / 2 * (- js_pow2 (- 10 * t) + 2) + b))"

definition easeInCirc :: easing where
  "easeInCirc t b c d = (let t = t / d in - c * (js_sqrt (1 - t * t) - 1) + b)"

definition easeOutCirc :: easing where
  "easeOutCirc t b c d = (let t = t / d - 1 in c * js_sqrt (1 - t * t) + b)"

definition easeInOutCirc :: easing where
  "easeInOutCirc t b c d =
     (let t = t / (d / 2)
      in if t < 1 then - c / 2 * (js_sqrt (1 - t * t) - 1) + b
         else (let t = t - 2 in c / 2 * (js_sqrt (1 - t * t) + 1) + b))"

text \<open>
  The elastic motions.  The amplitude \<open>a\<close> is \<open>c\<close>, so the period \<open>p\<close> and the shift \<open>s\<close> follow
  from it; the divisions by \<open>d\<close> and the decrements of \<open>t\<close> happen in the order of the source.
\<close>

definition elastic_shift :: "jsnum \<Rightarrow> jsnum \<Rightarrow> jsnum" where
  "elastic_shift c p = (let a = c in if a < js_abs c then p / 4 else p / (2 * Fin pi) * js_asin (c / a))"

definition easeInElastic :: easing where
  "easeInElastic t b c d =
     (let t = (if js_eq t 0 then t else t / d); p = d * Fin (3 / 10); s = elastic_shift c p; t = t - 1
      in - (c * js_pow2 (10 * t) * js_sin ((t * d - s) * (2 * Fin pi) / p)) + b)"

definition easeOutElastic :: easing where
  "easeOutElastic t b c d =
     (let t = (if js_eq t 0 then t else t / d); p = d * Fin (3 / 10); s = elastic_shift c p
      in c * js_pow2 (- 10 * t) * js_sin ((t * d - s) * (2 * Fin pi) / p) + c + b)"

definition easeInOutElastic :: easing where
  "easeInOutElastic t b c d =
     (let t = (if js_eq t 0 then t else t / (d / 2)); p = d * (Fin (3 / 10) * Fin (3 / 2)); s = elastic_shift c p
      in if t < 1
         then (let t = t - 1 in Fin (- 1 / 2) * (c * js_pow2 (10 * t) * js_sin ((t * d - s) * (2 * Fin pi) / p)) + b)
         else (let t = t - 1 in c * js_pow2 (- 10 * t) * js_sin ((t * d - s) * (2 * Fin pi) / p) * Fin (1 / 2) + c + b))"

definition overshoot :: jsnum where
  "overshoot = Fin (170158 / 100000)"

definition easeInBack :: easing where
  "easeInBack t b c d = (let t = t / d; s = overshoot in c * t * t * ((s + 1) * t - s) + b)"

definition easeOutBack :: easing where
  "easeOutBack t b c d = (let t = t / d - 1; s = overshoot in c * (t * t * ((s + 1) * t + s) + 1) + b)"

definition easeInOutBack :: easing where
  "easeInOutBack t b c d =
     (let t = t / (d / 2); s = overshoot * Fin (1525 / 1000)
      in if t < 1 then c / 2 * (t * t * ((s + 1) * t - s)) + b
         else (let t = t - 2 in c / 2 * (t * t * ((s + 1) * t + s) + 2) + b))"

definition easeOutBounce :: easing where
  "easeOutBounce t b c d =
     (let t = t / d
      in if t < Fin (1 / (11 / 4)) then c * (Fin (121 / 16) * t * t) + b
         else if t < Fin (2 / (11 / 4))
         then (let t = t - Fin ((3 / 2) / (11 / 4)) in c * (Fin (121 / 16) * t * t + Fin (3 / 4)) + b)
         else if t < Fin ((5 / 2) / (11 / 4))
         then (let t = t - Fin ((9 / 4) / (11 / 4)) in c * (Fin (121 / 16) * t * t + Fin (15 / 16)) + b)
         else (let t = t - Fin ((21 / 8) / (11 / 4)) in c * (Fin (121 / 16) * t * t + Fin (63 / 64)) + b))"

definition easeInBounce :: easing where
  "easeInBounce t b c d = c - easeOutBounce (d - t) 0 c d + b"

definition easeInOutBounce :: easing where
  "easeInOutBounce t b c d =
     (if t < d / 2 then easeInBounce (t * 2) 0 c d * Fin (1 / 2) + b
      else easeOutBounce (t * 2 - d) 0 c d * Fin (1 / 2) + c * Fin (1 / 2) + b)"

definition penner :: "(string \<times> easing) list" where
  "penner =
    [(''linear'', linear),
     (''easeInQuad'', easeInQuad), (''easeOutQuad'', easeOutQuad), (''easeInOutQuad'', easeInOutQuad),
     (''easeInCubic'', easeInCubic), (''easeOutCubic'', easeOutCubic), (''easeInOutCubic'', easeInOutCubic),
     (''easeInQuart'', easeInQuart), (''easeOutQuart'', easeOutQuart), (''easeInOutQuart'', easeInOutQuart),
     (''easeInQuint'', easeInQuint), (''easeOutQuint'', easeOutQuint), (''easeInOutQuint'', easeInOutQuint),
     (''easeInSine'', easeInSine), (''easeOutSine'', easeOutSine), (''easeInOutSine'', easeInOutSine),
     (''easeInExpo'', easeInExpo), (''easeOutExpo'', easeOutExpo), (''easeInOutExpo'', easeInOutExpo),
     (''easeInCirc'', easeInCirc), (''easeOutCirc'', easeOutCirc), (''easeInOutCirc'', easeInOutCirc),
     (''easeInElastic'', easeInElastic), (''easeOutElastic'', easeOutElastic),
     (''easeInOutElastic'', easeInOutElastic),
     (''easeInBack'', easeInBack), (''easeOutBack'', easeOutBack), (''easeInOutBack'', easeInOutBack),
     (''easeInBounce'', easeInBounce), (''easeOutBounce'', easeOutBounce), (''easeInOutBounce'', easeInOutBounce)]"

section \<open>Where the motions start and end\<close>

definition meets_ends :: "easing \<Rightarrow> bool" where
  "meets_ends f \<longleftrightarrow> (\<forall>b c d. 0 < d \<longrightarrow>
     f 0 (Fin b) (Fin c) (Fin d) = Fin b \<and> f (Fin d) (Fin b) (Fin c) (Fin d) = Fin (b + c))"

lemma polynomial_ends:
  "meets_ends linear" "meets_ends easeInQuad" "meets_ends easeOutQuad" "meets_ends easeInOutQuad"
  "meets_ends easeInCubic" "meets_ends easeOutCubic" "meets_ends easeInOutCubic"
  "meets_ends easeInQuart" "meets_ends easeOutQuart" "meets_ends easeInOutQuart"
  "meets_ends easeInQuint" "meets_ends easeOutQuint" "meets_ends easeInOutQuint"
  "meets_ends easeInBack" "meets_ends easeOutBack" "meets_ends easeInOutBack"
  by (simp_all add: meets_ends_def linear_def easeInQuad_def easeOutQuad_def easeInOutQuad_def easeInCubic_def
      easeOutCubic_def easeInOutCubic_def easeInQuart_def easeOutQuart_def easeInOutQuart_def easeInQuint_def
      easeOutQuint_def easeInOutQuint_def easeInBack_def easeOutBack_def easeInOutBack_def overshoot_def Let_def)

lemma curve_ends:
  "meets_ends easeInSine" "meets_ends easeOutSine" "meets_ends easeInOutSine"
  "meets_ends easeInExpo" "meets_ends easeOutExpo"
  "meets_ends easeInCirc" "meets_ends easeOutCirc" "meets_ends easeInOutCirc"
  by (simp_all add: meets_ends_def easeInSine_def easeOutSine_def easeInOutSine_def easeInExpo_def easeOutExpo_def
      easeInCirc_def easeOutCirc_def easeInOutCirc_def Let_def)

lemma bounce_ends:
  "meets_ends easeOutBounce" "meets_ends easeInBounce" "meets_ends easeInOutBounce"
  by (simp_all add: meets_ends_def easeOutBounce_def easeInBounce_def easeInOutBounce_def Let_def)

definition broken_easings :: "string list" where
  "broken_easings = [''easeInOutExpo'', ''easeInElastic'', ''easeOutElastic'', ''easeInOutElastic'']"

lemma listed_ends: "list_all (\<lambda>(name, f). name \<in> set broken_easings \<or> meets_ends f) penner"
  unfolding penner_def by (simp add: polynomial_ends curve_ends bounce_ends broken_easings_def)

text \<open>Every easing equation of the bundled library but the four whose end values the source
  computes and drops starts at the start value and ends at the end value.\<close>

theorem easings_meet_ends:
  assumes "(name, f) \<in> set penner"
    and "name \<notin> set broken_easings"
  shows "meets_ends f"
  using listed_ends assms by (fastforce simp: list_all_iff)

theorem easings_meet_ends_witness: "easeInOutSine 150 20 (Fin (- 20)) 150 = Fin 0"
  using easings_meet_ends [of "''easeInOutSine''" easeInOutSine]
  by (simp add: penner_def meets_ends_def broken_easings_def)

text \<open>A dropped end value: this motion jumps when it starts.\<close>

lemma easeInOutExpo_start: "easeInOutExpo 0 0 2048 (Fin 1) = Fin 1"
  by (simp add: easeInOutExpo_def Let_def powr_minus powr_realpow)

lemma easeInElastic_still: "easeInElastic 1 5 0 2 = NaN"
  by (simp add: easeInElastic_def elastic_shift_def Let_def)

end
