(* ===== verification/Viewport.thy ===== *)
theory Viewport
  imports Transforms Penner "HOL-Library.Sublist"
begin

text \<open>
  The state of \<^verbatim>\<open>js/pixi-viewport.js\<close>: the viewport with its transform in the display tree
  and its plugins, what it computes from them, and the moves that do not involve the plugins.

  Numbers that are only tested for truth or used in arithmetic are NaN where the source has
  undefined, and 0 where it has null or false.  The listeners of the events the viewport emits are
  not part of it: it logs what it emits.
\<close>

section \<open>Plugins\<close>

record drag_point =
  dp_point :: victor
  dp_parent :: victor

datatype clamp_wheel = No_clamp | Clamp_all | Clamp_only string

record drag =
  dr_paused :: bool
  dr_moved :: bool
  wheelActive :: bool
  wheelScroll :: jsnum
  dr_reverse :: jsnum
  clampWheel :: clamp_wheel
  xDirection :: bool
  yDirection :: bool
  dr_underflow :: "int \<times> int"
  dr_last :: "drag_point option"
  dr_current :: int

record wheel =
  wh_paused :: bool
  wh_percent :: jsnum
  wh_center :: "victor option"
  wh_reverse :: bool

record saved_position =
  sv_x :: jsnum
  sv_y :: jsnum
  sv_time :: jsnum

record decelerate =
  de_paused :: bool
  de_friction :: jsnum
  de_bounce :: jsnum
  minSpeed :: jsnum
  saved :: "saved_position list"
  de_x :: jsnum
  de_y :: jsnum
  percentChangeX :: jsnum
  percentChangeY :: jsnum

text \<open>An edge of a clamp: null, a Boolean or a number.\<close>

datatype edge = No_edge | World_edge bool | Edge_at jsnum

record clamp =
  cl_paused :: bool
  cl_left :: edge
  cl_right :: edge
  cl_top :: edge
  cl_bottom :: edge
  cl_underflow :: "int \<times> int"

record clamp_zoom =
  cz_paused :: bool
  minWidth :: jsnum
  minHeight :: jsnum
  maxWidth :: jsnum
  maxHeight :: jsnum

record follow =
  fo_paused :: bool
  fo_speed :: jsnum
  fo_target :: victor
  fo_radius :: jsnum

record motion =
  mo_time :: jsnum
  mo_start :: jsnum
  mo_delta :: jsnum
  mo_end :: jsnum

record bounce =
  bo_paused :: bool
  bo_time :: jsnum
  bo_ease :: "easing option"
  bo_friction :: jsnum
  bo_top :: bool
  bo_bottom :: bool
  bo_left :: bool
  bo_right :: bool
  bo_underflow :: "int \<times> int"
  toX :: "motion option"
  toY :: "motion option"

record pinch =
  pi_paused :: bool
  pi_percent :: jsnum
  noDrag :: bool
  pi_center :: "victor option"
  pi_active :: bool
  pinching :: bool
  pi_moved :: bool
  lastCenter :: "victor option"

record snap =
  sn_paused :: bool
  sn_friction :: jsnum
  sn_time :: jsnum
  sn_ease :: "easing option"
  sn_to :: victor
  topLeft :: bool
  sn_interrupt :: bool
  sn_removeOnComplete :: bool
  sn_removeOnInterrupt :: bool
  sn_snapping :: "jsnum option"
  sn_delta :: victor
  sn_start :: victor

record snap_zoom =
  sz_paused :: bool
  sz_width :: jsnum
  sz_height :: jsnum
  x_scale :: jsnum
  y_scale :: jsnum
  xIndependent :: bool
  yIndependent :: bool
  sz_time :: jsnum
  sz_ease :: "easing option"
  sz_center :: "victor option"
  noMove :: bool
  sz_interrupt :: bool
  sz_removeOnComplete :: bool
  sz_removeOnInterrupt :: bool
  sz_snapping :: "(motion \<times> motion) option"

record mouse_edges =
  me_paused :: bool
  me_distance :: "jsnum option"
  me_options :: "jsnum option \<times> jsnum option \<times> jsnum option \<times> jsnum option"
  me_reverse :: jsnum
  noDecelerate :: bool
  me_linear :: bool
  radiusSquared :: jsnum
  me_speed :: jsnum
  me_left :: "jsnum option"
  me_top :: "jsnum option"
  me_right :: "jsnum option"
  me_bottom :: "jsnum option"
  me_horizontal :: jsnum
  me_vertical :: jsnum

section \<open>The viewport\<close>

text \<open>
  A tracked pointer of the interaction manager; pinching writes its last position, and the pointer
  of the event that wrote it, into it.
\<close>

record pointer =
  pointerId :: int
  p_last :: "(victor \<times> int) option"

text \<open>
  \<open>tr\<close> is the viewport's own transform and \<open>anc\<close> the transforms above it: no entry means that it
  has no parent.  \<open>content\<close> is the size of what it holds.
\<close>

record viewport =
  tr :: transform
  anc :: "transform list"
  screen_size :: victor
  world_size :: victor
  content_size :: victor
  forced_area :: "rectangle option"
  hitArea :: rectangle
  threshold :: jsnum
  interaction :: "(victor \<Rightarrow> victor) option"
  leftDown :: bool
  touches :: "int list"
  tracked :: "pointer list"
  vp_last :: victor
  clickedAvailable :: bool
  vp_pause :: bool
  dirty :: bool
  pluginsList :: "string list"
  p_drag :: "drag option"
  p_pinch :: "pinch option"
  p_wheel :: "wheel option"
  p_follow :: "follow option"
  p_mouseEdges :: "mouse_edges option"
  p_decelerate :: "decelerate option"
  p_bounce :: "bounce option"
  p_snapZoom :: "snap_zoom option"
  p_clampZoom :: "clamp_zoom option"
  p_snap :: "snap option"
  p_clamp :: "clamp option"
  emitted :: "(string \<times> string) list"

definition emit :: "string \<Rightarrow> string \<Rightarrow> viewport \<Rightarrow> viewport" where
  "emit name kind v = v\<lparr>emitted := emitted v @ [(name, kind)]\<rparr>"

text \<open>The accessors of the display object.\<close>

abbreviation vp_x :: "viewport \<Rightarrow> jsnum" where "vp_x v \<equiv> vx (t_position (tr v))"
abbreviation vp_y :: "viewport \<Rightarrow> jsnum" where "vp_y v \<equiv> vy (t_position (tr v))"
abbreviation vp_scale_x :: "viewport \<Rightarrow> jsnum" where "vp_scale_x v \<equiv> vx (t_scale (tr v))"
abbreviation vp_scale_y :: "viewport \<Rightarrow> jsnum" where "vp_scale_y v \<equiv> vy (t_scale (tr v))"

definition set_x :: "jsnum \<Rightarrow> viewport \<Rightarrow> viewport" where
  "set_x a v = v\<lparr>tr := set_position_x a (tr v)\<rparr>"

definition set_y :: "jsnum \<Rightarrow> viewport \<Rightarrow> viewport" where
  "set_y a v = v\<lparr>tr := set_position_y a (tr v)\<rparr>"

definition set_scalex :: "jsnum \<Rightarrow> viewport \<Rightarrow> viewport" where
  "set_scalex a v = v\<lparr>tr := set_scale_x a (tr v)\<rparr>"

definition set_scaley :: "jsnum \<Rightarrow> viewport \<Rightarrow> viewport" where
  "set_scaley a v = v\<lparr>tr := set_scale_y a (tr v)\<rparr>"

definition set_position :: "jsnum \<Rightarrow> jsnum \<Rightarrow> viewport \<Rightarrow> viewport" where
  "set_position x y v =
     v\<lparr>tr := observed put_position TransformStatic_onChange (ObservablePoint_set x (Some y) (t_position (tr v))) (tr v)\<rparr>"

definition set_scale :: "jsnum \<Rightarrow> jsnum option \<Rightarrow> viewport \<Rightarrow> viewport" where
  "set_scale x y v =
     v\<lparr>tr := observed put_scale TransformStatic_onChange (ObservablePoint_set x y (t_scale (tr v))) (tr v)\<rparr>"

text \<open>\<open>toLocal\<close> and \<open>toGlobal\<close> bring the transforms of the branch up to date.\<close>

definition with_branch :: "victor \<times> transform list \<Rightarrow> viewport \<Rightarrow> victor \<times> viewport" where
  "with_branch r v = (fst r, v\<lparr>tr := parent_of (snd r), anc := tl (snd r)\<rparr>)"

definition vp_toLocal :: "victor \<Rightarrow> viewport \<Rightarrow> victor \<times> viewport" where
  "vp_toLocal p v = with_branch (DisplayObject_toLocal p False (tr v # anc v)) v"

definition vp_toGlobal :: "victor \<Rightarrow> viewport \<Rightarrow> victor \<times> viewport" where
  "vp_toGlobal p v = with_branch (DisplayObject_toGlobal p False (tr v # anc v)) v"

definition Viewport_toWorld :: "victor \<Rightarrow> viewport \<Rightarrow> victor \<times> viewport" where
  "Viewport_toWorld = vp_toLocal"

definition Viewport_toScreen :: "victor \<Rightarrow> viewport \<Rightarrow> victor \<times> viewport" where
  "Viewport_toScreen = vp_toGlobal"

text \<open>The same of the viewport's parent.\<close>

definition parent_toLocal :: "victor \<Rightarrow> viewport \<Rightarrow> victor \<times> viewport" where
  "parent_toLocal p v = (let r = DisplayObject_toLocal p False (anc v) in (fst r, v\<lparr>anc := snd r\<rparr>))"

section \<open>What the viewport computes\<close>

definition screenWidth :: "viewport \<Rightarrow> jsnum" where
  "screenWidth v = vx (screen_size v)"

definition screenHeight :: "viewport \<Rightarrow> jsnum" where
  "screenHeight v = vy (screen_size v)"

text \<open>The width of a container is the width of its content at its scale.\<close>

definition worldWidth :: "viewport \<Rightarrow> jsnum" where
  "worldWidth v = (if truthy (vx (world_size v)) then vx (world_size v) else vp_scale_x v * vx (content_size v))"

definition worldHeight :: "viewport \<Rightarrow> jsnum" where
  "worldHeight v = (if truthy (vy (world_size v)) then vy (world_size v) else vp_scale_y v * vy (content_size v))"

definition worldScreenWidth :: "viewport \<Rightarrow> jsnum" where
  "worldScreenWidth v = vx (screen_size v) / vp_scale_x v"

definition worldScreenHeight :: "viewport \<Rightarrow> jsnum" where
  "worldScreenHeight v = vy (screen_size v) / vp_scale_y v"

definition screenWorldWidth :: "viewport \<Rightarrow> jsnum" where
  "screenWorldWidth v = vx (world_size v) * vp_scale_x v"

definition screenWorldHeight :: "viewport \<Rightarrow> jsnum" where
  "screenWorldHeight v = vy (world_size v) * vp_scale_y v"

definition vp_center :: "viewport \<Rightarrow> victor" where
  "vp_center v = \<lparr>vx = worldScreenWidth v / 2 - vp_x v / vp_scale_x v, vy = worldScreenHeight v / 2 - vp_y v / vp_scale_y v\<rparr>"

definition vp_corner :: "viewport \<Rightarrow> victor" where
  "vp_corner v = \<lparr>vx = - vp_x v / vp_scale_x v, vy = - vp_y v / vp_scale_y v\<rparr>"

definition vp_right :: "viewport \<Rightarrow> jsnum" where
  "vp_right v = - vp_x v / vp_scale_x v + worldScreenWidth v"

definition vp_left :: "viewport \<Rightarrow> jsnum" where
  "vp_left v = - vp_x v / vp_scale_x v"

definition vp_top :: "viewport \<Rightarrow> jsnum" where
  "vp_top v = - vp_y v / vp_scale_y v"

definition vp_bottom :: "viewport \<Rightarrow> jsnum" where
  "vp_bottom v = - vp_y v / vp_scale_y v + worldScreenHeight v"

record oob =
  oob_left :: bool
  oob_right :: bool
  oob_top :: bool
  oob_bottom :: bool
  cornerPoint :: victor

definition OOB :: "viewport \<Rightarrow> oob" where
  "OOB v = \<lparr>oob_left = vp_left v < 0, oob_right = vx (world_size v) < vp_right v,
     oob_top = vp_top v < 0, oob_bottom = vy (world_size v) < vp_bottom v,
     cornerPoint = \<lparr>vx = vx (world_size v) * vp_scale_x v - vx (screen_size v),
       vy = vy (world_size v) * vp_scale_y v - vy (screen_size v)\<rparr>\<rparr>"

definition checkThreshold :: "jsnum \<Rightarrow> viewport \<Rightarrow> bool" where
  "checkThreshold change v \<longleftrightarrow> threshold v \<le> js_abs change"

definition countDownPointers :: "viewport \<Rightarrow> nat" where
  "countDownPointers v = (if leftDown v then 1 else 0) + length (touches v)"

definition getTouchPointers :: "viewport \<Rightarrow> pointer list" where
  "getTouchPointers v = filter (\<lambda>p. pointerId p \<in> set (touches v)) (tracked v)"

definition getPointers :: "viewport \<Rightarrow> pointer list" where
  "getPointers v = tracked v"

definition getPointerPosition :: "victor \<Rightarrow> viewport \<Rightarrow> victor" where
  "getPointerPosition client v = (case interaction v of Some f \<Rightarrow> f client | None \<Rightarrow> client)"

section \<open>Fitting without a centre\<close>

definition fit_width :: "jsnum \<Rightarrow> viewport \<Rightarrow> viewport" where
  "fit_width width v =
     (let w = (if truthy width then width else worldWidth v); v1 = set_scalex (screenWidth v / w) v
      in set_scaley (vp_scale_x v1) v1)"

definition fit_height :: "jsnum \<Rightarrow> viewport \<Rightarrow> viewport" where
  "fit_height height v =
     (let h = (if truthy height then height else worldHeight v); v1 = set_scaley (screenHeight v / h) v
      in set_scalex (vp_scale_y v1) v1)"

definition fit_smaller :: "viewport \<Rightarrow> viewport" where
  "fit_smaller v = (if vp_scale_x v < vp_scale_y v then set_scaley (vp_scale_x v) v else set_scalex (vp_scale_y v) v)"

section \<open>Helpers of the plugins\<close>

definition lower_char :: "char \<Rightarrow> char" where
  "lower_char c = (let n = of_char c :: nat in if 65 \<le> n \<and> n \<le> 90 then char_of (n + 32) else c)"

definition toLowerCase :: "string \<Rightarrow> string" where
  "toLowerCase s = map lower_char s"

definition has_text :: "string \<Rightarrow> string \<Rightarrow> bool" where
  "has_text s t \<longleftrightarrow> sublist t s"

definition parseUnderflow :: "string \<Rightarrow> int \<times> int" where
  "parseUnderflow s =
     (let c = toLowerCase s
      in if c = ''center'' then (0, 0)
         else (if has_text c ''left'' then - 1 else if has_text c ''right'' then 1 else 0,
               if has_text c ''top'' then - 1 else if has_text c ''bottom'' then 1 else 0))"

text \<open>Where a world smaller than the screen goes.\<close>

definition underflow_x :: "int \<Rightarrow> viewport \<Rightarrow> jsnum" where
  "underflow_x u v =
     (if u = - 1 then 0 else if u = 1 then screenWidth v - screenWorldWidth v
      else (screenWidth v - screenWorldWidth v) / 2)"

definition underflow_y :: "int \<Rightarrow> viewport \<Rightarrow> jsnum" where
  "underflow_y u v =
     (if u = - 1 then 0 else if u = 1 then screenHeight v - screenWorldHeight v
      else (screenHeight v - screenWorldHeight v) / 2)"

definition named_easing :: "string \<Rightarrow> easing option" where
  "named_easing name = map_of penner name"

text \<open>\<^verbatim>\<open>utils.ease\<close>: the argument is missing, a function or a name.\<close>

datatype ease_option = No_ease | Ease_fun easing | Ease_name string

definition utils_ease :: "ease_option \<Rightarrow> string \<Rightarrow> easing option" where
  "utils_ease e def =
     (case e of No_ease \<Rightarrow> named_easing def | Ease_fun f \<Rightarrow> Some f | Ease_name n \<Rightarrow> named_easing n)"

text \<open>Calling an undefined easing function throws.\<close>

definition eased :: "easing option \<Rightarrow> jsnum \<Rightarrow> jsnum \<Rightarrow> jsnum \<Rightarrow> jsnum \<Rightarrow> (jsnum \<Rightarrow> viewport \<Rightarrow> viewport result) \<Rightarrow> viewport \<Rightarrow> viewport result" where
  "eased e t b c d k v =
     (case e of None \<Rightarrow> throw (TypeError ''this.ease is not a function'') v | Some f \<Rightarrow> k (f t b c d) v)"

definition or_number :: "jsnum \<Rightarrow> jsnum \<Rightarrow> jsnum" where
  "or_number x def = (if truthy x then x else def)"

end
