(* ===== verification/ViewportMoves.thy ===== *)
theory ViewportMoves
  imports Viewport
begin

text \<open>
  What a manual move of the viewport of \<^verbatim>\<open>js/pixi-viewport.js\<close> does: the plugins that
  \<^verbatim>\<open>_reset\<close> calls (bounce, decelerate, clamp, clamp-zoom) and the moves and zooms that
  end with it.
\<close>

section \<open>Clamping the zoom\<close>

definition new_ClampZoom :: "jsnum \<Rightarrow> jsnum \<Rightarrow> jsnum \<Rightarrow> jsnum \<Rightarrow> clamp_zoom" where
  "new_ClampZoom minw minh maxw maxh =
     \<lparr>cz_paused = False, minWidth = minw, minHeight = minh, maxWidth = maxw, maxHeight = maxh\<rparr>"

definition zoom_clamped :: "viewport \<Rightarrow> viewport" where
  "zoom_clamped v = emit ''zoomed'' ''clamp-zoom'' v"

definition ClampZoom_clamp :: "clamp_zoom \<Rightarrow> viewport \<Rightarrow> viewport" where
  "ClampZoom_clamp this v =
     (if cz_paused this then v
      else let v1 = (if truthy (minWidth this) \<and> worldScreenWidth v < minWidth this
                then zoom_clamped (fit_width (minWidth this) v) else v);
               v2 = (if truthy (maxWidth this) \<and> maxWidth this < worldScreenWidth v1
                then zoom_clamped (fit_width (maxWidth this) v1) else v1);
               v3 = (if truthy (minHeight this) \<and> worldScreenHeight v2 < minHeight this
                then zoom_clamped (fit_height (minHeight this) v2) else v2)
           in if truthy (maxHeight this) \<and> maxHeight this < worldScreenHeight v3
              then zoom_clamped (fit_height (maxHeight this) v3) else v3)"

section \<open>Decelerating\<close>

definition new_Decelerate :: "jsnum \<Rightarrow> jsnum \<Rightarrow> jsnum option \<Rightarrow> decelerate" where
  "new_Decelerate friction bnc speed =
     \<lparr>de_paused = False, de_friction = or_number friction (Fin (95 / 100)), de_bounce = or_number bnc (Fin (1 / 2)),
      minSpeed = (case speed of None \<Rightarrow> Fin (1 / 100) | Some s \<Rightarrow> s), saved = [], de_x = NaN, de_y = NaN,
      percentChangeX = NaN, percentChangeY = NaN\<rparr>"

definition Decelerate_down :: "decelerate \<Rightarrow> viewport \<Rightarrow> viewport" where
  "Decelerate_down this v = v\<lparr>p_decelerate := Some (this\<lparr>saved := [], de_x := 0, de_y := 0\<rparr>)\<rparr>"

text \<open>One pointer is down, or several without the pinch plugin.\<close>

definition dragging :: "viewport \<Rightarrow> bool" where
  "dragging v \<longleftrightarrow> countDownPointers v = 1 \<or> 1 < countDownPointers v \<and> p_pinch v = None"

definition Decelerate_move :: "jsnum \<Rightarrow> decelerate \<Rightarrow> viewport \<Rightarrow> viewport" where
  "Decelerate_move now this v =
     (if de_paused this then v
      else if dragging v
      then (let s = saved this @ [\<lparr>sv_x = vp_x v, sv_y = vp_y v, sv_time = now\<rparr>]
            in v\<lparr>p_decelerate := Some (this\<lparr>saved := if 60 < length s then drop 30 s else s\<rparr>)\<rparr>)
      else v)"

definition Decelerate_up :: "jsnum \<Rightarrow> decelerate \<Rightarrow> viewport \<Rightarrow> viewport" where
  "Decelerate_up now this v =
     (if countDownPointers v = 0 \<and> saved this \<noteq> []
      then (case List.find (\<lambda>s. now - 100 \<le> sv_time s) (saved this) of None \<Rightarrow> v
        | Some s \<Rightarrow>
            let time = now - sv_time s
            in v\<lparr>p_decelerate := Some (this\<lparr>de_x := (vp_x v - sv_x s) / time, de_y := (vp_y v - sv_y s) / time,
                 percentChangeX := de_friction this, percentChangeY := de_friction this\<rparr>)\<rparr>)
      else v)"

definition Decelerate_activate :: "jsnum option \<Rightarrow> jsnum option \<Rightarrow> decelerate \<Rightarrow> decelerate" where
  "Decelerate_activate x y this =
     (let t1 = (case x of None \<Rightarrow> this | Some a \<Rightarrow> this\<lparr>de_x := a, percentChangeX := de_friction this\<rparr>)
      in case y of None \<Rightarrow> t1 | Some a \<Rightarrow> t1\<lparr>de_y := a, percentChangeY := de_friction t1\<rparr>)"

text \<open>The speed after a frame.\<close>

definition slowed :: "jsnum \<Rightarrow> jsnum \<Rightarrow> jsnum \<Rightarrow> jsnum" where
  "slowed speed percent least = (let s = speed * percent in if js_abs s < least then 0 else s)"

definition Decelerate_update :: "jsnum \<Rightarrow> decelerate \<Rightarrow> viewport \<Rightarrow> viewport" where
  "Decelerate_update elapsed this v =
     (if de_paused this then v
      else let (d1, v1) =
             (if truthy (de_x this)
              then (this\<lparr>de_x := slowed (de_x this) (percentChangeX this) (minSpeed this)\<rparr>,
                    set_x (vp_x v + de_x this * elapsed) v)
              else (this, v));
             (d2, v2) =
             (if truthy (de_y d1)
              then (d1\<lparr>de_y := slowed (de_y d1) (percentChangeY d1) (minSpeed d1)\<rparr>,
                    set_y (vp_y v1 + de_y d1 * elapsed) v1)
              else (d1, v1));
             v3 = v2\<lparr>p_decelerate := Some d2\<rparr>
           in if truthy (de_x this) \<or> truthy (de_y d1)
              then emit ''moved'' ''decelerate'' (v3\<lparr>dirty := True\<rparr>) else v3)"

definition Decelerate_reset :: "decelerate \<Rightarrow> viewport \<Rightarrow> viewport" where
  "Decelerate_reset this v = v\<lparr>p_decelerate := Some (this\<lparr>de_x := 0, de_y := 0\<rparr>)\<rparr>"

definition stop_x :: "viewport \<Rightarrow> viewport" where
  "stop_x v = v\<lparr>p_decelerate := map_option (\<lambda>d. d\<lparr>de_x := 0\<rparr>) (p_decelerate v)\<rparr>"

definition stop_y :: "viewport \<Rightarrow> viewport" where
  "stop_y v = v\<lparr>p_decelerate := map_option (\<lambda>d. d\<lparr>de_y := 0\<rparr>) (p_decelerate v)\<rparr>"

section \<open>Clamping to the world\<close>

definition default_edge :: "edge option \<Rightarrow> edge" where
  "default_edge e = (case e of None \<Rightarrow> No_edge | Some a \<Rightarrow> a)"

definition edge_value :: "edge \<Rightarrow> jsnum \<Rightarrow> jsnum" where
  "edge_value e whole = (case e of World_edge b \<Rightarrow> if b then whole else 0 | Edge_at a \<Rightarrow> a | No_edge \<Rightarrow> 0)"

definition Clamp_x :: "clamp \<Rightarrow> viewport \<Rightarrow> viewport" where
  "Clamp_x this v =
     (if cl_left this = No_edge \<and> cl_right this = No_edge then v
      else let (v', moved) =
        (if screenWorldWidth v < screenWidth v
         then (let x = underflow_x (fst (cl_underflow this)) v
               in if \<not> js_eq (vp_x v) x then (set_x x v, True) else (v, False))
         else let (v1, m1) =
                (if cl_left this \<noteq> No_edge \<and> vp_left v < edge_value (cl_left this) 0
                 then (stop_x (set_x (- edge_value (cl_left this) 0 * vp_scale_x v) v), True) else (v, False));
                right = edge_value (cl_right this) (worldWidth v1)
              in if cl_right this \<noteq> No_edge \<and> right < vp_right v1
                 then (stop_x (set_x (- right * vp_scale_x v1 + screenWidth v1) v1), True) else (v1, m1))
      in if moved then emit ''moved'' ''clamp-x'' v' else v')"

definition Clamp_y :: "clamp \<Rightarrow> viewport \<Rightarrow> viewport" where
  "Clamp_y this v =
     (if cl_top this = No_edge \<and> cl_bottom this = No_edge then v
      else let (v', moved) =
        (if screenWorldHeight v < screenHeight v
         then (let y = underflow_y (snd (cl_underflow this)) v
               in if \<not> js_eq (vp_y v) y then (set_y y v, True) else (v, False))
         else let (v1, m1) =
                (if cl_top this \<noteq> No_edge \<and> vp_top v < edge_value (cl_top this) 0
                 then (stop_y (set_y (- edge_value (cl_top this) 0 * vp_scale_y v) v), True) else (v, False));
                bottom = edge_value (cl_bottom this) (worldHeight v1)
              in if cl_bottom this \<noteq> No_edge \<and> bottom < vp_bottom v1
                 then (stop_y (set_y (- bottom * vp_scale_y v1 + screenHeight v1) v1), True) else (v1, m1))
      in if moved then emit ''moved'' ''clamp-y'' v' else v')"

definition Clamp_update :: "clamp \<Rightarrow> viewport \<Rightarrow> viewport" where
  "Clamp_update this v = (if cl_paused this then v else Clamp_y this (Clamp_x this v))"

text \<open>The constructor clamps at once; it is installed after that.\<close>

definition new_Clamp :: "string option \<Rightarrow> edge option \<Rightarrow> edge option \<Rightarrow> edge option \<Rightarrow> edge option \<Rightarrow> string \<Rightarrow> clamp" where
  "new_Clamp direction l r t b underflow =
     (let p = (\<lambda>e axis. case direction of None \<Rightarrow> default_edge e
                | Some dir \<Rightarrow> World_edge (dir = axis \<or> dir = ''all''))
      in \<lparr>cl_paused = False, cl_left = p l ''x'', cl_right = p r ''x'', cl_top = p t ''y'', cl_bottom = p b ''y'',
          cl_underflow = parseUnderflow (if underflow = [] then ''center'' else underflow)\<rparr>)"

section \<open>Bouncing\<close>

definition new_Bounce :: "jsnum \<Rightarrow> ease_option \<Rightarrow> jsnum \<Rightarrow> string \<Rightarrow> string \<Rightarrow> bounce" where
  "new_Bounce time e friction sides underflow =
     (let s = (if sides = [] then ''all'' else sides);
          side = (\<lambda>name axis. s = ''all'' \<or> s = axis \<or> s \<noteq> ''horizontal'' \<and> s \<noteq> ''vertical'' \<and> has_text s name)
      in \<lparr>bo_paused = False, bo_time = or_number time 150, bo_ease = utils_ease e ''easeInOutSine'',
          bo_friction = or_number friction (Fin (1 / 2)),
          bo_top = side ''top'' ''vertical'', bo_bottom = side ''bottom'' ''vertical'',
          bo_left = side ''left'' ''horizontal'', bo_right = side ''right'' ''horizontal'',
          bo_underflow = parseUnderflow (if underflow = [] then ''center'' else underflow), toX = None, toY = None\<rparr>)"

definition Bounce_reset :: "bounce \<Rightarrow> bounce" where
  "Bounce_reset this = this\<lparr>toX := None, toY := None\<rparr>"

text \<open>Near a border the friction of the bounce replaces that of the movement.\<close>

definition bounce_friction :: "bounce \<Rightarrow> viewport \<Rightarrow> viewport" where
  "bounce_friction this v =
     (case p_decelerate v of None \<Rightarrow> v
      | Some d \<Rightarrow>
          if truthy (de_x d) \<and> js_eq (percentChangeX d) (de_friction d)
             \<or> truthy (de_y d) \<and> js_eq (percentChangeY d) (de_friction d)
          then (let b = OOB v;
                    d1 = (if oob_left b \<and> bo_left this \<or> oob_right b \<and> bo_right this
                      then d\<lparr>percentChangeX := bo_friction this\<rparr> else d);
                    d2 = (if oob_top b \<and> bo_top this \<or> oob_bottom b \<and> bo_bottom this
                      then d1\<lparr>percentChangeY := bo_friction this\<rparr> else d1)
                in v\<lparr>p_decelerate := Some d2\<rparr>)
          else v)"

definition decelerating_x :: "viewport \<Rightarrow> bool" where
  "decelerating_x v \<longleftrightarrow> (case p_decelerate v of None \<Rightarrow> False | Some d \<Rightarrow> truthy (de_x d))"

definition decelerating_y :: "viewport \<Rightarrow> bool" where
  "decelerating_y v \<longleftrightarrow> (case p_decelerate v of None \<Rightarrow> False | Some d \<Rightarrow> truthy (de_y d))"

definition bounce_target :: "bool \<Rightarrow> bool \<Rightarrow> bool \<Rightarrow> jsnum \<Rightarrow> jsnum \<Rightarrow> jsnum option" where
  "bounce_target low high small uflow corner =
     (if low then Some (if small then uflow else 0)
      else if high then Some (if small then uflow else - corner) else None)"

definition bounce_motion :: "jsnum \<Rightarrow> jsnum option \<Rightarrow> motion option" where
  "bounce_motion here target =
     (case target of None \<Rightarrow> None
      | Some a \<Rightarrow> if \<not> js_eq here a then Some \<lparr>mo_time = 0, mo_start = here, mo_delta = a - here, mo_end = a\<rparr> else None)"

definition Bounce_bounce :: "bounce \<Rightarrow> viewport \<Rightarrow> bounce \<times> viewport" where
  "Bounce_bounce this v =
     (if bo_paused this then (this, v)
      else let v1 = bounce_friction this v; b = OOB v1; point = cornerPoint b in
        if (case p_drag v1 of None \<Rightarrow> True | Some d \<Rightarrow> \<not> dr_moved d)
           \<and> (case p_pinch v1 of None \<Rightarrow> True | Some p \<Rightarrow> \<not> pi_active p)
           \<and> (toX this = None \<or> toY this = None) \<and> (\<not> decelerating_x v1 \<or> \<not> decelerating_y v1)
        then let small = screenWorldWidth v1 < screenWidth v1;
                 mx = (if toX this = None \<and> \<not> decelerating_x v1
                   then bounce_motion (vp_x v1) (bounce_target (oob_left b \<and> bo_left this) (oob_right b \<and> bo_right this)
                     small (underflow_x (fst (bo_underflow this)) v1) (vx point)) else None);
                 (t1, v2) = (if mx \<noteq> None then (this\<lparr>toX := mx\<rparr>, emit ''bounce-x-start'' '''' v1) else (this, v1));
                 small' = screenWorldHeight v1 < screenHeight v1;
                 my = (if toY this = None \<and> \<not> decelerating_y v1
                   then bounce_motion (vp_y v1) (bounce_target (oob_top b \<and> bo_top this) (oob_bottom b \<and> bo_bottom this)
                     small' (underflow_y (snd (bo_underflow this)) v1) (vy point)) else None)
             in if my \<noteq> None then (t1\<lparr>toY := my\<rparr>, emit ''bounce-y-start'' '''' v2) else (t1, v2)
        else (this, v1))"

definition put_bounce :: "bounce \<times> viewport \<Rightarrow> viewport" where
  "put_bounce r = (snd r)\<lparr>p_bounce := Some (fst r)\<rparr>"

section \<open>Manual moves\<close>

definition Viewport_reset :: "viewport \<Rightarrow> viewport" where
  "Viewport_reset v =
     (let v1 = (case p_bounce v of None \<Rightarrow> v | Some b \<Rightarrow> put_bounce (Bounce_bounce (Bounce_reset b) v));
          v2 = (case p_decelerate v1 of None \<Rightarrow> v1 | Some d \<Rightarrow> Decelerate_reset d v1);
          v3 = (case p_clamp v2 of None \<Rightarrow> v2 | Some c \<Rightarrow> Clamp_update c v2);
          v4 = (case p_clampZoom v3 of None \<Rightarrow> v3 | Some c \<Rightarrow> ClampZoom_clamp c v3)
      in v4\<lparr>dirty := True\<rparr>)"

definition moveCenter :: "victor \<Rightarrow> viewport \<Rightarrow> viewport" where
  "moveCenter p v =
     Viewport_reset (set_position ((worldScreenWidth v / 2 - vx p) * vp_scale_x v) ((worldScreenHeight v / 2 - vy p) * vp_scale_y v) v)"

text \<open>Called with two numbers, a first one that is not a number is taken for a point.\<close>

definition moveCenter_xy :: "jsnum \<Rightarrow> jsnum \<Rightarrow> viewport \<Rightarrow> viewport" where
  "moveCenter_xy x y v = moveCenter (if x \<noteq> NaN then \<lparr>vx = x, vy = y\<rparr> else \<lparr>vx = NaN, vy = NaN\<rparr>) v"

definition moveCorner :: "victor \<Rightarrow> viewport \<Rightarrow> viewport" where
  "moveCorner p v = Viewport_reset (set_position (- vx p * vp_scale_x v) (- vy p * vp_scale_y v) v)"

definition set_right :: "jsnum \<Rightarrow> viewport \<Rightarrow> viewport" where
  "set_right a v = Viewport_reset (set_x (- a * vp_scale_x v + screenWidth v) v)"

definition set_left :: "jsnum \<Rightarrow> viewport \<Rightarrow> viewport" where
  "set_left a v = Viewport_reset (set_x (- a * vp_scale_x v) v)"

definition set_top :: "jsnum \<Rightarrow> viewport \<Rightarrow> viewport" where
  "set_top a v = Viewport_reset (set_y (- a * vp_scale_y v) v)"

definition set_bottom :: "jsnum \<Rightarrow> viewport \<Rightarrow> viewport" where
  "set_bottom a v = Viewport_reset (set_y (- a * vp_scale_y v + screenHeight v) v)"

definition recentred :: "bool \<Rightarrow> viewport \<Rightarrow> viewport \<Rightarrow> viewport" where
  "recentred center before v = (if center then moveCenter (vp_center before) v else v)"

definition fitWidth :: "jsnum \<Rightarrow> bool \<Rightarrow> viewport \<Rightarrow> viewport" where
  "fitWidth width center v = recentred center v (fit_width width v)"

definition fitHeight :: "jsnum \<Rightarrow> bool \<Rightarrow> viewport \<Rightarrow> viewport" where
  "fitHeight height center v = recentred center v (fit_height height v)"

definition fitWorld :: "bool \<Rightarrow> viewport \<Rightarrow> viewport" where
  "fitWorld center v =
     (let v1 = set_scalex (vx (screen_size v) / vx (world_size v)) v;
          v2 = set_scaley (vy (screen_size v1) / vy (world_size v1)) v1
      in recentred center v (fit_smaller v2))"

definition fit :: "bool \<Rightarrow> jsnum \<Rightarrow> jsnum \<Rightarrow> viewport \<Rightarrow> viewport" where
  "fit center width height v =
     (let w = (if truthy width then width else worldWidth v); h = (if truthy height then height else worldHeight v);
          v1 = set_scalex (screenWidth v / w) v; v2 = set_scaley (screenHeight v1 / h) v1
      in recentred center v (fit_smaller v2))"

definition zoomPercent :: "jsnum \<Rightarrow> bool \<Rightarrow> viewport \<Rightarrow> viewport" where
  "zoomPercent percent center v =
     recentred center v (set_scale (vp_scale_x v + vp_scale_x v * percent) None v)"

definition zoom :: "jsnum \<Rightarrow> bool \<Rightarrow> viewport \<Rightarrow> viewport" where
  "zoom change center v = fitWidth (change + worldScreenWidth v) center v"

end
