(* ===== verification/ViewportPlugins.thy ===== *)
theory ViewportPlugins
  imports ViewportMoves
begin

text \<open>
  The plugins of \<^verbatim>\<open>js/pixi-viewport.js\<close> that react to input and time: drag, pinch, wheel,
  follow, mouse-edges, bounce, snap-zoom and snap.
\<close>

section \<open>Input events\<close>

record pointer_event =
  ev_id :: int
  ev_global :: victor
  ev_mouse :: bool
  ev_is_MouseEvent :: bool
  ev_button :: int
  ev_identifier :: string
  ev_buttons :: int

record wheel_event =
  we_client :: victor
  deltaX :: jsnum
  deltaY :: jsnum

section \<open>The list of plugins\<close>

definition PLUGIN_ORDER :: "string list" where
  "PLUGIN_ORDER = [''drag'', ''pinch'', ''wheel'', ''follow'', ''mouse-edges'', ''decelerate'', ''bounce'',
     ''snap-zoom'', ''clamp-zoom'', ''snap'', ''clamp'']"

definition plugins :: "viewport \<Rightarrow> (string \<times> bool) list" where
  "plugins v =
    [(''drag'', p_drag v \<noteq> None), (''pinch'', p_pinch v \<noteq> None), (''wheel'', p_wheel v \<noteq> None),
     (''follow'', p_follow v \<noteq> None), (''mouse-edges'', p_mouseEdges v \<noteq> None),
     (''decelerate'', p_decelerate v \<noteq> None), (''bounce'', p_bounce v \<noteq> None),
     (''snap-zoom'', p_snapZoom v \<noteq> None), (''clamp-zoom'', p_clampZoom v \<noteq> None),
     (''snap'', p_snap v \<noteq> None), (''clamp'', p_clamp v \<noteq> None)]"

definition has_plugin :: "viewport \<Rightarrow> string \<Rightarrow> bool" where
  "has_plugin v name \<longleftrightarrow> map_of (plugins v) name = Some True"

definition pluginsSort :: "viewport \<Rightarrow> viewport" where
  "pluginsSort v = v\<lparr>pluginsList := filter (has_plugin v) PLUGIN_ORDER\<rparr>"

definition without_plugin :: "string \<Rightarrow> viewport \<Rightarrow> viewport" where
  "without_plugin name v =
     (if name = ''drag'' then v\<lparr>p_drag := None\<rparr> else if name = ''pinch'' then v\<lparr>p_pinch := None\<rparr>
      else if name = ''wheel'' then v\<lparr>p_wheel := None\<rparr> else if name = ''follow'' then v\<lparr>p_follow := None\<rparr>
      else if name = ''mouse-edges'' then v\<lparr>p_mouseEdges := None\<rparr>
      else if name = ''decelerate'' then v\<lparr>p_decelerate := None\<rparr>
      else if name = ''bounce'' then v\<lparr>p_bounce := None\<rparr> else if name = ''snap-zoom'' then v\<lparr>p_snapZoom := None\<rparr>
      else if name = ''clamp-zoom'' then v\<lparr>p_clampZoom := None\<rparr> else if name = ''snap'' then v\<lparr>p_snap := None\<rparr>
      else if name = ''clamp'' then v\<lparr>p_clamp := None\<rparr> else v)"

definition removePlugin :: "string \<Rightarrow> viewport \<Rightarrow> viewport" where
  "removePlugin name v =
     (if has_plugin v name then pluginsSort (emit (name @ ''-remove'') '''' (without_plugin name v)) else v)"

section \<open>Drag\<close>

definition new_Drag :: "bool option \<Rightarrow> jsnum \<Rightarrow> bool \<Rightarrow> clamp_wheel \<Rightarrow> string \<Rightarrow> string \<Rightarrow> drag" where
  "new_Drag wheel scroll backwards cw direction underflow =
     \<lparr>dr_paused = False, dr_moved = False, wheelActive = (case wheel of None \<Rightarrow> True | Some b \<Rightarrow> b),
      wheelScroll = or_number scroll 1, dr_reverse = (if backwards then 1 else - 1), clampWheel = cw,
      xDirection = (direction = [] \<or> direction = ''all'' \<or> direction = ''x''),
      yDirection = (direction = [] \<or> direction = ''all'' \<or> direction = ''y''),
      dr_underflow = parseUnderflow (if underflow = [] then ''center'' else underflow),
      dr_last = None, dr_current = 0\<rparr>"

definition Drag_down :: "pointer_event \<Rightarrow> drag \<Rightarrow> viewport \<Rightarrow> viewport" where
  "Drag_down e this v =
     (if dr_paused this then v
      else if dragging v \<and> anc v \<noteq> []
      then (let (parent, v1) = parent_toLocal (ev_global e) v
            in v1\<lparr>p_drag := Some (this\<lparr>dr_last := Some \<lparr>dp_point = ev_global e, dp_parent = parent\<rparr>,
                 dr_current := ev_id e\<rparr>)\<rparr>)
      else v\<lparr>p_drag := Some (this\<lparr>dr_last := None\<rparr>)\<rparr>)"

text \<open>The pointer moved far enough, from where the drag starts, in a direction that drags.\<close>

definition drag_moves :: "victor \<Rightarrow> drag_point \<Rightarrow> drag \<Rightarrow> viewport \<Rightarrow> bool" where
  "drag_moves p l this v \<longleftrightarrow> dr_moved this
     \<or> xDirection this \<and> checkThreshold (vx p - vx (dp_point l)) v
     \<or> yDirection this \<and> checkThreshold (vy p - vy (dp_point l)) v"

definition Drag_move :: "pointer_event \<Rightarrow> drag \<Rightarrow> viewport \<Rightarrow> viewport result" where
  "Drag_move e this v =
     (if dr_paused this then ok v
      else case dr_last this of None \<Rightarrow> ok v
        | Some l \<Rightarrow>
            if dr_current this \<noteq> ev_id e then ok v
            else if \<not> dragging v then ok (v\<lparr>p_drag := Some (this\<lparr>dr_moved := False\<rparr>)\<rparr>)
            else if \<not> drag_moves (ev_global e) l this v then ok v
            else if anc v = [] then throw (TypeError ''this.parent.parent is null'') v
            else let (newParent, v1) = parent_toLocal (ev_global e) v;
                     v2 = (if xDirection this then set_x (vp_x v1 + (vx newParent - vx (dp_parent l))) v1 else v1);
                     v3 = (if yDirection this then set_y (vp_y v2 + (vy newParent - vy (dp_parent l))) v2 else v2);
                     v4 = (if \<not> dr_moved this
                       then emit ''drag-start'' '''' (snd (Viewport_toWorld (ev_global e) v3)) else v3)
                 in ok (emit ''moved'' ''drag'' (v4\<lparr>dirty := True,
                      p_drag := Some (this\<lparr>dr_last := Some \<lparr>dp_point = ev_global e, dp_parent = newParent\<rparr>,
                        dr_moved := True\<rparr>)\<rparr>)))"

definition Drag_up :: "drag \<Rightarrow> viewport \<Rightarrow> viewport result" where
  "Drag_up this v =
     (case getTouchPointers v of
        [p] \<Rightarrow>
          (case p_last p of None \<Rightarrow> ok (v\<lparr>p_drag := Some (this\<lparr>dr_moved := False\<rparr>)\<rparr>)
           | Some (q, i) \<Rightarrow>
               if anc v = [] then throw (TypeError ''this.parent.parent is null'') v
               else let (parent, v1) = parent_toLocal q v
                    in ok (v1\<lparr>p_drag := Some (this\<lparr>dr_last := Some \<lparr>dp_point = q, dp_parent = parent\<rparr>,
                         dr_current := i, dr_moved := False\<rparr>)\<rparr>))
      | _ \<Rightarrow>
          (case dr_last this of None \<Rightarrow> ok v
           | Some l \<Rightarrow>
               if dr_moved this
               then ok ((emit ''drag-end'' '''' (snd (Viewport_toWorld (dp_point l) v)))
                      \<lparr>p_drag := Some (this\<lparr>dr_last := None, dr_moved := False\<rparr>)\<rparr>)
               else ok v))"

definition Drag_clamp :: "drag \<Rightarrow> viewport \<Rightarrow> viewport" where
  "Drag_clamp this v =
     (let v1 =
        (if clampWheel this \<noteq> Clamp_only ''y''
         then if screenWorldWidth v < screenWidth v then set_x (underflow_x (fst (dr_underflow this)) v) v
              else if vp_left v < 0 then stop_x (set_x 0 v)
              else if worldWidth v < vp_right v
              then stop_x (set_x (- worldWidth v * vp_scale_x v + screenWidth v) v)
              else v
         else v)
      in if clampWheel this \<noteq> Clamp_only ''x''
         then if screenWorldHeight v1 < screenHeight v1 then set_y (underflow_y (snd (dr_underflow this)) v1) v1
              else let v2 = (if vp_top v1 < 0 then stop_y (set_y 0 v1) else v1)
                   in if worldHeight v2 < vp_bottom v2
                      then stop_y (set_y (- worldHeight v2 * vp_scale_y v2 + screenHeight v2) v2)
                      else v2
         else v1)"

text \<open>The wheel scrolls when the wheel plugin is not installed; the Boolean tells that it did.\<close>

definition Drag_wheel :: "wheel_event \<Rightarrow> drag \<Rightarrow> viewport \<Rightarrow> bool \<times> viewport" where
  "Drag_wheel e this v =
     (if \<not> dr_paused this \<and> wheelActive this \<and> p_wheel v = None
      then let v1 = set_x (vp_x v + deltaX e * wheelScroll this * dr_reverse this) v;
               v2 = set_y (vp_y v1 + deltaY e * wheelScroll this * dr_reverse this) v1;
               v3 = (if clampWheel this \<noteq> No_clamp \<and> clampWheel this \<noteq> Clamp_only '''' then Drag_clamp this v2 else v2)
           in (True, (emit ''moved'' '''' (emit ''wheel-scroll'' '''' v3))\<lparr>dirty := True\<rparr>)
      else (False, v))"

definition Drag_resume :: "drag \<Rightarrow> drag" where
  "Drag_resume this = this\<lparr>dr_last := None, dr_paused := False\<rparr>"

section \<open>Wheel\<close>

definition new_Wheel :: "jsnum \<Rightarrow> victor option \<Rightarrow> bool \<Rightarrow> wheel" where
  "new_Wheel percent center backwards =
     \<lparr>wh_paused = False, wh_percent = or_number percent (Fin (1 / 10)), wh_center = center, wh_reverse = backwards\<rparr>"

definition clamp_zoom_now :: "viewport \<Rightarrow> viewport" where
  "clamp_zoom_now v = (case p_clampZoom v of None \<Rightarrow> v | Some c \<Rightarrow> ClampZoom_clamp c v)"

text \<open>Zooming keeps a chosen centre, or else the point under the pointer.\<close>

definition keep_point :: "victor \<Rightarrow> victor \<Rightarrow> viewport \<Rightarrow> viewport" where
  "keep_point point oldPoint v =
     (let (newPoint, v1) = vp_toGlobal oldPoint v;
          v2 = set_x (vp_x v1 + (vx point - vx newPoint)) v1
      in set_y (vp_y v2 + (vy point - vy newPoint)) v2)"

definition Wheel_wheel :: "wheel_event \<Rightarrow> wheel \<Rightarrow> viewport \<Rightarrow> viewport" where
  "Wheel_wheel e this v =
     (if wh_paused this then v
      else let change = (if wh_reverse this
                 then if 0 < deltaY e then 1 + wh_percent this else 1 - wh_percent this
                 else if 0 < deltaY e then 1 - wh_percent this else 1 + wh_percent this);
               point = getPointerPosition (we_client e) v;
               (oldPoint, v1) = (if wh_center this = None then vp_toLocal point v else (point, v));
               v2 = set_scalex (vp_scale_x v1 * change) v1;
               v3 = set_scaley (vp_scale_y v2 * change) v2;
               v4 = clamp_zoom_now (emit ''zoomed'' ''wheel'' v3);
               v5 = (case wh_center this of Some c \<Rightarrow> moveCenter c v4 | None \<Rightarrow> keep_point point oldPoint v4)
           in emit ''wheel'' '''' (emit ''moved'' ''wheel'' v5))"

section \<open>Pinch\<close>

definition new_Pinch :: "jsnum \<Rightarrow> bool \<Rightarrow> victor option \<Rightarrow> pinch" where
  "new_Pinch percent nodrag center =
     \<lparr>pi_paused = False, pi_percent = or_number percent 1, noDrag = nodrag, pi_center = center, pi_active = False,
      pinching = False, pi_moved = False, lastCenter = None\<rparr>"

definition Pinch_down :: "pinch \<Rightarrow> viewport \<Rightarrow> viewport" where
  "Pinch_down this v = (if 2 \<le> countDownPointers v then v\<lparr>p_pinch := Some (this\<lparr>pi_active := True\<rparr>)\<rparr> else v)"

definition point_distance :: "victor \<Rightarrow> victor \<Rightarrow> jsnum" where
  "point_distance p q = (let dx = vx q - vx p; dy = vy q - vy p in js_sqrt (dx * dx + dy * dy))"

text \<open>The positions that two pointers remember, when both do.\<close>

fun both_last :: "pointer \<Rightarrow> pointer \<Rightarrow> (victor \<times> victor) option" where
  "both_last f s = (case (p_last f, p_last s) of (Some (a, _), Some (b, _)) \<Rightarrow> Some (a, b) | _ \<Rightarrow> None)"

definition remember :: "pointer_event \<Rightarrow> pointer \<Rightarrow> pointer" where
  "remember e p = (if pointerId p = ev_id e then p\<lparr>p_last := Some (ev_global e, ev_id e)\<rparr> else p)"

definition zoom_pinch :: "victor \<Rightarrow> victor \<Rightarrow> jsnum \<Rightarrow> pinch \<Rightarrow> viewport \<Rightarrow> viewport" where
  "zoom_pinch a b lst this v =
     (let point = \<lparr>vx = vx a + (vx b - vx a) / 2, vy = vy a + (vy b - vy a) / 2\<rparr>;
          (oldPoint, v1) = (if pi_center this = None then vp_toLocal point v else (point, v));
          change = (point_distance a b - lst) / screenWidth v1 * vp_scale_x v1 * pi_percent this;
          v2 = set_scalex (vp_scale_x v1 + change) v1;
          v3 = set_scaley (vp_scale_y v2 + change) v2;
          v4 = clamp_zoom_now (emit ''zoomed'' ''pinch'' v3);
          v5 = (case pi_center this of Some c \<Rightarrow> moveCenter c v4
            | None \<Rightarrow> emit ''moved'' ''pinch'' (keep_point point oldPoint v4));
          v6 = (case (noDrag this, lastCenter this) of
              (False, Some q) \<Rightarrow>
                let v6a = set_x (vp_x v5 + (vx point - vx q)) v5
                in emit ''moved'' ''pinch'' (set_y (vp_y v6a + (vy point - vy q)) v6a)
            | _ \<Rightarrow> v5)
      in v6\<lparr>p_pinch := Some (this\<lparr>lastCenter := Some point, pi_moved := True\<rparr>)\<rparr>)"

definition Pinch_move :: "pointer_event \<Rightarrow> pinch \<Rightarrow> viewport \<Rightarrow> viewport" where
  "Pinch_move e this v =
     (if pi_paused this \<or> \<not> pi_active this then v
      else case getTouchPointers v of
        f # s # _ \<Rightarrow>
          let lst = (case both_last f s of None \<Rightarrow> 0 | Some (a, b) \<Rightarrow> point_distance a b);
              v1 = (if pointerId f = ev_id e \<or> pointerId s = ev_id e
                then v\<lparr>tracked := map (remember e) (tracked v)\<rparr> else v);
              v2 = (case both_last (remember e f) (remember e s) of
                  Some (a, b) \<Rightarrow> if truthy lst then zoom_pinch a b lst this v1
                    else if \<not> pinching this
                    then (emit ''pinch-start'' '''' v1)\<lparr>p_pinch := Some (this\<lparr>pinching := True\<rparr>)\<rparr> else v1
                | None \<Rightarrow> if \<not> pinching this
                    then (emit ''pinch-start'' '''' v1)\<lparr>p_pinch := Some (this\<lparr>pinching := True\<rparr>)\<rparr> else v1)
          in v2\<lparr>dirty := True\<rparr>
      | _ \<Rightarrow> v)"

definition Pinch_up :: "pinch \<Rightarrow> viewport \<Rightarrow> viewport" where
  "Pinch_up this v =
     (if pinching this \<and> length (touches v) \<le> 1
      then emit ''pinch-end'' '''' (v\<lparr>p_pinch := Some (this\<lparr>pi_active := False, lastCenter := None,
             pinching := False, pi_moved := False\<rparr>)\<rparr>)
      else v)"

section \<open>Follow\<close>

definition new_Follow :: "victor \<Rightarrow> jsnum \<Rightarrow> jsnum \<Rightarrow> follow" where
  "new_Follow target speed radius =
     \<lparr>fo_paused = False, fo_speed = or_number speed 0, fo_target = target, fo_radius = radius\<rparr>"

text \<open>Where the centre should go: nowhere when the target is within the radius.\<close>

definition follow_goal :: "follow \<Rightarrow> victor \<Rightarrow> victor option" where
  "follow_goal this c =
     (if truthy (fo_radius this)
      then (let dx = vx (fo_target this) - vx c; dy = vy (fo_target this) - vy c
            in if fo_radius this < js_sqrt (dy * dy + dx * dx)
               then Some \<lparr>vx = vx (fo_target this) - js_cos (js_atan2 dy dx) * fo_radius this,
                          vy = vy (fo_target this) - js_sin (js_atan2 dy dx) * fo_radius this\<rparr>
               else None)
      else Some (fo_target this))"

definition Follow_update :: "follow \<Rightarrow> viewport \<Rightarrow> viewport" where
  "Follow_update this v =
     (if fo_paused this then v
      else let c = vp_center v in
        case follow_goal this c of None \<Rightarrow> v
        | Some to \<Rightarrow>
            if truthy (fo_speed this)
            then (let dx = vx to - vx c; dy = vy to - vy c
                  in if truthy dx \<or> truthy dy
                     then (let angle = js_atan2 dy dx; changeX = js_cos angle * fo_speed this;
                               changeY = js_sin angle * fo_speed this;
                               x = (if js_abs dx < js_abs changeX then vx to else vx c + changeX);
                               y = (if js_abs dy < js_abs changeY then vy to else vy c + changeY)
                           in emit ''moved'' ''follow'' (moveCenter_xy x y v))
                     else v)
            else emit ''moved'' ''follow'' (moveCenter_xy (vx to) (vy to) v))"

section \<open>Bounce over time\<close>

definition advance :: "jsnum \<Rightarrow> motion \<Rightarrow> motion" where
  "advance elapsed m = m\<lparr>mo_time := mo_time m + elapsed\<rparr>"

text \<open>One axis of a bounce: it ends, or the easing function gives the position.\<close>

definition bounce_x :: "jsnum \<Rightarrow> bounce \<Rightarrow> viewport \<Rightarrow> viewport result" where
  "bounce_x elapsed this v =
     (case toX this of None \<Rightarrow> ok v
      | Some m0 \<Rightarrow>
          let m = advance elapsed m0; v1 = emit ''moved'' ''bounce-x'' (v\<lparr>p_bounce := Some (this\<lparr>toX := Some m\<rparr>)\<rparr>)
          in if bo_time this \<le> mo_time m
             then ok ((emit ''bounce-x-end'' '''' ((set_x (mo_end m) v1)\<lparr>p_bounce := Some (this\<lparr>toX := None\<rparr>)\<rparr>))\<lparr>dirty := True\<rparr>)
             else eased (bo_ease this) (mo_time m) (mo_start m) (mo_delta m) (bo_time this)
                    (\<lambda>x w. ok ((set_x x w)\<lparr>dirty := True\<rparr>)) v1)"

definition bounce_y :: "jsnum \<Rightarrow> bounce \<Rightarrow> viewport \<Rightarrow> viewport result" where
  "bounce_y elapsed this v =
     (case toY this of None \<Rightarrow> ok v
      | Some m0 \<Rightarrow>
          let m = advance elapsed m0; v1 = emit ''moved'' ''bounce-y'' (v\<lparr>p_bounce := Some (this\<lparr>toY := Some m\<rparr>)\<rparr>)
          in if bo_time this \<le> mo_time m
             then ok ((emit ''bounce-y-end'' '''' ((set_y (mo_end m) v1)\<lparr>p_bounce := Some (this\<lparr>toY := None\<rparr>)\<rparr>))\<lparr>dirty := True\<rparr>)
             else eased (bo_ease this) (mo_time m) (mo_start m) (mo_delta m) (bo_time this)
                    (\<lambda>y w. ok ((set_y y w)\<lparr>dirty := True\<rparr>)) v1)"

definition with_plugin :: "(viewport \<Rightarrow> 'p option) \<Rightarrow> ('p \<Rightarrow> viewport \<Rightarrow> viewport result) \<Rightarrow> viewport \<Rightarrow> viewport result" where
  "with_plugin get f v = (case get v of None \<Rightarrow> ok v | Some p \<Rightarrow> f p v)"

definition Bounce_update :: "jsnum \<Rightarrow> bounce \<Rightarrow> viewport \<Rightarrow> viewport result" where
  "Bounce_update elapsed this v =
     (if bo_paused this then ok v
      else and_then (with_plugin p_bounce (bounce_x elapsed) (put_bounce (Bounce_bounce this v)))
             (with_plugin p_bounce (bounce_y elapsed)))"

definition Bounce_down :: "bounce \<Rightarrow> viewport \<Rightarrow> viewport" where
  "Bounce_down this v = v\<lparr>p_bounce := Some (this\<lparr>toX := None, toY := None\<rparr>)\<rparr>"

definition Bounce_up :: "bounce \<Rightarrow> viewport \<Rightarrow> viewport" where
  "Bounce_up this v = put_bounce (Bounce_bounce this v)"

section \<open>Snap to a point\<close>

text \<open>\<open>forceStart\<close> calls a method that does not exist.\<close>

definition new_Snap ::
  "victor \<Rightarrow> bool \<Rightarrow> jsnum \<Rightarrow> jsnum \<Rightarrow> ease_option \<Rightarrow> bool option \<Rightarrow> bool \<Rightarrow> bool \<Rightarrow> bool \<Rightarrow> snap + exn" where
  "new_Snap to corner friction time e interrupt onComplete onInterrupt forceStart =
     (if forceStart then Inr (TypeError ''_this.startEase is not a function'')
      else Inl \<lparr>sn_paused = False, sn_friction = or_number friction (Fin (8 / 10)), sn_time = or_number time 1000,
        sn_ease = utils_ease e ''easeInOutSine'', sn_to = to, topLeft = corner,
        sn_interrupt = (case interrupt of None \<Rightarrow> True | Some b \<Rightarrow> b), sn_removeOnComplete = onComplete,
        sn_removeOnInterrupt = onInterrupt, sn_snapping = None, sn_delta = \<lparr>vx = NaN, vy = NaN\<rparr>,
        sn_start = \<lparr>vx = NaN, vy = NaN\<rparr>\<rparr>)"

definition snap_current :: "snap \<Rightarrow> viewport \<Rightarrow> victor" where
  "snap_current this v = (if topLeft this then vp_corner v else vp_center v)"

definition Snap_snapStart :: "snap \<Rightarrow> viewport \<Rightarrow> viewport" where
  "Snap_snapStart this v =
     (let c = snap_current this v
      in emit ''snap-start'' '''' (v\<lparr>p_snap := Some (this\<lparr>sn_snapping := Some 0,
           sn_delta := \<lparr>vx = vx (sn_to this) - vx c, vy = vy (sn_to this) - vy c\<rparr>, sn_start := c\<rparr>)\<rparr>))"

definition Snap_wheel :: "snap \<Rightarrow> viewport \<Rightarrow> viewport" where
  "Snap_wheel this v = (if sn_removeOnInterrupt this then removePlugin ''snap'' v else v)"

definition Snap_down :: "snap \<Rightarrow> viewport \<Rightarrow> viewport" where
  "Snap_down this v =
     (if sn_removeOnInterrupt this then removePlugin ''snap'' v
      else if sn_interrupt this then v\<lparr>p_snap := Some (this\<lparr>sn_snapping := None\<rparr>)\<rparr> else v)"

definition Snap_up :: "snap \<Rightarrow> viewport \<Rightarrow> viewport" where
  "Snap_up this v =
     (if countDownPointers v = 0
      then (case p_decelerate v of None \<Rightarrow> v
        | Some d \<Rightarrow> if truthy (de_x d) \<or> truthy (de_y d)
            then v\<lparr>p_decelerate := Some (d\<lparr>percentChangeX := sn_friction this, percentChangeY := sn_friction this\<rparr>)\<rparr>
            else v)
      else v)"

definition snap_move :: "jsnum \<Rightarrow> jsnum \<Rightarrow> snap \<Rightarrow> viewport \<Rightarrow> viewport" where
  "snap_move x y this v =
     emit ''moved'' ''snap'' (if topLeft this then moveCorner \<lparr>vx = x, vy = y\<rparr> v else moveCenter_xy x y v)"

definition Snap_update :: "jsnum \<Rightarrow> snap \<Rightarrow> viewport \<Rightarrow> viewport result" where
  "Snap_update elapsed this v =
     (if sn_paused this \<or> sn_interrupt this \<and> countDownPointers v \<noteq> 0 then ok v
      else case sn_snapping this of
        None \<Rightarrow>
          let c = snap_current this v
          in ok (if \<not> js_eq (vx c) (vx (sn_to this)) \<or> \<not> js_eq (vy c) (vy (sn_to this)) then Snap_snapStart this v else v)
      | Some t0 \<Rightarrow>
          let t = t0 + elapsed; v1 = v\<lparr>p_snap := Some (this\<lparr>sn_snapping := Some t\<rparr>)\<rparr>
          in if sn_time this < t
             then let v2 = snap_move (vx (sn_start this) + vx (sn_delta this)) (vy (sn_start this) + vy (sn_delta this)) this v1;
                      v3 = (if sn_removeOnComplete this then removePlugin ''snap'' v2
                        else v2\<lparr>p_snap := Some (this\<lparr>sn_snapping := None\<rparr>)\<rparr>)
                  in ok (emit ''snap-end'' '''' v3)
             else eased (sn_ease this) t 0 1 (sn_time this)
                    (\<lambda>percent w. ok (snap_move (vx (sn_start this) + vx (sn_delta this) * percent)
                       (vy (sn_start this) + vy (sn_delta this) * percent) this w)) v1)"

section \<open>Snap to a zoom\<close>

definition snap_scales :: "viewport \<Rightarrow> snap_zoom \<Rightarrow> snap_zoom" where
  "snap_scales v this =
     (let t1 = (if 0 < sz_width this then this\<lparr>x_scale := vx (screen_size v) / sz_width this\<rparr> else this);
          t2 = (if 0 < sz_height t1 then t1\<lparr>y_scale := vy (screen_size v) / sz_height t1\<rparr> else t1);
          t3 = t2\<lparr>x_scale := if xIndependent t2 then x_scale t2 else y_scale t2\<rparr>
      in t3\<lparr>y_scale := if yIndependent t3 then y_scale t3 else x_scale t3\<rparr>)"

definition SnapZoom_createSnapping :: "snap_zoom \<Rightarrow> viewport \<Rightarrow> snap_zoom \<times> viewport" where
  "SnapZoom_createSnapping this v =
     (let m = (\<lambda>here goal. \<lparr>mo_time = 0, mo_start = here, mo_delta = goal - here, mo_end = goal\<rparr>)
      in (this\<lparr>sz_snapping := Some (m (vp_scale_x v) (x_scale this), m (vp_scale_y v) (y_scale this))\<rparr>,
          emit ''snap-zoom-start'' '''' v))"

text \<open>A time of zero reads \<^verbatim>\<open>parent.container\<close>, which a viewport does not have.\<close>

definition new_SnapZoom ::
  "jsnum \<Rightarrow> jsnum \<Rightarrow> jsnum option \<Rightarrow> ease_option \<Rightarrow> victor option \<Rightarrow> bool option \<Rightarrow> bool option \<Rightarrow> bool \<Rightarrow> bool \<Rightarrow> bool \<Rightarrow>
     viewport \<Rightarrow> (snap_zoom \<times> viewport) + exn" where
  "new_SnapZoom width height time e center interrupt onComplete onInterrupt forceStart nomove v =
     (let this = snap_scales v \<lparr>sz_paused = False, sz_width = width, sz_height = height, x_scale = NaN, y_scale = NaN,
            xIndependent = 0 < width, yIndependent = 0 < height,
            sz_time = (case time of None \<Rightarrow> 1000 | Some t \<Rightarrow> t), sz_ease = utils_ease e ''easeInOutSine'',
            sz_center = center, noMove = nomove, sz_interrupt = (case interrupt of None \<Rightarrow> True | Some b \<Rightarrow> b),
            sz_removeOnComplete = (case onComplete of None \<Rightarrow> True | Some b \<Rightarrow> b),
            sz_removeOnInterrupt = onInterrupt, sz_snapping = None\<rparr>
      in if js_eq (sz_time this) 0 then Inr (TypeError ''parent.container is undefined'')
         else Inl (if forceStart then SnapZoom_createSnapping this v else (this, v)))"

definition SnapZoom_resize :: "snap_zoom \<Rightarrow> viewport \<Rightarrow> viewport" where
  "SnapZoom_resize this v = v\<lparr>p_snapZoom := Some (snap_scales v (this\<lparr>sz_snapping := None\<rparr>))\<rparr>"

definition SnapZoom_wheel :: "snap_zoom \<Rightarrow> viewport \<Rightarrow> viewport" where
  "SnapZoom_wheel this v = (if sz_removeOnInterrupt this then removePlugin ''snap-zoom'' v else v)"

definition SnapZoom_down :: "snap_zoom \<Rightarrow> viewport \<Rightarrow> viewport" where
  "SnapZoom_down this v =
     (if sz_removeOnInterrupt this then removePlugin ''snap-zoom'' v
      else if sz_interrupt this then v\<lparr>p_snapZoom := Some (this\<lparr>sz_snapping := None\<rparr>)\<rparr> else v)"

text \<open>After a zoom step: the clamp on the zoom, then the centre.\<close>

definition zoom_placed :: "snap_zoom \<Rightarrow> victor \<Rightarrow> viewport \<Rightarrow> viewport" where
  "zoom_placed this oldCenter v =
     (let v1 = clamp_zoom_now v
      in if noMove this then v1
         else moveCenter (case sz_center this of None \<Rightarrow> oldCenter | Some c \<Rightarrow> c) v1)"

definition SnapZoom_update :: "jsnum \<Rightarrow> snap_zoom \<Rightarrow> viewport \<Rightarrow> viewport result" where
  "SnapZoom_update elapsed this v =
     (if sz_paused this \<or> sz_interrupt this \<and> countDownPointers v \<noteq> 0 then ok v
      else let oldCenter = vp_center v in
        case sz_snapping this of
          None \<Rightarrow>
            if \<not> js_eq (vp_scale_x v) (x_scale this) \<or> \<not> js_eq (vp_scale_y v) (y_scale this)
            then (let (t, v1) = SnapZoom_createSnapping this v in ok (v1\<lparr>p_snapZoom := Some t\<rparr>))
            else ok v
        | Some (m0, n0) \<Rightarrow>
            let m = advance elapsed m0; n = advance elapsed n0;
                v1 = v\<lparr>p_snapZoom := Some (this\<lparr>sz_snapping := Some (m, n)\<rparr>)\<rparr>
            in if sz_time this \<le> mo_time m
               then let v2 = set_scale (x_scale this) (Some (y_scale this)) v1;
                        v3 = (if sz_removeOnComplete this then removePlugin ''snap-zoom'' v2
                          else v2\<lparr>p_snapZoom := Some (this\<lparr>sz_snapping := None\<rparr>)\<rparr>)
                    in ok (zoom_placed this oldCenter (emit ''snap-zoom-end'' '''' v3))
               else eased (sz_ease this) (mo_time m) (mo_start m) (mo_delta m) (sz_time this)
                      (\<lambda>x. eased (sz_ease this) (mo_time n) (mo_start n) (mo_delta n) (sz_time this)
                        (\<lambda>y w. ok (zoom_placed this oldCenter (set_scaley y w)))
                        \<circ> set_scalex x) v1)"

definition SnapZoom_resume :: "snap_zoom \<Rightarrow> snap_zoom" where
  "SnapZoom_resume this = this\<lparr>sz_snapping := None, sz_paused := False\<rparr>"

section \<open>Scrolling at the edges\<close>

text \<open>\<open>win\<close> is the size of the window; no radius is ever stored, so the four distances count.\<close>

definition edges_resize :: "victor \<Rightarrow> mouse_edges \<Rightarrow> mouse_edges" where
  "edges_resize win this =
     (case me_distance this of
        Some d \<Rightarrow> this\<lparr>me_left := Some d, me_top := Some d, me_right := Some (vx win - d), me_bottom := Some (vy win - d)\<rparr>
      | None \<Rightarrow> (case me_options this of (l, t, r, b) \<Rightarrow>
          this\<lparr>me_left := l, me_top := t, me_right := map_option (\<lambda>a. vx win - a) r, me_bottom := map_option (\<lambda>a. vy win - a) b\<rparr>))"

definition new_MouseEdges ::
  "jsnum \<Rightarrow> jsnum option \<Rightarrow> jsnum option \<times> jsnum option \<times> jsnum option \<times> jsnum option \<Rightarrow> jsnum \<Rightarrow> bool \<Rightarrow> bool \<Rightarrow> bool \<Rightarrow>
     victor \<Rightarrow> mouse_edges" where
  "new_MouseEdges radius distance opts speed backwards nodec lin win =
     (edges_resize win \<lparr>me_paused = False, me_distance = distance, me_options = opts,
        me_reverse = (if backwards then 1 else - 1), noDecelerate = nodec, me_linear = lin,
        radiusSquared = radius * radius, me_speed = NaN, me_left = None, me_top = None, me_right = None, me_bottom = None,
        me_horizontal = NaN, me_vertical = NaN\<rparr>)\<lparr>me_speed := or_number speed 8\<rparr>"

definition MouseEdges_resize :: "victor \<Rightarrow> mouse_edges \<Rightarrow> viewport \<Rightarrow> viewport" where
  "MouseEdges_resize win this v = v\<lparr>p_mouseEdges := Some (edges_resize win this)\<rparr>"

definition MouseEdges_down :: "mouse_edges \<Rightarrow> viewport \<Rightarrow> viewport" where
  "MouseEdges_down this v = v\<lparr>p_mouseEdges := Some (this\<lparr>me_horizontal := 0, me_vertical := 0\<rparr>)\<rparr>"

definition decelerateHorizontal :: "mouse_edges \<Rightarrow> viewport \<Rightarrow> viewport" where
  "decelerateHorizontal this v =
     (case p_decelerate v of None \<Rightarrow> v
      | Some d \<Rightarrow> if truthy (me_horizontal this) \<and> \<not> noDecelerate this
          then v\<lparr>p_decelerate := Some (Decelerate_activate
                 (Some (me_horizontal this * me_speed this * me_reverse this / (1000 / 60))) None d)\<rparr>
          else v)"

definition decelerateVertical :: "mouse_edges \<Rightarrow> viewport \<Rightarrow> viewport" where
  "decelerateVertical this v =
     (case p_decelerate v of None \<Rightarrow> v
      | Some d \<Rightarrow> if truthy (me_vertical this) \<and> \<not> noDecelerate this
          then v\<lparr>p_decelerate := Some (Decelerate_activate None
                 (Some (me_vertical this * me_speed this * me_reverse this / (1000 / 60))) d)\<rparr>
          else v)"

definition edge_speed :: "jsnum \<Rightarrow> mouse_edges \<Rightarrow> jsnum" where
  "edge_speed sign this = sign * me_reverse this * me_speed this * (60 / 1000)"

definition below :: "jsnum option \<Rightarrow> jsnum \<Rightarrow> bool" where
  "below limit x \<longleftrightarrow> (case limit of None \<Rightarrow> False | Some a \<Rightarrow> x < a)"

definition above :: "jsnum option \<Rightarrow> jsnum \<Rightarrow> bool" where
  "above limit x \<longleftrightarrow> (case limit of None \<Rightarrow> False | Some a \<Rightarrow> a < x)"

definition put_edges :: "jsnum \<Rightarrow> jsnum \<Rightarrow> mouse_edges \<Rightarrow> viewport \<Rightarrow> viewport" where
  "put_edges h w this v = v\<lparr>p_mouseEdges := Some (this\<lparr>me_horizontal := h, me_vertical := w\<rparr>)\<rparr>"

definition edges_radial :: "victor \<Rightarrow> mouse_edges \<Rightarrow> viewport \<Rightarrow> viewport" where
  "edges_radial p this v =
     (let (c, v1) = Viewport_toScreen (vp_center v) v;
          dx = vx c - vx p; dy = vy c - vy p;
          speed = (\<lambda>a. a * me_speed this * me_reverse this * (60 / 1000))
      in if radiusSquared this \<le> dx * dx + dy * dy
         then let angle = js_atan2 dy dx; c = js_cos angle; s = js_sin angle
              in put_edges (speed (if me_linear this then js_round c else c))
                   (speed (if me_linear this then js_round s else s)) this v1
         else put_edges 0 0 this (decelerateVertical this (decelerateHorizontal this v1)))"

definition edges_straight :: "victor \<Rightarrow> mouse_edges \<Rightarrow> viewport \<Rightarrow> viewport" where
  "edges_straight p this v =
     (let (h, v1) = (if below (me_left this) (vx p) then (edge_speed 1 this, v)
            else if above (me_right this) (vx p) then (edge_speed (- 1) this, v)
            else (0, decelerateHorizontal this v));
          (w, v2) = (if below (me_top this) (vy p) then (edge_speed 1 this, v1)
            else if above (me_bottom this) (vy p) then (edge_speed (- 1) this, v1)
            else (0, decelerateVertical this v1))
      in put_edges h w this v2)"

definition MouseEdges_move :: "pointer_event \<Rightarrow> mouse_edges \<Rightarrow> viewport \<Rightarrow> viewport" where
  "MouseEdges_move e this v =
     (if ev_identifier e \<noteq> ''MOUSE'' \<or> ev_buttons e \<noteq> 0 then v
      else if truthy (radiusSquared this) then edges_radial (ev_global e) this v
      else edges_straight (ev_global e) this v)"

definition MouseEdges_up :: "mouse_edges \<Rightarrow> viewport \<Rightarrow> viewport" where
  "MouseEdges_up this v = put_edges 0 0 this (decelerateVertical this (decelerateHorizontal this v))"

definition MouseEdges_update :: "mouse_edges \<Rightarrow> viewport \<Rightarrow> viewport" where
  "MouseEdges_update this v =
     (if me_paused this then v
      else if truthy (me_horizontal this) \<or> truthy (me_vertical this)
      then let c = vp_center v;
               x = (if truthy (me_horizontal this) then vx c + me_horizontal this * me_speed this else vx c);
               y = (if truthy (me_vertical this) then vy c + me_vertical this * me_speed this else vy c)
           in emit ''moved'' ''mouse-edges'' (moveCenter \<lparr>vx = x, vy = y\<rparr> v)
      else v)"

end
