(* ===== verification/ViewportEvents.thy ===== *)
theory ViewportEvents
  imports ViewportPlugins
begin

text \<open>
  The events of \<^verbatim>\<open>js/pixi-viewport.js\<close>: the viewport hands each to the installed plugins in
  their order.  A plugin that throws ends the round.
\<close>

section \<open>What the plugins do with an event\<close>

text \<open>The methods a plugin does not have are the empty ones of \<^verbatim>\<open>Plugin\<close>.\<close>

definition plugin_does :: "(viewport \<Rightarrow> 'p option) \<Rightarrow> ('p \<Rightarrow> viewport \<Rightarrow> viewport) \<Rightarrow> viewport \<Rightarrow> viewport result" where
  "plugin_does get f = with_plugin get (\<lambda>p v. ok (f p v))"

definition plugin_down :: "pointer_event \<Rightarrow> string \<Rightarrow> viewport \<Rightarrow> viewport result" where
  "plugin_down e name =
     (if name = ''drag'' then plugin_does p_drag (Drag_down e)
      else if name = ''pinch'' then plugin_does p_pinch Pinch_down
      else if name = ''mouse-edges'' then plugin_does p_mouseEdges MouseEdges_down
      else if name = ''decelerate'' then plugin_does p_decelerate Decelerate_down
      else if name = ''bounce'' then plugin_does p_bounce Bounce_down
      else if name = ''snap-zoom'' then plugin_does p_snapZoom SnapZoom_down
      else if name = ''snap'' then plugin_does p_snap Snap_down
      else ok)"

definition plugin_move :: "jsnum \<Rightarrow> pointer_event \<Rightarrow> string \<Rightarrow> viewport \<Rightarrow> viewport result" where
  "plugin_move now e name =
     (if name = ''drag'' then with_plugin p_drag (Drag_move e)
      else if name = ''pinch'' then plugin_does p_pinch (Pinch_move e)
      else if name = ''mouse-edges'' then plugin_does p_mouseEdges (MouseEdges_move e)
      else if name = ''decelerate'' then plugin_does p_decelerate (Decelerate_move now)
      else if name = ''clamp'' then plugin_does p_clamp Clamp_update
      else ok)"

definition plugin_up :: "jsnum \<Rightarrow> string \<Rightarrow> viewport \<Rightarrow> viewport result" where
  "plugin_up now name =
     (if name = ''drag'' then with_plugin p_drag Drag_up
      else if name = ''pinch'' then plugin_does p_pinch Pinch_up
      else if name = ''mouse-edges'' then plugin_does p_mouseEdges MouseEdges_up
      else if name = ''decelerate'' then plugin_does p_decelerate (Decelerate_up now)
      else if name = ''bounce'' then plugin_does p_bounce Bounce_up
      else if name = ''snap'' then plugin_does p_snap Snap_up
      else ok)"

text \<open>The Boolean is the value of the call.\<close>

definition plugin_wheel :: "wheel_event \<Rightarrow> string \<Rightarrow> viewport \<Rightarrow> bool \<times> viewport" where
  "plugin_wheel e name v =
     (if name = ''drag'' then (case p_drag v of None \<Rightarrow> (False, v) | Some d \<Rightarrow> Drag_wheel e d v)
      else (False,
        if name = ''wheel'' then (case p_wheel v of None \<Rightarrow> v | Some w \<Rightarrow> Wheel_wheel e w v)
        else if name = ''snap-zoom'' then (case p_snapZoom v of None \<Rightarrow> v | Some s \<Rightarrow> SnapZoom_wheel s v)
        else if name = ''snap'' then (case p_snap v of None \<Rightarrow> v | Some s \<Rightarrow> Snap_wheel s v)
        else v))"

definition plugin_update :: "jsnum \<Rightarrow> string \<Rightarrow> viewport \<Rightarrow> viewport result" where
  "plugin_update elapsed name =
     (if name = ''follow'' then plugin_does p_follow Follow_update
      else if name = ''mouse-edges'' then plugin_does p_mouseEdges MouseEdges_update
      else if name = ''decelerate'' then plugin_does p_decelerate (Decelerate_update elapsed)
      else if name = ''bounce'' then with_plugin p_bounce (Bounce_update elapsed)
      else if name = ''snap-zoom'' then with_plugin p_snapZoom (SnapZoom_update elapsed)
      else if name = ''snap'' then with_plugin p_snap (Snap_update elapsed)
      else if name = ''clamp'' then plugin_does p_clamp Clamp_update
      else ok)"

definition plugin_resize :: "victor \<Rightarrow> string \<Rightarrow> viewport \<Rightarrow> viewport result" where
  "plugin_resize win name =
     (if name = ''clamp-zoom'' then plugin_does p_clampZoom ClampZoom_clamp
      else if name = ''mouse-edges'' then plugin_does p_mouseEdges (MouseEdges_resize win)
      else if name = ''snap-zoom'' then plugin_does p_snapZoom SnapZoom_resize
      else ok)"

text \<open>A round over the list of plugins as it is when the round starts.\<close>

definition all_plugins :: "(string \<Rightarrow> viewport \<Rightarrow> viewport result) \<Rightarrow> viewport \<Rightarrow> viewport result" where
  "all_plugins f v = for_x f (pluginsList v) v"

section \<open>The handlers of the viewport\<close>

definition free_to_click :: "viewport \<Rightarrow> bool" where
  "free_to_click v \<longleftrightarrow> \<not> decelerating_x v \<and> \<not> decelerating_y v
     \<and> (case p_bounce v of None \<Rightarrow> True | Some b \<Rightarrow> toX b = None \<and> toY b = None)"

definition Viewport_down :: "pointer_event \<Rightarrow> viewport \<Rightarrow> viewport result" where
  "Viewport_down e v =
     (if vp_pause v then ok v
      else let v1 = (if ev_mouse e then if ev_button e = 0 then v\<lparr>leftDown := True\<rparr> else v
                 else v\<lparr>touches := touches v @ [ev_id e]\<rparr>);
               v2 = (if countDownPointers v1 = 1
                 then let w = v1\<lparr>vp_last := ev_global e\<rparr>
                      in if free_to_click w then w\<lparr>clickedAvailable := True\<rparr> else w
                 else v1\<lparr>clickedAvailable := False\<rparr>)
           in all_plugins (plugin_down e) v2)"

definition Viewport_move :: "jsnum \<Rightarrow> pointer_event \<Rightarrow> viewport \<Rightarrow> viewport result" where
  "Viewport_move now e v =
     (if vp_pause v then ok v
      else and_then (all_plugins (plugin_move now e) v) (\<lambda>w.
        ok (if clickedAvailable w \<and> (checkThreshold (vx (ev_global e) - vx (vp_last w)) w
               \<or> checkThreshold (vy (ev_global e) - vy (vp_last w)) w)
            then w\<lparr>clickedAvailable := False\<rparr> else w)))"

definition Viewport_up :: "jsnum \<Rightarrow> pointer_event \<Rightarrow> viewport \<Rightarrow> viewport result" where
  "Viewport_up now e v =
     (if vp_pause v then ok v
      else let v1 = (if ev_is_MouseEvent e \<and> ev_button e = 0 then v\<lparr>leftDown := False\<rparr> else v);
               v2 = (if \<not> ev_mouse e then v1\<lparr>touches := remove1 (ev_id e) (touches v1)\<rparr> else v1)
           in and_then (all_plugins (plugin_up now) v2) (\<lambda>w.
                ok (if clickedAvailable w \<and> countDownPointers w = 0
                    then (emit ''clicked'' '''' (snd (Viewport_toWorld (vp_last w) w)))\<lparr>clickedAvailable := False\<rparr>
                    else w)))"

fun wheel_round :: "wheel_event \<Rightarrow> string list \<Rightarrow> bool \<Rightarrow> viewport \<Rightarrow> bool \<times> viewport" where
  "wheel_round e [] result v = (result, v)"
| "wheel_round e (name # names) result v =
     (let (r, w) = plugin_wheel e name v in wheel_round e names (result \<or> r) w)"

text \<open>Only the wheel over the viewport counts; undefined is False.\<close>

definition handleWheel :: "wheel_event \<Rightarrow> viewport \<Rightarrow> bool \<times> viewport" where
  "handleWheel e v =
     (if vp_pause v then (False, v)
      else let (point, w) = vp_toLocal (getPointerPosition (we_client e) v) v
           in if vp_left w \<le> vx point \<and> vx point \<le> vp_right w \<and> vp_top w \<le> vy point \<and> vy point \<le> vp_bottom w
              then wheel_round e (pluginsList w) False w else (False, w))"

definition Viewport_update :: "jsnum \<Rightarrow> viewport \<Rightarrow> viewport result" where
  "Viewport_update elapsed v =
     and_then (if vp_pause v then ok v else all_plugins (plugin_update elapsed) v) (\<lambda>w.
       ok (if forced_area w = None
           then w\<lparr>hitArea := \<lparr>r_x = vp_left w, r_y = vp_top w, r_width = worldScreenWidth w, r_height = worldScreenHeight w\<rparr>\<rparr>
           else w))"

definition resizePlugins :: "victor \<Rightarrow> viewport \<Rightarrow> viewport result" where
  "resizePlugins win v = all_plugins (plugin_resize win) v"

definition Viewport_resize :: "victor \<Rightarrow> jsnum \<Rightarrow> jsnum \<Rightarrow> jsnum \<Rightarrow> jsnum \<Rightarrow> viewport \<Rightarrow> viewport result" where
  "Viewport_resize win sw sh ww wh v =
     resizePlugins win (v\<lparr>screen_size := \<lparr>vx = or_number sw (vx win), vy = or_number sh (vy win)\<rparr>,
       world_size := \<lparr>vx = ww, vy = wh\<rparr>\<rparr>)"

definition set_screenWidth :: "jsnum \<Rightarrow> viewport \<Rightarrow> viewport" where
  "set_screenWidth a v = v\<lparr>screen_size := (screen_size v)\<lparr>vx := a\<rparr>\<rparr>"

definition set_screenHeight :: "jsnum \<Rightarrow> viewport \<Rightarrow> viewport" where
  "set_screenHeight a v = v\<lparr>screen_size := (screen_size v)\<lparr>vy := a\<rparr>\<rparr>"

definition set_worldWidth :: "victor \<Rightarrow> jsnum \<Rightarrow> viewport \<Rightarrow> viewport result" where
  "set_worldWidth win a v = resizePlugins win (v\<lparr>world_size := (world_size v)\<lparr>vx := a\<rparr>\<rparr>)"

definition set_worldHeight :: "victor \<Rightarrow> jsnum \<Rightarrow> viewport \<Rightarrow> viewport result" where
  "set_worldHeight win a v = resizePlugins win (v\<lparr>world_size := (world_size v)\<lparr>vy := a\<rparr>\<rparr>)"

definition set_pause :: "bool \<Rightarrow> viewport \<Rightarrow> viewport" where
  "set_pause b v = (let w = v\<lparr>vp_pause := b\<rparr> in if b then w\<lparr>touches := [], leftDown := False\<rparr> else w)"

definition set_forceHitArea :: "rectangle option \<Rightarrow> viewport \<Rightarrow> viewport" where
  "set_forceHitArea a v =
     (case a of Some r \<Rightarrow> v\<lparr>forced_area := Some r, hitArea := r\<rparr>
      | None \<Rightarrow> v\<lparr>forced_area := None,
          hitArea := \<lparr>r_x = 0, r_y = 0, r_width = worldWidth v, r_height = worldHeight v\<rparr>\<rparr>)"

definition new_Viewport :: "victor \<Rightarrow> victor \<Rightarrow> rectangle option \<Rightarrow> jsnum option \<Rightarrow> (victor \<Rightarrow> victor) option \<Rightarrow> viewport" where
  "new_Viewport screen world area thr mapping =
     set_forceHitArea area
       \<lparr>tr = new_TransformStatic, anc = [], screen_size = screen, world_size = world, content_size = \<lparr>vx = 0, vy = 0\<rparr>,
        forced_area = None, hitArea = \<lparr>r_x = 0, r_y = 0, r_width = 0, r_height = 0\<rparr>,
        threshold = (case thr of None \<Rightarrow> 5 | Some t \<Rightarrow> t), interaction = mapping, leftDown = False, touches = [],
        tracked = [], vp_last = \<lparr>vx = NaN, vy = NaN\<rparr>, clickedAvailable = False, vp_pause = False, dirty = False,
        pluginsList = [], p_drag = None, p_pinch = None, p_wheel = None, p_follow = None, p_mouseEdges = None,
        p_decelerate = None, p_bounce = None, p_snapZoom = None, p_clampZoom = None, p_snap = None, p_clamp = None,
        emitted = []\<rparr>"

section \<open>Installing, pausing and resuming plugins\<close>

definition Viewport_drag :: "drag \<Rightarrow> viewport \<Rightarrow> viewport" where
  "Viewport_drag d v = pluginsSort (v\<lparr>p_drag := Some d\<rparr>)"

text \<open>The constructor of a clamp clamps, before the clamp is installed.\<close>

definition Viewport_clamp :: "clamp \<Rightarrow> viewport \<Rightarrow> viewport" where
  "Viewport_clamp c v = pluginsSort ((Clamp_update c v)\<lparr>p_clamp := Some c\<rparr>)"

definition Viewport_decelerate :: "decelerate \<Rightarrow> viewport \<Rightarrow> viewport" where
  "Viewport_decelerate d v = pluginsSort (v\<lparr>p_decelerate := Some d\<rparr>)"

definition Viewport_bounce :: "bounce \<Rightarrow> viewport \<Rightarrow> viewport" where
  "Viewport_bounce b v = pluginsSort (v\<lparr>p_bounce := Some b\<rparr>)"

definition Viewport_pinch :: "pinch \<Rightarrow> viewport \<Rightarrow> viewport" where
  "Viewport_pinch p v = pluginsSort (v\<lparr>p_pinch := Some p\<rparr>)"

definition Viewport_snap :: "snap + exn \<Rightarrow> viewport \<Rightarrow> viewport result" where
  "Viewport_snap r v = (case r of Inl s \<Rightarrow> ok (pluginsSort (v\<lparr>p_snap := Some s\<rparr>)) | Inr x \<Rightarrow> throw x v)"

definition Viewport_snapZoom :: "(viewport \<Rightarrow> (snap_zoom \<times> viewport) + exn) \<Rightarrow> viewport \<Rightarrow> viewport result" where
  "Viewport_snapZoom new v =
     (case new v of Inl (s, w) \<Rightarrow> ok (pluginsSort (w\<lparr>p_snapZoom := Some s\<rparr>)) | Inr x \<Rightarrow> throw x v)"

definition Viewport_follow :: "follow \<Rightarrow> viewport \<Rightarrow> viewport" where
  "Viewport_follow f v = pluginsSort (v\<lparr>p_follow := Some f\<rparr>)"

definition Viewport_wheel :: "wheel \<Rightarrow> viewport \<Rightarrow> viewport" where
  "Viewport_wheel w v = pluginsSort (v\<lparr>p_wheel := Some w\<rparr>)"

text \<open>The options of a zoom clamp are read without a default.\<close>

definition Viewport_clampZoom :: "(jsnum \<times> jsnum \<times> jsnum \<times> jsnum) option \<Rightarrow> viewport \<Rightarrow> viewport result" where
  "Viewport_clampZoom opts v =
     (case opts of None \<Rightarrow> throw (TypeError ''options is undefined'') v
      | Some (minw, minh, maxw, maxh) \<Rightarrow> ok (pluginsSort (v\<lparr>p_clampZoom := Some (new_ClampZoom minw minh maxw maxh)\<rparr>)))"

definition Viewport_mouseEdges :: "mouse_edges \<Rightarrow> viewport \<Rightarrow> viewport" where
  "Viewport_mouseEdges m v = pluginsSort (v\<lparr>p_mouseEdges := Some m\<rparr>)"

definition pausePlugin :: "string \<Rightarrow> viewport \<Rightarrow> viewport" where
  "pausePlugin name v =
     (if name = ''drag'' then v\<lparr>p_drag := map_option (\<lambda>p. p\<lparr>dr_paused := True\<rparr>) (p_drag v)\<rparr>
      else if name = ''pinch'' then v\<lparr>p_pinch := map_option (\<lambda>p. p\<lparr>pi_paused := True\<rparr>) (p_pinch v)\<rparr>
      else if name = ''wheel'' then v\<lparr>p_wheel := map_option (\<lambda>p. p\<lparr>wh_paused := True\<rparr>) (p_wheel v)\<rparr>
      else if name = ''follow'' then v\<lparr>p_follow := map_option (\<lambda>p. p\<lparr>fo_paused := True\<rparr>) (p_follow v)\<rparr>
      else if name = ''mouse-edges'' then v\<lparr>p_mouseEdges := map_option (\<lambda>p. p\<lparr>me_paused := True\<rparr>) (p_mouseEdges v)\<rparr>
      else if name = ''decelerate'' then v\<lparr>p_decelerate := map_option (\<lambda>p. p\<lparr>de_paused := True\<rparr>) (p_decelerate v)\<rparr>
      else if name = ''bounce'' then v\<lparr>p_bounce := map_option (\<lambda>p. p\<lparr>bo_paused := True\<rparr>) (p_bounce v)\<rparr>
      else if name = ''snap-zoom'' then v\<lparr>p_snapZoom := map_option (\<lambda>p. p\<lparr>sz_paused := True\<rparr>) (p_snapZoom v)\<rparr>
      else if name = ''clamp-zoom'' then v\<lparr>p_clampZoom := map_option (\<lambda>p. p\<lparr>cz_paused := True\<rparr>) (p_clampZoom v)\<rparr>
      else if name = ''snap'' then v\<lparr>p_snap := map_option (\<lambda>p. p\<lparr>sn_paused := True\<rparr>) (p_snap v)\<rparr>
      else if name = ''clamp'' then v\<lparr>p_clamp := map_option (\<lambda>p. p\<lparr>cl_paused := True\<rparr>) (p_clamp v)\<rparr>
      else v)"

definition resumePlugin :: "string \<Rightarrow> viewport \<Rightarrow> viewport" where
  "resumePlugin name v =
     (if name = ''drag'' then v\<lparr>p_drag := map_option Drag_resume (p_drag v)\<rparr>
      else if name = ''pinch'' then v\<lparr>p_pinch := map_option (\<lambda>p. p\<lparr>pi_paused := False\<rparr>) (p_pinch v)\<rparr>
      else if name = ''wheel'' then v\<lparr>p_wheel := map_option (\<lambda>p. p\<lparr>wh_paused := False\<rparr>) (p_wheel v)\<rparr>
      else if name = ''follow'' then v\<lparr>p_follow := map_option (\<lambda>p. p\<lparr>fo_paused := False\<rparr>) (p_follow v)\<rparr>
      else if name = ''mouse-edges'' then v\<lparr>p_mouseEdges := map_option (\<lambda>p. p\<lparr>me_paused := False\<rparr>) (p_mouseEdges v)\<rparr>
      else if name = ''decelerate'' then v\<lparr>p_decelerate := map_option (\<lambda>p. p\<lparr>de_paused := False\<rparr>) (p_decelerate v)\<rparr>
      else if name = ''bounce'' then v\<lparr>p_bounce := map_option (\<lambda>p. p\<lparr>bo_paused := False\<rparr>) (p_bounce v)\<rparr>
      else if name = ''snap-zoom'' then v\<lparr>p_snapZoom := map_option SnapZoom_resume (p_snapZoom v)\<rparr>
      else if name = ''clamp-zoom'' then v\<lparr>p_clampZoom := map_option (\<lambda>p. p\<lparr>cz_paused := False\<rparr>) (p_clampZoom v)\<rparr>
      else if name = ''snap'' then v\<lparr>p_snap := map_option (\<lambda>p. p\<lparr>sn_paused := False\<rparr>) (p_snap v)\<rparr>
      else if name = ''clamp'' then v\<lparr>p_clamp := map_option (\<lambda>p. p\<lparr>cl_paused := False\<rparr>) (p_clamp v)\<rparr>
      else v)"

end
