(* ===== verification/ViewportProps.thy ===== *)
theory ViewportProps
  imports ViewportEvents
begin

text \<open>What the pan and zoom of \<^verbatim>\<open>js/pixi-viewport.js\<close> guarantee.\<close>

section \<open>A viewport without rotation\<close>

lemma update_keeps_placement [simp]:
  "t_position (TransformStatic_updateTransform p t) = t_position t"
  "t_scale (TransformStatic_updateTransform p t) = t_scale t"
  "t_pivot (TransformStatic_updateTransform p t) = t_pivot t"
  "t_skew (TransformStatic_updateTransform p t) = t_skew t"
  "t_rotation (TransformStatic_updateTransform p t) = t_rotation t"
  by (simp_all add: TransformStatic_updateTransform_def TransformStatic_updateLocalTransform_def Let_def)

lemma placed_foldr: "placed xs = foldr Matrix_append (map placement xs) Matrix_identity"
  by (induction xs) simp_all

lemma placed_cong: "map placement xs = map placement ys \<Longrightarrow> placed xs = placed ys"
  by (simp only: placed_foldr)

text \<open>
  The viewport stands at \<open>(x, y)\<close> with scales \<open>sx\<close> and \<open>sy\<close> below ancestors that only move it by
  \<open>(ax, ay)\<close>: the stage of the map does not even do that.
\<close>

definition stands :: "real \<Rightarrow> real \<Rightarrow> real \<Rightarrow> real \<Rightarrow> real \<Rightarrow> real \<Rightarrow> viewport \<Rightarrow> bool" where
  "stands ax ay x y sx sy v \<longleftrightarrow> t_position (tr v) = vec x y \<and> t_scale (tr v) = vec sx sy
     \<and> t_pivot (tr v) = vec 0 0 \<and> t_skew (tr v) = vec 0 0 \<and> t_rotation (tr v) = 0
     \<and> linked (tr v # anc v) \<and> placed (anc v) = mat 1 0 0 1 ax ay"

lemma stands_placed:
  "stands ax ay x y sx sy v \<Longrightarrow> placed (tr v # anc v) = mat sx 0 0 sy (x + ax) (y + ay)"
  by (simp add: stands_def placement_def Matrix_setTransform_def Matrix_append_def Let_def)

lemma updated_branch:
  assumes "linked (t # ancs)"
  shows "parent_of (updated False (t # ancs)) =
      TransformStatic_updateTransform (parent_of (recursivePostUpdateTransform ancs))
        (TransformStatic_updateTransform (parent_of (recursivePostUpdateTransform ancs)) t)"
    and "tl (updated False (t # ancs)) = recursivePostUpdateTransform ancs"
    and "linked (updated False (t # ancs))" and "updated False (t # ancs) \<noteq> []"
proof -
  let ?anc = "recursivePostUpdateTransform ancs"
  have l: "linked (recursivePostUpdateTransform (t # ancs))" using recursivePostUpdateTransform_ok(1) [OF assms] .
  then have u: "local_ok (TransformStatic_updateTransform (parent_of ?anc) t)"
    "link_ok (TransformStatic_updateTransform (parent_of ?anc) t) (parent_of ?anc)" "linked ?anc"
    by (simp_all add: Let_def)
  show "parent_of (updated False (t # ancs)) =
      TransformStatic_updateTransform (parent_of ?anc) (TransformStatic_updateTransform (parent_of ?anc) t)"
    and "tl (updated False (t # ancs)) = ?anc" and "updated False (t # ancs) \<noteq> []"
    by (simp_all add: updated_def Let_def)
  show "linked (updated False (t # ancs))"
    using u updateTransform_ok(1,2) [OF u(1,2) linked_local_ok [OF u(3)] refl] by (simp add: updated_def Let_def)
qed

lemma stands_with_branch:
  assumes "stands ax ay x y sx sy v"
  shows "stands ax ay x y sx sy (snd (with_branch (p, updated False (tr v # anc v)) v))"
proof -
  have l: "linked (tr v # anc v)" and la: "linked (anc v)" using assms by (simp_all add: stands_def)
  note u = updated_branch [OF l]
  have "updated False (tr v # anc v) = parent_of (updated False (tr v # anc v)) # recursivePostUpdateTransform (anc v)"
    using u(2,4) by (cases "updated False (tr v # anc v)") simp_all
  moreover have "placed (recursivePostUpdateTransform (anc v)) = placed (anc v)"
    by (rule placed_cong) (rule recursivePostUpdateTransform_ok(4) [OF la])
  ultimately show ?thesis using assms u by (simp add: stands_def with_branch_def)
qed

lemma stands_toGlobal:
  assumes "stands ax ay x y sx sy v"
  shows "fst (vp_toGlobal (vec p q) v) = vec (sx * p + x + ax) (sy * q + y + ay)"
    and "stands ax ay x y sx sy (snd (vp_toGlobal (vec p q) v))"
proof -
  have l: "linked (tr v # anc v)" using assms by (simp add: stands_def)
  show "fst (vp_toGlobal (vec p q) v) = vec (sx * p + x + ax) (sy * q + y + ay)"
    using updated_ok(1) [OF l] stands_placed [OF assms]
    by (simp add: vp_toGlobal_def with_branch_def DisplayObject_toGlobal_def Let_def Matrix_apply_mat)
  show "stands ax ay x y sx sy (snd (vp_toGlobal (vec p q) v))"
    using stands_with_branch [OF assms] by (simp add: vp_toGlobal_def DisplayObject_toGlobal_def Let_def)
qed

lemma stands_toLocal:
  assumes "stands ax ay x y sx sy v" and "sx \<noteq> 0" and "sy \<noteq> 0"
  shows "fst (vp_toLocal (vec p q) v) = vec ((p - x - ax) / sx) ((q - y - ay) / sy)"
    and "stands ax ay x y sx sy (snd (vp_toLocal (vec p q) v))"
proof -
  have l: "linked (tr v # anc v)" using assms by (simp add: stands_def)
  have d: "sx * sy = sx * sy - 0 * 0" "sx * sy \<noteq> 0" using assms by simp_all
  show "fst (vp_toLocal (vec p q) v) = vec ((p - x - ax) / sx) ((q - y - ay) / sy)"
    using updated_ok(1) [OF l] stands_placed [OF assms(1)] assms(2,3)
    by (simp add: vp_toLocal_def with_branch_def DisplayObject_toLocal_def Let_def Matrix_applyInverse_mat [OF d] field_simps)
  show "stands ax ay x y sx sy (snd (vp_toLocal (vec p q) v))"
    using stands_with_branch [OF assms(1)] by (simp add: vp_toLocal_def DisplayObject_toLocal_def Let_def)
qed

lemma linked_head:
  assumes "linked (t # ancs)" and "good_edit t u"
  shows "linked (u # ancs)"
  using assms by (auto intro: good_edit_ok)

lemma good_set_position [intro]:
  "p = t_position t \<Longrightarrow> good_edit t (observed put_position TransformStatic_onChange (ObservablePoint_set a b p) t)"
  "p = t_scale t \<Longrightarrow> good_edit t (observed put_scale TransformStatic_onChange (ObservablePoint_set a b p) t)"
  by (simp_all add: observed_def ObservablePoint_set_def TransformStatic_onChange_def good_edit_def same_caches_def
      trig_ok_def Let_def)

lemma ObservablePoint_set_Fin [simp]:
  "fst (ObservablePoint_set (Fin a) (Some (Fin b)) p) = vec a b" "fst (ObservablePoint_set (Fin a) None p) = vec a a"
  by (cases p; auto simp: ObservablePoint_set_def Point_set_def Let_def dest!: js_eq_same)+

lemma observed_fields [simp]:
  "t_position (observed put_position TransformStatic_onChange r t) = fst r"
  "t_scale (observed put_position TransformStatic_onChange r t) = t_scale t"
  "t_pivot (observed put_position TransformStatic_onChange r t) = t_pivot t"
  "t_skew (observed put_position TransformStatic_onChange r t) = t_skew t"
  "t_rotation (observed put_position TransformStatic_onChange r t) = t_rotation t"
  "t_position (observed put_scale TransformStatic_onChange r t) = t_position t"
  "t_scale (observed put_scale TransformStatic_onChange r t) = fst r"
  "t_pivot (observed put_scale TransformStatic_onChange r t) = t_pivot t"
  "t_skew (observed put_scale TransformStatic_onChange r t) = t_skew t"
  "t_rotation (observed put_scale TransformStatic_onChange r t) = t_rotation t"
  by (simp_all add: observed_def TransformStatic_onChange_def)

lemma stands_moves:
  assumes "stands ax ay x y sx sy v"
  shows "stands ax ay a y sx sy (set_x (Fin a) v)" and "stands ax ay x a sx sy (set_y (Fin a) v)"
    and "stands ax ay x y a sy (set_scalex (Fin a) v)" and "stands ax ay x y sx a (set_scaley (Fin a) v)"
    and "stands ax ay a b sx sy (set_position (Fin a) (Fin b) v)"
    and "stands ax ay x y a a (set_scale (Fin a) None v)"
    and "stands ax ay x y sx sy (emit n k v)"
  using assms by (auto simp: stands_def set_x_def set_y_def set_scalex_def set_scaley_def set_position_def set_scale_def
      emit_def simp del: linked.simps intro: linked_head intro!: good_set_position)

section \<open>Screen and world\<close>

lemma stands_position: "stands ax ay x y sx sy v \<Longrightarrow> vp_x v = Fin x \<and> vp_y v = Fin y \<and> vp_scale_x v = Fin sx \<and> vp_scale_y v = Fin sy"
  by (simp add: stands_def)

lemma keep_point_stands:
  assumes "stands ax ay x y sx sy v"
  shows "stands ax ay (px - sx * ox - ax) (py - sy * oy - ay) sx sy (keep_point (vec px py) (vec ox oy) v)"
proof -
  define v1 where "v1 = snd (vp_toGlobal (vec ox oy) v)"
  note g = stands_toGlobal [OF assms, of ox oy, folded v1_def]
  have e: "vp_toGlobal (vec ox oy) v = (vec (sx * ox + x + ax) (sy * oy + y + ay), v1)"
    using g(1) by (cases "vp_toGlobal (vec ox oy) v") (simp add: v1_def)
  have "stands ax ay (px - sx * ox - ax) y sx sy (set_x (Fin (px - sx * ox - ax)) v1)"
    using g(2) by (rule stands_moves)
  from stands_moves(2) [OF this, of "py - sy * oy - ay"] stands_position [OF this]
  show ?thesis using stands_position [OF g(2)] by (simp add: keep_point_def e Let_def algebra_simps)
qed

lemma no_clampZoom [simp]:
  "p_clampZoom (set_x a v) = p_clampZoom v" "p_clampZoom (set_y a v) = p_clampZoom v"
  "p_clampZoom (set_scalex a v) = p_clampZoom v" "p_clampZoom (set_scaley a v) = p_clampZoom v"
  "p_clampZoom (emit n k v) = p_clampZoom v" "p_clampZoom (snd (with_branch r v)) = p_clampZoom v"
  "p_clampZoom (snd (vp_toLocal p v)) = p_clampZoom v"
  by (simp_all add: set_x_def set_y_def set_scalex_def set_scaley_def emit_def with_branch_def vp_toLocal_def)

text \<open>C20: The wheel zooms about the pointer: on a viewport that is not turned, without a clamp on the
  zoom and without a centre set for the wheel, whatever its position and scales and the direction of the
  wheel, the world point under the pointer is the same before and after, and both scales change by the
  factor that the plugin's percentage gives.\<close>

theorem wheel_keeps_point:
  assumes v: "stands ax ay x y sx sy v" "sx \<noteq> 0" "sy \<noteq> 0" "p_clampZoom v = None"
    and w: "\<not> wh_paused w" "wh_center w = None" "wh_percent w = Fin r" "0 < r" "r < 1"
    and e: "getPointerPosition (we_client e) v = vec px py"
    and change: "change = (if wh_reverse w = (0 < deltaY e) then 1 + r else 1 - r)"
  shows "fst (Viewport_toWorld (vec px py) (Wheel_wheel e w v)) = fst (Viewport_toWorld (vec px py) v)
    \<and> vp_scale_x (Wheel_wheel e w v) = Fin (sx * change) \<and> vp_scale_y (Wheel_wheel e w v) = Fin (sy * change)"
proof -
  define ox oy where "ox = (px - x - ax) / sx" and "oy = (py - y - ay) / sy"
  define v1 where "v1 = snd (vp_toLocal (vec px py) v)"
  note l = stands_toLocal [OF v(1-3), of px py, folded v1_def]
  have e1: "vp_toLocal (vec px py) v = (vec ox oy, v1)"
    using l(1) by (cases "vp_toLocal (vec px py) v") (simp add: v1_def ox_def oy_def)
  have f: "(if wh_reverse w then if 0 < deltaY e then 1 + wh_percent w else 1 - wh_percent w
      else if 0 < deltaY e then 1 - wh_percent w else 1 + wh_percent w) = Fin change"
    by (simp add: change w)
  define v2 where "v2 = set_scalex (Fin (sx * change)) v1"
  define v3 where "v3 = set_scaley (Fin (sy * change)) v2"
  define v4 where "v4 = emit ''zoomed'' ''wheel'' v3"
  have s2: "stands ax ay x y (sx * change) sy v2" unfolding v2_def by (rule stands_moves(3) [OF l(2)])
  have "stands ax ay x y (sx * change) (sy * change) v3" unfolding v3_def by (rule stands_moves(4) [OF s2])
  then have s4: "stands ax ay x y (sx * change) (sy * change) v4" unfolding v4_def by (rule stands_moves)
  have n: "p_clampZoom v4 = None" using v(4) by (simp add: v4_def v3_def v2_def v1_def)
  have "Wheel_wheel e w v = emit ''wheel'' '''' (emit ''moved'' ''wheel'' (keep_point (vec px py) (vec ox oy) v4))"
    using stands_position [OF l(2)] stands_position [OF s2] w(1,2) n
    by (simp add: Wheel_wheel_def f e e1 v4_def v3_def v2_def clamp_zoom_now_def)
  then have fin: "stands ax ay (px - sx * change * ox - ax) (py - sy * change * oy - ay) (sx * change) (sy * change) (Wheel_wheel e w v)"
    using stands_moves(7) [OF stands_moves(7) [OF keep_point_stands [OF s4]]] by simp
  have c: "change \<noteq> 0" using w(4,5) by (simp add: change)
  have "fst (vp_toLocal (vec px py) (Wheel_wheel e w v)) = vec ox oy"
    using stands_toLocal(1) [OF fin, of px py] v(2,3) c by simp
  then show ?thesis using e1 stands_position [OF fin] by (simp add: Viewport_toWorld_def)
qed

text \<open>The viewport of the examples: the one of the map, below an unmoved stage.\<close>

definition example_viewport :: viewport where
  "example_viewport = (new_Viewport (vec 800 600) (vec 1000 1000) None None None)\<lparr>anc := [new_TransformStatic]\<rparr>"

lemma example_stands: "stands 0 0 0 0 1 1 example_viewport"
  by (simp add: stands_def example_viewport_def new_Viewport_def set_forceHitArea_def new_TransformStatic_def
      placement_def Matrix_setTransform_def Matrix_append_def Matrix_identity_def Let_def local_ok_def link_ok_def
      trig_ok_def local_matrix_def world_matrix_def parent_of_def)

theorem wheel_keeps_point_witness:
  "fst (Viewport_toWorld (vec 30 40) (Wheel_wheel \<lparr>we_client = vec 30 40, deltaX = 0, deltaY = 5\<rparr> (new_Wheel NaN None False) example_viewport))
    = fst (Viewport_toWorld (vec 30 40) example_viewport)"
  using wheel_keeps_point [of 0 0 0 0 1 1 example_viewport "new_Wheel NaN None False" "1 / 10"
      "\<lparr>we_client = vec 30 40, deltaX = 0, deltaY = 5\<rparr>" 30 40 "1 - 1 / 10"] example_stands
  by (simp add: new_Wheel_def or_number_def example_viewport_def new_Viewport_def set_forceHitArea_def getPointerPosition_def)

section \<open>Moves and fits\<close>

lemma stands_frame [simp]:
  "stands ax ay x y sx sy (v\<lparr>dirty := d\<rparr>) \<longleftrightarrow> stands ax ay x y sx sy v"
  "stands ax ay x y sx sy (v\<lparr>p_decelerate := dd\<rparr>) \<longleftrightarrow> stands ax ay x y sx sy v"
  by (simp_all add: stands_def)

text \<open>Without bounce, clamp and zoom clamp a manual move only stops the deceleration.\<close>

definition unclamped :: "viewport \<Rightarrow> bool" where
  "unclamped v \<longleftrightarrow> p_bounce v = None \<and> p_clamp v = None \<and> p_clampZoom v = None"

lemma unclamped_reset:
  assumes "unclamped v"
  shows "Viewport_reset v = v\<lparr>p_decelerate := map_option (\<lambda>d. d\<lparr>de_x := 0, de_y := 0\<rparr>) (p_decelerate v), dirty := True\<rparr>"
  using assms by (cases "p_decelerate v") (simp_all add: Viewport_reset_def unclamped_def Decelerate_reset_def)

lemma unclamped_frame [simp]:
  "unclamped (set_x a v) = unclamped v" "unclamped (set_y a v) = unclamped v"
  "unclamped (set_scalex a v) = unclamped v" "unclamped (set_scaley a v) = unclamped v"
  "unclamped (set_position a b v) = unclamped v" "unclamped (set_scale a c v) = unclamped v"
  "screen_size (set_x a v) = screen_size v" "screen_size (set_y a v) = screen_size v"
  "screen_size (set_scalex a v) = screen_size v" "screen_size (set_scaley a v) = screen_size v"
  "screen_size (set_position a b v) = screen_size v" "screen_size (set_scale a c v) = screen_size v"
  by (simp_all add: unclamped_def set_x_def set_y_def set_scalex_def set_scaley_def set_position_def set_scale_def)

lemma moveCenter_stands:
  assumes "stands ax ay x y sx sy v" and "sx \<noteq> 0" and "sy \<noteq> 0" and "screen_size v = vec w h" and "unclamped v"
  shows "stands ax ay ((w / sx / 2 - p) * sx) ((h / sy / 2 - q) * sy) sx sy (moveCenter (vec p q) v)"
    and "screen_size (moveCenter (vec p q) v) = vec w h"
    and "unclamped (moveCenter (vec p q) v)"
    and "\<not> decelerating_x (moveCenter (vec p q) v)" and "\<not> decelerating_y (moveCenter (vec p q) v)"
proof -
  note p = stands_position [OF assms(1)]
  define u where "u = set_position (Fin ((w / sx / 2 - p) * sx)) (Fin ((h / sy / 2 - q) * sy)) v"
  have u: "stands ax ay ((w / sx / 2 - p) * sx) ((h / sy / 2 - q) * sy) sx sy u"
    unfolding u_def by (rule stands_moves(5) [OF assms(1)])
  have "unclamped u" "screen_size u = vec w h" using assms(4,5) by (simp_all add: u_def)
  moreover have "moveCenter (vec p q) v = Viewport_reset u"
    using p assms(2-4) by (simp add: moveCenter_def worldScreenWidth_def worldScreenHeight_def u_def)
  ultimately show "stands ax ay ((w / sx / 2 - p) * sx) ((h / sy / 2 - q) * sy) sx sy (moveCenter (vec p q) v)"
    and "screen_size (moveCenter (vec p q) v) = vec w h" and "unclamped (moveCenter (vec p q) v)"
    and "\<not> decelerating_x (moveCenter (vec p q) v)" and "\<not> decelerating_y (moveCenter (vec p q) v)"
    using u by (simp_all add: unclamped_reset unclamped_def decelerating_x_def decelerating_y_def split: option.split)
qed

lemma stands_center:
  assumes "stands ax ay x y sx sy v" and "sx \<noteq> 0" and "sy \<noteq> 0" and "screen_size v = vec w h"
  shows "vp_center v = vec (w / sx / 2 - x / sx) (h / sy / 2 - y / sy)"
  using stands_position [OF assms(1)] assms(2-4)
  by (simp add: vp_center_def worldScreenWidth_def worldScreenHeight_def)

text \<open>Moving the centre and reading it back gives the point asked for, and the deceleration
  has stopped; fitting a width about the centre shows exactly that width, with equal scales, and
  keeps the centre.\<close>

theorem moveCenter_fitWidth:
  assumes v: "stands ax ay x y sx sy v" "sx \<noteq> 0" "sy \<noteq> 0" "screen_size v = vec w h" "w \<noteq> 0" "unclamped v"
    and width: "width \<noteq> 0"
  shows "vp_center (moveCenter (vec p q) v) = vec p q
    \<and> \<not> decelerating_x (moveCenter (vec p q) v) \<and> \<not> decelerating_y (moveCenter (vec p q) v)
    \<and> worldScreenWidth (fitWidth (Fin width) True v) = Fin width
    \<and> vp_scale_y (fitWidth (Fin width) True v) = vp_scale_x (fitWidth (Fin width) True v)
    \<and> vp_center (fitWidth (Fin width) True v) = vp_center v"
proof -
  note m = moveCenter_stands [OF v(1-4,6)]
  have "vp_center (moveCenter (vec p q) v) = vec p q"
    using stands_center [OF m(1) v(2,3) m(2), of p q] v(2,3) by simp
  moreover
  define s where "s = w / width"
  have s: "s \<noteq> 0" using v(5) width by (simp add: s_def)
  define v2 where "v2 = set_scaley (Fin s) (set_scalex (Fin s) v)"
  have "stands ax ay x y s sy (set_scalex (Fin s) v)" by (rule stands_moves(3) [OF v(1)])
  then have v2: "stands ax ay x y s s v2" unfolding v2_def by (rule stands_moves(4))
  have "screen_size v2 = vec w h" "unclamped v2" using v by (simp_all add: v2_def)
  note m2 = moveCenter_stands [OF v2 s s this]
  have c: "vp_center v = vec (w / sx / 2 - x / sx) (h / sy / 2 - y / sy)" by (rule stands_center [OF v(1-4)])
  have "fitWidth (Fin width) True v = moveCenter (vp_center v) v2"
    using v(4) width stands_position [OF stands_moves(3) [OF v(1)]]
    by (simp add: fitWidth_def recentred_def fit_width_def screenWidth_def v2_def s_def)
  then have f: "fitWidth (Fin width) True v = moveCenter (vec (w / sx / 2 - x / sx) (h / sy / 2 - y / sy)) v2"
    by (simp add: c)
  have "worldScreenWidth (fitWidth (Fin width) True v) = Fin width"
    using stands_position [OF m2(1)] m2(2) s v(5) by (simp add: f worldScreenWidth_def s_def)
  moreover have "vp_scale_y (fitWidth (Fin width) True v) = vp_scale_x (fitWidth (Fin width) True v)"
    using stands_position [OF m2(1)] by (simp add: f)
  moreover have "vp_center (fitWidth (Fin width) True v) = vp_center v"
    using stands_center [OF m2(1) s s m2(2)] s c by (simp add: f)
  ultimately show ?thesis using m(4,5) by blast
qed

theorem moveCenter_fitWidth_witness:
  "vp_center (moveCenter (vec 100 200) example_viewport) = vec 100 200"
  using moveCenter_fitWidth [of 0 0 0 0 1 1 example_viewport 800 600 400 100 200] example_stands
  by (simp add: example_viewport_def new_Viewport_def set_forceHitArea_def unclamped_def)

section \<open>Clamps\<close>

text \<open>One axis in screen coordinates: a large world covers the screen, a small one is on it.\<close>

definition axis_inside :: "real \<Rightarrow> real \<Rightarrow> real \<Rightarrow> real \<Rightarrow> bool" where
  "axis_inside screen world s x \<longleftrightarrow>
     (if world * s < screen then 0 \<le> x \<and> x + world * s \<le> screen else x \<le> 0 \<and> screen \<le> x + world * s)"

lemma sizes_frame [simp]:
  "world_size (set_x a v) = world_size v" "world_size (set_y a v) = world_size v"
  "screen_size (emit n k v) = screen_size v" "world_size (emit n k v) = world_size v"
  "screen_size (stop_x v) = screen_size v" "world_size (stop_x v) = world_size v"
  "screen_size (stop_y v) = screen_size v" "world_size (stop_y v) = world_size v"
  by (simp_all add: set_x_def set_y_def emit_def stop_x_def stop_y_def)

lemma stands_stop [simp]:
  "stands ax ay x y sx sy (stop_x v) = stands ax ay x y sx sy v"
  "stands ax ay x y sx sy (stop_y v) = stands ax ay x y sx sy v"
  "stands ax ay x y sx sy (emit n k v) = stands ax ay x y sx sy v"
  by (simp_all add: stop_x_def stop_y_def stands_def emit_def)

lemma edge_value_simps [simp]:
  "edge_value (World_edge b) whole = (if b then whole else 0)" "edge_value (Edge_at a) whole = a"
  by (simp_all add: edge_value_def)

definition all_edges :: "clamp \<Rightarrow> bool" where
  "all_edges c \<longleftrightarrow> cl_left c = World_edge True \<and> cl_right c = World_edge True
     \<and> cl_top c = World_edge True \<and> cl_bottom c = World_edge True"

text \<open>Where the clamp puts one axis.\<close>

definition axis_clamped :: "int \<Rightarrow> real \<Rightarrow> real \<Rightarrow> real \<Rightarrow> real \<Rightarrow> real" where
  "axis_clamped u screen world s x =
     (if world * s < screen
      then (if u = - 1 then 0 else if u = 1 then screen - world * s else (screen - world * s) / 2)
      else let x1 = (if 0 < x then 0 else x) in if x1 + world * s < screen then screen - world * s else x1)"

lemma axis_clamped_inside: "axis_inside screen world s (axis_clamped u screen world s x)"
  by (auto simp: axis_inside_def axis_clamped_def Let_def field_simps)

lemma Clamp_x_axis:
  assumes v: "stands ax ay x y sx sy v" "0 < sx" "screen_size v = vec w h" "world_size v = vec W H" "W \<noteq> 0"
    "cl_left c = World_edge True \<and> cl_right c = World_edge True"
  shows "stands ax ay (axis_clamped (fst (cl_underflow c)) w W sx x) y sx sy (Clamp_x c v)
    \<and> screen_size (Clamp_x c v) = vec w h \<and> world_size (Clamp_x c v) = vec W H"
proof -
  note p = stands_position [OF v(1)]
  note defs = screenWorldWidth_def screenWidth_def worldWidth_def Clamp_x_def Let_def
  show ?thesis
  proof (cases "W * sx < w")
    case True
    define x' where "x' = axis_clamped (fst (cl_underflow c)) w W sx x"
    have "underflow_x (fst (cl_underflow c)) v = Fin x'"
      using p v(3,4) True by (simp add: underflow_x_def defs x'_def axis_clamped_def)
    then have "Clamp_x c v = (if x \<noteq> x' then emit ''moved'' ''clamp-x'' (set_x (Fin x') v) else v)"
      using v(3,4,6) p True by (simp add: defs)
    then show ?thesis using v(1,3,4) stands_moves(1) [OF v(1), of x'] by (auto simp: x'_def [symmetric])
  next
    case False
    define x1 v1 where "x1 = (if 0 < x then 0 else x)" and "v1 = (if 0 < x then stop_x (set_x (Fin 0) v) else v)"
    have s1: "stands ax ay x1 y sx sy v1" "screen_size v1 = vec w h" "world_size v1 = vec W H"
      using v(1,3,4) stands_moves(1) [OF v(1), of 0] by (simp_all add: x1_def v1_def)
    have l: "vp_left v < 0 \<longleftrightarrow> 0 < x" using p v(2) by (simp add: vp_left_def zero_less_divide_iff)
    have "W < w / sx - x1 / sx \<longleftrightarrow> x1 + W * sx < w" using v(2) by (simp add: field_simps)
    then have r: "Fin W < vp_right v1 \<longleftrightarrow> x1 + W * sx < w"
      using stands_position [OF s1(1)] s1(2) v(2) by (simp add: vp_right_def worldScreenWidth_def)
    have "Clamp_x c v = (let v2 = if x1 + W * sx < w then stop_x (set_x (Fin (w - W * sx)) v1) else v1
        in if 0 < x \<or> x1 + W * sx < w then emit ''moved'' ''clamp-x'' v2 else v2)"
      using v(3-6) p s1 l r False stands_position [OF s1(1)]
      by (cases "0 < x") (simp_all add: defs v1_def)
    moreover have "axis_clamped (fst (cl_underflow c)) w W sx x = (if x1 + W * sx < w then w - W * sx else x1)"
      using False by (simp add: axis_clamped_def x1_def Let_def)
    ultimately show ?thesis
      using s1 stands_moves(1) [OF s1(1), of "w - W * sx"] by (simp add: Let_def)
  qed
qed

lemma Clamp_y_axis:
  assumes v: "stands ax ay x y sx sy v" "0 < sy" "screen_size v = vec w h" "world_size v = vec W H" "H \<noteq> 0"
    "cl_top c = World_edge True \<and> cl_bottom c = World_edge True"
  shows "stands ax ay x (axis_clamped (snd (cl_underflow c)) h H sy y) sx sy (Clamp_y c v)
    \<and> screen_size (Clamp_y c v) = vec w h \<and> world_size (Clamp_y c v) = vec W H"
proof -
  note p = stands_position [OF v(1)]
  note defs = screenWorldHeight_def screenHeight_def worldHeight_def Clamp_y_def Let_def
  show ?thesis
  proof (cases "H * sy < h")
    case True
    define y' where "y' = axis_clamped (snd (cl_underflow c)) h H sy y"
    have "underflow_y (snd (cl_underflow c)) v = Fin y'"
      using p v(3,4) True by (simp add: underflow_y_def defs y'_def axis_clamped_def)
    then have "Clamp_y c v = (if y \<noteq> y' then emit ''moved'' ''clamp-y'' (set_y (Fin y') v) else v)"
      using v(3,4,6) p True by (simp add: defs)
    then show ?thesis using v(1,3,4) stands_moves(2) [OF v(1), of y'] by (auto simp: y'_def [symmetric])
  next
    case False
    define y1 v1 where "y1 = (if 0 < y then 0 else y)" and "v1 = (if 0 < y then stop_y (set_y (Fin 0) v) else v)"
    have s1: "stands ax ay x y1 sx sy v1" "screen_size v1 = vec w h" "world_size v1 = vec W H"
      using v(1,3,4) stands_moves(2) [OF v(1), of 0] by (simp_all add: y1_def v1_def)
    have l: "vp_top v < 0 \<longleftrightarrow> 0 < y" using p v(2) by (simp add: vp_top_def zero_less_divide_iff)
    have "H < h / sy - y1 / sy \<longleftrightarrow> y1 + H * sy < h" using v(2) by (simp add: field_simps)
    then have r: "Fin H < vp_bottom v1 \<longleftrightarrow> y1 + H * sy < h"
      using stands_position [OF s1(1)] s1(2) v(2) by (simp add: vp_bottom_def worldScreenHeight_def)
    have "Clamp_y c v = (let v2 = if y1 + H * sy < h then stop_y (set_y (Fin (h - H * sy)) v1) else v1
        in if 0 < y \<or> y1 + H * sy < h then emit ''moved'' ''clamp-y'' v2 else v2)"
      using v(3-6) p s1 l r False stands_position [OF s1(1)]
      by (cases "0 < y") (simp_all add: defs v1_def)
    moreover have "axis_clamped (snd (cl_underflow c)) h H sy y = (if y1 + H * sy < h then h - H * sy else y1)"
      using False by (simp add: axis_clamped_def y1_def Let_def)
    ultimately show ?thesis
      using s1 stands_moves(2) [OF s1(1), of "h - H * sy"] by (simp add: Let_def)
  qed
qed


text \<open>C22: The clamp on all edges keeps the view in the world: after it a world that is larger than
  the screen covers it, and a smaller one is wholly on it, in both directions and for every
  placement of a small world.\<close>

theorem clamp_covers:
  assumes v: "stands ax ay x y sx sy v" "0 < sx" "0 < sy" "screen_size v = vec w h" "world_size v = vec W H"
    and c: "W \<noteq> 0" "H \<noteq> 0" "all_edges c" "\<not> cl_paused c"
  shows "(if W * sx < w then vp_left (Clamp_update c v) \<le> 0 \<and> Fin W \<le> vp_right (Clamp_update c v)
      else 0 \<le> vp_left (Clamp_update c v) \<and> vp_right (Clamp_update c v) \<le> Fin W)
    \<and> (if H * sy < h then vp_top (Clamp_update c v) \<le> 0 \<and> Fin H \<le> vp_bottom (Clamp_update c v)
      else 0 \<le> vp_top (Clamp_update c v) \<and> vp_bottom (Clamp_update c v) \<le> Fin H)"
proof -
  define x' y' where "x' = axis_clamped (fst (cl_underflow c)) w W sx x" and "y' = axis_clamped (snd (cl_underflow c)) h H sy y"
  have e: "cl_left c = World_edge True \<and> cl_right c = World_edge True" "cl_top c = World_edge True \<and> cl_bottom c = World_edge True"
    using c(3) by (simp_all add: all_edges_def)
  have a: "stands ax ay x' y sx sy (Clamp_x c v)" "screen_size (Clamp_x c v) = vec w h" "world_size (Clamp_x c v) = vec W H"
    unfolding x'_def using Clamp_x_axis [OF v(1,2,4,5) c(1) e(1)] by blast+
  have "stands ax ay x' y' sx sy (Clamp_update c v) \<and> screen_size (Clamp_update c v) = vec w h"
    unfolding y'_def using Clamp_y_axis [OF a(1) v(3) a(2,3) c(2) e(2)] c(4) by (simp add: Clamp_update_def)
  then have p: "vp_left (Clamp_update c v) = Fin (- x' / sx)" "vp_right (Clamp_update c v) = Fin (w / sx - x' / sx)"
    "vp_top (Clamp_update c v) = Fin (- y' / sy)" "vp_bottom (Clamp_update c v) = Fin (h / sy - y' / sy)"
    using v(2,3) stands_position [of ax ay x' y' sx sy "Clamp_update c v"]
    by (simp_all add: vp_left_def vp_right_def vp_top_def vp_bottom_def worldScreenWidth_def worldScreenHeight_def)
  have "axis_inside w W sx x'" "axis_inside h H sy y'" by (simp_all add: x'_def y'_def axis_clamped_inside)
  then show ?thesis using v(2,3) by (simp add: p axis_inside_def field_simps split: if_splits)
qed

theorem clamp_covers_witness:
  "vp_right (Clamp_update (new_Clamp (Some ''all'') None None None None []) (set_x (Fin (- 5000)) example_viewport)) \<le> 1000"
  using clamp_covers [of 0 0 "- 5000" 0 1 1 "set_x (Fin (- 5000)) example_viewport" 800 600 1000 1000
      "new_Clamp (Some ''all'') None None None None []"] stands_moves(1) [OF example_stands, of "- 5000"]
  by (simp add: example_viewport_def new_Viewport_def set_forceHitArea_def all_edges_def new_Clamp_def)

text \<open>Clamping one direction only loses the world: the option \<open>x\<close> makes the other two edges
  false, which is not null and counts as zero, so the clamp moves a view of a large world up until
  nothing of the world is on the screen.\<close>

theorem clamp_x_loses_world:
  assumes v: "stands ax ay x y sx sy v" "0 < sx" "0 < sy" "screen_size v = vec w h" "world_size v = vec W H"
    and c: "W \<noteq> 0" "h \<le> H * sy" "0 < h"
  shows "vp_bottom (Clamp_update (new_Clamp (Some ''x'') l r t b u) v) \<le> 0"
proof -
  let ?c = "new_Clamp (Some ''x'') l r t b u"
  have e: "cl_left ?c = World_edge True \<and> cl_right ?c = World_edge True" "cl_top ?c = World_edge False" "cl_bottom ?c = World_edge False"
    "\<not> cl_paused ?c" by (simp_all add: new_Clamp_def)
  obtain x' where a: "stands ax ay x' y sx sy (Clamp_x ?c v)" "screen_size (Clamp_x ?c v) = vec w h" "world_size (Clamp_x ?c v) = vec W H"
    using Clamp_x_axis [OF v(1,2,4,5) c(1) e(1)] by blast
  define v1 where "v1 = (if 0 < y then stop_y (set_y (Fin 0) (Clamp_x ?c v)) else Clamp_x ?c v)"
  define y1 where "y1 = (if 0 < y then 0 else y)"
  have s1: "stands ax ay x' y1 sx sy v1" "screen_size v1 = vec w h"
    using a stands_moves(2) [OF a(1), of 0] by (simp_all add: v1_def y1_def)
  have b1: "vp_bottom v1 = Fin (h / sy - y1 / sy)"
    using stands_position [OF s1(1)] s1(2) v(3) by (simp add: vp_bottom_def worldScreenHeight_def)
  have t: "vp_top (Clamp_x ?c v) < 0 \<longleftrightarrow> 0 < y"
    using stands_position [OF a(1)] v(3) by (simp add: vp_top_def zero_less_divide_iff)
  define v2 where "v2 = (if 0 < h / sy - y1 / sy then stop_y (set_y (Fin h) v1) else v1)"
  have s2: "vp_bottom v2 \<le> 0"
    using s1 stands_moves(2) [OF s1(1), of h] stands_position [OF stands_moves(2) [OF s1(1), of h]] b1 v(3)
    by (auto simp: v2_def vp_bottom_def worldScreenHeight_def stop_y_def)
  have "Clamp_update ?c v = v2 \<or> Clamp_update ?c v = emit ''moved'' ''clamp-y'' v2"
    using e a c(2) t b1 s1 stands_position [OF a(1)] stands_position [OF s1(1)]
    by (cases "0 < y") (simp_all add: Clamp_update_def Clamp_y_def screenWorldHeight_def screenHeight_def Let_def v2_def v1_def)
  then show ?thesis using s2 by (auto simp: emit_def vp_bottom_def worldScreenHeight_def)
qed

theorem clamp_x_loses_world_witness:
  "vp_bottom (Clamp_update (new_Clamp (Some ''x'') None None None None []) example_viewport) \<le> 0"
  using clamp_x_loses_world [of 0 0 0 0 1 1 example_viewport 800 600 1000 1000] example_stands
  by (simp add: example_viewport_def new_Viewport_def set_forceHitArea_def)

section \<open>Zoom clamps\<close>

lemma fit_width_shows:
  assumes "stands ax ay x y sx sy v" and "screen_size v = vec w h" and "w \<noteq> 0" and "width \<noteq> 0"
  shows "worldScreenWidth (fit_width (Fin width) v) = Fin width"
    and "stands ax ay x y (w / width) (w / width) (fit_width (Fin width) v)"
    and "screen_size (fit_width (Fin width) v) = vec w h"
proof -
  have f: "fit_width (Fin width) v = set_scaley (Fin (w / width)) (set_scalex (Fin (w / width)) v)"
    using assms stands_position [OF stands_moves(3) [OF assms(1)]] by (simp add: fit_width_def screenWidth_def)
  show s: "stands ax ay x y (w / width) (w / width) (fit_width (Fin width) v)"
    unfolding f by (intro stands_moves(4)) (rule stands_moves(3) [OF assms(1)])
  show z: "screen_size (fit_width (Fin width) v) = vec w h" using assms(2) by (simp add: f)
  show "worldScreenWidth (fit_width (Fin width) v) = Fin width"
    using stands_position [OF s] z assms(3,4) by (simp add: worldScreenWidth_def)
qed

lemma fit_height_shows:
  assumes "stands ax ay x y sx sy v" and "screen_size v = vec w h" and "h \<noteq> 0" and "height \<noteq> 0"
  shows "worldScreenHeight (fit_height (Fin height) v) = Fin height"
    and "stands ax ay x y (h / height) (h / height) (fit_height (Fin height) v)"
    and "screen_size (fit_height (Fin height) v) = vec w h"
proof -
  have f: "fit_height (Fin height) v = set_scalex (Fin (h / height)) (set_scaley (Fin (h / height)) v)"
    using assms stands_position [OF stands_moves(4) [OF assms(1)]] by (simp add: fit_height_def screenHeight_def)
  show s: "stands ax ay x y (h / height) (h / height) (fit_height (Fin height) v)"
    unfolding f by (intro stands_moves(3)) (rule stands_moves(4) [OF assms(1)])
  show z: "screen_size (fit_height (Fin height) v) = vec w h" using assms(2) by (simp add: f)
  show "worldScreenHeight (fit_height (Fin height) v) = Fin height"
    using stands_position [OF s] z assms(3,4) by (simp add: worldScreenHeight_def)
qed

lemma stands_visible:
  assumes "stands ax ay x y sx sy v" and "screen_size v = vec w h" and "sx \<noteq> 0" and "sy \<noteq> 0"
  shows "worldScreenWidth v = Fin (w / sx)" and "worldScreenHeight v = Fin (h / sy)"
  using assms stands_position [OF assms(1)] by (simp_all add: worldScreenWidth_def worldScreenHeight_def)

text \<open>After the zoom clamp the visible width is between its limits, when only widths are
  limited, and the visible height never exceeds its limit, whatever the other limits are.\<close>

theorem clampZoom_limits:
  assumes v: "stands ax ay x y sx sy v" "0 < sx" "0 < sy" "screen_size v = vec w h" "0 < w" "0 < h"
    and z: "0 < lo" "lo \<le> hi" "0 < tall"
  shows "Fin lo \<le> worldScreenWidth (ClampZoom_clamp (new_ClampZoom (Fin lo) NaN (Fin hi) NaN) v)
    \<and> worldScreenWidth (ClampZoom_clamp (new_ClampZoom (Fin lo) NaN (Fin hi) NaN) v) \<le> Fin hi
    \<and> worldScreenHeight (ClampZoom_clamp (new_ClampZoom (Fin lo) NaN (Fin hi) (Fin tall)) v) \<le> Fin tall"
proof -
  define v1 where "v1 = (if worldScreenWidth v < Fin lo then zoom_clamped (fit_width (Fin lo) v) else v)"
  have s1: "\<exists>a b. 0 < a \<and> 0 < b \<and> stands ax ay x y a b v1 \<and> screen_size v1 = vec w h \<and> Fin lo \<le> worldScreenWidth v1"
  proof (cases "worldScreenWidth v < Fin lo")
    case True
    then show ?thesis
      using fit_width_shows [OF v(1,4), of lo] v(5) z
      by (intro exI [of _ "w / lo"]) (simp add: v1_def zoom_clamped_def emit_def worldScreenWidth_def stands_def)
  next
    case False
    then show ?thesis using v stands_visible [OF v(1,4)] by (intro exI [of _ sx] exI [of _ sy]) (simp add: v1_def)
  qed
  then obtain a b where s1: "0 < a" "0 < b" "stands ax ay x y a b v1" "screen_size v1 = vec w h" "Fin lo \<le> worldScreenWidth v1" by blast
  define v2 where "v2 = (if Fin hi < worldScreenWidth v1 then zoom_clamped (fit_width (Fin hi) v1) else v1)"
  have s2: "\<exists>a b. 0 < a \<and> 0 < b \<and> stands ax ay x y a b v2 \<and> screen_size v2 = vec w h
      \<and> Fin lo \<le> worldScreenWidth v2 \<and> worldScreenWidth v2 \<le> Fin hi"
  proof (cases "Fin hi < worldScreenWidth v1")
    case True
    then show ?thesis
      using fit_width_shows [OF s1(3,4), of hi] v(5) z
      by (intro exI [of _ "w / hi"]) (simp add: v2_def zoom_clamped_def emit_def worldScreenWidth_def stands_def)
  next
    case False
    then show ?thesis using s1 stands_visible [OF s1(3,4)] by (intro exI [of _ a] exI [of _ b]) (simp add: v2_def)
  qed
  then obtain a b where s2: "0 < a" "0 < b" "stands ax ay x y a b v2" "screen_size v2 = vec w h"
    "Fin lo \<le> worldScreenWidth v2" "worldScreenWidth v2 \<le> Fin hi" by blast
  define v3 where "v3 = (if Fin tall < worldScreenHeight v2 then zoom_clamped (fit_height (Fin tall) v2) else v2)"
  have "worldScreenHeight v3 \<le> Fin tall"
    using fit_height_shows [OF s2(3,4), of tall] stands_visible [OF s2(3,4)] s2(1,2) v(6) z
    by (simp add: v3_def zoom_clamped_def emit_def worldScreenHeight_def not_less)
  moreover have "ClampZoom_clamp (new_ClampZoom (Fin lo) NaN (Fin hi) NaN) v = v2"
    unfolding v2_def v1_def using z by (simp add: ClampZoom_clamp_def new_ClampZoom_def Let_def)
  moreover have "ClampZoom_clamp (new_ClampZoom (Fin lo) NaN (Fin hi) (Fin tall)) v = v3"
    unfolding v3_def v2_def v1_def using z by (simp add: ClampZoom_clamp_def new_ClampZoom_def Let_def)
  ultimately show ?thesis using s2(5,6) by simp
qed

theorem clampZoom_limits_witness:
  "worldScreenWidth (ClampZoom_clamp (new_ClampZoom 100 NaN 400 NaN) example_viewport) \<le> 400"
  using clampZoom_limits [of 0 0 0 0 1 1 example_viewport 800 600 100 400 1] example_stands
  by (simp add: example_viewport_def new_Viewport_def set_forceHitArea_def)

section \<open>Deceleration\<close>

text \<open>Frames that take the times \<open>es\<close>.\<close>

definition decelerate_frame :: "real \<Rightarrow> viewport \<Rightarrow> viewport" where
  "decelerate_frame e v = (case p_decelerate v of None \<Rightarrow> v | Some d \<Rightarrow> Decelerate_update (Fin e) d v)"

definition speeds :: "real \<Rightarrow> real \<Rightarrow> real \<Rightarrow> real \<Rightarrow> viewport \<Rightarrow> bool" where
  "speeds f m s t v \<longleftrightarrow> (\<exists>d. p_decelerate v = Some d \<and> \<not> de_paused d \<and> de_x d = Fin s \<and> de_y d = Fin t
     \<and> percentChangeX d = Fin f \<and> percentChangeY d = Fin f \<and> minSpeed d = Fin m)"

definition slower :: "real \<Rightarrow> real \<Rightarrow> real \<Rightarrow> real" where
  "slower f m s = (if \<bar>s * f\<bar> < m then 0 else s * f)"

lemma slowed_Fin: "slowed (Fin s) (Fin f) (Fin m) = Fin (slower f m s)"
  by (simp add: slowed_def slower_def)

lemma p_decelerate_frame [simp]:
  "p_decelerate (set_x a v) = p_decelerate v" "p_decelerate (set_y a v) = p_decelerate v"
  "p_decelerate (emit n k v) = p_decelerate v"
  by (simp_all add: set_x_def set_y_def emit_def)

lemma decelerate_frame_step:
  assumes "stands ax ay x y sx sy v" and "speeds f m s t v" and "0 < m"
  shows "stands ax ay (x + s * e) (y + t * e) sx sy (decelerate_frame e v)"
    and "speeds f m (slower f m s) (slower f m t) (decelerate_frame e v)"
proof -
  obtain d where d: "p_decelerate v = Some d" "\<not> de_paused d" "de_x d = Fin s" "de_y d = Fin t"
     "percentChangeX d = Fin f" "percentChangeY d = Fin f" "minSpeed d = Fin m"
    using assms(2) by (auto simp: speeds_def)
  define v1 where "v1 = (if s \<noteq> 0 then set_x (Fin (x + s * e)) v else v)"
  define v2 where "v2 = (if t \<noteq> 0 then set_y (Fin (y + t * e)) v1 else v1)"
  define d' where "d' = d\<lparr>de_x := Fin (slower f m s), de_y := Fin (slower f m t)\<rparr>"
  have s1: "stands ax ay (x + s * e) y sx sy v1" using assms(1) stands_moves(1) [OF assms(1)] by (simp add: v1_def)
  have s2: "stands ax ay (x + s * e) (y + t * e) sx sy v2" using s1 stands_moves(2) [OF s1] by (simp add: v2_def)
  have z: "slower f m 0 = 0" using assms(3) by (simp add: slower_def)
  have d': "s = 0 \<Longrightarrow> d' = d\<lparr>de_y := Fin (slower f m t)\<rparr>" "t = 0 \<Longrightarrow> d' = d\<lparr>de_x := Fin (slower f m s)\<rparr>"
    using d z by (cases d; simp add: d'_def)+
  have vx: "vp_x v = Fin x" "vp_y v1 = Fin y" using stands_position [OF assms(1)] stands_position [OF s1] by simp_all
  have "decelerate_frame e v = (if s \<noteq> 0 \<or> t \<noteq> 0 then emit ''moved'' ''decelerate'' (v2\<lparr>p_decelerate := Some d', dirty := True\<rparr>)
      else v2\<lparr>p_decelerate := Some d'\<rparr>)"
  proof (cases "s = 0"; cases "t = 0")
    assume st: "s = 0" "t = 0"
    have "d = d'" using d'(1) [OF st(1)] d z st by (cases d; simp)
    then show ?thesis using st d by (simp add: decelerate_frame_def Decelerate_update_def v2_def v1_def)
  next
    assume st: "s = 0" "t \<noteq> 0"
    then show ?thesis using d vx d'(1) [OF st(1)] by (simp add: decelerate_frame_def Decelerate_update_def slowed_Fin v2_def v1_def Let_def)
  next
    assume st: "s \<noteq> 0" "t = 0"
    then show ?thesis using d vx d'(2) [OF st(2)] by (simp add: decelerate_frame_def Decelerate_update_def slowed_Fin v2_def v1_def Let_def)
  next
    assume st: "s \<noteq> 0" "t \<noteq> 0"
    then show ?thesis using d vx by (simp add: decelerate_frame_def Decelerate_update_def slowed_Fin v2_def v1_def Let_def d'_def)
  qed
  then have "stands ax ay (x + s * e) (y + t * e) sx sy (decelerate_frame e v)
      \<and> p_decelerate (decelerate_frame e v) = Some d'"
    using s2 by (auto split: if_splits)
  then show "stands ax ay (x + s * e) (y + t * e) sx sy (decelerate_frame e v)"
    and "speeds f m (slower f m s) (slower f m t) (decelerate_frame e v)"
    using d by (simp_all add: speeds_def d'_def)
qed

lemma slower_bounds:
  assumes "0 < f"
  shows "\<bar>slower f m s\<bar> \<le> \<bar>s\<bar> * f" and "slower f m s = 0 \<or> m \<le> \<bar>slower f m s\<bar>"
  using assms by (auto simp: slower_def abs_mult)

lemma travel_step:
  fixes s s1 f dt e d :: real
  assumes "\<bar>s1\<bar> \<le> \<bar>s\<bar> * f" and "0 \<le> e" and "e \<le> dt" and "f < 1" and "\<bar>d\<bar> \<le> \<bar>s1\<bar> * dt / (1 - f)"
  shows "\<bar>d + s * e\<bar> \<le> \<bar>s\<bar> * dt / (1 - f)"
proof -
  have "\<bar>s * e\<bar> \<le> \<bar>s\<bar> * dt" using assms(2,3) by (simp add: abs_mult mult_left_mono)
  moreover have "\<bar>s1\<bar> * dt / (1 - f) \<le> \<bar>s\<bar> * f * dt / (1 - f)"
    using assms by (intro divide_right_mono mult_right_mono) simp_all
  moreover have "\<bar>s\<bar> * f * dt / (1 - f) + \<bar>s\<bar> * dt = \<bar>s\<bar> * dt / (1 - f)"
    using assms(4) by (simp add: field_simps)
  ultimately show ?thesis using assms(5) by linarith
qed

lemma decelerate_frames:
  assumes "stands ax ay x y sx sy v" and "speeds f m s t v" and "0 < f" and "f < 1" and "0 < m" and "0 \<le> dt"
    and "\<forall>e\<in>set es. 0 \<le> e \<and> e \<le> dt"
  shows "\<exists>x' y' s' t'. stands ax ay x' y' sx sy (fold decelerate_frame es v) \<and> speeds f m s' t' (fold decelerate_frame es v)
    \<and> \<bar>s'\<bar> \<le> \<bar>s\<bar> * f ^ length es \<and> \<bar>t'\<bar> \<le> \<bar>t\<bar> * f ^ length es
    \<and> (es \<noteq> [] \<or> s = 0 \<or> m \<le> \<bar>s\<bar> \<longrightarrow> s' = 0 \<or> m \<le> \<bar>s'\<bar>) \<and> (es \<noteq> [] \<or> t = 0 \<or> m \<le> \<bar>t\<bar> \<longrightarrow> t' = 0 \<or> m \<le> \<bar>t'\<bar>)
    \<and> \<bar>x' - x\<bar> \<le> \<bar>s\<bar> * dt / (1 - f) \<and> \<bar>y' - y\<bar> \<le> \<bar>t\<bar> * dt / (1 - f)"
  using assms
proof (induction es arbitrary: v x y s t)
  case Nil
  then have "0 \<le> \<bar>s\<bar> * dt / (1 - f)" "0 \<le> \<bar>t\<bar> * dt / (1 - f)" by simp_all
  then show ?case using Nil by (intro exI [of _ x] exI [of _ y] exI [of _ s] exI [of _ t]) simp
next
  case (Cons e es)
  note step = decelerate_frame_step [OF Cons.prems(1,2,5), of e]
  have e: "0 \<le> e" "e \<le> dt" "\<forall>e\<in>set es. 0 \<le> e \<and> e \<le> dt" using Cons.prems(7) by simp_all
  note b = slower_bounds [OF Cons.prems(3)]
  obtain x' y' s' t' where IH: "stands ax ay x' y' sx sy (fold decelerate_frame (e # es) v)" "speeds f m s' t' (fold decelerate_frame (e # es) v)"
    "\<bar>s'\<bar> \<le> \<bar>slower f m s\<bar> * f ^ length es" "\<bar>t'\<bar> \<le> \<bar>slower f m t\<bar> * f ^ length es"
    "s' = 0 \<or> m \<le> \<bar>s'\<bar>" "t' = 0 \<or> m \<le> \<bar>t'\<bar>"
    "\<bar>x' - (x + s * e)\<bar> \<le> \<bar>slower f m s\<bar> * dt / (1 - f)" "\<bar>y' - (y + t * e)\<bar> \<le> \<bar>slower f m t\<bar> * dt / (1 - f)"
    using Cons.IH [OF step Cons.prems(3-6) e(3)] b(2) [of m s] b(2) [of m t] by auto
  have pf: "0 \<le> f ^ length es" using Cons.prems(3) by simp
  have "\<bar>s'\<bar> \<le> \<bar>s\<bar> * f ^ length (e # es)"
    using order_trans [OF IH(3) mult_right_mono [OF b(1) pf]] by (simp add: mult.assoc)
  moreover have "\<bar>t'\<bar> \<le> \<bar>t\<bar> * f ^ length (e # es)"
    using order_trans [OF IH(4) mult_right_mono [OF b(1) pf]] by (simp add: mult.assoc)
  moreover have "\<bar>x' - x\<bar> \<le> \<bar>s\<bar> * dt / (1 - f)" "\<bar>y' - y\<bar> \<le> \<bar>t\<bar> * dt / (1 - f)"
    using travel_step [OF b(1) e(1,2) Cons.prems(4) IH(7)] travel_step [OF b(1) e(1,2) Cons.prems(4) IH(8)] by simp_all
  ultimately show ?case using IH(1,2,5,6) by blast
qed

text \<open>C30: Deceleration ends, and nearby: with friction below one the speeds are zero once the
  friction has brought the initial ones below the minimum, and until then the viewport travels
  less than a geometric series allows, whatever the frame times up to \<open>dt\<close> are.\<close>

theorem decelerate_stops:
  assumes v: "stands ax ay x y sx sy v" "speeds f m s t v" "0 < f" "f < 1" "0 < m"
    and es: "\<forall>e\<in>set es. 0 \<le> e \<and> e \<le> dt" "es \<noteq> []" "\<bar>s\<bar> * f ^ length es < m" "\<bar>t\<bar> * f ^ length es < m"
  shows "\<not> decelerating_x (fold decelerate_frame es v) \<and> \<not> decelerating_y (fold decelerate_frame es v)
    \<and> (\<exists>x' y'. stands ax ay x' y' sx sy (fold decelerate_frame es v)
        \<and> \<bar>x' - x\<bar> \<le> \<bar>s\<bar> * dt / (1 - f) \<and> \<bar>y' - y\<bar> \<le> \<bar>t\<bar> * dt / (1 - f))"
proof -
  have "0 \<le> dt" using es(1,2) by (cases es) auto
  from decelerate_frames [OF v this es(1)] obtain x' y' s' t' where
    r: "stands ax ay x' y' sx sy (fold decelerate_frame es v)" "speeds f m s' t' (fold decelerate_frame es v)"
    "\<bar>s'\<bar> \<le> \<bar>s\<bar> * f ^ length es" "\<bar>t'\<bar> \<le> \<bar>t\<bar> * f ^ length es" "s' = 0 \<or> m \<le> \<bar>s'\<bar>" "t' = 0 \<or> m \<le> \<bar>t'\<bar>"
    "\<bar>x' - x\<bar> \<le> \<bar>s\<bar> * dt / (1 - f)" "\<bar>y' - y\<bar> \<le> \<bar>t\<bar> * dt / (1 - f)" using es(2) by auto
  have "s' = 0" "t' = 0" using r(3-6) es(3,4) by linarith+
  then have "\<not> decelerating_x (fold decelerate_frame es v) \<and> \<not> decelerating_y (fold decelerate_frame es v)"
    using r(2) by (auto simp: speeds_def decelerating_x_def decelerating_y_def)
  then show ?thesis using r(1,7,8) by blast
qed

definition coasting :: viewport where
  "coasting = example_viewport\<lparr>p_decelerate := Some ((new_Decelerate NaN NaN None)
     \<lparr>de_x := 1, de_y := 0, percentChangeX := Fin (95 / 100), percentChangeY := Fin (95 / 100)\<rparr>)\<rparr>"

theorem decelerate_stops_witness: "\<not> decelerating_x (fold decelerate_frame (replicate 100 16) coasting)"
proof -
  have "stands 0 0 0 0 1 1 coasting" using example_stands by (simp add: coasting_def)
  moreover have "speeds (95 / 100) (1 / 100) 1 0 coasting" by (simp add: coasting_def speeds_def new_Decelerate_def)
  moreover have "(95 / 100 :: real) ^ 100 < 1 / 100" by (simp add: power_divide)
  ultimately show ?thesis
    using decelerate_stops [of 0 0 0 0 1 1 coasting "95 / 100" "1 / 100" 1 0 "replicate 100 16" 16] by simp
qed

section \<open>Dragging\<close>

lemma advances_trans: "advances p q \<Longrightarrow> advances q r \<Longrightarrow> advances p r"
  by (auto simp: advances_def)

lemma updated_branch_advances:
  assumes "linked (t # ancs)"
  shows "advances t (parent_of (updated False (t # ancs)))"
    and "map placement (updated False (t # ancs)) = map placement (t # ancs)"
proof -
  let ?p = "parent_of (recursivePostUpdateTransform ancs)"
  have l: "linked (recursivePostUpdateTransform (t # ancs))" using recursivePostUpdateTransform_ok(1) [OF assms] .
  then have u: "local_ok (TransformStatic_updateTransform ?p t)"
    "link_ok (TransformStatic_updateTransform ?p t) ?p" "linked (recursivePostUpdateTransform ancs)"
    by (simp_all add: Let_def)
  have a: "advances t (TransformStatic_updateTransform ?p t)"
    using recursivePostUpdateTransform_ok(2) [OF assms] by (simp add: Let_def)
  note v = updateTransform_ok [OF u(1,2) linked_local_ok [OF u(3)] refl]
  show "advances t (parent_of (updated False (t # ancs)))"
    using advances_trans [OF a v(3)] by (simp add: updated_branch(1) [OF assms])
  show "map placement (updated False (t # ancs)) = map placement (t # ancs)"
    using recursivePostUpdateTransform_ok(4) [OF assms] v(4) by (simp add: updated_def Let_def)
qed

lemma parent_toLocal_stands:
  assumes "stands ax ay x y sx sy v" and "anc v \<noteq> []"
  shows "\<exists>w. parent_toLocal (vec p q) v = (vec (p - ax) (q - ay), w) \<and> stands ax ay x y sx sy w
    \<and> w = v\<lparr>anc := anc w\<rparr> \<and> anc w \<noteq> []"
proof -
  obtain t ancs where a: "anc v = t # ancs" using assms(2) by (cases "anc v") auto
  have l: "linked (t # ancs)" and pl: "placed (t # ancs) = mat 1 0 0 1 ax ay" and ll: "linked (tr v # t # ancs)"
    using assms(1) by (simp_all add: stands_def a)
  define bs where "bs = updated False (t # ancs)"
  note u = updated_branch [OF l, folded bs_def] updated_branch_advances [OF l, folded bs_def]
  have "linked (tr v # bs)"
    using linked_append [of "[tr v]" "t # ancs" bs] ll u(3,5) by simp
  moreover have "placed bs = mat 1 0 0 1 ax ay"
    using placed_cong [OF u(6)] pl by simp
  moreover have "worldTransform (parent_of bs) = mat 1 0 0 1 ax ay"
    using updated_ok(1) [OF l] pl by (simp add: bs_def)
  ultimately show ?thesis
    using assms(1) u(4) Matrix_applyInverse_mat [of 1 1 1 0 0 p q ax ay]
    by (intro exI [of _ "v\<lparr>anc := bs\<rparr>"])
      (simp add: parent_toLocal_def DisplayObject_toLocal_def Let_def a bs_def [symmetric] stands_def)
qed

lemma length_recursivePost [simp]: "length (recursivePostUpdateTransform ts) = length ts"
  by (induction ts) (simp_all add: Let_def)

lemma stands_toLocal_anc:
  assumes "stands ax ay x y sx sy v"
  shows "length (anc (snd (vp_toLocal p v))) = length (anc v)"
  using assms updated_branch(2) [of "tr v" "anc v"]
  by (simp add: stands_def vp_toLocal_def with_branch_def DisplayObject_toLocal_def Let_def)

text \<open>A drag in progress whose last point was \<open>(p, q)\<close>, with the viewport at \<open>(p + cx, q + cy)\<close>.\<close>

definition drag_at :: "real \<Rightarrow> real \<Rightarrow> real \<Rightarrow> real \<Rightarrow> real \<Rightarrow> int \<Rightarrow> real \<Rightarrow> real \<Rightarrow> bool \<Rightarrow> real \<Rightarrow> real \<Rightarrow> viewport \<Rightarrow> bool" where
  "drag_at ax ay sx sy th i cx cy b p q v \<longleftrightarrow> stands ax ay (p + cx) (q + cy) sx sy v \<and> anc v \<noteq> [] \<and> dragging v
     \<and> threshold v = Fin th \<and> (\<exists>d. p_drag v = Some d \<and> \<not> dr_paused d \<and> dr_current d = i \<and> dr_moved d = b
        \<and> xDirection d \<and> yDirection d \<and> dr_last d = Some \<lparr>dp_point = vec p q, dp_parent = vec (p - ax) (q - ay)\<rparr>)"

definition drag_event :: "int \<Rightarrow> real \<times> real \<Rightarrow> pointer_event" where
  "drag_event i pt = \<lparr>ev_id = i, ev_global = vec (fst pt) (snd pt), ev_mouse = True, ev_is_MouseEvent = True,
     ev_button = 0, ev_identifier = ''MOUSE'', ev_buttons = 1\<rparr>"

definition beyond :: "real \<Rightarrow> real \<Rightarrow> real \<Rightarrow> real \<times> real \<Rightarrow> bool" where
  "beyond th p q pt \<longleftrightarrow> th \<le> \<bar>fst pt - p\<bar> \<or> th \<le> \<bar>snd pt - q\<bar>"

lemma dragging_frame [simp]:
  "dragging (v\<lparr>p_drag := dd, dirty := b\<rparr>) = dragging v" "dragging (v\<lparr>dirty := b, p_drag := dd\<rparr>) = dragging v"
  "dragging (set_x a v) = dragging v" "dragging (set_y a v) = dragging v" "dragging (emit n k v) = dragging v"
  "dragging (snd (with_branch r v)) = dragging v" "dragging (v\<lparr>anc := as\<rparr>) = dragging v"
  "threshold (set_x a v) = threshold v" "threshold (set_y a v) = threshold v" "threshold (emit n k v) = threshold v"
  "threshold (snd (with_branch r v)) = threshold v"
  "p_drag (emit n k v) = p_drag v" "anc (set_x a v) = anc v" "anc (set_y a v) = anc v" "anc (emit n k v) = anc v"
  by (simp_all add: dragging_def countDownPointers_def set_x_def set_y_def emit_def with_branch_def)

lemma stands_more [simp]:
  "stands ax ay x y sx sy (v\<lparr>p_drag := dd\<rparr>) = stands ax ay x y sx sy v"
  by (simp add: stands_def)

lemma drag_step:
  assumes "drag_at ax ay sx sy th i cx cy b p q v" and "sx \<noteq> 0" and "sy \<noteq> 0"
  shows "if b \<or> beyond th p q pt
    then \<exists>w. with_plugin p_drag (Drag_move (drag_event i pt)) v = ok w \<and> drag_at ax ay sx sy th i cx cy True (fst pt) (snd pt) w
    else with_plugin p_drag (Drag_move (drag_event i pt)) v = ok v"
proof -
  obtain d where s: "stands ax ay (p + cx) (q + cy) sx sy v" "anc v \<noteq> []" "dragging v" "threshold v = Fin th"
    and d: "p_drag v = Some d" "\<not> dr_paused d" "dr_current d = i" "dr_moved d = b" "xDirection d" "yDirection d"
      "dr_last d = Some \<lparr>dp_point = vec p q, dp_parent = vec (p - ax) (q - ay)\<rparr>"
    using assms(1) by (auto simp: drag_at_def)
  obtain P Q where pt: "pt = (P, Q)" by (cases pt)
  have m: "drag_moves (vec P Q) \<lparr>dp_point = vec p q, dp_parent = vec (p - ax) (q - ay)\<rparr> d v \<longleftrightarrow> b \<or> beyond th p q pt"
    using d s(4) by (simp add: drag_moves_def checkThreshold_def beyond_def pt)
  show ?thesis
  proof (cases "b \<or> beyond th p q pt")
    case False
    then show ?thesis using d s m by (simp add: with_plugin_def Drag_move_def drag_event_def pt)
  next
    case True
    obtain v1 where v1: "parent_toLocal (vec P Q) v = (vec (P - ax) (Q - ay), v1)" "stands ax ay (p + cx) (q + cy) sx sy v1"
      "v1 = v\<lparr>anc := anc v1\<rparr>" "anc v1 \<noteq> []" using parent_toLocal_stands [OF s(1,2)] by blast
    have k: "dragging v1" "threshold v1 = Fin th" "p_drag v1 = Some d"
      using s(3,4) d(1) arg_cong [OF v1(3), of dragging] arg_cong [OF v1(3), of threshold] arg_cong [OF v1(3), of p_drag]
      by simp_all
    define v2 where "v2 = set_x (Fin (P + cx)) v1"
    define v3 where "v3 = set_y (Fin (Q + cy)) v2"
    have s2: "stands ax ay (P + cx) (q + cy) sx sy v2" unfolding v2_def by (rule stands_moves(1) [OF v1(2)])
    have s3: "stands ax ay (P + cx) (Q + cy) sx sy v3" unfolding v3_def by (rule stands_moves(2) [OF s2])
    define v4 where "v4 = (if \<not> b then emit ''drag-start'' '''' (snd (vp_toLocal (vec P Q) v3)) else v3)"
    have s4: "stands ax ay (P + cx) (Q + cy) sx sy v4"
      using s3 stands_toLocal(2) [OF s3 assms(2,3)] by (simp add: v4_def)
    have "length (anc v4) = length (anc v1)"
      using stands_toLocal_anc [OF s3, of "vec P Q"] by (simp add: v4_def v3_def v2_def)
    then have k4: "anc v4 \<noteq> []" "dragging v4" "threshold v4 = Fin th"
      using v1(4) k by (auto simp: v4_def v3_def v2_def vp_toLocal_def)
    have x: "vp_x v1 + (vx (vec (P - ax) (Q - ay)) - vx (vec (p - ax) (q - ay))) = Fin (P + cx)"
      using stands_position [OF v1(2)] by simp
    have y: "vp_y v2 + (vy (vec (P - ax) (Q - ay)) - vy (vec (p - ax) (q - ay))) = Fin (Q + cy)"
      using stands_position [OF s2] by simp
    have c: "dr_paused d = False" "(dr_current d \<noteq> ev_id (drag_event i pt)) = False" "ev_global (drag_event i pt) = vec P Q"
      "xDirection d = True" "yDirection d = True" "dr_moved d = b" "(\<not> dragging v) = False" "(anc v = []) = False"
      using d s by (simp_all add: drag_event_def pt)
    have "Drag_move (drag_event i pt) d v = ok (emit ''moved'' ''drag'' (v4\<lparr>dirty := True,
        p_drag := Some (d\<lparr>dr_last := Some \<lparr>dp_point = vec P Q, dp_parent = vec (P - ax) (Q - ay)\<rparr>, dr_moved := True\<rparr>)\<rparr>))"
      unfolding Drag_move_def d(7) c v1(1) option.case m Let_def prod.case drag_point.select_convs if_True if_False
        x v2_def [symmetric] y v3_def [symmetric]
      using True by (simp add: v4_def Viewport_toWorld_def)
    then have "with_plugin p_drag (Drag_move (drag_event i pt)) v = ok (emit ''moved'' ''drag'' (v4\<lparr>dirty := True,
        p_drag := Some (d\<lparr>dr_last := Some \<lparr>dp_point = vec P Q, dp_parent = vec (P - ax) (Q - ay)\<rparr>, dr_moved := True\<rparr>)\<rparr>))"
      using d(1) by (simp add: with_plugin_def)
    then show ?thesis using True s4 k4 d by (simp add: drag_at_def pt)
  qed
qed

lemma drag_run:
  assumes "drag_at ax ay sx sy th i cx cy b p q v" and "sx \<noteq> 0" and "sy \<noteq> 0"
  shows "\<exists>w. for_x (\<lambda>pt. with_plugin p_drag (Drag_move (drag_event i pt))) pts v = ok w
    \<and> (if pts \<noteq> [] \<and> (b \<or> (\<exists>pt\<in>set pts. beyond th p q pt))
       then drag_at ax ay sx sy th i cx cy True (fst (last pts)) (snd (last pts)) w else w = v)"
  using assms(1)
proof (induction pts arbitrary: b p q v)
  case (Cons pt pts)
  note st = drag_step [OF Cons.prems assms(2,3), of pt]
  show ?case
  proof (cases "b \<or> beyond th p q pt")
    case True
    then obtain w where w: "with_plugin p_drag (Drag_move (drag_event i pt)) v = ok w"
      "drag_at ax ay sx sy th i cx cy True (fst pt) (snd pt) w" using st by auto
    from Cons.IH [OF w(2)] obtain u where u: "for_x (\<lambda>pt. with_plugin p_drag (Drag_move (drag_event i pt))) pts w = ok u"
      "if pts \<noteq> [] then drag_at ax ay sx sy th i cx cy True (fst (last pts)) (snd (last pts)) u else u = w" by auto
    show ?thesis using u w True by (intro exI [of _ u]) auto
  next
    case False
    then have n: "with_plugin p_drag (Drag_move (drag_event i pt)) v = ok v" using st by auto
    from Cons.IH [OF Cons.prems] obtain u where
      u: "for_x (\<lambda>pt. with_plugin p_drag (Drag_move (drag_event i pt))) pts v = ok u"
      "if pts \<noteq> [] \<and> (b \<or> (\<exists>pt\<in>set pts. beyond th p q pt))
       then drag_at ax ay sx sy th i cx cy True (fst (last pts)) (snd (last pts)) u else u = v" by blast
    show ?thesis using u n False by (intro exI [of _ u]) auto
  qed
qed simp

text \<open>C21: Dragging moves the map with the pointer: as long as every point stays nearer to where the
  drag started than the threshold nothing moves, and once one is not, the viewport is displaced by
  exactly what the pointer is, the part before the threshold included; no event throws.\<close>

theorem drag_follows_pointer:
  assumes "drag_at ax ay sx sy th i (x - p) (y - q) False p q v" and "sx \<noteq> 0" and "sy \<noteq> 0" and "pts \<noteq> []"
  shows "\<exists>w. for_x (\<lambda>pt. with_plugin p_drag (Drag_move (drag_event i pt))) pts v = ok w
    \<and> (if \<exists>pt\<in>set pts. beyond th p q pt
       then vp_x w = Fin (x + (fst (last pts) - p)) \<and> vp_y w = Fin (y + (snd (last pts) - q)) else w = v)"
proof -
  obtain w where w: "for_x (\<lambda>pt. with_plugin p_drag (Drag_move (drag_event i pt))) pts v = ok w"
    "if \<exists>pt\<in>set pts. beyond th p q pt
     then drag_at ax ay sx sy th i (x - p) (y - q) True (fst (last pts)) (snd (last pts)) w else w = v"
    using drag_run [OF assms(1-3), of pts] assms(4) by auto
  have "vp_x w = Fin (x + (fst (last pts) - p)) \<and> vp_y w = Fin (y + (snd (last pts) - q))"
    if "drag_at ax ay sx sy th i (x - p) (y - q) True (fst (last pts)) (snd (last pts)) w"
  proof -
    have "stands ax ay (fst (last pts) + (x - p)) (snd (last pts) + (y - q)) sx sy w" using that by (simp add: drag_at_def)
    from stands_position [OF this] show ?thesis by (simp add: algebra_simps)
  qed
  then show ?thesis using w by auto
qed

definition dragged :: viewport where
  "dragged = example_viewport\<lparr>leftDown := True, p_drag := Some ((new_Drag None NaN False No_clamp [] [])
     \<lparr>dr_last := Some \<lparr>dp_point = vec 10 10, dp_parent = vec 10 10\<rparr>, dr_current := 1\<rparr>)\<rparr>"

theorem drag_follows_pointer_witness:
  "\<exists>w. for_x (\<lambda>pt. with_plugin p_drag (Drag_move (drag_event 1 pt))) [(12, 11), (14, 15), (50, 30)] dragged = ok w
    \<and> vp_x w = Fin 40 \<and> vp_y w = Fin 20"
proof -
  have "stands 0 0 0 0 1 1 dragged" using example_stands by (simp add: dragged_def stands_def)
  then have "drag_at 0 0 1 1 5 1 (0 - 10) (0 - 10) False 10 10 dragged"
    by (simp add: drag_at_def dragged_def dragging_def countDownPointers_def example_viewport_def new_Viewport_def
        set_forceHitArea_def new_Drag_def)
  from drag_follows_pointer [OF this, of "[(12, 11), (14, 15), (50, 30)]"] show ?thesis by (auto simp: beyond_def)
qed

end
