(* ===== verification/JsText.thy ===== *)
theory JsText
  imports JsNum Prelude "HOL-Library.Multiset"
begin

text \<open>
  Text, sorting and sets as the TypeScript programs use them.

  Strings are sequences of UTF-8 bytes: text that is only carried or printed may hold anything, case
  conversion and trimming are those of ASCII.  Numbers that are printed are natural numbers, or exact
  decimals where the code divides.
\<close>

section \<open>Strings\<close>

definition dec :: "nat \<Rightarrow> string" where
  "dec = nat_digits 10"

definition em_dash :: string where
  "em_dash = [CHR 0xE2, CHR 0x80, CHR 0x94]"

definition lower :: "string \<Rightarrow> string" where
  "lower = map (\<lambda>c. let n = of_char c :: nat in if 65 \<le> n \<and> n \<le> 90 then char_of (n + 32) else c)"

definition trim :: "string \<Rightarrow> string" where
  "trim s = rev (dropWhile is_space (rev (dropWhile is_space s)))"

fun starts_with :: "string \<Rightarrow> string \<Rightarrow> bool" where
  "starts_with [] s = True"
| "starts_with (p # ps) [] = False"
| "starts_with (p # ps) (c # cs) = (p = c \<and> starts_with ps cs)"

fun contains :: "string \<Rightarrow> string \<Rightarrow> bool" where
  "contains p [] = (p = [])"
| "contains p (c # cs) = (starts_with p (c # cs) \<or> contains p cs)"

fun index_of :: "char \<Rightarrow> string \<Rightarrow> nat option" where
  "index_of c [] = None"
| "index_of c (d # ds) = (if c = d then Some 0 else map_option Suc (index_of c ds))"

fun join :: "string \<Rightarrow> string list \<Rightarrow> string" where
  "join sep [] = []"
| "join sep [w] = w"
| "join sep (w # ws) = w @ sep @ join sep ws"

fun split :: "char \<Rightarrow> string \<Rightarrow> string list" where
  "split sep [] = [[]]"
| "split sep (c # cs) =
     (if c = sep then [] # split sep cs
      else (case split sep cs of [] \<Rightarrow> [[c]] | w # ws \<Rightarrow> (c # w) # ws))"

text \<open>\<^verbatim>\<open>encodeURIComponent\<close>, byte by byte.\<close>

definition unreserved :: "char \<Rightarrow> bool" where
  "unreserved c \<longleftrightarrow> (let n = of_char c :: nat in
     48 \<le> n \<and> n \<le> 57 \<or> 65 \<le> n \<and> n \<le> 90 \<or> 97 \<le> n \<and> n \<le> 122) \<or> c \<in> set ''-_.!~*''
     \<or> (of_char c :: nat) \<in> {39, 40, 41}"

definition hex_upper :: "nat \<Rightarrow> char" where
  "hex_upper d = char_of (if d < 10 then 48 + d else 55 + d)"

definition encode_byte :: "char \<Rightarrow> string" where
  "encode_byte c = (if unreserved c then [c]
     else let n = of_char c :: nat in [CHR ''%'', hex_upper (n div 16), hex_upper (n mod 16)])"

definition encodeURIComponent :: "string \<Rightarrow> string" where
  "encodeURIComponent s = concat (map encode_byte s)"

subsection \<open>Laws\<close>

lemma digit_char_digit [simp]: "d < 10 \<Longrightarrow> is_digit (digit_char d)" "d < 10 \<Longrightarrow> (of_char (digit_char d) :: nat) = 48 + d"
  by (simp_all add: is_digit_def digit_char_def)

lemma dec_digits: "list_all is_digit (dec n)" "dec n \<noteq> []"
proof -
  have "list_all is_digit (nat_digits 10 n) \<and> nat_digits 10 n \<noteq> []"
  proof (induction n rule: less_induct)
    case (less n)
    show ?case
    proof (cases "n < 10")
      case False
      then have "n div 10 < n" by simp
      from less [OF this] False show ?thesis by (subst (1 2) nat_digits.simps) simp
    qed (simp add: nat_digits.simps)
  qed
  then show "list_all is_digit (dec n)" "dec n \<noteq> []" by (simp_all add: dec_def)
qed

lemma dec_value_snoc: "dec_value (s @ [c]) = 10 * dec_value s + (of_char c - 48)"
  by (simp add: dec_value_def)

lemma dec_value_dec [simp]: "dec_value (dec n) = n"
proof -
  have "dec_value (nat_digits 10 n) = n"
  proof (induction n rule: less_induct)
    case (less n)
    show ?case
    proof (cases "n < 10")
      case True
      then show ?thesis by (simp add: nat_digits.simps dec_value_def)
    next
      case False
      then have "n div 10 < n" by simp
      from less [OF this] False show ?thesis by (subst nat_digits.simps) (simp add: dec_value_snoc)
    qed
  qed
  then show ?thesis by (simp add: dec_def)
qed

lemma dec_inj [simp]: "dec m = dec n \<longleftrightarrow> m = n"
  by (metis dec_value_dec)

lemma split_none: "c \<notin> set w \<Longrightarrow> split c w = [w]"
  by (induction w) auto

lemma split_nonempty [simp]: "split c s \<noteq> []"
  by (cases s) (auto split: list.split)

lemma split_append: "c \<notin> set w \<Longrightarrow> split c (w @ c # s) = w # split c s"
  by (induction w) auto

lemma split_join: "ws \<noteq> [] \<Longrightarrow> (\<And>w. w \<in> set ws \<Longrightarrow> c \<notin> set w) \<Longrightarrow> split c (join [c] ws) = ws"
  by (induction "[c]" ws rule: join.induct) (simp_all add: split_none split_append)

lemma join_split: "join [c] (split c s) = s"
proof (induction s)
  case (Cons d s)
  then show ?case by (cases "split c s"; cases "tl (split c s)") (auto split: list.split)
qed simp

lemma split_parts: "w \<in> set (split c s) \<Longrightarrow> c \<notin> set w"
  by (induction s arbitrary: w) (auto split: list.splits if_splits)

lemma index_of_Some: "index_of c s = Some i \<longleftrightarrow> i < length s \<and> s ! i = c \<and> c \<notin> set (take i s)"
proof (induction s arbitrary: i)
  case (Cons d s)
  then show ?case by (cases i) auto
qed simp

lemma index_of_None: "index_of c s = None \<longleftrightarrow> c \<notin> set s"
  by (induction s) auto

lemma index_of_append: "c \<notin> set w \<Longrightarrow> index_of c (w @ c # s) = Some (length w)"
  by (induction w) auto

section \<open>Sorting\<close>

text \<open>
  \<^verbatim>\<open>Array.prototype.sort\<close> with a comparator.  It is stable, and for a consistent comparator
  the language fixes its result: \<open>js_sort_unique\<close>.
\<close>

fun js_insert :: "('a \<Rightarrow> 'a \<Rightarrow> int) \<Rightarrow> 'a \<Rightarrow> 'a list \<Rightarrow> 'a list" where
  "js_insert cmp x [] = [x]"
| "js_insert cmp x (y # ys) = (if cmp x y \<le> 0 then x # y # ys else y # js_insert cmp x ys)"

definition js_sort :: "('a \<Rightarrow> 'a \<Rightarrow> int) \<Rightarrow> 'a list \<Rightarrow> 'a list" where
  "js_sort cmp xs = foldr (js_insert cmp) xs []"

definition in_order :: "('a \<Rightarrow> 'a \<Rightarrow> int) \<Rightarrow> 'a list \<Rightarrow> bool" where
  "in_order cmp = sorted_wrt (\<lambda>a b. cmp a b \<le> 0)"

lemma in_order_simps [simp]:
  "in_order cmp []"
  "in_order cmp (x # xs) \<longleftrightarrow> (\<forall>y\<in>set xs. cmp x y \<le> 0) \<and> in_order cmp xs"
  by (simp_all add: in_order_def)

lemma js_sort_simps [simp]: "js_sort cmp [] = []" "js_sort cmp (x # xs) = js_insert cmp x (js_sort cmp xs)"
  by (simp_all add: js_sort_def)

lemma mset_js_insert [simp]: "mset (js_insert cmp x ys) = add_mset x (mset ys)"
  by (induction ys) auto

lemma mset_js_sort [simp]: "mset (js_sort cmp xs) = mset xs"
  by (induction xs) auto

lemma set_js_sort [simp]: "set (js_sort cmp xs) = set xs"
  using mset_eq_setD [OF mset_js_sort] .

lemma length_js_sort [simp]: "length (js_sort cmp xs) = length xs"
  using mset_eq_length [OF mset_js_sort] .

lemma distinct_js_sort [simp]: "distinct (js_sort cmp xs) = distinct xs"
  using mset_eq_imp_distinct_iff [OF mset_js_sort] .

lemma js_sort_done: "in_order cmp xs \<Longrightarrow> js_sort cmp xs = xs"
proof (induction xs)
  case (Cons x xs)
  then show ?case by (cases xs) auto
qed simp

lemma js_sort_cong: "(\<And>a b. a \<in> set xs \<Longrightarrow> b \<in> set xs \<Longrightarrow> cmp a b = cmp' a b) \<Longrightarrow> js_sort cmp xs = js_sort cmp' xs"
proof (induction xs)
  case (Cons x xs)
  have "js_insert cmp x ys = js_insert cmp' x ys" if "set ys \<subseteq> set xs" for ys
    using that Cons.prems by (induction ys) auto
  with Cons show ?case by simp
qed simp

text \<open>A consistent comparator: antisymmetric in sign and transitive.\<close>

locale comparator =
  fixes cmp :: "'a \<Rightarrow> 'a \<Rightarrow> int"
  assumes cmp_swap: "cmp a b \<le> 0 \<longleftrightarrow> 0 \<le> cmp b a"
    and cmp_trans: "cmp a b \<le> 0 \<Longrightarrow> cmp b c \<le> 0 \<Longrightarrow> cmp a c \<le> 0"
begin

lemma cmp_self [simp]: "cmp a a = 0"
  using cmp_swap [of a a] by linarith

lemma cmp_swap_less: "cmp a b < 0 \<longleftrightarrow> 0 < cmp b a"
  using cmp_swap [of b a] by linarith

lemma cmp_swap_eq: "cmp a b = 0 \<longleftrightarrow> cmp b a = 0"
  using cmp_swap [of a b] cmp_swap [of b a] by linarith

lemma cmp_total: "cmp a b \<le> 0 \<or> cmp b a \<le> 0"
  using cmp_swap [of b a] by linarith

lemma cmp_eq_trans: "cmp a b = 0 \<Longrightarrow> cmp b c = 0 \<Longrightarrow> cmp a c = 0"
  using cmp_trans [of a b c] cmp_trans [of c b a] cmp_swap [of c a] cmp_swap_eq [of a b] cmp_swap_eq [of b c] by simp

lemma js_insert_in_order: "in_order cmp ys \<Longrightarrow> in_order cmp (js_insert cmp x ys)"
proof (induction ys)
  case (Cons y ys)
  then show ?case
    using cmp_total [of x y] cmp_trans [of x y]
    by (auto simp flip: set_mset_mset)
qed simp

lemma js_sort_in_order: "in_order cmp (js_sort cmp xs)"
  by (induction xs) (simp_all add: js_insert_in_order)

lemma js_insert_stable:
  "in_order cmp ys \<Longrightarrow> filter (\<lambda>y. cmp y a = 0) (js_insert cmp x ys) = filter (\<lambda>y. cmp y a = 0) (x # ys)"
proof (induction ys)
  case (Cons y ys)
  have "\<not> (cmp x a = 0 \<and> cmp y a = 0)" if "\<not> cmp x y \<le> 0"
    using that cmp_eq_trans [of x a y] cmp_swap_eq [of y a] by auto
  with Cons show ?case by auto
qed simp

text \<open>Elements that compare equal keep their order.\<close>

lemma js_sort_stable: "filter (\<lambda>y. cmp y a = 0) (js_sort cmp xs) = filter (\<lambda>y. cmp y a = 0) xs"
  by (induction xs) (simp_all add: js_insert_stable js_sort_in_order)

lemma in_order_unique:
  assumes "in_order cmp ys" and "in_order cmp zs"
    and "\<And>a. filter (\<lambda>y. cmp y a = 0) ys = filter (\<lambda>y. cmp y a = 0) zs"
  shows "ys = zs"
  using assms
proof (induction ys arbitrary: zs)
  case Nil
  show ?case
  proof (cases zs)
    case (Cons z zs')
    with Nil.prems(3) [of z] show ?thesis by simp
  qed simp
next
  case (Cons y ys)
  note eq = Cons.prems(3)
  from eq [of y] obtain z zs' where zs: "zs = z # zs'" by (cases zs) simp_all
  have "y \<in> set (filter (\<lambda>u. cmp u y = 0) zs)" by (subst eq [of y, symmetric]) simp
  then have zy: "cmp z y \<le> 0" using Cons.prems(2) zs by (auto split: if_splits)
  have "z \<in> set (filter (\<lambda>u. cmp u z = 0) (y # ys))" by (subst eq [of z]) (simp add: zs)
  then have "cmp y z \<le> 0" using Cons.prems(1) by (auto split: if_splits)
  then have "cmp z y = 0" using zy cmp_swap [of y z] by linarith
  then have yz: "y = z" using eq [of y] zs by simp
  have "ys = zs'"
  proof (rule Cons.IH)
    show "filter (\<lambda>u. cmp u a = 0) ys = filter (\<lambda>u. cmp u a = 0) zs'" for a
      using eq [of a] zs yz by (simp split: if_splits)
  qed (use Cons.prems zs in auto)
  with yz zs show ?case by simp
qed

lemma js_sort_unique:
  "in_order cmp ys \<Longrightarrow> (\<And>a. filter (\<lambda>y. cmp y a = 0) ys = filter (\<lambda>y. cmp y a = 0) xs) \<Longrightarrow> js_sort cmp xs = ys"
  by (rule in_order_unique) (simp_all add: js_sort_in_order js_sort_stable)

lemma filter_js_sort: "filter P (js_sort cmp xs) = js_sort cmp (filter P xs)"
proof (rule sym, rule js_sort_unique)
  show "in_order cmp (filter P (js_sort cmp xs))"
    using js_sort_in_order [of xs] by (simp add: in_order_def sorted_wrt_filter)
  show "filter (\<lambda>y. cmp y a = 0) (filter P (js_sort cmp xs)) = filter (\<lambda>y. cmp y a = 0) (filter P xs)" for a
    using arg_cong [OF js_sort_stable [of a xs], of "filter P"] by (simp add: conj_commute)
qed

text \<open>Two lists with the same elements, no two of which compare equal, are sorted alike.\<close>

lemma js_sort_permute:
  assumes "mset xs = mset ys" and "\<And>a b. a \<in> set xs \<Longrightarrow> b \<in> set xs \<Longrightarrow> cmp a b = 0 \<Longrightarrow> a = b"
  shows "js_sort cmp xs = js_sort cmp ys"
proof (rule js_sort_unique [OF js_sort_in_order])
  fix a
  let ?F = "\<lambda>zs. filter (\<lambda>y. cmp y a = 0) zs"
  have same: "mset (?F ys) = mset (?F xs)" using assms(1) by simp
  have one: "b = c" if "b \<in> set (?F xs)" "c \<in> set (?F xs)" for b c
    using assms(2) [of b c] that cmp_eq_trans [of b a c] cmp_swap_eq [of c a] by simp
  have "?F ys = ?F xs"
  proof (cases "?F xs")
    case Nil
    with same show ?thesis by simp
  next
    case (Cons b bs)
    have "zs = replicate (length zs) b" if "\<forall>c\<in>set zs. c = b" for zs
      using that by (induction zs) auto
    moreover have "\<forall>c\<in>set (?F xs). c = b" using one [of _ b] Cons by simp
    moreover have "set (?F ys) = set (?F xs)" using same by (rule mset_eq_setD)
    moreover have "length (?F ys) = length (?F xs)" using same by (rule mset_eq_length)
    ultimately show ?thesis by metis
  qed
  then show "?F (js_sort cmp ys) = ?F xs" by (simp only: js_sort_stable)
qed

end

text \<open>Sorting by a key, and downwards.\<close>

lemma comparator_key: "comparator cmp \<Longrightarrow> comparator (\<lambda>a b. cmp (f a) (f b))"
  by (simp add: comparator_def) blast

lemma comparator_flip: "comparator cmp \<Longrightarrow> comparator (\<lambda>a b. - cmp a b)"
proof -
  assume c: "comparator cmp"
  show ?thesis
    by unfold_locales (use comparator.cmp_swap [OF c] comparator.cmp_trans [OF c] in auto)
qed

text \<open>Numbers by difference, and the default order of strings, by code units.\<close>

definition by_number :: "int \<Rightarrow> int \<Rightarrow> int" where
  "by_number a b = a - b"

definition unit_before :: "char \<Rightarrow> char \<Rightarrow> bool" where
  "unit_before c d \<longleftrightarrow> (of_char c :: nat) < of_char d"

fun code_units :: "string \<Rightarrow> string \<Rightarrow> int" where
  "code_units [] [] = 0"
| "code_units [] (d # ds) = - 1"
| "code_units (c # cs) [] = 1"
| "code_units (c # cs) (d # ds) = (if c = d then code_units cs ds else if unit_before c d then - 1 else 1)"

lemma unit_before: "\<not> unit_before c c" "unit_before c d \<Longrightarrow> unit_before d e \<Longrightarrow> unit_before c e"
  "c \<noteq> d \<Longrightarrow> unit_before d c \<longleftrightarrow> \<not> unit_before c d"
proof -
  have "(of_char c :: nat) = of_char d \<longleftrightarrow> c = d" by (rule of_char_eq_iff)
  then show "\<not> unit_before c c" "unit_before c d \<Longrightarrow> unit_before d e \<Longrightarrow> unit_before c e"
    "c \<noteq> d \<Longrightarrow> unit_before d c \<longleftrightarrow> \<not> unit_before c d"
    unfolding unit_before_def by linarith+
qed

lemma code_units_swap: "code_units b a = - code_units a b"
proof (induction a b rule: code_units.induct)
  case (4 c cs d ds)
  then show ?case using unit_before(3) [of c d] by auto
qed simp_all

lemma code_units_eq: "code_units a b = 0 \<longleftrightarrow> a = b"
  by (induction a b rule: code_units.induct) simp_all

lemma code_units_trans: "code_units a b \<le> 0 \<Longrightarrow> code_units b c \<le> 0 \<Longrightarrow> code_units a c \<le> 0"
proof (induction a arbitrary: b c)
  case Nil
  then show ?case by (cases c) simp_all
next
  case (Cons x xs)
  then obtain y ys z zs where bc: "b = y # ys" "c = z # zs" by (cases b; cases c) auto
  show ?case
  proof (cases "x = y \<and> y = z")
    case True
    with Cons bc show ?thesis by simp
  next
    case False
    with Cons.prems bc show ?thesis
      using unit_before(2) [of x y z] unit_before(3) [of x y] by (auto split: if_splits)
  qed
qed

interpretation numbers: comparator by_number
  by unfold_locales (simp_all add: by_number_def)

interpretation texts: comparator code_units
  by unfold_locales (subst code_units_swap, simp, rule code_units_trans)

section \<open>Sets\<close>

text \<open>
  A \<^verbatim>\<open>Set\<close> in its order of insertion.  A React state that holds one is replaced by a changed
  copy.
\<close>

definition set_add :: "'a \<Rightarrow> 'a list \<Rightarrow> 'a list" where
  "set_add x s = (if x \<in> set s then s else s @ [x])"

definition set_toggle :: "'a \<Rightarrow> 'a list \<Rightarrow> 'a list" where
  "set_toggle x s = (if x \<in> set s then removeAll x s else s @ [x])"

definition set_of :: "'a list \<Rightarrow> 'a list" where
  "set_of xs = fold set_add xs []"

lemma set_add_laws [simp]: "set (set_add x s) = insert x (set s)" "distinct s \<Longrightarrow> distinct (set_add x s)"
  by (auto simp: set_add_def)

lemma fold_set_add: "set (fold set_add xs s) = set s \<union> set xs \<and> (distinct s \<longrightarrow> distinct (fold set_add xs s))"
  by (induction xs arbitrary: s) auto

lemma set_of_laws [simp]: "set (set_of xs) = set xs" "distinct (set_of xs)"
  using fold_set_add [of xs "[]"] by (simp_all add: set_of_def)

lemma set_toggle_laws [simp]:
  "y \<in> set (set_toggle x s) \<longleftrightarrow> (if y = x then x \<notin> set s else y \<in> set s)"
  "distinct s \<Longrightarrow> distinct (set_toggle x s)"
  by (auto simp: set_toggle_def distinct_removeAll)

lemma set_of_snoc [simp]: "set_of [] = []" "set_of (xs @ [x]) = set_add x (set_of xs)"
  by (simp_all add: set_of_def)

section \<open>Maps\<close>

text \<open>
  A \<^verbatim>\<open>Map\<close> in its order of insertion: the groups of a list by a key, and the number of
  elements of each.
\<close>

definition map_push :: "'k \<Rightarrow> 'v \<Rightarrow> ('k \<times> 'v list) list \<Rightarrow> ('k \<times> 'v list) list" where
  "map_push k v m =
     (if map_of m k \<noteq> None then map (\<lambda>(j, vs). (j, if j = k then vs @ [v] else vs)) m else m @ [(k, [v])])"

definition map_count :: "'k \<Rightarrow> ('k \<times> nat) list \<Rightarrow> ('k \<times> nat) list" where
  "map_count k m =
     (if map_of m k \<noteq> None then map (\<lambda>(j, n). (j, if j = k then n + 1 else n)) m else m @ [(k, 1)])"

definition group_by :: "('a \<Rightarrow> 'k) \<Rightarrow> 'a list \<Rightarrow> ('k \<times> 'a list) list" where
  "group_by f xs = fold (\<lambda>x. map_push (f x) x) xs []"

definition count_by :: "('a \<Rightarrow> 'k) \<Rightarrow> 'a list \<Rightarrow> ('k \<times> nat) list" where
  "count_by f xs = fold (\<lambda>x. map_count (f x)) xs []"

lemma group_by: "group_by f xs = map (\<lambda>k. (k, filter (\<lambda>x. f x = k) xs)) (set_of (map f xs))"
proof (induction xs rule: rev_induct)
  case (snoc x xs)
  have step: "group_by f (xs @ [x]) = map_push (f x) x (group_by f xs)" by (simp add: group_by_def)
  have "map_of (group_by f xs) (f x) = None \<longleftrightarrow> f x \<notin> set (map f xs)"
    unfolding snoc.IH map_of_eq_None_iff by (simp add: image_image)
  then show ?case
    unfolding step map_push_def
    by (cases "f x \<in> f ` set xs") (auto simp: snoc.IH set_add_def filter_empty_conv image_iff)
qed (simp add: group_by_def)

lemma count_by: "count_by f xs = map (\<lambda>k. (k, length (filter (\<lambda>x. f x = k) xs))) (set_of (map f xs))"
proof (induction xs rule: rev_induct)
  case (snoc x xs)
  have step: "count_by f (xs @ [x]) = map_count (f x) (count_by f xs)" by (simp add: count_by_def)
  have "map_of (count_by f xs) (f x) = None \<longleftrightarrow> f x \<notin> set (map f xs)"
    unfolding snoc.IH map_of_eq_None_iff by (simp add: image_image)
  then show ?case
    unfolding step map_count_def
    by (cases "f x \<in> f ` set xs") (auto simp: snoc.IH set_add_def filter_empty_conv image_iff)
qed (simp add: count_by_def)

lemma map_of_graph: "map_of (map (\<lambda>k. (k, g k)) ks) k = (if k \<in> set ks then Some (g k) else None)"
  by (induction ks) auto

lemma map_of_group_by:
  "map_of (group_by f xs) k = (if k \<in> f ` set xs then Some (filter (\<lambda>x. f x = k) xs) else None)"
  by (simp add: group_by map_of_graph)

lemma map_of_count_by:
  "map_of (count_by f xs) k = (if k \<in> f ` set xs then Some (length (filter (\<lambda>x. f x = k) xs)) else None)"
  by (simp add: count_by map_of_graph)

lemma mset_groups:
  assumes "distinct ks" and "f ` set xs \<subseteq> set ks"
  shows "mset (concat (map (\<lambda>k. filter (\<lambda>x. f x = k) xs) ks)) = mset xs"
  using assms
proof (induction ks arbitrary: xs)
  case (Cons k ks)
  let ?ys = "filter (\<lambda>x. f x \<noteq> k) xs"
  have "filter (\<lambda>x. f x = j) xs = filter (\<lambda>x. f x = j) ?ys" if "j \<in> set ks" for j
    unfolding filter_filter by (rule filter_cong) (use that Cons.prems(1) in auto)
  then have "map (\<lambda>j. filter (\<lambda>x. f x = j) xs) ks = map (\<lambda>j. filter (\<lambda>x. f x = j) ?ys) ks" by simp
  moreover have "mset (concat (map (\<lambda>j. filter (\<lambda>x. f x = j) ?ys) ks)) = mset ?ys"
    using Cons.prems by (intro Cons.IH) auto
  moreover have "mset (filter (\<lambda>x. f x = k) xs) + mset ?ys = mset xs"
    using multiset_partition [of "mset xs" "\<lambda>x. f x = k"] by (simp only: mset_filter)
  ultimately show ?case by (simp only: list.map concat.simps mset_append)
qed simp

lemma group_by_mset: "mset (concat (map snd (group_by f xs))) = mset xs"
  unfolding group_by map_map comp_def snd_conv by (rule mset_groups) simp_all

section \<open>Numbers\<close>

definition js_round :: "real \<Rightarrow> int" where
  "js_round x = \<lfloor>x + 1 / 2\<rfloor>"

definition int_text :: "int \<Rightarrow> string" where
  "int_text i = (if i < 0 then CHR ''-'' # dec (nat (- i)) else dec (nat i))"

lemma int_text_inj [simp]: "int_text i = int_text j \<longleftrightarrow> i = j"
proof -
  have "hd (dec n) \<noteq> CHR ''-''" for n
    using dec_digits [of n] by (cases "dec n") (auto simp: is_digit_def)
  then have "dec n \<noteq> CHR ''-'' # s" for n s by (metis list.sel(1))
  then show ?thesis by (auto simp: int_text_def) metis+
qed

end
