(* ===== verification/NexusTables.thy ===== *)
theory NexusTables
  imports JsText
begin

text \<open>
  What the tables of the nexus web pages share: the comparator of a column (\<^verbatim>\<open>makeCmp\<close>), the
  state of a sorted table, and the text filter.

  The collation of strings is the browser's \<^verbatim>\<open>localeCompare\<close>, a parameter; what its
  documentation promises is \<open>comparator collate\<close>.
\<close>

section \<open>Column values\<close>

text \<open>What a column is sorted by: a number or a string; null is \<open>None\<close>.\<close>

datatype sort_value = Num int | Str string

fun String :: "sort_value \<Rightarrow> string" where
  "String (Num i) = int_text i"
| "String (Str s) = s"

fun compare_values :: "(string \<Rightarrow> string \<Rightarrow> int) \<Rightarrow> sort_value \<Rightarrow> sort_value \<Rightarrow> int" where
  "compare_values collate (Num i) (Num j) = i - j"
| "compare_values collate av bv = collate (String av) (String bv)"

definition makeCmp :: "(string \<Rightarrow> string \<Rightarrow> int) \<Rightarrow> ('a \<Rightarrow> sort_value option) \<Rightarrow> bool \<Rightarrow> 'a \<Rightarrow> 'a \<Rightarrow> int" where
  "makeCmp collate val asc a b =
     (case (val a, val b) of
        (None, None) \<Rightarrow> 0
      | (None, Some _) \<Rightarrow> 1
      | (Some _, None) \<Rightarrow> - 1
      | (Some av, Some bv) \<Rightarrow>
          (let base = compare_values collate av bv in if asc then base else - base))"

text \<open>Every column of the pages holds numbers only or strings only.\<close>

definition one_kind :: "('a \<Rightarrow> sort_value option) \<Rightarrow> bool" where
  "one_kind val \<longleftrightarrow> (\<forall>a. \<forall>s. val a \<noteq> Some (Str s)) \<or> (\<forall>a. \<forall>i. val a \<noteq> Some (Num i))"

definition column_le :: "(string \<Rightarrow> string \<Rightarrow> int) \<Rightarrow> bool \<Rightarrow> sort_value option \<Rightarrow> sort_value option \<Rightarrow> bool" where
  "column_le collate asc u v \<longleftrightarrow>
     (case (u, v) of
        (_, None) \<Rightarrow> True
      | (None, Some _) \<Rightarrow> False
      | (Some a, Some b) \<Rightarrow> compare_values collate (if asc then a else b) (if asc then b else a) \<le> 0)"

text \<open>A collation, and the columns it orders.\<close>

locale collation = comparator collate for collate :: "string \<Rightarrow> string \<Rightarrow> int"
begin

lemma compare_swap: "compare_values collate u v \<le> 0 \<longleftrightarrow> 0 \<le> compare_values collate v u"
  using cmp_swap by (cases u; cases v) auto

lemma compare_trans:
  assumes "compare_values collate u v \<le> 0" and "compare_values collate v w \<le> 0"
    and "(\<forall>s. u \<noteq> Str s) \<and> (\<forall>s. v \<noteq> Str s) \<and> (\<forall>s. w \<noteq> Str s)
      \<or> (\<forall>i. u \<noteq> Num i) \<and> (\<forall>i. v \<noteq> Num i) \<and> (\<forall>i. w \<noteq> Num i)"
  shows "compare_values collate u w \<le> 0"
proof (cases u)
  case (Num i)
  with assms(3) obtain j k where "v = Num j" "w = Num k" by (cases v; cases w; simp)
  with Num assms(1,2) show ?thesis by simp
next
  case (Str x)
  with assms(3) obtain y z where "v = Str y" "w = Str z" by (cases v; cases w; simp)
  with Str assms(1,2) show ?thesis using cmp_trans [of x y z] by simp
qed

lemma makeCmp_comparator:
  assumes "one_kind val"
  shows "comparator (makeCmp collate val asc)"
proof
  fix a b c
  show "makeCmp collate val asc a b \<le> 0 \<longleftrightarrow> 0 \<le> makeCmp collate val asc b a"
  proof (cases "val a"; cases "val b")
    fix u v
    assume "val a = Some u" "val b = Some v"
    then show ?thesis using compare_swap [of u v] compare_swap [of v u] by (simp add: makeCmp_def Let_def)
  qed (simp_all add: makeCmp_def)
  assume ab: "makeCmp collate val asc a b \<le> 0" and bc: "makeCmp collate val asc b c \<le> 0"
  show "makeCmp collate val asc a c \<le> 0"
  proof (cases "val a"; cases "val c")
    fix u w
    assume u: "val a = Some u" and w: "val c = Some w"
    with ab bc obtain v where v: "val b = Some v" by (cases "val b") (auto simp: makeCmp_def)
    have kinds: "(\<forall>s. u \<noteq> Str s) \<and> (\<forall>s. v \<noteq> Str s) \<and> (\<forall>s. w \<noteq> Str s)
        \<or> (\<forall>i. u \<noteq> Num i) \<and> (\<forall>i. v \<noteq> Num i) \<and> (\<forall>i. w \<noteq> Num i)"
      using assms u v w unfolding one_kind_def by metis
    show ?thesis
    proof (cases asc)
      case True
      with ab bc u v w kinds show ?thesis
        using compare_trans [of u v w] by (simp add: makeCmp_def)
    next
      case False
      then have "compare_values collate w v \<le> 0" "compare_values collate v u \<le> 0"
        using ab bc u v w compare_swap [of v u] compare_swap [of w v] by (simp_all add: makeCmp_def)
      then have "compare_values collate w u \<le> 0" using kinds compare_trans [of w v u] by blast
      with False u w show ?thesis using compare_swap [of w u] by (simp add: makeCmp_def)
    qed
  next
    fix w
    assume "val a = None" "val c = Some w"
    with ab bc show ?thesis by (cases "val b") (auto simp: makeCmp_def)
  qed (simp_all add: makeCmp_def)
qed

lemma makeCmp_le: "makeCmp collate val asc a b \<le> 0 \<longleftrightarrow> column_le collate asc (val a) (val b)"
  using compare_swap by (auto simp: makeCmp_def column_le_def Let_def split: option.split)

end

interpretation plain: collation code_units ..

subsection \<open>Sorted tables\<close>

lemma in_order_makeCmp:
  "comparator collate \<Longrightarrow>
    in_order (makeCmp collate val asc) xs \<longleftrightarrow> sorted_wrt (\<lambda>a b. column_le collate asc (val a) (val b)) xs"
  unfolding in_order_def by (subst collation.makeCmp_le) (simp_all add: collation_def)

lemma valued_first:
  "sorted_wrt (\<lambda>a b. column_le collate asc (val a) (val b)) xs \<Longrightarrow>
    xs = filter (\<lambda>a. val a \<noteq> None) xs @ filter (\<lambda>a. val a = None) xs"
proof (induction xs)
  case (Cons x xs)
  then have IH: "xs = filter (\<lambda>a. val a \<noteq> None) xs @ filter (\<lambda>a. val a = None) xs" by simp
  show ?case
  proof (cases "val x")
    case None
    with Cons.prems have "\<forall>y\<in>set xs. val y = None" by (auto simp: column_le_def split: option.splits)
    with None show ?thesis by (simp add: filter_empty_conv)
  next
    case (Some v)
    with IH show ?thesis by simp
  qed
qed simp

section \<open>The state of a sorted table\<close>

record 'k sorting =
  sortKey :: 'k
  sortAsc :: bool

definition onSort :: "'k \<Rightarrow> 'k sorting \<Rightarrow> 'k sorting" where
  "onSort key s = (if key = sortKey s then s\<lparr>sortAsc := \<not> sortAsc s\<rparr> else s\<lparr>sortKey := key, sortAsc := True\<rparr>)"

definition sort_arrow :: "'k \<Rightarrow> 'k sorting \<Rightarrow> string" where
  "sort_arrow key s = (if sortKey s = key then (if sortAsc s then '' '' @ [CHR 0xE2, CHR 0x96, CHR 0xB2]
     else '' '' @ [CHR 0xE2, CHR 0x96, CHR 0xBC]) else '''')"

lemma onSort_asc: "sortKey (onSort key s) = key"
  "sortAsc (onSort key s) \<longleftrightarrow> key \<noteq> sortKey s \<or> \<not> sortAsc s"
  by (auto simp: onSort_def)

end
