(* ===== verification/NexusIssues.thy ===== *)
theory NexusIssues
  imports NexusTables
begin

text \<open>
  The issues page of the nexus web interface, \<^verbatim>\<open>pages/Issues.tsx\<close>: the rows it builds from the
  issues of the server, the columns it sorts them by, the selection, and the acknowledgements it
  sends.  The explanations of the kinds of issues are fixed texts and are left out.
\<close>

section \<open>Issues (api/types.ts)\<close>

datatype issue_severity = WarnIssue | BadIssue

datatype verdict_tone = Good | Bad | Warning | Neutral

record interface_connection =
  ic_fqdn :: string
  ic_interface :: string

record cdp_neighbor =
  deviceId :: string
  devicePort :: "string option"

datatype issue_detail_value =
    Text string
  | Mac string bool
  | DeviceRef string string
  | InterfaceRef string "string option"
  | Verdict string verdict_tone
  | Href string string
  | StpRoot string string "string option" "int option" bool
  | Member string "string option" "int option" "string option" "interface_connection option" "cdp_neighbor option"

record issue_detail =
  id_label :: string
  id_value :: issue_detail_value

record issue =
  issueKey :: string
  is_fqdn :: string
  is_hostname :: string
  is_kind :: string
  is_severity :: issue_severity
  title :: string
  is_description :: string
  subjectLabel :: "string option"
  is_detail :: "issue_detail list"
  groupKey :: "string option"
  firstSeen :: int
  lastSeen :: int
  acknowledged :: bool
  ackedAt :: "int option"
  ackedBy :: "string option"
  is_note :: "string option"

record issue_type =
  it_kind :: string
  it_category :: string
  it_title :: string
  it_description :: string
  suppressed :: bool

section \<open>Text of an issue\<close>

definition ago :: "int \<Rightarrow> int \<Rightarrow> string" where
  "ago t ms =
     (let s = max 0 ((t - ms) div 1000) in
      if s < 60 then int_text s @ ''s ago''
      else let m = s div 60 in
      if m < 60 then int_text m @ ''m ago''
      else let h = m div 60 in
      if h < 24 then int_text h @ ''h '' @ int_text (m mod 60) @ ''m ago''
      else int_text (h div 24) @ ''d '' @ int_text (h mod 24) @ ''h ago'')"

definition subjectOf :: "string \<Rightarrow> string" where
  "subjectOf key = (let parts = split (CHR ''|'') key in
     if length parts \<ge> 3 then join ''|'' (drop 2 parts) else '''')"

text \<open>JavaScript's \<open>||\<close> and \<open>??\<close> on strings.\<close>

definition str_or :: "string \<Rightarrow> string \<Rightarrow> string" where
  "str_or a b = (if a \<noteq> '''' then a else b)"

definition truthy_text :: "string option \<Rightarrow> bool" where
  "truthy_text v \<longleftrightarrow> v \<noteq> None \<and> v \<noteq> Some ''''"

definition ends_arrow :: string where
  "ends_arrow = '' '' @ [CHR 0xE2, CHR 0x86, CHR 0x94] @ '' ''"

section \<open>Rows\<close>

record row =
  row_key :: string
  members :: "issue list"
  primary :: issue

definition grouped :: "issue \<Rightarrow> bool" where
  "grouped i \<longleftrightarrow> truthy_text (groupKey i)"

definition end_name :: "issue \<Rightarrow> string" where
  "end_name i = str_or (is_hostname i) (is_fqdn i)"

definition single_row :: "issue \<Rightarrow> row" where
  "single_row i = \<lparr>row_key = issueKey i, members = [i], primary = i\<rparr>"

definition group_row :: "(string \<Rightarrow> string \<Rightarrow> int) \<Rightarrow> string \<times> issue list \<Rightarrow> row" where
  "group_row collate g =
     (let ms = js_sort (\<lambda>a b. collate (end_name a) (end_name b)) (snd g)
      in \<lparr>row_key = fst g, members = ms, primary = hd ms\<rparr>)"

definition row_step :: "issue \<Rightarrow> (string \<times> issue list) list \<times> row list \<Rightarrow> (string \<times> issue list) list \<times> row list" where
  "row_step i gr =
     (if grouped i then (map_push (the (groupKey i)) i (fst gr), snd gr)
      else (fst gr, snd gr @ [single_row i]))"

definition buildRows :: "(string \<Rightarrow> string \<Rightarrow> int) \<Rightarrow> issue list \<Rightarrow> row list" where
  "buildRows collate xs = (let (groups, rows) = fold row_step xs ([], []) in rows @ map (group_row collate) groups)"

definition rowSeverity :: "row \<Rightarrow> issue_severity" where
  "rowSeverity r = (if list_ex (\<lambda>m. is_severity m = BadIssue) (members r) then BadIssue else WarnIssue)"

definition rowFirstSeen :: "row \<Rightarrow> int" where
  "rowFirstSeen r = Min (set (map firstSeen (members r)))"

definition rowAcked :: "row \<Rightarrow> bool" where
  "rowAcked r = list_all acknowledged (members r)"

definition rowKeys :: "row \<Rightarrow> string list" where
  "rowKeys r = map issueKey (members r)"

definition isCombined :: "row \<Rightarrow> bool" where
  "isCombined r \<longleftrightarrow> length (members r) > 1"

definition rowDeviceLabel :: "row \<Rightarrow> string" where
  "rowDeviceLabel r =
     (if \<not> isCombined r then str_or (str_or (is_hostname (primary r)) (is_fqdn (primary r))) ''network''
      else join ends_arrow (map end_name (members r)))"

definition rowAffectedLabel :: "row \<Rightarrow> string option" where
  "rowAffectedLabel r =
     (if \<not> isCombined r then subjectLabel (primary r)
      else let parts = map the (filter truthy_text (map subjectLabel (members r)))
           in if parts \<noteq> [] then Some (join ends_arrow parts) else None)"

definition partialAckHint :: "row \<Rightarrow> (nat \<times> nat) option" where
  "partialAckHint r =
     (if length (members r) < 2 then None
      else let acked = length (filter acknowledged (members r))
           in if acked = 0 \<or> acked = length (members r) then None else Some (acked, length (members r)))"

datatype issue_sort_key = BySeverity | ByDevice | ByAffected | ByIssue | ByAge

fun rowSortVal :: "issue_sort_key \<Rightarrow> row \<Rightarrow> sort_value option" where
  "rowSortVal BySeverity r = Some (Num (if rowSeverity r = BadIssue then 0 else 1))"
| "rowSortVal ByDevice r = (if is_fqdn (primary r) \<noteq> '''' then Some (Str (rowDeviceLabel r)) else None)"
| "rowSortVal ByAffected r = map_option Str (rowAffectedLabel r)"
| "rowSortVal ByIssue r = Some (Str (title (primary r)))"
| "rowSortVal ByAge r = Some (Num (rowFirstSeen r))"

text \<open>The two lists of the page.\<close>

definition shown_issues :: "string option \<Rightarrow> issue list \<Rightarrow> issue list" where
  "shown_issues selectedKind xs = filter (\<lambda>i. \<not> truthy_text selectedKind \<or> selectedKind = Some (is_kind i)) xs"

definition issue_cmp :: "(string \<Rightarrow> string \<Rightarrow> int) \<Rightarrow> issue_sort_key sorting \<Rightarrow> row \<Rightarrow> row \<Rightarrow> int" where
  "issue_cmp collate s = makeCmp collate (rowSortVal (sortKey s)) (sortAsc s)"

definition active_rows :: "(string \<Rightarrow> string \<Rightarrow> int) \<Rightarrow> string option \<Rightarrow> issue_sort_key sorting \<Rightarrow> issue list \<Rightarrow> row list" where
  "active_rows collate kind s xs =
     js_sort (issue_cmp collate s) (filter (\<lambda>r. \<not> rowAcked r) (buildRows collate (shown_issues kind xs)))"

definition acknowledged_rows :: "(string \<Rightarrow> string \<Rightarrow> int) \<Rightarrow> string option \<Rightarrow> issue_sort_key sorting \<Rightarrow> issue list \<Rightarrow> row list" where
  "acknowledged_rows collate kind s xs =
     js_sort (issue_cmp collate s) (filter rowAcked (buildRows collate (shown_issues kind xs)))"

text \<open>Counts and lookups.\<close>

definition countByKind :: "issue list \<Rightarrow> (string \<times> nat) list" where
  "countByKind xs = count_by is_kind xs"

definition typesByCategory :: "issue_type list \<Rightarrow> (string \<times> issue_type list) list" where
  "typesByCategory ts = group_by it_category ts"

definition rowKeyOf :: "issue list \<Rightarrow> string \<Rightarrow> string option" where
  "rowKeyOf xs = map_of (rev (map (\<lambda>i. (issueKey i, case groupKey i of None \<Rightarrow> issueKey i | Some g \<Rightarrow> g)) xs))"

definition siblings :: "issue list \<Rightarrow> issue \<Rightarrow> issue list" where
  "siblings all i = filter (\<lambda>o'. issueKey o' \<noteq> issueKey i \<and> is_fqdn o' = is_fqdn i
     \<and> subjectOf (issueKey o') = subjectOf (issueKey i)) all"

definition relatedByKey :: "issue list \<Rightarrow> string \<Rightarrow> issue list option" where
  "relatedByKey all = map_of (rev (map (\<lambda>i. (issueKey i, siblings all i))
     (filter (\<lambda>i. is_fqdn i \<noteq> '''' \<and> siblings all i \<noteq> []) all)))"

section \<open>The page\<close>

text \<open>
  A mutation of react-query: its requests are sent together and it settles when all have settled.
  A button whose request is under way is disabled, so a mutation is not started twice.
\<close>

datatype mutation = Idle | Pending "string list" | Success | Failed string

datatype issue_request =
    AckIssue string "string option"
  | UnackIssue string
  | SuppressType string
  | UnsuppressType string

datatype query_key = IssuesQuery | IssueTypesQuery

record issues_page =
  issues :: "issue list"
  issueTypes :: "issue_type list"
  typesOpen :: bool
  selectedKind :: "string option"
  expanded :: "string list"
  ackingKey :: "string option"
  ackNote :: string
  selecting :: bool
  selected :: "string list"
  issue_sorting :: "issue_sort_key sorting"
  ack_mutation :: mutation
  unack_mutation :: mutation
  massAck_mutation :: mutation
  suppress_mutation :: mutation
  unsuppress_mutation :: mutation
  requests :: "issue_request list"
  invalidated :: "query_key list"

definition new_issues_page :: issues_page where
  "new_issues_page =
     \<lparr>issues = [], issueTypes = [], typesOpen = False, selectedKind = None, expanded = [], ackingKey = None, ackNote = '''',
      selecting = False, selected = [], issue_sorting = \<lparr>sortKey = BySeverity, sortAsc = True\<rparr>, ack_mutation = Idle,
      unack_mutation = Idle, massAck_mutation = Idle, suppress_mutation = Idle, unsuppress_mutation = Idle, requests = [],
      invalidated = []\<rparr>"

fun isPending :: "mutation \<Rightarrow> bool" where
  "isPending (Pending ks) = True"
| "isPending m = False"

definition pending :: "issues_page \<Rightarrow> bool" where
  "pending p \<longleftrightarrow> isPending (ack_mutation p) \<or> isPending (unack_mutation p) \<or> isPending (massAck_mutation p)"

definition active :: "(string \<Rightarrow> string \<Rightarrow> int) \<Rightarrow> issues_page \<Rightarrow> row list" where
  "active collate p = active_rows collate (selectedKind p) (issue_sorting p) (issues p)"

definition acked :: "(string \<Rightarrow> string \<Rightarrow> int) \<Rightarrow> issues_page \<Rightarrow> row list" where
  "acked collate p = acknowledged_rows collate (selectedKind p) (issue_sorting p) (issues p)"

definition issue_toggle :: "string \<Rightarrow> issues_page \<Rightarrow> issues_page" where
  "issue_toggle key p = p\<lparr>expanded := set_toggle key (expanded p)\<rparr>"

definition openIssue :: "string \<Rightarrow> issues_page \<Rightarrow> issues_page" where
  "openIssue key p =
     p\<lparr>expanded := set_add (case rowKeyOf (issues p) key of None \<Rightarrow> key | Some k \<Rightarrow> k) (expanded p)\<rparr>"

definition closeAckForm :: "issues_page \<Rightarrow> issues_page" where
  "closeAckForm p = p\<lparr>ackingKey := None, ackNote := ''''\<rparr>"

definition openAckForm :: "string \<Rightarrow> issues_page \<Rightarrow> issues_page" where
  "openAckForm key p = p\<lparr>ackNote := '''', ackingKey := Some key\<rparr>"

definition exitSelect :: "issues_page \<Rightarrow> issues_page" where
  "exitSelect p = p\<lparr>selecting := False, selected := []\<rparr>"

definition invalidate :: "issues_page \<Rightarrow> issues_page" where
  "invalidate p = p\<lparr>invalidated := invalidated p @ [IssuesQuery]\<rparr>"

definition invalidateTypes :: "issues_page \<Rightarrow> issues_page" where
  "invalidateTypes p = p\<lparr>invalidated := invalidated p @ [IssueTypesQuery, IssuesQuery]\<rparr>"

text \<open>The mutations: what they send, and what follows when they settle.\<close>

definition ack_mutate :: "string list \<Rightarrow> string option \<Rightarrow> issues_page \<Rightarrow> issues_page" where
  "ack_mutate keys note p =
     p\<lparr>ack_mutation := Pending keys, requests := requests p @ map (\<lambda>k. AckIssue k note) keys\<rparr>"

definition unack_mutate :: "string list \<Rightarrow> issues_page \<Rightarrow> issues_page" where
  "unack_mutate keys p =
     p\<lparr>unack_mutation := Pending keys, requests := requests p @ map UnackIssue keys\<rparr>"

definition massAck_mutate :: "string list \<Rightarrow> issues_page \<Rightarrow> issues_page" where
  "massAck_mutate keys p =
     p\<lparr>massAck_mutation := Pending keys, requests := requests p @ map (\<lambda>k. AckIssue k None) keys\<rparr>"

definition settle_result :: "bool list \<Rightarrow> string \<Rightarrow> mutation" where
  "settle_result fulfilled what =
     (let failed = length (filter Not fulfilled)
      in if failed \<noteq> 0 then Failed (dec failed @ '' of '' @ dec (length fulfilled) @ '' could not be '' @ what) else Success)"

definition ack_settled :: "bool list \<Rightarrow> issues_page \<Rightarrow> issues_page" where
  "ack_settled fulfilled p =
     (let r = settle_result fulfilled ''acknowledged''; q = p\<lparr>ack_mutation := r\<rparr>
      in if r = Success then invalidate (closeAckForm q) else q)"

definition unack_settled :: "bool list \<Rightarrow> issues_page \<Rightarrow> issues_page" where
  "unack_settled fulfilled p =
     (let r = settle_result fulfilled ''un-acknowledged''; q = p\<lparr>unack_mutation := r\<rparr>
      in if r = Success then invalidate q else q)"

definition massAck_settled :: "bool list \<Rightarrow> issues_page \<Rightarrow> issues_page" where
  "massAck_settled fulfilled p =
     (let r = settle_result fulfilled ''acknowledged''; q = p\<lparr>massAck_mutation := r\<rparr>
      in if r = Success then invalidate (exitSelect q) else q)"

definition onToggleSuppress :: "issue_type \<Rightarrow> issues_page \<Rightarrow> issues_page" where
  "onToggleSuppress t p =
     (if suppressed t
      then p\<lparr>unsuppress_mutation := Pending [it_kind t], requests := requests p @ [UnsuppressType (it_kind t)]\<rparr>
      else let q = (if selectedKind p = Some (it_kind t) then p\<lparr>selectedKind := None\<rparr> else p)
           in q\<lparr>suppress_mutation := Pending [it_kind t], requests := requests q @ [SuppressType (it_kind t)]\<rparr>)"

definition types_settled :: "bool \<Rightarrow> string \<Rightarrow> issues_page \<Rightarrow> mutation \<times> issues_page" where
  "types_settled fulfilled err p = (if fulfilled then (Success, invalidateTypes p) else (Failed err, p))"

definition filter_kind :: "issue_type \<Rightarrow> issues_page \<Rightarrow> issues_page" where
  "filter_kind t p = p\<lparr>selectedKind := (if selectedKind p = Some (it_kind t) then None else Some (it_kind t))\<rparr>"

text \<open>The selection.\<close>

definition rowSelected :: "issues_page \<Rightarrow> row \<Rightarrow> bool" where
  "rowSelected p r = list_all (\<lambda>k. k \<in> set (selected p)) (rowKeys r)"

definition toggle_keys :: "string list \<Rightarrow> string list \<Rightarrow> string list" where
  "toggle_keys keys s = (if list_all (\<lambda>k. k \<in> set s) keys then fold removeAll keys s else fold set_add keys s)"

definition toggleSelectedRow :: "row \<Rightarrow> issues_page \<Rightarrow> issues_page" where
  "toggleSelectedRow r p = p\<lparr>selected := toggle_keys (rowKeys r) (selected p)\<rparr>"

definition allSelected :: "(string \<Rightarrow> string \<Rightarrow> int) \<Rightarrow> issues_page \<Rightarrow> bool" where
  "allSelected collate p \<longleftrightarrow> active collate p \<noteq> [] \<and> list_all (rowSelected p) (active collate p)"

definition toggleSelectAll :: "(string \<Rightarrow> string \<Rightarrow> int) \<Rightarrow> issues_page \<Rightarrow> issues_page" where
  "toggleSelectAll collate p =
     p\<lparr>selected := (if allSelected collate p then [] else set_of (concat (map rowKeys (active collate p))))\<rparr>"

text \<open>The buttons of a row: un-acknowledge, confirm, or open the form.\<close>

definition note_text :: "string \<Rightarrow> string option" where
  "note_text note = (if trim note \<noteq> '''' then Some (trim note) else None)"

definition actionButton :: "row \<Rightarrow> issues_page \<Rightarrow> issues_page" where
  "actionButton r p =
     (if selecting p \<or> pending p then p
      else if rowAcked r then unack_mutate (rowKeys r) p
      else if ackingKey p = Some (row_key r) then ack_mutate (rowKeys r) (note_text (ackNote p)) p
      else openAckForm (row_key r) p)"

section \<open>Events\<close>

datatype issues_event =
    Fetched "issue list"
  | TypesFetched "issue_type list"
  | ToggleTypes
  | ToggleSuppress issue_type
  | FilterKind issue_type
  | ClearFilter
  | Expand string
  | OpenRelated string
  | Action row
  | TypeNote string
  | CancelAck
  | StartSelect
  | SelectRow row
  | SelectAll
  | MassAck
  | CancelSelect
  | Sort issue_sort_key
  | SetSort issue_sort_key bool
  | AckSettled "bool list"
  | UnackSettled "bool list"
  | MassAckSettled "bool list"
  | SuppressSettled bool string
  | UnsuppressSettled bool string

text \<open>The rows of a page, and the form, which is shown below the row it belongs to.\<close>

definition shown_rows :: "(string \<Rightarrow> string \<Rightarrow> int) \<Rightarrow> issues_page \<Rightarrow> row list" where
  "shown_rows collate p = active collate p @ acked collate p"

definition form_shown :: "(string \<Rightarrow> string \<Rightarrow> int) \<Rightarrow> issues_page \<Rightarrow> bool" where
  "form_shown collate p \<longleftrightarrow> list_ex (\<lambda>r. ackingKey p = Some (row_key r)) (shown_rows collate p)"

inductive issues_step :: "(string \<Rightarrow> string \<Rightarrow> int) \<Rightarrow> issues_page \<Rightarrow> issues_event \<Rightarrow> issues_page \<Rightarrow> bool"
  for collate where
  fetched: "issues_step collate p (Fetched xs) (p\<lparr>issues := xs\<rparr>)"
| typesFetched: "issues_step collate p (TypesFetched ts) (p\<lparr>issueTypes := ts\<rparr>)"
| toggleTypes: "issues_step collate p ToggleTypes (p\<lparr>typesOpen := \<not> typesOpen p\<rparr>)"
| toggleSuppress: "typesOpen p \<Longrightarrow> t \<in> set (issueTypes p) \<Longrightarrow>
    \<not> isPending (suppress_mutation p) \<Longrightarrow> \<not> isPending (unsuppress_mutation p) \<Longrightarrow>
    issues_step collate p (ToggleSuppress t) (onToggleSuppress t p)"
| filterKind: "typesOpen p \<Longrightarrow> t \<in> set (issueTypes p) \<Longrightarrow> \<not> suppressed t \<Longrightarrow>
    issues_step collate p (FilterKind t) (filter_kind t p)"
| clearFilter: "truthy_text (selectedKind p) \<Longrightarrow> issues_step collate p ClearFilter (p\<lparr>selectedKind := None\<rparr>)"
| expand: "r \<in> set (shown_rows collate p) \<Longrightarrow> issues_step collate p (Expand (row_key r)) (issue_toggle (row_key r) p)"
| openRelated: "r \<in> set (shown_rows collate p) \<Longrightarrow> row_key r \<in> set (expanded p) \<Longrightarrow> m \<in> set (members r) \<Longrightarrow>
    relatedByKey (issues p) (issueKey m) = Some rel \<Longrightarrow> i \<in> set rel \<Longrightarrow>
    issues_step collate p (OpenRelated (issueKey i)) (openIssue (issueKey i) p)"
| action: "r \<in> set (shown_rows collate p) \<Longrightarrow> issues_step collate p (Action r) (actionButton r p)"
| typeNote: "form_shown collate p \<Longrightarrow> issues_step collate p (TypeNote s) (p\<lparr>ackNote := s\<rparr>)"
| cancelAck: "form_shown collate p \<Longrightarrow> \<not> pending p \<Longrightarrow> issues_step collate p CancelAck (closeAckForm p)"
| startSelect: "active collate p \<noteq> [] \<Longrightarrow> \<not> selecting p \<Longrightarrow> issues_step collate p StartSelect (p\<lparr>selecting := True\<rparr>)"
| selectRow: "selecting p \<Longrightarrow> r \<in> set (active collate p) \<Longrightarrow>
    issues_step collate p (SelectRow r) (toggleSelectedRow r p)"
| selectAll: "selecting p \<Longrightarrow> issues_step collate p SelectAll (toggleSelectAll collate p)"
| massAck: "selecting p \<Longrightarrow> selected p \<noteq> [] \<Longrightarrow> \<not> isPending (massAck_mutation p) \<Longrightarrow>
    issues_step collate p MassAck (massAck_mutate (selected p) p)"
| cancelSelect: "selecting p \<Longrightarrow> \<not> isPending (massAck_mutation p) \<Longrightarrow> issues_step collate p CancelSelect (exitSelect p)"
| sort: "issues_step collate p (Sort key) (p\<lparr>issue_sorting := onSort key (issue_sorting p)\<rparr>)"
| setSort: "issues_step collate p (SetSort key up) (p\<lparr>issue_sorting := \<lparr>sortKey = key, sortAsc = up\<rparr>\<rparr>)"
| ackSettled: "ack_mutation p = Pending ks \<Longrightarrow> length fs = length ks \<Longrightarrow>
    issues_step collate p (AckSettled fs) (ack_settled fs p)"
| unackSettled: "unack_mutation p = Pending ks \<Longrightarrow> length fs = length ks \<Longrightarrow>
    issues_step collate p (UnackSettled fs) (unack_settled fs p)"
| massAckSettled: "massAck_mutation p = Pending ks \<Longrightarrow> length fs = length ks \<Longrightarrow>
    issues_step collate p (MassAckSettled fs) (massAck_settled fs p)"
| suppressSettled: "suppress_mutation p = Pending ks \<Longrightarrow> types_settled fulfilled err p = (m, q) \<Longrightarrow>
    issues_step collate p (SuppressSettled fulfilled err) (q\<lparr>suppress_mutation := m\<rparr>)"
| unsuppressSettled: "unsuppress_mutation p = Pending ks \<Longrightarrow> types_settled fulfilled err p = (m, q) \<Longrightarrow>
    issues_step collate p (UnsuppressSettled fulfilled err) (q\<lparr>unsuppress_mutation := m\<rparr>)"

inductive_cases issues_stepE: "issues_step collate p e q"

end
