(* ===== verification/StpPath.thy ===== *)
theory StpPath
  imports Prelude
begin

text \<open>
  The route between two switches on the spanning tree of a VLAN, as \<^verbatim>\<open>pages/STP.tsx\<close> of the nexus
  web interface computes it from the nodes the server sends: each node names its parent, and the route
  goes up from one switch to the lowest common ancestor and down to the other.

  The nodes come from polling many switches, so nothing is assumed of them: parents may be missing, be
  no nodes, or form cycles.
\<close>

section \<open>Nodes\<close>

record stp_bridge =
  sb_vlan :: nat
  rootPriority :: "nat option"
  rootMac :: "string option"
  rootCost :: "nat option"
  rootPort :: "nat option"
  sb_rootPortInterfaceName :: "string option"
  topologyChanges :: "nat option"
  timeSinceTopologyChangeSecs :: "nat option"
  sb_timestamp :: int

record stp_root_mismatch =
  computedRootFqdn :: string
  computedRootHostname :: string
  computedRootMac :: "string option"
  computedRootPriority :: "nat option"
  reportedRootMac :: "string option"
  reportedRootPriority :: "nat option"
  reportedRootMonitored :: bool
  reportedRootSuperior :: "bool option"

record stp_node =
  sn_fqdn :: string
  sn_depth :: nat
  sn_parent :: "string option"
  sn_parentInterface :: "string option"
  sn_rootPortInterfaceName :: "string option"
  sn_rootPortState :: "string option"
  sn_pathCost :: "nat option"
  reported :: "stp_bridge option"
  rootMismatch :: bool
  rootMismatchDetail :: "stp_root_mismatch option"
  sn_orphan :: bool

record stp_hop =
  hop_from :: "string option"
  hop_fromInterface :: "string option"
  hop_to :: "string option"
  hop_toInterface :: "string option"
  hop_state :: "string option"

type_synonym stp_nodes = "stp_node list"

text \<open>\<^verbatim>\<open>new Map(...)\<close>: a later node of the same name replaces an earlier one.\<close>

definition byFqdn :: "stp_nodes \<Rightarrow> string \<Rightarrow> stp_node option" where
  "byFqdn nodes = map_of (rev (map (\<lambda>n. (sn_fqdn n, n)) nodes))"

text \<open>A parent that is null or the empty string ends the walk.\<close>

definition parent_node :: "stp_nodes \<Rightarrow> stp_node \<Rightarrow> stp_node option" where
  "parent_node nodes n = (case sn_parent n of None \<Rightarrow> None | Some p \<Rightarrow> if p = [] then None else byFqdn nodes p)"

lemma byFqdn_Some: "byFqdn nodes k = Some n \<Longrightarrow> sn_fqdn n = k \<and> n \<in> set nodes"
  by (auto simp: byFqdn_def dest!: map_of_SomeD)

lemma byFqdn_dom: "byFqdn nodes k \<noteq> None \<longleftrightarrow> k \<in> sn_fqdn ` set nodes"
  by (simp add: byFqdn_def map_of_eq_None_iff image_image)

lemma parent_node_Some:
  "parent_node nodes n = Some p \<Longrightarrow> sn_parent n = Some (sn_fqdn p) \<and> byFqdn nodes (sn_fqdn p) = Some p"
  by (auto simp: parent_node_def byFqdn_Some split: option.splits if_splits dest: byFqdn_Some)

section \<open>The walk to the root\<close>

text \<open>\<open>seen\<close> guards against cycles, and makes the walk end: every round sees one name more of the map.\<close>

function stp_walk :: "stp_nodes \<Rightarrow> stp_node option \<Rightarrow> string set \<Rightarrow> stp_node list" where
  "stp_walk nodes None seen = []"
| "stp_walk nodes (Some n) seen =
     (if sn_fqdn n \<in> seen then [] else n # stp_walk nodes (parent_node nodes n) (insert (sn_fqdn n) seen))"
  by pat_completeness auto

termination
proof (relation "measure (\<lambda>(nodes, cur, seen). case cur of None \<Rightarrow> 0
      | Some n \<Rightarrow> Suc (card (insert (sn_fqdn n) (sn_fqdn ` set nodes) - seen)))", simp, clarsimp)
  fix nodes and n :: stp_node and seen
  assume n: "sn_fqdn n \<notin> (seen :: string set)"
  show "(case parent_node nodes n of None \<Rightarrow> 0
      | Some p \<Rightarrow> Suc (card (insert (sn_fqdn p) (sn_fqdn ` set nodes) - insert (sn_fqdn n) seen)))
    < Suc (card (insert (sn_fqdn n) (sn_fqdn ` set nodes) - seen))"
  proof (cases "parent_node nodes n")
    case (Some p)
    then have "sn_fqdn p \<in> sn_fqdn ` set nodes" using parent_node_Some byFqdn_Some by blast
    then have "insert (sn_fqdn p) (sn_fqdn ` set nodes) - insert (sn_fqdn n) seen
        \<subset> insert (sn_fqdn n) (sn_fqdn ` set nodes) - seen" using n by blast
    from psubset_card_mono [OF _ this] show ?thesis using Some by simp
  qed simp
qed

definition stp_ancestors :: "stp_nodes \<Rightarrow> string \<Rightarrow> stp_node list" where
  "stp_ancestors nodes start = stp_walk nodes (byFqdn nodes start) {}"

section \<open>The route\<close>

definition up_hop :: "stp_node \<Rightarrow> stp_hop" where
  "up_hop child = \<lparr>hop_from = Some (sn_fqdn child), hop_fromInterface = sn_rootPortInterfaceName child, hop_to = sn_parent child,
     hop_toInterface = sn_parentInterface child, hop_state = sn_rootPortState child\<rparr>"

definition down_hop :: "stp_node \<Rightarrow> stp_hop" where
  "down_hop child = \<lparr>hop_from = sn_parent child, hop_fromInterface = sn_parentInterface child, hop_to = Some (sn_fqdn child),
     hop_toInterface = sn_rootPortInterfaceName child, hop_state = sn_rootPortState child\<rparr>"

text \<open>\<^verbatim>\<open>findIndex\<close>, and the index of a name in a chain.\<close>

fun find_index :: "('a \<Rightarrow> bool) \<Rightarrow> 'a list \<Rightarrow> nat option" where
  "find_index P [] = None"
| "find_index P (x # xs) = (if P x then Some 0 else map_option Suc (find_index P xs))"

definition toIndex :: "stp_node list \<Rightarrow> string \<Rightarrow> nat option" where
  "toIndex chain = map_of (rev (zip (map sn_fqdn chain) [0..<length chain]))"

datatype stp_error = Not_in_tree | No_common_tree

definition computeStpPath :: "stp_nodes \<Rightarrow> string \<Rightarrow> string \<Rightarrow> stp_error + stp_hop list" where
  "computeStpPath nodes from to =
     (if byFqdn nodes from = None \<or> byFqdn nodes to = None then Inl Not_in_tree
      else let upFrom = stp_ancestors nodes from; upTo = stp_ancestors nodes to
           in case find_index (\<lambda>n. toIndex upTo (sn_fqdn n) \<noteq> None) upFrom of
                None \<Rightarrow> Inl No_common_tree
              | Some i \<Rightarrow> Inr (map up_hop (take i upFrom)
                           @ map down_hop (rev (take (the (toIndex upTo (sn_fqdn (upFrom ! i)))) upTo))))"

section \<open>Walks\<close>

text \<open>The names above a name: what its parents lead to.\<close>

inductive above :: "stp_nodes \<Rightarrow> string \<Rightarrow> string \<Rightarrow> bool" for nodes where
  above_self: "byFqdn nodes k = Some n \<Longrightarrow> above nodes k k"
| above_parent: "byFqdn nodes k = Some n \<Longrightarrow> parent_node nodes n = Some p \<Longrightarrow> above nodes (sn_fqdn p) m \<Longrightarrow> above nodes k m"

text \<open>A chain: nodes of the map, each the parent of the one before.\<close>

fun chain :: "stp_nodes \<Rightarrow> stp_node list \<Rightarrow> bool" where
  "chain nodes [] = True"
| "chain nodes (n # ns) = (byFqdn nodes (sn_fqdn n) = Some n
     \<and> (case ns of [] \<Rightarrow> True | p # _ \<Rightarrow> parent_node nodes n = Some p) \<and> chain nodes ns)"

definition on_map :: "stp_nodes \<Rightarrow> stp_node option \<Rightarrow> bool" where
  "on_map nodes cur \<longleftrightarrow> (\<forall>n. cur = Some n \<longrightarrow> byFqdn nodes (sn_fqdn n) = Some n)"

lemma on_map_parent [simp]: "on_map nodes (parent_node nodes n)"
  by (auto simp: on_map_def dest: parent_node_Some)

lemma on_map_byFqdn [simp]: "on_map nodes (byFqdn nodes k)"
  by (auto simp: on_map_def dest: byFqdn_Some)

lemma stp_walk_hd: "stp_walk nodes cur seen = p # ps \<Longrightarrow> cur = Some p"
  by (cases cur) (auto split: if_splits)

lemma stp_walk_chain:
  assumes "on_map nodes cur"
  shows "chain nodes (stp_walk nodes cur seen) \<and> distinct (map sn_fqdn (stp_walk nodes cur seen))
    \<and> sn_fqdn ` set (stp_walk nodes cur seen) \<inter> seen = {}"
  using assms
proof (induction nodes cur seen rule: stp_walk.induct)
  case (2 nodes n seen)
  show ?case
  proof (cases "sn_fqdn n \<in> seen")
    case False
    let ?w = "stp_walk nodes (parent_node nodes n) (insert (sn_fqdn n) seen)"
    have "chain nodes ?w \<and> distinct (map sn_fqdn ?w) \<and> sn_fqdn ` set ?w \<inter> insert (sn_fqdn n) seen = {}"
      using 2 False by simp
    moreover have "case ?w of [] \<Rightarrow> True | p # _ \<Rightarrow> parent_node nodes n = Some p"
      by (auto split: list.split dest: stp_walk_hd)
    ultimately show ?thesis using 2(2) False by (auto simp: on_map_def)
  qed simp
qed simp

lemma chain_in: "chain nodes ns \<Longrightarrow> n \<in> set ns \<Longrightarrow> byFqdn nodes (sn_fqdn n) = Some n"
  by (induction ns) auto

text \<open>The walk meets everything above its start that is not behind a name already seen.\<close>

lemma above_trans_parent: "above nodes k m \<Longrightarrow> byFqdn nodes m = Some n \<Longrightarrow> parent_node nodes n = Some p \<Longrightarrow> above nodes k (sn_fqdn p)"
  by (induction rule: above.induct) (auto intro: above.intros dest: parent_node_Some)

lemma stp_walk_above: "on_map nodes cur \<Longrightarrow> cur = Some s \<Longrightarrow> n \<in> set (stp_walk nodes cur seen) \<Longrightarrow> above nodes (sn_fqdn s) (sn_fqdn n)"
proof (induction nodes cur seen arbitrary: s rule: stp_walk.induct)
  case (2 nodes m seen)
  then have m: "byFqdn nodes (sn_fqdn m) = Some m" "m = s" by (auto simp: on_map_def)
  show ?case
  proof (cases "n = m")
    case True
    then show ?thesis using m by (auto intro: above_self)
  next
    case False
    then have "n \<in> set (stp_walk nodes (parent_node nodes m) (insert (sn_fqdn m) seen))" and "sn_fqdn m \<notin> seen"
      using 2(4) by (auto split: if_splits)
    moreover from this obtain p where "parent_node nodes m = Some p" by (cases "parent_node nodes m") auto
    moreover have "on_map nodes (parent_node nodes m)" by simp
    ultimately have "above nodes (sn_fqdn p) (sn_fqdn n)" using 2(1) by blast
    then show ?thesis using m \<open>parent_node nodes m = Some p\<close> by (auto intro: above_parent)
  qed
qed simp

text \<open>A set of names is closed when parents of its names that are not in the second set are in it.\<close>

lemma stp_walk_closed:
  assumes "on_map nodes cur" and "n \<in> set (stp_walk nodes cur seen)" and "parent_node nodes n = Some p"
  shows "sn_fqdn p \<in> sn_fqdn ` set (stp_walk nodes cur seen) \<union> seen"
  using assms
proof (induction nodes cur seen rule: stp_walk.induct)
  case (2 nodes m seen)
  then have s: "sn_fqdn m \<notin> seen" by (auto split: if_splits)
  show ?case
  proof (cases "n = m")
    case True
    then show ?thesis using 2(4) s by (cases "sn_fqdn p \<in> insert (sn_fqdn m) seen") auto
  next
    case False
    then show ?thesis using 2(1) [OF s] 2(3,4) s by auto
  qed
qed simp

lemma stp_ancestors_above:
  "sn_fqdn ` set (stp_ancestors nodes k) = {m. above nodes k m}"
proof (intro equalityI subsetI)
  fix m
  assume "m \<in> sn_fqdn ` set (stp_ancestors nodes k)"
  then obtain n where n: "n \<in> set (stp_walk nodes (byFqdn nodes k) {})" "m = sn_fqdn n" by (auto simp: stp_ancestors_def)
  then obtain s where s: "byFqdn nodes k = Some s" by (cases "byFqdn nodes k") auto
  then show "m \<in> {m. above nodes k m}" using stp_walk_above [OF on_map_byFqdn s n(1)] n(2) byFqdn_Some [OF s] by simp
next
  fix m
  assume "m \<in> {m. above nodes k m}"
  then have "above nodes k m" by simp
  then obtain s where s: "byFqdn nodes k = Some s" by cases auto
  let ?w = "stp_walk nodes (byFqdn nodes k) {}"
  have w: "chain nodes ?w" using stp_walk_chain [of nodes "byFqdn nodes k" "{}"] by simp
  have "above nodes j m \<Longrightarrow> j \<in> sn_fqdn ` set ?w \<Longrightarrow> m \<in> sn_fqdn ` set ?w" for j
  proof (induction rule: above.induct)
    case (above_parent k' n p m')
    then have "n \<in> set ?w" using chain_in [OF w] byFqdn_Some by force
    from stp_walk_closed [OF _ this above_parent(2)] above_parent show ?case by simp
  qed
  moreover have "k \<in> sn_fqdn ` set ?w" using s byFqdn_Some [OF s] by simp
  ultimately show "m \<in> sn_fqdn ` set (stp_ancestors nodes k)" using \<open>above nodes k m\<close> by (simp add: stp_ancestors_def)
qed

lemma stp_ancestors_chain: "chain nodes (stp_ancestors nodes k)" "distinct (map sn_fqdn (stp_ancestors nodes k))"
  using stp_walk_chain [of nodes "byFqdn nodes k" "{}"] by (simp_all add: stp_ancestors_def)

lemma stp_ancestors_hd: "byFqdn nodes k = Some n \<Longrightarrow> \<exists>ns. stp_ancestors nodes k = n # ns"
  by (simp add: stp_ancestors_def)

section \<open>Correct routes\<close>

lemma find_index_Some:
  "find_index P xs = Some i \<longleftrightarrow> i < length xs \<and> P (xs ! i) \<and> (\<forall>j < i. \<not> P (xs ! j))"
proof (induction xs arbitrary: i)
  case (Cons x xs)
  show ?case
  proof (cases i)
    case (Suc k)
    then show ?thesis using Cons [of k] by (auto simp: less_Suc_eq_0_disj)
  qed auto
qed simp

lemma find_index_None: "find_index P xs = None \<longleftrightarrow> (\<forall>x \<in> set xs. \<not> P x)"
  by (induction xs) auto

lemma toIndex_Some:
  assumes "distinct (map sn_fqdn c)"
  shows "toIndex c k = Some i \<longleftrightarrow> i < length c \<and> sn_fqdn (c ! i) = k"
proof -
  let ?z = "zip (map sn_fqdn c) [0..<length c]"
  have "distinct (map fst (rev ?z))" using assms by (simp add: rev_map flip: rev_map)
  then have "toIndex c k = Some i \<longleftrightarrow> (k, i) \<in> set ?z" by (simp add: toIndex_def)
  also have "\<dots> \<longleftrightarrow> i < length c \<and> sn_fqdn (c ! i) = k" by (auto simp: set_zip intro!: exI [of _ i])
  finally show ?thesis .
qed

lemma toIndex_None: "toIndex c k = None \<longleftrightarrow> k \<notin> sn_fqdn ` set c"
proof -
  have "fst ` set (zip (map sn_fqdn c) [0..<length c]) = set (map sn_fqdn c)"
    by (metis length_map length_upt map_fst_zip minus_nat.diff_0 set_map)
  then show ?thesis by (simp add: toIndex_def map_of_eq_None_iff)
qed

text \<open>A hop crosses a link of the tree, up or down, and the hops lead from one name to another.\<close>

definition crosses :: "stp_nodes \<Rightarrow> string \<Rightarrow> stp_hop \<Rightarrow> string \<Rightarrow> bool" where
  "crosses nodes a h b \<longleftrightarrow>
     (\<exists>n p. byFqdn nodes a = Some n \<and> parent_node nodes n = Some p \<and> sn_fqdn p = b \<and> h = up_hop n)
   \<or> (\<exists>n p. byFqdn nodes b = Some n \<and> parent_node nodes n = Some p \<and> sn_fqdn p = a \<and> h = down_hop n)"

fun leads :: "stp_nodes \<Rightarrow> string \<Rightarrow> stp_hop list \<Rightarrow> string \<Rightarrow> bool" where
  "leads nodes a [] b = (a = b)"
| "leads nodes a (h # hs) b = (case hop_to h of None \<Rightarrow> False
     | Some c \<Rightarrow> hop_from h = Some a \<and> crosses nodes a h c \<and> leads nodes c hs b)"

definition visited :: "string \<Rightarrow> stp_hop list \<Rightarrow> string option list" where
  "visited a hs = Some a # map hop_to hs"

lemma crosses_ends: "crosses nodes a h b \<Longrightarrow> hop_from h = Some a \<and> hop_to h = Some b"
  by (auto simp: crosses_def up_hop_def down_hop_def dest: parent_node_Some byFqdn_Some)

lemma leads_Cons: "crosses nodes a h c \<Longrightarrow> leads nodes c hs b \<Longrightarrow> leads nodes a (h # hs) b"
  using crosses_ends by fastforce

lemma leads_append: "leads nodes a hs b \<Longrightarrow> leads nodes b gs c \<Longrightarrow> leads nodes a (hs @ gs) c"
  by (induction nodes a hs b rule: leads.induct) (auto split: option.splits)

lemma chain_up:
  assumes "chain nodes (ns @ m # ms)"
  shows "leads nodes (sn_fqdn (hd (ns @ [m]))) (map up_hop ns) (sn_fqdn m)"
    and "visited (sn_fqdn (hd (ns @ [m]))) (map up_hop ns) = map (Some \<circ> sn_fqdn) (ns @ [m])"
proof -
  have "leads nodes (sn_fqdn (hd (ns @ [m]))) (map up_hop ns) (sn_fqdn m)
    \<and> visited (sn_fqdn (hd (ns @ [m]))) (map up_hop ns) = map (Some \<circ> sn_fqdn) (ns @ [m])"
    using assms
  proof (induction ns)
    case (Cons n ns)
    let ?p = "hd (ns @ [m])"
    have p: "parent_node nodes n = Some ?p" "byFqdn nodes (sn_fqdn n) = Some n" "chain nodes (ns @ m # ms)"
      using Cons(2) by (cases ns; auto)+
    then have "crosses nodes (sn_fqdn n) (up_hop n) (sn_fqdn ?p)" by (auto simp: crosses_def)
    then show ?case using Cons.IH p(3) crosses_ends by (fastforce simp: visited_def)
  qed (simp add: visited_def)
  then show "leads nodes (sn_fqdn (hd (ns @ [m]))) (map up_hop ns) (sn_fqdn m)"
    and "visited (sn_fqdn (hd (ns @ [m]))) (map up_hop ns) = map (Some \<circ> sn_fqdn) (ns @ [m])" by simp_all
qed

lemma chain_down:
  assumes "chain nodes (ns @ m # ms)"
  shows "leads nodes (sn_fqdn m) (map down_hop (rev ns)) (sn_fqdn (hd (ns @ [m])))"
    and "visited (sn_fqdn m) (map down_hop (rev ns)) = map (Some \<circ> sn_fqdn) (m # rev ns)"
proof -
  have "leads nodes (sn_fqdn m) (map down_hop (rev ns)) (sn_fqdn (hd (ns @ [m])))"
    using assms
  proof (induction ns)
    case (Cons n ns)
    let ?p = "hd (ns @ [m])"
    have p: "parent_node nodes n = Some ?p" "byFqdn nodes (sn_fqdn n) = Some n" "chain nodes (ns @ m # ms)"
      using Cons(2) by (cases ns; auto)+
    then have "crosses nodes (sn_fqdn ?p) (down_hop n) (sn_fqdn n)" by (auto simp: crosses_def)
    then have "leads nodes (sn_fqdn ?p) [down_hop n] (sn_fqdn n)" by (rule leads_Cons) simp
    with Cons.IH p(3) show ?case by (auto intro: leads_append)
  qed simp
  then show "leads nodes (sn_fqdn m) (map down_hop (rev ns)) (sn_fqdn (hd (ns @ [m])))" .
  show "visited (sn_fqdn m) (map down_hop (rev ns)) = map (Some \<circ> sn_fqdn) (m # rev ns)"
    by (simp add: visited_def down_hop_def)
qed

text \<open>The route by the two chains: they meet at the first node of one that is on the other.\<close>

definition meet :: "stp_nodes \<Rightarrow> string \<Rightarrow> string \<Rightarrow> stp_node list \<Rightarrow> stp_node \<Rightarrow> stp_node list \<Rightarrow> stp_node list \<Rightarrow> stp_node list \<Rightarrow> bool" where
  "meet nodes from to A m R B S \<longleftrightarrow> stp_ancestors nodes from = A @ m # R \<and> stp_ancestors nodes to = B @ m # S
     \<and> sn_fqdn ` set A \<inter> sn_fqdn ` set (stp_ancestors nodes to) = {}"

lemma computeStpPath_meet:
  assumes "meet nodes from to A m R B S" and "byFqdn nodes from \<noteq> None" "byFqdn nodes to \<noteq> None"
  shows "computeStpPath nodes from to = Inr (map up_hop A @ map down_hop (rev B))"
proof -
  let ?f = "stp_ancestors nodes from" and ?t = "stp_ancestors nodes to"
  have s: "?f = A @ m # R" "?t = B @ m # S" and d: "sn_fqdn ` set A \<inter> sn_fqdn ` set ?t = {}"
    using assms(1) unfolding meet_def by blast+
  have "find_index (\<lambda>n. toIndex ?t (sn_fqdn n) \<noteq> None) ?f = Some (length A)"
  proof -
    have "sn_fqdn (A ! j) \<notin> sn_fqdn ` set ?t" if "j < length A" for j using d nth_mem [OF that] by blast
    then show ?thesis unfolding find_index_Some toIndex_None by (simp add: s(1) nth_append) (simp add: s(2))
  qed
  moreover have "toIndex ?t (sn_fqdn (?f ! length A)) = Some (length B)"
    unfolding toIndex_Some [OF stp_ancestors_chain(2)] by (simp add: s)
  ultimately show ?thesis using assms(2,3) s by (simp add: computeStpPath_def Let_def)
qed

lemma computeStpPath_cases:
  assumes "byFqdn nodes from \<noteq> None" "byFqdn nodes to \<noteq> None"
  obtains (route) A m R B S where "meet nodes from to A m R B S"
    | (apart) "computeStpPath nodes from to = Inl No_common_tree"
        "sn_fqdn ` set (stp_ancestors nodes from) \<inter> sn_fqdn ` set (stp_ancestors nodes to) = {}"
proof -
  let ?f = "stp_ancestors nodes from" and ?t = "stp_ancestors nodes to"
  let ?P = "\<lambda>n. toIndex ?t (sn_fqdn n) \<noteq> None"
  show thesis
  proof (cases "find_index ?P ?f")
    case None
    then have "sn_fqdn ` set ?f \<inter> sn_fqdn ` set ?t = {}" by (auto simp: find_index_None toIndex_None)
    moreover have "computeStpPath nodes from to = Inl No_common_tree"
      using None assms by (simp add: computeStpPath_def Let_def)
    ultimately show thesis by (rule apart [rotated])
  next
    case (Some i)
    then have i: "i < length ?f" "sn_fqdn (?f ! i) \<in> sn_fqdn ` set ?t" "\<forall>j < i. sn_fqdn (?f ! j) \<notin> sn_fqdn ` set ?t"
      by (auto simp: find_index_Some toIndex_None)
    then obtain m where m: "m \<in> set ?t" "sn_fqdn m = sn_fqdn (?f ! i)" by auto
    have "byFqdn nodes (sn_fqdn m) = Some m" by (rule chain_in [OF stp_ancestors_chain(1) m(1)])
    moreover have "byFqdn nodes (sn_fqdn (?f ! i)) = Some (?f ! i)"
      by (rule chain_in [OF stp_ancestors_chain(1) nth_mem [OF i(1)]])
    ultimately have "m = ?f ! i" unfolding m(2) by (metis option.inject)
    then have f: "?f = take i ?f @ m # drop (Suc i) ?f" using i(1) id_take_nth_drop by metis
    obtain B S where "?t = B @ m # S" using split_list [OF m(1)] by blast
    moreover have "sn_fqdn ` set (take i ?f) \<inter> sn_fqdn ` set ?t = {}"
    proof -
      have "sn_fqdn n \<notin> sn_fqdn ` set ?t" if n: "n \<in> set (take i ?f)" for n
      proof -
        obtain j where "j < length (take i ?f)" "take i ?f ! j = n" using n unfolding in_set_conv_nth by blast
        then show ?thesis using i(3) by auto
      qed
      then show ?thesis by blast
    qed
    ultimately show thesis using route f unfolding meet_def by blast
  qed
qed

text \<open>C13: The route that is shown is a route: its hops lead from the first switch to the second, every hop crosses
  the root port link of a switch of this tree and carries that port's state, and no switch is visited
  twice, whatever nodes the server sends, cyclic ones included.\<close>

theorem computeStpPath_route:
  assumes "computeStpPath nodes from to = Inr hops"
  shows "leads nodes from hops to \<and> distinct (visited from hops)"
proof -
  have ends: "byFqdn nodes from \<noteq> None" "byFqdn nodes to \<noteq> None"
    using assms by (auto simp: computeStpPath_def split: if_splits)
  from ends show ?thesis
  proof (cases rule: computeStpPath_cases)
    case (route A m R B S)
    then have s: "stp_ancestors nodes from = A @ m # R" "stp_ancestors nodes to = B @ m # S"
      and d: "sn_fqdn ` set A \<inter> sn_fqdn ` set (stp_ancestors nodes to) = {}" unfolding meet_def by blast+
    have h: "hops = map up_hop A @ map down_hop (rev B)" using computeStpPath_meet [OF route ends] assms by simp
    have hd: "sn_fqdn (hd (stp_ancestors nodes k)) = k" if "byFqdn nodes k \<noteq> None" for k
      using that stp_ancestors_hd byFqdn_Some by force
    have f: "sn_fqdn (hd (A @ [m])) = from" using hd [OF ends(1)] s(1) by (cases A) simp_all
    have t: "sn_fqdn (hd (B @ [m])) = to" using hd [OF ends(2)] s(2) by (cases B) simp_all
    note u = chain_up [of nodes A m R, unfolded f, OF stp_ancestors_chain(1) [of nodes "from", unfolded s(1)]]
      and w = chain_down [of nodes B m S, unfolded t, OF stp_ancestors_chain(1) [of nodes to, unfolded s(2)]]
    have "Some from # map hop_to (map up_hop A) @ map hop_to (map down_hop (rev B)) = map (Some \<circ> sn_fqdn) (A @ m # rev B)"
      using u(2) [unfolded visited_def] w(2) [unfolded visited_def] by (simp del: map_map)
    then have "visited from hops = map (Some \<circ> sn_fqdn) (A @ m # rev B)"
      using h by (simp add: visited_def)
    moreover have "distinct (map sn_fqdn (A @ m # rev B))"
      using stp_ancestors_chain(2) [of nodes "from"] stp_ancestors_chain(2) [of nodes to] s d by (auto simp flip: rev_map)
    moreover have "distinct (map (Some \<circ> sn_fqdn) (A @ m # rev B)) = distinct (map sn_fqdn (A @ m # rev B))"
      by (metis distinct_map inj_Some list.map_comp)
    ultimately show ?thesis using leads_append [OF u(1) w(1)] h by simp
  next
    case apart
    then show ?thesis using assms by simp
  qed
qed

text \<open>C15: There is no answer for exactly two reasons: one of the switches is not in the tree, or both are and no
  switch is above both.\<close>

theorem computeStpPath_errors:
  "(computeStpPath nodes from to = Inl Not_in_tree \<longleftrightarrow> \<not> {from, to} \<subseteq> sn_fqdn ` set nodes)
    \<and> (computeStpPath nodes from to = Inl No_common_tree \<longleftrightarrow>
        {from, to} \<subseteq> sn_fqdn ` set nodes \<and> \<not> (\<exists>m. above nodes from m \<and> above nodes to m))"
proof (cases "byFqdn nodes from \<noteq> None \<and> byFqdn nodes to \<noteq> None")
  case True
  then have ends: "byFqdn nodes from \<noteq> None" "byFqdn nodes to \<noteq> None" by simp_all
  have i: "from \<in> sn_fqdn ` set nodes" "to \<in> sn_fqdn ` set nodes" using ends byFqdn_dom by blast+
  from ends show ?thesis
  proof (cases rule: computeStpPath_cases)
    case (route A m R B S)
    have "sn_fqdn m \<in> sn_fqdn ` set (stp_ancestors nodes from)" "sn_fqdn m \<in> sn_fqdn ` set (stp_ancestors nodes to)"
      using route by (auto simp: meet_def)
    then show ?thesis using computeStpPath_meet [OF route ends] i unfolding stp_ancestors_above by auto
  next
    case apart
    then show ?thesis using i unfolding stp_ancestors_above by auto
  qed
next
  case False
  then have "from \<notin> sn_fqdn ` set nodes \<or> to \<notin> sn_fqdn ` set nodes" using byFqdn_dom by blast
  then show ?thesis using False by (auto simp: computeStpPath_def)
qed

section \<open>Forests\<close>

text \<open>
  The server sends the nodes of its computed forest with their depth; then no parents form a cycle and
  the names already seen do not matter to a walk.
\<close>

definition stp_forest :: "stp_nodes \<Rightarrow> bool" where
  "stp_forest nodes \<longleftrightarrow> (\<forall>n p. byFqdn nodes (sn_fqdn n) = Some n \<longrightarrow> parent_node nodes n = Some p \<longrightarrow> sn_depth p < sn_depth n)"

definition deeper :: "stp_nodes \<Rightarrow> string set \<Rightarrow> stp_node option \<Rightarrow> bool" where
  "deeper nodes seen cur \<longleftrightarrow> (\<forall>k n m. k \<in> seen \<longrightarrow> byFqdn nodes k = Some n \<longrightarrow> cur = Some m \<longrightarrow> sn_depth m < sn_depth n)"

lemma stp_walk_unseen:
  assumes "stp_forest nodes" and "on_map nodes cur" and "deeper nodes seen cur" "deeper nodes seen' cur"
  shows "stp_walk nodes cur seen = stp_walk nodes cur seen'"
  using assms
proof (induction nodes cur seen arbitrary: seen' rule: stp_walk.induct)
  case (2 nodes m seen)
  have m: "byFqdn nodes (sn_fqdn m) = Some m" using 2(3) by (simp add: on_map_def)
  then have s: "sn_fqdn m \<notin> seen" "sn_fqdn m \<notin> seen'" using 2(4,5) by (auto simp: deeper_def)
  have "deeper nodes (insert (sn_fqdn m) S) (parent_node nodes m)" if "deeper nodes S (Some m)" for S
    unfolding deeper_def
  proof (intro allI impI)
    fix k n p
    assume k: "k \<in> insert (sn_fqdn m) S" "byFqdn nodes k = Some n" and p: "parent_node nodes m = Some p"
    have "sn_depth p < sn_depth m" using 2(2) m p by (simp add: stp_forest_def)
    moreover have "sn_depth m \<le> sn_depth n" using k m that by (force simp: deeper_def)
    ultimately show "sn_depth p < sn_depth n" by simp
  qed
  then show ?case using 2 s by simp
qed simp

lemma deeper_empty [simp]: "deeper nodes {} cur"
  by (simp add: deeper_def)

lemma forest_step:
  assumes f: "stp_forest nodes" and a: "byFqdn nodes a = Some n"
  shows "stp_ancestors nodes a = n # stp_walk nodes (parent_node nodes n) {}"
proof -
  have n: "sn_fqdn n = a" using byFqdn_Some [OF a] by simp
  then have "deeper nodes {a} (parent_node nodes n)" using f a by (auto simp: deeper_def stp_forest_def)
  from stp_walk_unseen [OF f on_map_parent this deeper_empty] show ?thesis using a n by (simp add: stp_ancestors_def)
qed

lemma forest_parent:
  assumes "stp_forest nodes" and "byFqdn nodes a = Some n" and "parent_node nodes n = Some p"
  shows "stp_ancestors nodes a = n # stp_ancestors nodes (sn_fqdn p)"
  using forest_step [OF assms(1,2)] assms(3) parent_node_Some [OF assms(3)] by (simp add: stp_ancestors_def)

text \<open>What follows a node on a walk is the walk of that node.\<close>

lemma forest_tail:
  assumes "stp_forest nodes"
  shows "on_map nodes cur \<Longrightarrow> stp_walk nodes cur {} = A @ m # R \<Longrightarrow> m # R = stp_ancestors nodes (sn_fqdn m)"
proof (induction A arbitrary: cur)
  case Nil
  then have "cur = Some m" by (auto dest: stp_walk_hd)
  then show ?case using Nil by (auto simp: stp_ancestors_def on_map_def)
next
  case (Cons n A)
  then have "cur = Some n" by (auto dest: stp_walk_hd)
  then have n: "byFqdn nodes (sn_fqdn n) = Some n" "stp_walk nodes cur {} = stp_ancestors nodes (sn_fqdn n)"
    using Cons(2) by (simp_all add: on_map_def stp_ancestors_def)
  then have "stp_walk nodes (parent_node nodes n) {} = A @ m # R" using forest_step [OF assms n(1)] Cons(3) by simp
  then show ?case using Cons(1) [of "parent_node nodes n"] by simp
qed

lemma meet_tails:
  assumes "stp_forest nodes" and "meet nodes from to A m R B S"
  shows "R = S" "stp_ancestors nodes (sn_fqdn m) = m # R"
proof -
  have "stp_walk nodes (byFqdn nodes from) {} = A @ m # R" "stp_walk nodes (byFqdn nodes to) {} = B @ m # S"
    using assms(2) unfolding meet_def stp_ancestors_def by blast+
  from this [THEN forest_tail [OF assms(1) on_map_byFqdn]]
  have "m # R = stp_ancestors nodes (sn_fqdn m)" "m # S = stp_ancestors nodes (sn_fqdn m)" .
  then show "R = S" and "stp_ancestors nodes (sn_fqdn m) = m # R" by (metis list.inject, metis)
qed

text \<open>The same route is found from the other end.\<close>

lemma meet_sym:
  assumes "stp_forest nodes" and "meet nodes from to A m R B S"
  shows "meet nodes to from B m R A R"
proof -
  have s: "stp_ancestors nodes from = A @ m # R" "stp_ancestors nodes to = B @ m # R"
    and d: "sn_fqdn ` set A \<inter> sn_fqdn ` set (stp_ancestors nodes to) = {}"
    using assms(2) unfolding meet_def meet_tails(1) [OF assms] by blast+
  have "distinct (map sn_fqdn (B @ m # R))" using stp_ancestors_chain(2) [of nodes "to"] s(2) by simp
  then have "sn_fqdn ` set B \<inter> sn_fqdn ` set (m # R) = {}" by simp
  moreover have "sn_fqdn ` set B \<inter> sn_fqdn ` set A = {}" using d s(2) by auto
  ultimately show ?thesis using s unfolding meet_def by (simp add: Int_Un_distrib image_Un)
qed

definition turn_hop :: "stp_hop \<Rightarrow> stp_hop" where
  "turn_hop h = \<lparr>hop_from = hop_to h, hop_fromInterface = hop_toInterface h, hop_to = hop_from h,
     hop_toInterface = hop_fromInterface h, hop_state = hop_state h\<rparr>"

lemma turn_hop_simps [simp]: "turn_hop (up_hop n) = down_hop n" "turn_hop (down_hop n) = up_hop n"
  by (simp_all add: turn_hop_def up_hop_def down_hop_def)

text \<open>A route to a neighbour is at most one hop longer or shorter.\<close>

lemma meet_from_child:
  assumes f: "stp_forest nodes" and a: "byFqdn nodes a = Some n" "parent_node nodes n = Some p" "sn_fqdn p = c"
    and m: "meet nodes c to A m R B S"
  shows "\<exists>A' m' R' B' S'. meet nodes a to A' m' R' B' S' \<and> length A' + length B' \<le> Suc (length A + length B)"
proof -
  have n: "sn_fqdn n = a" using byFqdn_Some [OF a(1)] by simp
  have s: "stp_ancestors nodes c = A @ m # R" "stp_ancestors nodes to = B @ m # S"
    and d: "sn_fqdn ` set A \<inter> sn_fqdn ` set (stp_ancestors nodes to) = {}" using m unfolding meet_def by blast+
  have an: "stp_ancestors nodes a = n # stp_ancestors nodes c" using forest_parent [OF f a(1,2)] a(3) by simp
  show ?thesis
  proof (cases "a \<in> sn_fqdn ` set (stp_ancestors nodes to)")
    case False
    then have "meet nodes a to (n # A) m R B S" using s d an n unfolding meet_def by auto
    then show ?thesis by fastforce
  next
    case True
    then have "n \<in> set (stp_ancestors nodes to)"
      using chain_in [OF stp_ancestors_chain(1)] a(1) by fastforce
    then obtain B' S' where t: "stp_ancestors nodes to = B' @ n # S'" using split_list by metis
    then have meet: "meet nodes a to [] n (stp_ancestors nodes c) B' S'" using an unfolding meet_def by simp
    from meet_tails [OF f meet] have "S' = stp_ancestors nodes c" by simp
    then have "length (B' @ n # S') = length B' + Suc (length A + Suc (length R))" using s(1) by simp
    moreover have "length (B @ m # S) = length (B' @ n # S')" using t s(2) by simp
    ultimately have "length B' \<le> length B" using meet_tails(1) [OF f m] by simp
    then have "length [] + length B' \<le> Suc (length A + length B)" by simp
    with meet show ?thesis by blast
  qed
qed

lemma meet_from_parent:
  assumes f: "stp_forest nodes" and a: "byFqdn nodes a = Some n" "parent_node nodes n = Some p" "sn_fqdn p = c"
    and m: "meet nodes a to A m R B S"
  shows "\<exists>A' m' R' B' S'. meet nodes c to A' m' R' B' S' \<and> length A' + length B' \<le> Suc (length A + length B)"
proof -
  have s: "stp_ancestors nodes a = A @ m # R" "stp_ancestors nodes to = B @ m # S"
    and d: "sn_fqdn ` set A \<inter> sn_fqdn ` set (stp_ancestors nodes to) = {}" using m unfolding meet_def by blast+
  have an: "stp_ancestors nodes a = n # stp_ancestors nodes c" using forest_parent [OF f a(1,2)] a(3) by simp
  show ?thesis
  proof (cases A)
    case Nil
    then have "m = n" "S = stp_ancestors nodes c" using s(1) an meet_tails(1) [OF f m] by simp_all
    moreover obtain q qs where q: "stp_ancestors nodes c = q # qs"
      using stp_ancestors_hd [of nodes c p] parent_node_Some [OF a(2)] a(3) by auto
    ultimately have "meet nodes c to [] q qs (B @ [n]) qs" using s(2) unfolding meet_def by simp
    then show ?thesis using Nil by fastforce
  next
    case (Cons n' A')
    then have "stp_ancestors nodes c = A' @ m # R" using s(1) an by simp
    then have "meet nodes c to A' m R B S" using s(2) d Cons unfolding meet_def by auto
    then show ?thesis using Cons by fastforce
  qed
qed

lemma leads_meet:
  assumes f: "stp_forest nodes" and b: "byFqdn nodes b \<noteq> None"
  shows "leads nodes a hs b \<Longrightarrow>
    byFqdn nodes a \<noteq> None \<and> (\<exists>A m R B S. meet nodes a b A m R B S \<and> length A + length B \<le> length hs)"
proof (induction hs arbitrary: a)
  case Nil
  obtain n where "byFqdn nodes b = Some n" using b by auto
  from stp_ancestors_hd [OF this] obtain ns where "stp_ancestors nodes b = n # ns" by blast
  then have "meet nodes a b [] n ns [] ns" using Nil unfolding meet_def by simp
  then show ?case using Nil b by fastforce
next
  case (Cons h hs)
  then obtain c where c: "crosses nodes a h c" "leads nodes c hs b" by (auto split: option.splits)
  from Cons.IH [OF c(2)] obtain A m R B S where
    m: "meet nodes c b A m R B S" "length A + length B \<le> length hs" by blast
  obtain n p where "byFqdn nodes a = Some n \<and> parent_node nodes n = Some p \<and> sn_fqdn p = c
      \<or> byFqdn nodes c = Some n \<and> parent_node nodes n = Some p \<and> sn_fqdn p = a"
    using c(1) unfolding crosses_def by blast
  then show ?case
  proof
    assume a: "byFqdn nodes a = Some n \<and> parent_node nodes n = Some p \<and> sn_fqdn p = c"
    then have "\<exists>A' m' R' B' S'. meet nodes a b A' m' R' B' S' \<and> length A' + length B' \<le> Suc (length A + length B)"
      using meet_from_child [OF f _ _ _ m(1)] by blast
    then show ?thesis using a m(2) by (metis Suc_le_mono length_Cons order_trans option.distinct(1))
  next
    assume a: "byFqdn nodes c = Some n \<and> parent_node nodes n = Some p \<and> sn_fqdn p = a"
    then have "\<exists>A' m' R' B' S'. meet nodes a b A' m' R' B' S' \<and> length A' + length B' \<le> Suc (length A + length B)"
      using meet_from_parent [OF f _ _ _ m(1)] by blast
    moreover have "byFqdn nodes a \<noteq> None" using a parent_node_Some by fastforce
    ultimately show ?thesis using m(2) by (metis Suc_le_mono length_Cons order_trans)
  qed
qed

text \<open>C14: In the forest the server computes, the route is the best one and the same from both ends: no sequence of
  tree links between the two switches is shorter, and asking the other way round gives the same links in
  the opposite order.\<close>

theorem computeStpPath_shortest:
  assumes "stp_forest nodes" and "computeStpPath nodes from to = Inr hops"
  shows "computeStpPath nodes to from = Inr (map turn_hop (rev hops))
    \<and> \<not> (\<exists>hs. leads nodes from hs to \<and> length hs < length hops)"
proof -
  have ends: "byFqdn nodes from \<noteq> None" "byFqdn nodes to \<noteq> None"
    using assms(2) by (auto simp: computeStpPath_def split: if_splits)
  have found: "hops = map up_hop A @ map down_hop (rev B)" if "meet nodes from to A m R B S" for A m R B S
    using computeStpPath_meet [OF that ends] assms(2) by simp
  from ends obtain A m R B S where m: "meet nodes from to A m R B S"
    using assms(2) by (cases rule: computeStpPath_cases) auto
  have "computeStpPath nodes to from = Inr (map up_hop B @ map down_hop (rev A))"
    by (rule computeStpPath_meet [OF meet_sym [OF assms(1) m] ends(2,1)])
  moreover have "map turn_hop (rev hops) = map up_hop B @ map down_hop (rev A)"
    by (simp add: found [OF m] rev_map)
  moreover have "length hops \<le> length hs" if "leads nodes from hs to" for hs
    using leads_meet [OF assms(1) ends(2) that] found by fastforce
  ultimately show ?thesis by (metis not_le)
qed

section \<open>An example\<close>

definition example_node :: "string \<Rightarrow> nat \<Rightarrow> string option \<Rightarrow> stp_node" where
  "example_node k d p = \<lparr>sn_fqdn = k, sn_depth = d, sn_parent = p, sn_parentInterface = Some ''Gi1/0/1'',
     sn_rootPortInterfaceName = Some ''Te1/1'', sn_rootPortState = Some ''forwarding'', sn_pathCost = Some 4, reported = None,
     rootMismatch = False, rootMismatchDetail = None, sn_orphan = False\<rparr>"

definition example_tree :: stp_nodes where
  "example_tree = [example_node ''core'' 0 None, example_node ''a'' 1 (Some ''core''), example_node ''a1'' 2 (Some ''a''),
     example_node ''b'' 1 (Some ''core'')]"

lemma example_lookup:
  "byFqdn example_tree ''a1'' = Some (example_node ''a1'' 2 (Some ''a''))"
  "byFqdn example_tree ''a'' = Some (example_node ''a'' 1 (Some ''core''))"
  "byFqdn example_tree ''b'' = Some (example_node ''b'' 1 (Some ''core''))"
  "byFqdn example_tree ''core'' = Some (example_node ''core'' 0 None)"
  by (simp_all add: byFqdn_def example_tree_def example_node_def)

lemma example_walks:
  "stp_ancestors example_tree ''a1'' = [example_node ''a1'' 2 (Some ''a''), example_node ''a'' 1 (Some ''core''), example_node ''core'' 0 None]"
  "stp_ancestors example_tree ''b'' = [example_node ''b'' 1 (Some ''core''), example_node ''core'' 0 None]"
  by (simp_all add: stp_ancestors_def example_lookup) (simp_all add: example_node_def parent_node_def example_lookup)

lemma example_path:
  "computeStpPath example_tree ''a1'' ''b'' = Inr (map up_hop [example_node ''a1'' 2 (Some ''a''), example_node ''a'' 1 (Some ''core'')]
     @ [down_hop (example_node ''b'' 1 (Some ''core''))])"
proof -
  have "toIndex [example_node ''b'' 1 (Some ''core''), example_node ''core'' 0 None] k =
      (if k = ''core'' then Some 1 else if k = ''b'' then Some 0 else None)" for k
    by (simp add: toIndex_def example_node_def)
  then show ?thesis by (simp add: computeStpPath_def Let_def example_lookup example_walks) (simp add: example_node_def)
qed

lemma example_forest: "stp_forest example_tree"
  unfolding stp_forest_def
proof (intro allI impI)
  fix n p
  assume "byFqdn example_tree (sn_fqdn n) = Some n" "parent_node example_tree n = Some p"
  moreover from this have "n \<in> set example_tree" using byFqdn_Some by blast
  ultimately show "sn_depth p < sn_depth n"
    by (auto simp: example_tree_def example_node_def byFqdn_def parent_node_def)
qed

theorem computeStpPath_route_witness: "\<exists>hops. leads example_tree ''a1'' hops ''b'' \<and> hops \<noteq> []"
  using computeStpPath_route [OF example_path] by blast

theorem computeStpPath_shortest_witness: "\<not> (\<exists>hs. leads example_tree ''a1'' hs ''b'' \<and> length hs < 3)"
  using computeStpPath_shortest [OF example_forest example_path] by (simp add: numeral_3_eq_3)

end
