(* ===== verification/DeviceText.thy ===== *)
theory DeviceText
  imports NexusIssues StpPath
begin

text \<open>
  The device page of the nexus web interface, \<^verbatim>\<open>pages/DeviceDetail.tsx\<close>, its texts: VLAN ranges,
  speeds and transceivers, counters, durations, and the lines about an interface.  Counters, VLAN ids
  and seconds are natural numbers; rates are reals.
\<close>

section \<open>Interfaces (api/types.ts)\<close>

record interface_health =
  severity :: "issue_severity option"
  flapCount :: nat
  flapping :: bool
  lastFlapSecsAgo :: "nat option"
  h_inErrors :: nat
  h_outErrors :: nat
  discards :: nat
  discardsHigh :: bool
  speedChangeCount :: nat
  lastSpeedChange :: "(nat option \<times> nat) option"
  peakUtilizationPct :: "real option"
  highUtilization :: bool
  rxBpsAvg :: "real option"
  txBpsAvg :: "real option"
  health_stale :: bool
  counterWindowSecs :: nat
  flapWindowSecs :: nat
  utilWindowSecs :: nat
  throughputWindowSecs :: nat

record interface_poe =
  poe_status :: string
  adminEnabled :: bool
  poe_class :: "nat option"
  powerMw :: "nat option"
  allocatedMw :: "nat option"
  maxDrawnMw :: "nat option"
  poe_priority :: "string option"

record net_interface =
  ni_id :: nat
  ni_index :: nat
  ni_name :: string
  displayName :: "string option"
  ni_alias :: "string option"
  description :: "string option"
  interfaceType :: string
  pollingEnabled :: "bool option"
  speedOverride :: "nat option"
  connectedTo :: "interface_connection option"
  cdpNeighbor :: "cdp_neighbor option"
  ni_up :: "bool option"
  ni_speed :: "nat option"
  adminUp :: "bool option"
  errDisabled :: bool
  errDisableCause :: "string option"
  errDisableRecoverSecs :: "nat option"
  inOctets :: "nat option"
  outOctets :: "nat option"
  inErrors :: "nat option"
  outErrors :: "nat option"
  outDiscards :: "nat option"
  nativeVlan :: "nat option"
  taggedVlans :: "nat list option"
  portChannel :: "string option"
  health :: "interface_health option"
  media :: "string option"
  poe :: "interface_poe option"

section \<open>VLAN ranges\<close>

fun take_run :: "nat \<Rightarrow> nat list \<Rightarrow> nat \<times> nat list" where
  "take_run v [] = (v, [])"
| "take_run v (w # ws) = (if w = v + 1 then take_run w ws else (v, w # ws))"

lemma take_run_length: "length (snd (take_run v ws)) \<le> length ws"
  by (induction v ws rule: take_run.induct) auto

function vlan_parts :: "nat list \<Rightarrow> string list" where
  "vlan_parts [] = []"
| "vlan_parts (v # vs) =
     (let (w, rest) = take_run v vs in (if w > v then dec v @ ''-'' @ dec w else dec v) # vlan_parts rest)"
  by pat_completeness auto

termination
proof (relation "measure length")
  fix v vs x w rest
  assume "x = take_run v vs" "(w, rest) = x"
  then have "rest = snd (take_run v vs)" by (metis snd_conv)
  then show "(rest, v # vs) \<in> measure length" using take_run_length [of v vs] by simp
qed simp

definition formatVlanRanges :: "nat list \<Rightarrow> string" where
  "formatVlanRanges vlans = join '', '' (vlan_parts vlans)"

fun split2 :: "char \<Rightarrow> char \<Rightarrow> string \<Rightarrow> string list" where
  "split2 c d [] = [[]]"
| "split2 c d [x] = [[x]]"
| "split2 c d (x # y # s) =
     (if x = c \<and> y = d then [] # split2 c d s
      else (case split2 c d (y # s) of [] \<Rightarrow> [[x]] | w # ws \<Rightarrow> (x # w) # ws))"

definition MAX_VLAN_SEGMENTS :: nat where "MAX_VLAN_SEGMENTS = 6"

definition summarizeTaggedVlans :: "nat list \<Rightarrow> string" where
  "summarizeTaggedVlans vlans =
     (let ranges = formatVlanRanges vlans in
      if length (split2 (CHR '','') (CHR '' '') ranges) \<le> MAX_VLAN_SEGMENTS then ranges
      else dec (length vlans) @ '' tagged VLANs'')"

section \<open>Speeds and transceivers\<close>

definition shown_name :: "net_interface \<Rightarrow> string" where
  "shown_name i = (case displayName i of Some n \<Rightarrow> n | None \<Rightarrow> ni_name i)"

text \<open>A decimal with up to three digits after the point, as the language prints it.\<close>

definition thousandths :: "nat \<Rightarrow> string" where
  "thousandths n =
     (let f = n mod 1000 in
      dec (n div 1000) @
        (if f = 0 then ''''
         else if f mod 100 = 0 then ''.'' @ [digit_char (f div 100)]
         else if f mod 10 = 0 then ''.'' @ [digit_char (f div 100), digit_char (f div 10 mod 10)]
         else ''.'' @ [digit_char (f div 100), digit_char (f div 10 mod 10), digit_char (f mod 10)]))"

definition speed_text :: "nat option \<Rightarrow> string" where
  "speed_text s =
     (case s of None \<Rightarrow> ''?'' | Some n \<Rightarrow> if n \<ge> 1000 then thousandths n @ ''G'' else dec n @ ''M'')"

definition prefix_ci :: "string \<Rightarrow> string \<Rightarrow> bool" where
  "prefix_ci p s = starts_with (lower p) (lower s)"

definition contains_ci :: "string \<Rightarrow> string \<Rightarrow> bool" where
  "contains_ci p s = contains (lower p) (lower s)"

definition name_speeds :: "(string list \<times> string) list" where
  "name_speeds = [([''Hu'', ''HundredGig''], ''100G''), ([''Fo'', ''FortyGig''], ''40G''), ([''Twe'', ''TwentyFiveGig''], ''25G''),
     ([''Te'', ''TenGig''], ''10G''), ([''Gi'', ''GigabitEthernet''], ''1G''), ([''Fa'', ''FastEthernet''], ''100M'')]"

definition portSpeedLabel :: "net_interface \<Rightarrow> string" where
  "portSpeedLabel i =
     (case find (\<lambda>(ps, l). list_ex (\<lambda>p. prefix_ci p (shown_name i)) ps) name_speeds of
        Some (_, l) \<Rightarrow> l
      | None \<Rightarrow> speed_text (ni_speed i))"

text \<open>The pattern \<^verbatim>\<open>^(\d+(?:\.\d+)?)([MG])$\<close>, and the value of its number.\<close>

definition speed_parts :: "string \<Rightarrow> (string \<times> string \<times> char) option" where
  "speed_parts l =
     (let whole = takeWhile is_digit l; rest = dropWhile is_digit l in
      if whole = [] then None
      else case rest of
        [u] \<Rightarrow> if u \<in> {CHR ''M'', CHR ''G''} then Some (whole, [], u) else None
      | CHR ''.'' # r \<Rightarrow>
          (let f = takeWhile is_digit r in
           case dropWhile is_digit r of
             [u] \<Rightarrow> if f \<noteq> [] \<and> u \<in> {CHR ''M'', CHR ''G''} then Some (whole, f, u) else None
           | _ \<Rightarrow> None)
      | _ \<Rightarrow> None)"

definition speedRank :: "string \<Rightarrow> real" where
  "speedRank l =
     (case speed_parts l of
        None \<Rightarrow> 9007199254740991
      | Some (w, f, u) \<Rightarrow>
          (real (dec_value w) + real (dec_value f) / 10 ^ length f) * (if u = CHR ''G'' then 1000 else 1))"

text \<open>
  The pattern \<^verbatim>\<open>(?:^|[^0-9])1G(?![0-9])\<close>; \<open>p\<close>: the character before, if any, is no digit.
\<close>

fun one_gig :: "bool \<Rightarrow> string \<Rightarrow> bool" where
  "one_gig p [] = False"
| "one_gig p [x] = False"
| "one_gig p (x # y # s) =
     (p \<and> x = CHR ''1'' \<and> (y = CHR ''G'' \<or> y = CHR ''g'') \<and> (case s of [] \<Rightarrow> True | z # _ \<Rightarrow> \<not> is_digit z)
      \<or> one_gig (\<not> is_digit x) (y # s))"

definition sfpKindFromDescr :: "string \<Rightarrow> string option" where
  "sfpKindFromDescr descr =
     (if contains_ci ''100G'' descr then Some ''QSFP28''
      else if contains_ci ''40G'' descr then Some ''QSFP+''
      else if contains_ci ''25G'' descr then Some ''SFP28''
      else if contains_ci ''10G'' descr then Some ''SFP+''
      else if contains_ci ''1000Base'' descr \<or> one_gig True descr then Some ''SFP''
      else None)"

definition sfpKind :: "net_interface \<Rightarrow> string" where
  "sfpKind i =
     (let m = (case media i of None \<Rightarrow> '''' | Some m \<Rightarrow> m) in
      case (if starts_with ''sfp:'' m then sfpKindFromDescr (drop 4 m) else None) of
        Some kind \<Rightarrow> kind
      | None \<Rightarrow>
          (case map_of [(''100G'', ''QSFP28''), (''40G'', ''QSFP+''), (''25G'', ''SFP28''), (''10G'', ''SFP+'')] (portSpeedLabel i) of
             Some kind \<Rightarrow> kind | None \<Rightarrow> ''SFP''))"

definition mediaLabel :: "string \<Rightarrow> string" where
  "mediaLabel m =
     (if m = ''copper'' then ''copper (RJ45)''
      else if m = ''sfp'' then ''SFP slot (empty)''
      else let descr = (if starts_with ''sfp:'' m then trim (drop 4 m) else '''') in
        if descr = '''' then ''SFP''
        else case sfpKindFromDescr descr of
          Some kind \<Rightarrow> kind @ '' ('' @ descr @ '')''
        | None \<Rightarrow> ''SFP ('' @ descr @ '')'')"

section \<open>The summary of the ports\<close>

definition times_sign :: string where
  "times_sign = '' '' @ [CHR 0xC3, CHR 0x97] @ '' ''"

definition by_rank :: "('a \<Rightarrow> real) \<Rightarrow> 'a \<Rightarrow> 'a \<Rightarrow> int" where
  "by_rank rank a b = (if rank a < rank b then - 1 else if rank a = rank b then 0 else 1)"

interpretation ranks: comparator "by_rank rank" for rank :: "'a \<Rightarrow> real"
  by unfold_locales (auto simp: by_rank_def split: if_splits)

definition byTier :: "net_interface list \<Rightarrow> string \<Rightarrow> string list" where
  "byTier ports suffix =
     map (\<lambda>(l, n). dec n @ times_sign @ l @ suffix) (js_sort (by_rank (\<lambda>e. speedRank (fst e))) (count_by portSpeedLabel ports))"

definition sfp_families :: "string list" where
  "sfp_families = [''SFP'', ''SFP+'', ''SFP28'', ''QSFP+'', ''QSFP28'']"

definition family_rank :: "string \<Rightarrow> int" where
  "family_rank k =
     (case find_index (\<lambda>x. x = k) sfp_families of Some i \<Rightarrow> int i | None \<Rightarrow> int (length sfp_families))"

definition sfp_part :: "string \<times> net_interface list \<Rightarrow> string" where
  "sfp_part g =
     (let n = length (snd g);
          populated = length (filter (\<lambda>i. starts_with ''sfp:'' (the (media i))) (snd g));
          note' = (if populated > 0 then '' ('' @ dec populated @ '' populated)'' else '''')
      in dec n @ '' '' @ fst g @ '' slot'' @ (if n = 1 then '''' else ''s'') @ note')"

definition sfp_parts :: "net_interface list \<Rightarrow> string list" where
  "sfp_parts sfp = map sfp_part (js_sort (\<lambda>a b. family_rank (fst a) - family_rank (fst b)) (group_by sfpKind sfp))"

definition is_sfp :: "net_interface \<Rightarrow> bool" where
  "is_sfp i = (case media i of None \<Rightarrow> False | Some m \<Rightarrow> starts_with ''sfp'' m)"

definition summary_parts :: "net_interface list \<Rightarrow> string list" where
  "summary_parts phys =
     byTier (filter (\<lambda>i. media i = Some ''copper'') phys) '' copper''
     @ byTier (filter (\<lambda>i. \<not> truthy_text (media i)) phys) '''' @ sfp_parts (filter is_sfp phys)"

definition summarizePorts :: "net_interface list \<Rightarrow> string option" where
  "summarizePorts interfaces =
     (let phys = filter (\<lambda>i. interfaceType i = ''ethernetCsmacd'') interfaces; parts = summary_parts phys in
      if phys = [] then None else if parts \<noteq> [] then Some (join '', '' parts) else None)"

section \<open>Counters and durations\<close>

definition humanDuration :: "nat \<Rightarrow> string" where
  "humanDuration secs =
     (if secs < 90 then dec secs @ '' second'' @ (if secs = 1 then '''' else ''s'')
      else let mins = nat (js_round (real secs / 60)) in dec mins @ '' minute'' @ (if mins = 1 then '''' else ''s''))"

text \<open>A comma before every third digit from the right, but for the first digit.\<close>

definition group_digits :: "string \<Rightarrow> string" where
  "group_digits w =
     concat (map (\<lambda>i. (if 0 < i \<and> (length w - i) mod 3 = 0 then '','' else '''') @ [w ! i]) [0..<length w])"

definition groupThousands :: "nat \<Rightarrow> string" where
  "groupThousands x = group_digits (dec x)"

definition toFixed2 :: "real \<Rightarrow> string" where
  "toFixed2 v = fixed2 (nat \<lfloor>v * 100 + 1 / 2\<rfloor>)"

text \<open>Division by the base while the value is at least the base and a larger unit is left.\<close>

fun scale_units :: "real \<Rightarrow> nat \<Rightarrow> real \<Rightarrow> nat \<times> real" where
  "scale_units base 0 v = (0, v)"
| "scale_units base (Suc n) v = (if v \<ge> base then map_prod Suc id (scale_units base n (v / base)) else (0, v))"

definition byte_units :: "string list" where
  "byte_units = [''B'', ''KiB'', ''MiB'', ''GiB'', ''TiB'', ''PiB'']"

definition formatBytes :: "nat \<Rightarrow> string" where
  "formatBytes bytes =
     (let (i, v) = scale_units 1024 (length byte_units - 1) (real bytes)
      in (if i = 0 then dec bytes else toFixed2 v) @ '' '' @ byte_units ! i)"

definition bit_units :: "string list" where
  "bit_units = [''bps'', ''kbps'', ''Mbps'', ''Gbps'', ''Tbps'']"

definition formatBitrate :: "real \<Rightarrow> string" where
  "formatBitrate bps =
     (let (i, v) = scale_units 1000 (length bit_units - 1) bps
      in (if i = 0 then int_text (js_round v) else toFixed2 v) @ '' '' @ bit_units ! i)"

text \<open>Tenths, as the language prints them: \<^verbatim>\<open>Math.round(mw / 100) / 10\<close>.\<close>

definition tenths :: "nat \<Rightarrow> string" where
  "tenths n = dec (n div 10) @ (if n mod 10 = 0 then '''' else ''.'' @ [digit_char (n mod 10)])"

definition formatWatts :: "nat option \<Rightarrow> string option" where
  "formatWatts mw = map_option (\<lambda>m. tenths (nat (js_round (real m / 100))) @ '' W'') mw"

definition POE_STATUS_LABEL :: "string \<Rightarrow> string option" where
  "POE_STATUS_LABEL = map_of [(''searching'', ''searching''), (''disabled'', ''disabled''), (''fault'', ''fault''),
     (''test'', ''test''), (''otherFault'', ''fault''), (''other'', em_dash)]"

definition poeMeterColor :: "real \<Rightarrow> string" where
  "poeMeterColor pct = (if pct \<ge> 95 then ''#e5534b'' else if pct \<ge> 85 then ''#d9a406'' else ''#3fb950'')"

definition cdpNeighborText :: "cdp_neighbor \<Rightarrow> string" where
  "cdpNeighborText n =
     (if truthy_text (devicePort n) then deviceId n @ '':'' @ the (devicePort n) else deviceId n)"

section \<open>An interface\<close>

definition middle_dot :: string where
  "middle_dot = '' '' @ [CHR 0xC2, CHR 0xB7] @ '' ''"

definition right_arrow :: string where
  "right_arrow = [CHR 0xE2, CHR 0x86, CHR 0x92]"

definition opt_dec :: "nat option \<Rightarrow> string" where
  "opt_dec v = (case v of None \<Rightarrow> em_dash | Some n \<Rightarrow> dec n)"

definition plural :: "nat \<Rightarrow> string" where
  "plural n = (if n = 1 then '''' else ''s'')"

definition guarded :: "bool \<Rightarrow> 'a \<Rightarrow> 'a list" where
  "guarded b x = (if b then [x] else [])"

definition stale_line :: string where
  "stale_line = ''no recent SNMP data '' @ em_dash @ '' the device may have stopped responding (stale)''"

definition flap_line :: "interface_health \<Rightarrow> string" where
  "flap_line h = ''flapping '' @ em_dash @ '' bounced down/up '' @ dec (flapCount h) @ '' times in last ''
     @ humanDuration (flapWindowSecs h)
     @ (case lastFlapSecsAgo h of None \<Rightarrow> '''' | Some s \<Rightarrow> '', last came up '' @ humanDuration s @ '' ago'')"

definition discard_line :: "interface_health \<Rightarrow> string" where
  "discard_line h = groupThousands (discards h) @ '' outgoing discard'' @ plural (discards h) @ '' in last ''
     @ humanDuration (counterWindowSecs h)"

definition error_line :: "interface_health \<Rightarrow> string" where
  "error_line h = groupThousands (h_inErrors h) @ '' input / '' @ groupThousands (h_outErrors h)
     @ '' output errors in last '' @ humanDuration (counterWindowSecs h)"

definition speed_line :: "interface_health \<Rightarrow> nat option \<times> nat \<Rightarrow> string" where
  "speed_line h c = ''speed renegotiated '' @ dec (speedChangeCount h) @ [CHR 0xC3, CHR 0x97] @ '' in last ''
     @ humanDuration (flapWindowSecs h) @ '' ('' @ opt_dec (fst c) @ right_arrow @ dec (snd c) @ '' Mb/s)''"

definition util_line :: "interface_health \<Rightarrow> real \<Rightarrow> string" where
  "util_line h pct = ''peak utilization '' @ int_text (js_round pct) @ ''% in last '' @ humanDuration (utilWindowSecs h)"

definition healthLines :: "interface_health \<Rightarrow> string list" where
  "healthLines h =
     guarded (health_stale h) stale_line
     @ guarded (flapping h) (flap_line h)
     @ guarded (discards h > 0) (discard_line h)
     @ guarded (h_inErrors h + h_outErrors h > 0) (error_line h)
     @ (case lastSpeedChange h of Some c \<Rightarrow> guarded (speedChangeCount h > 0) (speed_line h c) | None \<Rightarrow> [])
     @ (case peakUtilizationPct h of Some pct \<Rightarrow> guarded (highUtilization h) (util_line h pct) | None \<Rightarrow> [])"

record detail_row =
  dr_label :: string
  dr_value :: string
  dr_cls :: "string option"

definition row_plain :: "string \<Rightarrow> string \<Rightarrow> detail_row" where
  "row_plain l v = \<lparr>dr_label = l, dr_value = v, dr_cls = None\<rparr>"

definition row_flag :: "string \<Rightarrow> string \<Rightarrow> string \<Rightarrow> bool \<Rightarrow> detail_row" where
  "row_flag l v cls b = \<lparr>dr_label = l, dr_value = v, dr_cls = (if b then Some cls else None)\<rparr>"

definition row_of :: "string \<Rightarrow> string option \<Rightarrow> detail_row list" where
  "row_of l v = (case v of None \<Rightarrow> [] | Some s \<Rightarrow> [row_plain l s])"

definition counterVal :: "string \<Rightarrow> nat option \<Rightarrow> nat \<Rightarrow> string" where
  "counterVal cw all delta =
     (case all of Some t \<Rightarrow> groupThousands t @ '' ('' @ groupThousands delta @ '' in last '' @ cw @ '')''
      | None \<Rightarrow> groupThousands delta @ '' in last '' @ cw)"

definition flapVal :: "interface_health \<Rightarrow> string" where
  "flapVal h =
     (case lastFlapSecsAgo h of
        Some s \<Rightarrow> if flapCount h > 0 then dec (flapCount h) @ '' (last '' @ humanDuration s @ '' ago)'' else dec (flapCount h)
      | None \<Rightarrow> dec (flapCount h))"

definition speedVal :: "interface_health \<Rightarrow> string" where
  "speedVal h =
     (case lastSpeedChange h of
        Some (before, after) \<Rightarrow>
          if speedChangeCount h > 0
          then dec (speedChangeCount h) @ '' ('' @ opt_dec before @ right_arrow @ dec after @ '' Mb/s)''
          else dec (speedChangeCount h)
      | None \<Rightarrow> dec (speedChangeCount h))"

definition health_rows :: "net_interface \<Rightarrow> interface_health \<Rightarrow> detail_row list" where
  "health_rows i h =
     (let cw = humanDuration (counterWindowSecs h); fw = humanDuration (flapWindowSecs h);
          uw = humanDuration (utilWindowSecs h); tw = humanDuration (throughputWindowSecs h);
          rate = (\<lambda>r. case r of Some b \<Rightarrow> formatBitrate b | None \<Rightarrow> em_dash)
      in [row_flag ''Outgoing discards'' (counterVal cw (outDiscards i) (discards h)) ''warn-text'' (discardsHigh h),
          row_flag ''Input errors'' (counterVal cw (inErrors i) (h_inErrors h)) ''warn-text'' (h_inErrors h > 0),
          row_flag ''Output errors'' (counterVal cw (outErrors i) (h_outErrors h)) ''warn-text'' (h_outErrors h > 0),
          row_flag (''Link recoveries (last '' @ fw @ '')'') (flapVal h) ''bad-text'' (flapping h),
          row_flag (''Speed changes (last '' @ fw @ '')'') (speedVal h) ''warn-text'' (speedChangeCount h > 0),
          row_flag (''Peak utilization (last '' @ uw @ '')'')
            (case peakUtilizationPct h of Some p \<Rightarrow> int_text (js_round p) @ ''%'' | None \<Rightarrow> em_dash)
            ''warn-text'' (highUtilization h),
          row_plain (''Throughput in ('' @ tw @ '' avg)'') (rate (rxBpsAvg h)),
          row_plain (''Throughput out ('' @ tw @ '' avg)'') (rate (txBpsAvg h)),
          row_flag ''SNMP data'' (if health_stale h then ''stale '' @ em_dash @ '' device not responding'' else ''current'')
            ''bad-text'' (health_stale h)])"

definition err_disabled_rows :: "net_interface \<Rightarrow> detail_row list" where
  "err_disabled_rows i =
     (let recover = (case errDisableRecoverSecs i of
            Some s \<Rightarrow> if s > 0 then middle_dot @ ''auto-recovers in '' @ dec s @ ''s'' else middle_dot @ ''manual clear required''
          | None \<Rightarrow> middle_dot @ ''manual clear required'');
          cause = (case errDisableCause i of Some c \<Rightarrow> c | None \<Rightarrow> ''unknown cause'')
      in guarded (errDisabled i) (row_flag ''Err-disabled'' (cause @ recover) ''bad-text'' True))"

definition poe_parts :: "interface_poe \<Rightarrow> string list" where
  "poe_parts p =
     [case POE_STATUS_LABEL (poe_status p) of
        Some l \<Rightarrow> l | None \<Rightarrow> if poe_status p = ''deliveringPower'' then ''delivering power'' else poe_status p]
     @ (case formatWatts (powerMw p) of Some w \<Rightarrow> [w @ '' drawn''] | None \<Rightarrow> [])
     @ (case poe_class p of Some c \<Rightarrow> [''class '' @ dec c] | None \<Rightarrow> [])
     @ guarded (\<not> adminEnabled p) ''admin disabled''
     @ guarded (truthy_text (poe_priority p)) (the (poe_priority p) @ '' priority'')"

definition truthy :: "string option \<Rightarrow> string option" where
  "truthy v = (if truthy_text v then v else None)"

definition fact_rows :: "net_interface \<Rightarrow> detail_row list" where
  "fact_rows i =
     [row_plain ''ifIndex'' (dec (ni_index i)),
      row_plain ''Oper status'' (case ni_up i of Some True \<Rightarrow> ''up'' | Some False \<Rightarrow> ''down'' | None \<Rightarrow> ''unknown'')]
     @ row_of ''Admin status'' (map_option (\<lambda>b. if b then ''up'' else ''down'') (adminUp i))
     @ err_disabled_rows i
     @ [row_plain ''Type'' (interfaceType i)]
     @ row_of ''Media'' (map_option mediaLabel (truthy (media i)))
     @ row_of ''PoE'' (map_option (\<lambda>p. join middle_dot (poe_parts p)) (poe i))
     @ [row_plain ''Speed'' (case ni_speed i of Some s \<Rightarrow> dec s @ '' Mb/s'' | None \<Rightarrow> em_dash)]
     @ row_of ''Speed override'' (map_option (\<lambda>s. dec s @ '' Mb/s'') (speedOverride i))
     @ row_of ''Received (total)'' (map_option formatBytes (inOctets i))
     @ row_of ''Transmitted (total)'' (map_option formatBytes (outOctets i))
     @ row_of ''Port-channel'' (truthy (portChannel i))
     @ row_of ''Alias'' (truthy (ni_alias i))
     @ row_of ''Description'' (truthy (description i))
     @ (case connectedTo i of
          Some c \<Rightarrow> [row_plain ''Connected to'' (ic_fqdn c @ '':'' @ ic_interface c)]
        | None \<Rightarrow> row_of ''CDP neighbor'' (map_option cdpNeighborText (cdpNeighbor i)))
     @ [row_plain ''Polling'' (if pollingEnabled i = Some False then ''disabled'' else ''enabled'')]"

definition InterfaceDetail :: "net_interface \<Rightarrow> string list \<times> detail_row list" where
  "InterfaceDetail i =
     (case health i of
        Some h \<Rightarrow> (healthLines h, health_rows i h @ fact_rows i)
      | None \<Rightarrow> ([], fact_rows i))"

text \<open>The VLANs of an interface: the native one first.\<close>

datatype vlan_kind = Native | Tagged

definition InterfaceVlanList :: "net_interface \<Rightarrow> (nat \<Rightarrow> string option) \<Rightarrow> (vlan_kind \<times> nat \<times> string) list" where
  "InterfaceVlanList i names =
     map (\<lambda>(k, n). (k, n, case names n of Some s \<Rightarrow> s | None \<Rightarrow> em_dash))
       ((case nativeVlan i of Some n \<Rightarrow> [(Native, n)] | None \<Rightarrow> [])
        @ map (Pair Tagged) (case taggedVlans i of Some ns \<Rightarrow> ns | None \<Rightarrow> []))"

text \<open>Warning codes: \<^verbatim>\<open>kind:detail\<close>, split at colons and cut to two pieces.\<close>

definition portChannelWarningText :: "string \<Rightarrow> string" where
  "portChannelWarningText code =
     (let parts = take 2 (split (CHR '':'') code);
          kind = hd parts;
          detail = (if length parts = 2 then parts ! 1 else ''undefined'')
      in if kind = ''not-lacp'' then ''not running LACP ('' @ detail @ '')''
         else if kind = ''single-member'' then ''only one member port''
         else if kind = ''member-no-lacp-partner'' then detail @ '': the far end is not running LACP on this link''
         else if kind = ''member-not-bundled'' then detail @ '': configured but not bundled''
         else if kind = ''members-report-different-partners'' then
           ''members are bundled to different switches (LACP partner ids differ)''
         else if kind = ''members-wired-to-different-devices'' then ''members are cabled to different devices''
         else if kind = ''far-end-lag-not-found'' then ''the far-end switch has no matching port-channel''
         else if kind = ''far-end-member-count-mismatch'' then ''the far-end port-channel has a different member count''
         else code)"

end
