(* ===== verification/DevicePage.thy ===== *)
theory DevicePage
  imports DeviceText
begin

text \<open>
  The device page of the nexus web interface, \<^verbatim>\<open>pages/DeviceDetail.tsx\<close>, its tables and its
  state: service policies, sensors, spanning tree ports, the columns and filters of the interface
  table, and what its buttons and the device's live events cause.
\<close>

section \<open>Devices (api/types.ts)\<close>

record snmp_health =
  sh_slow :: bool
  sh_effectiveTimeoutMs :: nat
  sh_ewmaLatencyMs :: "real option"

record net_device =
  dv_id :: nat
  dv_fqdn :: string
  dv_name :: string
  dnsDomain :: string
  snmpCommunity :: "string option"
  baseMac :: "string option"
  dv_pollingEnabled :: "bool option"
  osInfo :: "string option"
  deviceType :: "string option"
  softwareVersion :: "string option"
  dv_up :: "bool option"
  secondsSinceLastPoll :: "nat option"
  interfaceCount :: nat
  interfaceHealth :: "issue_severity option"
  snmpHealth :: "snmp_health option"

record device_update =
  du_name :: string
  du_dnsDomain :: string
  du_snmpCommunity :: "string option"
  du_baseMac :: "string option"
  du_pollingEnabled :: "bool option"
  du_osInfo :: "string option"
  du_deviceType :: "string option"
  du_softwareVersion :: "string option"

record qos_police =
  conformPkts :: "nat option"
  conformBytes :: "nat option"
  exceedPkts :: "nat option"
  exceedBytes :: "nat option"
  violatePkts :: "nat option"
  violateBytes :: "nat option"

record qos_class =
  qc_interface :: "string option"
  qc_interfaceId :: "nat option"
  qc_direction :: string
  qc_policyMap :: string
  classMap :: string
  prepolicyPkts :: "nat option"
  prepolicyBytes :: "nat option"
  postpolicyBytes :: "nat option"
  dropPkts :: "nat option"
  dropBytes :: "nat option"
  police :: "qos_police option"

record stp_port =
  sp_vlan :: nat
  stpPortId :: nat
  sp_interfaceName :: "string option"
  sp_interfaceId :: "nat option"
  sp_role :: string
  sp_state :: string
  sp_enabled :: "bool option"
  designatedCost :: nat
  sp_pathCost :: nat
  sp_priority :: nat
  forwardTransitions :: nat
  sp_timestamp :: int

record port_channel_member =
  pm_ifindex :: nat
  pm_name :: "string option"
  pm_up :: "bool option"
  pm_speed :: "nat option"
  pm_media :: "string option"
  pm_connectedTo :: "interface_connection option"
  pm_cdpNeighbor :: "cdp_neighbor option"
  actorState :: "string list"
  partnerState :: "string list"
  partnerPort :: "nat option"
  bundled :: bool

record snmp_session =
  ss_vlan :: "nat option"
  ss_port :: nat
  ss_effectiveTimeoutMs :: nat
  ss_ewmaLatencyMs :: "real option"
  consecTimeouts :: nat
  ss_dead :: bool
  ss_status :: string

section \<open>Sensors, sessions and members\<close>

definition SENSOR_UNITS :: "string \<Rightarrow> string option" where
  "SENSOR_UNITS = map_of [(''celsius'', [CHR 0xC2, CHR 0xB0] @ ''C''), (''voltsDC'', ''V DC''), (''voltsAC'', ''V AC''),
     (''amperes'', ''A''), (''watts'', ''W''), (''hertz'', ''Hz''), (''percentRH'', ''%RH''), (''rpm'', ''RPM''), (''dBm'', ''dBm''),
     (''truthvalue'', '''')]"

definition signed_tenths :: "int \<Rightarrow> string" where
  "signed_tenths n = (if n < 0 then ''-'' @ tenths (nat (- n)) else tenths (nat n))"

definition formatSensorValue :: "real \<Rightarrow> string \<Rightarrow> string" where
  "formatSensorValue value valueType =
     (let rounded = signed_tenths (js_round (value * 10)) in
      case SENSOR_UNITS valueType of
        None \<Rightarrow> rounded @ '' '' @ valueType
      | Some u \<Rightarrow> if u \<noteq> '''' then rounded @ '' '' @ u else rounded)"

definition session_row :: "snmp_session \<Rightarrow> string list" where
  "session_row s =
     [case ss_vlan s of None \<Rightarrow> ''primary'' | Some v \<Rightarrow> ''vlan '' @ dec v,
      dec (ss_effectiveTimeoutMs s) @ '' ms'',
      case ss_ewmaLatencyMs s of None \<Rightarrow> em_dash | Some l \<Rightarrow> int_text (js_round l) @ '' ms'',
      dec (consecTimeouts s),
      if ss_status s = ''dead'' then ''not responding'' else if ss_status s = ''slow'' then ''slow'' else ''normal'']"

definition MemberStateBadge :: "port_channel_member \<Rightarrow> string" where
  "MemberStateBadge m =
     (if bundled m then ''bundled''
      else if list_ex (\<lambda>s. s = ''defaulted'' \<or> s = ''expired'') (actorState m) then ''no partner''
      else if actorState m = [] then ''no LACP''
      else ''negotiating'')"

definition UpdatedAgo :: "int \<Rightarrow> int list \<Rightarrow> string option" where
  "UpdatedAgo t timestamps =
     (if timestamps = [] then None
      else Some (middle_dot @ ''updated '' @ int_text (max 0 (js_round (real_of_int (t - Max (set timestamps)) / 1000))) @ ''s ago''))"

section \<open>Service policies\<close>

record qos_group =
  qg_key :: string
  qg_interface :: string
  qg_direction :: string
  qg_policyMap :: string
  classes :: "qos_class list"

definition qos_interface :: "qos_class \<Rightarrow> string" where
  "qos_interface c = (case qc_interface c of Some i \<Rightarrow> i | None \<Rightarrow> ''control-plane'')"

text \<open>The key joins the three names with NUL characters.\<close>

definition qos_key :: "qos_class \<Rightarrow> string" where
  "qos_key c = qos_interface c @ [CHR 0x00] @ qc_direction c @ [CHR 0x00] @ qc_policyMap c"

definition qos_step :: "qos_class \<Rightarrow> qos_group list \<Rightarrow> qos_group list" where
  "qos_step c groups =
     (if qos_key c \<in> qg_key ` set groups
      then map (\<lambda>g. if qg_key g = qos_key c then g\<lparr>classes := classes g @ [c]\<rparr> else g) groups
      else groups @ [\<lparr>qg_key = qos_key c, qg_interface = qos_interface c, qg_direction = qc_direction c,
             qg_policyMap = qc_policyMap c, classes = [c]\<rparr>])"

definition groupQos :: "qos_class list \<Rightarrow> qos_group list" where
  "groupQos qos = fold qos_step qos []"

definition qosCount :: "nat option \<Rightarrow> string" where
  "qosCount n = (case n of None \<Rightarrow> em_dash | Some x \<Rightarrow> groupThousands x)"

definition qosBytes :: "nat option \<Rightarrow> string" where
  "qosBytes n = (case n of None \<Rightarrow> em_dash | Some x \<Rightarrow> formatBytes x)"

definition over :: "nat option \<Rightarrow> bool" where
  "over n \<longleftrightarrow> (case n of None \<Rightarrow> False | Some x \<Rightarrow> x > 0)"

text \<open>A row of the table: each cell with its mark.\<close>

definition qos_row :: "qos_class \<Rightarrow> (string \<times> bool) list" where
  "qos_row c =
     (let pol = (\<lambda>f marked. case police c of None \<Rightarrow> (em_dash, False) | Some p \<Rightarrow> (qosBytes (f p), marked \<and> over (f p)))
      in [(classMap c, False), (qosCount (prepolicyPkts c), False), (qosBytes (prepolicyBytes c), False),
          (qosCount (dropPkts c), over (dropPkts c)), pol conformBytes False, pol exceedBytes True, pol violateBytes True])"

section \<open>The tables\<close>

datatype iface_sort_key = ByName | ByState | BySpeed | ByVlan | ByTagged | ByPoe | ByAlias | ByType | ByConnected

datatype stp_sort_key = StpVlan | StpInterface | StpRole | StpState | StpEnabled | StpPathCost | StpDesignatedCost
  | StpPriority | StpForwardTransitions

definition nat_value :: "nat \<Rightarrow> sort_value" where
  "nat_value n = Num (int n)"

fun ifaceSortVal :: "iface_sort_key \<Rightarrow> net_interface \<Rightarrow> sort_value option" where
  "ifaceSortVal ByName i = Some (Str (shown_name i))"
| "ifaceSortVal ByState i = Some (Num (if errDisabled i then 0 else if ni_up i = Some False then 1 else if ni_up i = None then 2 else 3))"
| "ifaceSortVal BySpeed i = map_option nat_value (ni_speed i)"
| "ifaceSortVal ByVlan i = map_option nat_value (nativeVlan i)"
| "ifaceSortVal ByTagged i = Some (nat_value (case taggedVlans i of Some ns \<Rightarrow> length ns | None \<Rightarrow> 0))"
| "ifaceSortVal ByPoe i = (case poe i of
      Some p \<Rightarrow> if poe_status p = ''deliveringPower'' then Some (nat_value (case powerMw p of Some w \<Rightarrow> w | None \<Rightarrow> 0)) else None
    | None \<Rightarrow> None)"
| "ifaceSortVal ByAlias i = map_option Str (ni_alias i)"
| "ifaceSortVal ByType i = Some (Str (interfaceType i))"
| "ifaceSortVal ByConnected i = (case connectedTo i of
      Some c \<Rightarrow> Some (Str (ic_fqdn c))
    | None \<Rightarrow> map_option (\<lambda>n. Str (cdpNeighborText n)) (cdpNeighbor i))"

fun stpSortVal :: "stp_sort_key \<Rightarrow> stp_port \<Rightarrow> sort_value option" where
  "stpSortVal StpVlan p = Some (nat_value (sp_vlan p))"
| "stpSortVal StpInterface p = Some (Str (case sp_interfaceName p of Some n \<Rightarrow> n | None \<Rightarrow> ''port '' @ dec (stpPortId p)))"
| "stpSortVal StpRole p = Some (Str (sp_role p))"
| "stpSortVal StpState p = Some (Str (sp_state p))"
| "stpSortVal StpEnabled p = map_option (\<lambda>b. Num (if b then 1 else 0)) (sp_enabled p)"
| "stpSortVal StpPathCost p = Some (nat_value (sp_pathCost p))"
| "stpSortVal StpDesignatedCost p = Some (nat_value (designatedCost p))"
| "stpSortVal StpPriority p = Some (nat_value (sp_priority p))"
| "stpSortVal StpForwardTransitions p = Some (nat_value (forwardTransitions p))"

definition ifaceCategory :: "net_interface \<Rightarrow> string" where
  "ifaceCategory i =
     (if interfaceType i = ''propVirtual'' \<and> prefix_ci ''Po'' (shown_name i) then ''Po''
      else if interfaceType i = ''propVirtual'' \<and> prefix_ci ''Vl'' (shown_name i) then ''VLAN''
      else interfaceType i)"

definition shortIfType :: "string \<Rightarrow> string" where
  "shortIfType t =
     (case map_of [(''ethernetCsmacd'', ''eth''), (''propVirtual'', ''propV''), (''l2vlan'', ''l2v'')] t of
        Some s \<Rightarrow> s | None \<Rightarrow> t)"

section \<open>The state of the page\<close>

record device_page =
  confirmDelete :: bool
  expandedDetail :: "nat list"
  ifaceSorting :: "iface_sort_key sorting"
  hiddenTypes :: "string list"
  stpSorting :: "stp_sort_key sorting"

definition new_device_page :: device_page where
  "new_device_page =
     \<lparr>confirmDelete = False, expandedDetail = [], ifaceSorting = \<lparr>sortKey = ByName, sortAsc = True\<rparr>, hiddenTypes = [''VLAN''],
      stpSorting = \<lparr>sortKey = StpVlan, sortAsc = True\<rparr>\<rparr>"

definition toggleDetail :: "nat \<Rightarrow> device_page \<Rightarrow> device_page" where
  "toggleDetail n p = p\<lparr>expandedDetail := set_toggle n (expandedDetail p)\<rparr>"

definition toggleType :: "string \<Rightarrow> device_page \<Rightarrow> device_page" where
  "toggleType t p = p\<lparr>hiddenTypes := set_toggle t (hiddenTypes p)\<rparr>"

definition onIfaceSort :: "iface_sort_key \<Rightarrow> device_page \<Rightarrow> device_page" where
  "onIfaceSort k p = p\<lparr>ifaceSorting := onSort k (ifaceSorting p)\<rparr>"

definition onStpSort :: "stp_sort_key \<Rightarrow> device_page \<Rightarrow> device_page" where
  "onStpSort k p = p\<lparr>stpSorting := onSort k (stpSorting p)\<rparr>"

definition sortedInterfaces :: "(string \<Rightarrow> string \<Rightarrow> int) \<Rightarrow> device_page \<Rightarrow> net_interface list \<Rightarrow> net_interface list" where
  "sortedInterfaces collate p is =
     js_sort (makeCmp collate (ifaceSortVal (sortKey (ifaceSorting p))) (sortAsc (ifaceSorting p))) is"

definition visibleInterfaces :: "(string \<Rightarrow> string \<Rightarrow> int) \<Rightarrow> device_page \<Rightarrow> net_interface list \<Rightarrow> net_interface list" where
  "visibleInterfaces collate p is =
     filter (\<lambda>i. ifaceCategory i \<notin> set (hiddenTypes p)) (sortedInterfaces collate p is)"

definition sortedStp :: "(string \<Rightarrow> string \<Rightarrow> int) \<Rightarrow> device_page \<Rightarrow> stp_port list \<Rightarrow> stp_port list" where
  "sortedStp collate p ps =
     js_sort (makeCmp collate (stpSortVal (sortKey (stpSorting p))) (sortAsc (stpSorting p))) ps"

definition ifaceCountLabel :: "(string \<Rightarrow> string \<Rightarrow> int) \<Rightarrow> device_page \<Rightarrow> net_interface list \<Rightarrow> string" where
  "ifaceCountLabel collate p is =
     (let n = length (visibleInterfaces collate p is) in
      if n = length is then dec (length is) else dec n @ '' of '' @ dec (length is))"

text \<open>The toggles of the interface types: type, text, and whether it is shown.\<close>

definition typeFilter :: "device_page \<Rightarrow> net_interface list \<Rightarrow> (string \<times> string \<times> bool) list" where
  "typeFilter p is =
     (let counts = count_by ifaceCategory is; types = js_sort code_units (map fst counts) in
      if length types > 1
      then map (\<lambda>t. (t, shortIfType t @ '' ('' @ dec (the (map_of counts t)) @ '')'', t \<notin> set (hiddenTypes p))) types
      else [])"

section \<open>Updates and events\<close>

definition update_body :: "net_device \<Rightarrow> device_update" where
  "update_body d =
     \<lparr>du_name = dv_name d, du_dnsDomain = dnsDomain d, du_snmpCommunity = snmpCommunity d, du_baseMac = baseMac d,
      du_pollingEnabled = dv_pollingEnabled d, du_osInfo = osInfo d, du_deviceType = deviceType d,
      du_softwareVersion = softwareVersion d\<rparr>"

definition togglePolling :: "net_device \<Rightarrow> device_update" where
  "togglePolling d =
     (update_body d)\<lparr>du_pollingEnabled := (if dv_pollingEnabled d = Some False then None else Some False)\<rparr>"

datatype query =
    DeviceQuery string
  | DevicesQuery
  | SummaryQuery
  | AllIssuesQuery
  | AllQueries

datatype page_effect =
    Invalidate query
  | InvalidateLater nat query
  | Navigate string

definition device_invalidate :: "string \<Rightarrow> page_effect list" where
  "device_invalidate fqdn = [Invalidate (DeviceQuery fqdn), Invalidate DevicesQuery, Invalidate SummaryQuery]"

definition deleteDevice_success :: "string \<Rightarrow> page_effect list" where
  "deleteDevice_success fqdn = device_invalidate fqdn @ [Navigate ''/devices'']"

definition pollVlans_success :: "string \<Rightarrow> page_effect list" where
  "pollVlans_success fqdn = [InvalidateLater 3000 (DeviceQuery fqdn)]"

definition runDiscovery_success :: "string \<Rightarrow> page_effect list" where
  "runDiscovery_success fqdn = [InvalidateLater 4000 (DeviceQuery fqdn)]"

text \<open>A live event of the device; the data may have no event type.\<close>

definition device_onMessage :: "string \<Rightarrow> string option \<Rightarrow> page_effect list" where
  "device_onMessage fqdn eventType =
     (if \<not> truthy_text eventType then []
      else Invalidate (DeviceQuery fqdn) #
        (if eventType = Some ''pingChange'' then [Invalidate DevicesQuery, Invalidate SummaryQuery] else []))"

end
