(* ===== verification/DeviceProps.thy ===== *)
theory DeviceProps
  imports DevicePage
begin

text \<open>
  Properties of the device page: what its texts say can be read back, its counts add up, and its tables
  show each interface where it belongs.
\<close>

section \<open>VLAN ranges\<close>

text \<open>Reading a range list back.\<close>

definition read_segment :: "string \<Rightarrow> nat list" where
  "read_segment s =
     (case split (CHR ''-'') s of [a] \<Rightarrow> [dec_value a] | [a, b] \<Rightarrow> [dec_value a..<Suc (dec_value b)] | _ \<Rightarrow> [])"

definition read_ranges :: "string \<Rightarrow> nat list" where
  "read_ranges s = (if s = '''' then [] else concat (map read_segment (split2 (CHR '','') (CHR '' '') s)))"

text \<open>The places where a list does not go on by one.\<close>

definition breaks :: "nat list \<Rightarrow> nat" where
  "breaks vs = length (filter (\<lambda>(v, w). w \<noteq> v + 1) (zip vs (tl vs)))"

lemma breaks_simps [simp]: "breaks [] = 0" "breaks [v] = 0"
  "breaks (v # u # us) = (if u = v + 1 then breaks (u # us) else Suc (breaks (u # us)))"
  by (simp_all add: breaks_def)

lemma take_run:
  "take_run v ws = (w, rest) \<Longrightarrow>
    v \<le> w \<and> v # ws = [v..<Suc w] @ rest \<and> breaks (v # ws) = (if rest = [] then 0 else Suc (breaks rest))"
proof (induction v ws rule: take_run.induct)
  case (2 v u us)
  show ?case
  proof (cases "u = v + 1")
    case True
    then have "take_run u us = (w, rest)" using 2 by simp
    note IH = 2(1) [OF True this]
    have "v # [u..<Suc w] = [v..<Suc w]" using IH True upt_conv_Cons [of v "Suc w"] by simp
    with IH have "v # u # us = [v..<Suc w] @ rest" by (metis append_Cons)
    moreover have "breaks (v # u # us) = (if rest = [] then 0 else Suc (breaks rest))"
      using conjunct2 [OF conjunct2 [OF IH]] True by (simp only: breaks_simps simp_thms if_True)
    moreover have "v \<le> w" using IH True by simp
    ultimately show ?thesis by blast
  next
    case False
    with 2 show ?thesis by auto
  qed
qed auto

lemma digit_chars: "c \<in> set (dec n) \<Longrightarrow> is_digit c"
  using dec_digits [of n] by (simp add: list_all_iff)

lemma not_digit [simp]: "\<not> is_digit (CHR '','')" "\<not> is_digit (CHR ''-'')" "\<not> is_digit (CHR '' '')" "\<not> is_digit (CHR ''.'')"
  "\<not> is_digit (CHR ''M'')" "\<not> is_digit (CHR ''G'')"
  by (simp_all add: is_digit_def)

lemma split2_none: "c \<notin> set w \<Longrightarrow> split2 c d w = [w]"
  by (induction c d w rule: split2.induct) auto

lemma split2_append: "c \<notin> set w \<Longrightarrow> c \<noteq> d \<Longrightarrow> split2 c d (w @ c # d # s) = w # split2 c d s"
proof (induction w)
  case (Cons x w)
  then show ?case by (cases w) auto
qed simp

lemma split2_join:
  "ws \<noteq> [] \<Longrightarrow> c \<noteq> d \<Longrightarrow> (\<And>w. w \<in> set ws \<Longrightarrow> c \<notin> set w) \<Longrightarrow> split2 c d (join [c, d] ws) = ws"
  by (induction "[c, d]" ws rule: join.induct) (simp_all add: split2_none split2_append)

lemma vlan_parts_chars: "w \<in> set (vlan_parts vs) \<Longrightarrow> CHR '','' \<notin> set w"
proof (induction vs rule: vlan_parts.induct)
  case (2 v vs)
  obtain u rest where u: "take_run v vs = (u, rest)" by force
  have "CHR '','' \<notin> set (dec n)" for n using digit_chars by force
  with 2(1) [OF u [symmetric] refl] 2(2) u show ?case by (auto split: if_splits)
qed simp

lemma read_segment:
  "v \<le> w \<Longrightarrow> read_segment (if w > v then dec v @ ''-'' @ dec w else dec v) = [v..<Suc w]"
proof -
  assume "v \<le> w"
  have "CHR ''-'' \<notin> set (dec n)" for n using digit_chars by force
  then have "split (CHR ''-'') (dec v) = [dec v]" "split (CHR ''-'') (dec v @ CHR ''-'' # dec w) = [dec v, dec w]"
    by (simp_all add: split_none split_append)
  with \<open>v \<le> w\<close> show ?thesis by (auto simp: read_segment_def)
qed

lemma vlan_parts:
  "concat (map read_segment (vlan_parts vs)) = vs \<and> length (vlan_parts vs) = (if vs = [] then 0 else Suc (breaks vs))"
proof (induction vs rule: vlan_parts.induct)
  case (2 v vs)
  obtain w rest where w: "take_run v vs = (w, rest)" by force
  from take_run [OF w] have le: "v \<le> w" and list: "[v..<Suc w] @ rest = v # vs"
    and b: "breaks (v # vs) = (if rest = [] then 0 else Suc (breaks rest))" by auto
  from 2 [OF w [symmetric] refl] have IH: "concat (map read_segment (vlan_parts rest)) = rest"
    "length (vlan_parts rest) = (if rest = [] then 0 else Suc (breaks rest))" by auto
  have "vlan_parts (v # vs) = (if w > v then dec v @ ''-'' @ dec w else dec v) # vlan_parts rest" using w by simp
  then show ?case using read_segment [OF le] IH b list
    by (simp only: list.map concat.simps length_Cons) simp
qed simp

lemma vlan_parts_nonempty: "vlan_parts vs = [] \<longleftrightarrow> vs = []"
  using vlan_parts [of vs] by (cases vs) auto

lemma split_ranges: "vs \<noteq> [] \<Longrightarrow> split2 (CHR '','') (CHR '' '') (formatVlanRanges vs) = vlan_parts vs"
  unfolding formatVlanRanges_def by (rule split2_join) (simp_all add: vlan_parts_nonempty vlan_parts_chars)

lemma dec_not_nil [simp]: "dec n \<noteq> []"
  by (rule dec_digits)

lemma formatVlanRanges_nil: "formatVlanRanges vs = [] \<longleftrightarrow> vs = []"
proof (cases vs)
  case (Cons v us)
  obtain w rest where w: "take_run v us = (w, rest)" by force
  have "join s (x # xs) \<noteq> []" if "x \<noteq> []" for s x and xs :: "string list" using that by (cases xs) auto
  with Cons w show ?thesis by (auto simp: formatVlanRanges_def)
qed (simp add: formatVlanRanges_def)

text \<open>C27: The range text of a VLAN list reads back as exactly that list, whatever the list, and it has as few
  segments as its consecutive runs; the column shows this text when it has at most six segments, and
  else the number of VLANs.\<close>

theorem vlan_ranges_roundtrip:
  "read_ranges (formatVlanRanges vlans) = vlans
    \<and> length (split2 (CHR '','') (CHR '' '') (formatVlanRanges vlans)) = Suc (breaks vlans)
    \<and> summarizeTaggedVlans vlans =
      (if breaks vlans < 6 then formatVlanRanges vlans else dec (length vlans) @ '' tagged VLANs'')"
proof (cases "vlans = []")
  case True
  then show ?thesis
    by (simp add: read_ranges_def formatVlanRanges_def summarizeTaggedVlans_def MAX_VLAN_SEGMENTS_def)
next
  case False
  then have "formatVlanRanges vlans \<noteq> []" by (simp add: formatVlanRanges_nil)
  with False show ?thesis
    using vlan_parts [of vlans] split_ranges [OF False]
    by (auto simp: read_ranges_def summarizeTaggedVlans_def MAX_VLAN_SEGMENTS_def)
qed

section \<open>Speeds\<close>

lemma takeWhile_dec: "\<not> is_digit c \<Longrightarrow> takeWhile is_digit (dec n @ c # s) = dec n \<and> dropWhile is_digit (dec n @ c # s) = c # s"
  using digit_chars [of _ n] by simp

lemma digit_char_is [simp]: "is_digit (digit_char (n mod 10))"
  by (rule digit_char_digit) simp

lemma dec_value_digits:
  "a < 10 \<Longrightarrow> dec_value [digit_char a] = a"
  "a < 10 \<Longrightarrow> b < 10 \<Longrightarrow> dec_value [digit_char a, digit_char b] = 10 * a + b"
  "a < 10 \<Longrightarrow> b < 10 \<Longrightarrow> c < 10 \<Longrightarrow> dec_value [digit_char a, digit_char b, digit_char c] = 100 * a + 10 * b + c"
  by (simp_all add: dec_value_def)

lemma dec_value_nil [simp]: "dec_value [] = 0"
  by (simp add: dec_value_def)

lemma speedRank_plain: "speedRank (dec n @ ''M'') = real n" "speedRank (dec n @ ''G'') = 1000 * real n"
  by (simp_all add: speedRank_def speed_parts_def Let_def takeWhile_dec)

lemma speedRank_fraction:
  assumes "f \<noteq> []" and "list_all is_digit f"
  shows "speedRank (dec n @ ''.'' @ f @ ''G'') = 1000 * (real n + real (dec_value f) / 10 ^ length f)"
proof -
  have "takeWhile is_digit (f @ ''G'') = f \<and> dropWhile is_digit (f @ ''G'') = ''G''"
    using assms(2) by (simp add: list_all_iff)
  moreover obtain x xs where "f = x # xs" using assms(1) by (cases f) auto
  ultimately show ?thesis by (simp add: speedRank_def speed_parts_def Let_def takeWhile_dec distrib_left)
qed

lemma speedRank_digits:
  "a < 10 \<Longrightarrow> speedRank (dec n @ [CHR ''.'', digit_char a, CHR ''G'']) = 1000 * real n + 100 * real a"
  "a < 10 \<Longrightarrow> b < 10 \<Longrightarrow> speedRank (dec n @ [CHR ''.'', digit_char a, digit_char b, CHR ''G''])
    = 1000 * real n + 100 * real a + 10 * real b"
  "a < 10 \<Longrightarrow> b < 10 \<Longrightarrow> c < 10 \<Longrightarrow> speedRank (dec n @ [CHR ''.'', digit_char a, digit_char b, digit_char c, CHR ''G''])
    = 1000 * real n + 100 * real a + 10 * real b + real c"
  using speedRank_fraction [of "[digit_char a]" n] speedRank_fraction [of "[digit_char a, digit_char b]" n]
    speedRank_fraction [of "[digit_char a, digit_char b, digit_char c]" n]
  by (simp_all add: dec_value_digits distrib_left)

lemma speedRank_thousandths: "speedRank (thousandths n @ ''G'') = real n"
proof -
  define q f where "q = n div 1000" and "f = n mod 1000"
  have n: "real n = 1000 * real q + real f"
    unfolding q_def f_def by (metis mult_div_mod_eq of_nat_add of_nat_mult of_nat_numeral)
  define a b c where "a = f div 100" and "b = f div 10 mod 10" and "c = f mod 10"
  have d: "a < 10" "b < 10" "c < 10" unfolding a_def b_def c_def f_def by simp_all
  have "f = 10 * (f div 10) + c" "f div 10 = 10 * (f div 10 div 10) + b" unfolding b_def c_def by simp_all
  moreover have "f div 10 div 10 = a" unfolding a_def by (simp flip: div_mult2_eq)
  ultimately have fd: "f = 100 * a + 10 * b + c" by linarith
  have m100: "f mod 100 = 10 * b + c"
  proof -
    have "(10 * b + c + a * 100) mod 100 = (10 * b + c) mod 100" by (rule mod_mult_self1)
    with d show ?thesis by (subst fd) (simp add: ac_simps)
  qed
  consider "f = 0" | "f \<noteq> 0" "f mod 100 = 0" | "f mod 100 \<noteq> 0" "f mod 10 = 0" | "f mod 10 \<noteq> 0" by fastforce
  then show ?thesis
  proof cases
    case 1
    then show ?thesis using n by (simp add: thousandths_def speedRank_plain flip: f_def q_def)
  next
    case 2
    then have "b = 0 \<and> c = 0" using m100 by simp
    moreover have "thousandths n @ ''G'' = dec q @ ''.'' @ [digit_char a] @ ''G''"
      using 2 by (simp add: thousandths_def flip: f_def q_def a_def)
    ultimately show ?thesis using n fd d by (simp add: speedRank_digits)
  next
    case 3
    then have "c = 0" "f \<noteq> 0" by (auto simp: c_def)
    moreover have "thousandths n @ ''G'' = dec q @ ''.'' @ [digit_char a, digit_char b] @ ''G''"
      using 3 calculation by (simp add: thousandths_def flip: f_def q_def a_def b_def)
    ultimately show ?thesis using n fd d by (simp add: speedRank_digits)
  next
    case 4
    then have "f \<noteq> 0" "f mod 100 \<noteq> 0" using m100 by (auto simp: c_def)
    moreover have "thousandths n @ ''G'' = dec q @ ''.'' @ [digit_char a, digit_char b, digit_char c] @ ''G''"
      using 4 calculation by (simp add: thousandths_def flip: f_def q_def a_def b_def c_def)
    ultimately show ?thesis using n fd d by (simp add: speedRank_digits)
  qed
qed

lemma speedRank_speed_text: "speedRank (speed_text (Some n)) = real n"
  by (simp add: speed_text_def speedRank_thousandths speedRank_plain)

section \<open>The ports by speed\<close>

lemma sum_counts: "sum_list (map snd (count_by f xs)) = length xs"
proof -
  have "length (concat (map (\<lambda>k. filter (\<lambda>x. f x = k) xs) (set_of (map f xs)))) = length xs"
    by (rule mset_eq_length, rule mset_groups) simp_all
  then show ?thesis by (simp add: count_by length_concat comp_def)
qed

lemma count_by_distinct: "distinct (map fst (count_by f xs))"
  by (simp add: count_by comp_def)

lemma count_by_set: "set (count_by f xs) = {(k, n). n = length (filter (\<lambda>x. f x = k) xs) \<and> n > 0}"
  by (auto simp: count_by filter_empty_conv)

definition tiers :: "net_interface list \<Rightarrow> (string \<times> nat) list" where
  "tiers ports = js_sort (by_rank (\<lambda>e. speedRank (fst e))) (count_by portSpeedLabel ports)"

text \<open>The port summary has one entry for each speed that a port has, slowest first, with the number of
  ports of that speed, and the numbers add up to all ports.  The speed of a label is read back
  correctly: a negotiated speed in Mb/s is the rank of its own label, fractions of a gigabit included,
  and an unknown speed comes last.\<close>

theorem port_tiers:
  "byTier ports suffix = map (\<lambda>(l, n). dec n @ times_sign @ l @ suffix) (tiers ports)
    \<and> sorted_wrt (\<lambda>a b. speedRank (fst a) \<le> speedRank (fst b)) (tiers ports)
    \<and> distinct (map fst (tiers ports))
    \<and> set (tiers ports) = {(l, n). n = length (filter (\<lambda>i. portSpeedLabel i = l) ports) \<and> n > 0}
    \<and> sum_list (map snd (tiers ports)) = length ports
    \<and> speedRank (speed_text (Some mbps)) = real mbps
    \<and> speedRank (speed_text None) = 9007199254740991"
proof -
  have "sorted_wrt (\<lambda>a b. by_rank (\<lambda>e. speedRank (fst e)) a b \<le> 0) (tiers ports)"
    unfolding tiers_def using ranks.js_sort_in_order unfolding in_order_def .
  moreover have "by_rank (\<lambda>e. speedRank (fst e)) a b \<le> 0 \<longleftrightarrow> speedRank (fst a) \<le> speedRank (fst b)"
    for a b :: "string \<times> nat" by (auto simp: by_rank_def)
  moreover have "mset (map fst (tiers ports)) = mset (map fst (count_by portSpeedLabel ports))"
    "mset (map snd (tiers ports)) = mset (map snd (count_by portSpeedLabel ports))"
    by (simp_all add: tiers_def)
  then have "distinct (map fst (tiers ports))" "sum_list (map snd (tiers ports)) = length ports"
    using mset_eq_imp_distinct_iff count_by_distinct sum_mset_sum_list sum_counts by metis+
  moreover have "speedRank (speed_text None) = 9007199254740991"
    by (simp add: speed_text_def speedRank_def speed_parts_def is_digit_def)
  ultimately show ?thesis
    by (simp add: byTier_def speedRank_speed_text flip: tiers_def) (simp add: tiers_def count_by_set)
qed

section \<open>Service policies\<close>

definition policy_of :: "qos_class \<Rightarrow> string \<times> string \<times> string" where
  "policy_of c = (qos_interface c, qc_direction c, qc_policyMap c)"

definition group_policy :: "qos_group \<Rightarrow> string \<times> string \<times> string" where
  "group_policy g = (qg_interface g, qg_direction g, qg_policyMap g)"

definition qos_group_of :: "string \<times> qos_class list \<Rightarrow> qos_group" where
  "qos_group_of p = \<lparr>qg_key = fst p, qg_interface = qos_interface (hd (snd p)), qg_direction = qc_direction (hd (snd p)),
     qg_policyMap = qc_policyMap (hd (snd p)), classes = snd p\<rparr>"

lemma groupQos_groups: "groupQos qos = map qos_group_of (group_by qos_key qos)"
proof (induction qos rule: rev_induct)
  case (snoc c qos)
  have step: "groupQos (qos @ [c]) = qos_step c (groupQos qos)" by (simp add: groupQos_def)
  have push: "group_by qos_key (qos @ [c]) = map_push (qos_key c) c (group_by qos_key qos)" by (simp add: group_by_def)
  have keys: "qg_key ` set (groupQos qos) = qos_key ` set qos"
    unfolding snoc.IH group_by by (auto simp: qos_group_of_def image_image)
  have ne: "vs \<noteq> []" if "(k, vs) \<in> set (group_by qos_key qos)" for k vs
    using that by (auto simp: group_by filter_empty_conv)
  show ?case
  proof (cases "qos_key c \<in> qos_key ` set qos")
    case True
    then have "map_of (group_by qos_key qos) (qos_key c) \<noteq> None" by (simp add: map_of_group_by)
    then show ?thesis
      using True keys ne unfolding step push qos_step_def map_push_def
      by (auto simp: snoc.IH qos_group_of_def)
  next
    case False
    then have "map_of (group_by qos_key qos) (qos_key c) = None" by (simp add: map_of_group_by)
    then show ?thesis
      using False keys unfolding step push qos_step_def map_push_def by (simp add: snoc.IH qos_group_of_def)
  qed
qed (simp add: groupQos_def group_by_def)

definition plain_names :: "qos_class \<Rightarrow> bool" where
  "plain_names c \<longleftrightarrow> CHR 0x00 \<notin> set (qos_interface c) \<and> CHR 0x00 \<notin> set (qc_direction c)"

lemma qos_key_eq: "plain_names c \<Longrightarrow> plain_names d \<Longrightarrow> qos_key c = qos_key d \<longleftrightarrow> policy_of c = policy_of d"
proof -
  have cut: "a = b \<and> s = t" if e: "a @ CHR 0x00 # s = b @ CHR 0x00 # t" and n: "CHR 0x00 \<notin> set a" "CHR 0x00 \<notin> set b" for a b s t
  proof -
    have "a = b" using arg_cong [OF e, of "\<lambda>x. hd (split (CHR 0x00) x)"] n by (simp add: split_append)
    with e show ?thesis by simp
  qed
  assume "plain_names c" "plain_names d"
  then show ?thesis by (auto simp: qos_key_def policy_of_def plain_names_def dest!: cut)
qed

text \<open>C29: The quality-of-service section has one block for each service policy, that is for each
  interface, direction and policy map that occur together, in the order of their first class, provided no name has a NUL; the block
  holds exactly the classes of its policy, in their order, so every class is shown exactly once.\<close>

theorem qos_blocks:
  assumes "\<forall>c\<in>set qos. plain_names c"
  shows "map group_policy (groupQos qos) = set_of (map policy_of qos)
    \<and> (\<forall>g\<in>set (groupQos qos). classes g = filter (\<lambda>c. policy_of c = group_policy g) qos)
    \<and> mset (concat (map classes (groupQos qos))) = mset qos"
proof -
  have same: "qos_key d = qos_key c \<longleftrightarrow> policy_of d = policy_of c" if "c \<in> set qos" "d \<in> set qos" for c d
    using assms that qos_key_eq by blast
  have group: "group_policy (qos_group_of (qos_key c, filter (\<lambda>d. qos_key d = qos_key c) qos)) = policy_of c"
    if "c \<in> set qos" for c
  proof -
    let ?h = "hd (filter (\<lambda>d. qos_key d = qos_key c) qos)"
    have "filter (\<lambda>d. qos_key d = qos_key c) qos \<noteq> []" using that by (auto simp: filter_empty_conv)
    then have "?h \<in> set (filter (\<lambda>d. qos_key d = qos_key c) qos)" by (rule hd_in_set)
    then have "policy_of ?h = policy_of c" using same that by auto
    then show ?thesis by (simp add: group_policy_def qos_group_of_def policy_of_def)
  qed
  have order: "map (\<lambda>k. group_policy (qos_group_of (k, filter (\<lambda>d. qos_key d = k) qos))) (set_of (map qos_key cs))
      = set_of (map policy_of cs)" if "set cs \<subseteq> set qos" for cs
    using that
  proof (induction cs rule: rev_induct)
    case (snoc c cs)
    then have "qos_key c \<in> qos_key ` set cs \<longleftrightarrow> policy_of c \<in> policy_of ` set cs"
      using same by (simp add: image_iff) (metis subsetD)
    then show ?case using snoc.IH snoc.prems group [of c] by (simp add: set_add_def)
  qed simp
  have blocks: "classes g = filter (\<lambda>c. policy_of c = group_policy g) qos" if "g \<in> set (groupQos qos)" for g
  proof -
    from that obtain c where c: "c \<in> set qos" and g: "g = qos_group_of (qos_key c, filter (\<lambda>d. qos_key d = qos_key c) qos)"
      by (auto simp: groupQos_groups group_by)
    have "classes g = filter (\<lambda>d. qos_key d = qos_key c) qos" by (simp add: g qos_group_of_def)
    also have "\<dots> = filter (\<lambda>d. policy_of d = policy_of c) qos" using same c by (intro filter_cong) auto
    finally show ?thesis using group [OF c] g by simp
  qed
  have "map classes (groupQos qos) = map snd (group_by qos_key qos)"
    by (simp add: groupQos_groups qos_group_of_def)
  then have "mset (concat (map classes (groupQos qos))) = mset qos" by (simp only: group_by_mset)
  moreover have "map group_policy (groupQos qos) = set_of (map policy_of qos)"
    using order [of qos] by (simp add: groupQos_groups group_by comp_def)
  ultimately show ?thesis using blocks by blast
qed

definition example_class :: "string option \<Rightarrow> string \<Rightarrow> string \<Rightarrow> qos_class" where
  "example_class i p m = \<lparr>qc_interface = i, qc_interfaceId = None, qc_direction = ''input'', qc_policyMap = p, classMap = m,
     prepolicyPkts = None, prepolicyBytes = None, postpolicyBytes = None, dropPkts = None, dropBytes = None, police = None\<rparr>"

definition example_qos :: "qos_class list" where
  "example_qos = [example_class (Some ''Te1'') ''P'' ''a'', example_class None ''P'' ''b'', example_class (Some ''Te1'') ''P'' ''c'']"

theorem qos_blocks_witness:
  "map group_policy (groupQos example_qos) = [(''Te1'', ''input'', ''P''), (''control-plane'', ''input'', ''P'')]
    \<and> map (map classMap \<circ> classes) (groupQos example_qos) = [[''a'', ''c''], [''b'']]"
proof -
  have "\<forall>c\<in>set example_qos. plain_names c"
    by (simp add: example_qos_def example_class_def plain_names_def qos_interface_def)
  from qos_blocks [OF this]
  have "map group_policy (groupQos example_qos) = set_of (map policy_of example_qos)" by blast
  moreover have "set_of (map policy_of example_qos) = [(''Te1'', ''input'', ''P''), (''control-plane'', ''input'', ''P'')]"
    "map (map classMap \<circ> classes) (groupQos example_qos) = [[''a'', ''c''], [''b'']]" by code_simp+
  ultimately show ?thesis by simp
qed

section \<open>Numbers\<close>

lemma group_digits_step:
  assumes "length v = 3" and "w \<noteq> []"
  shows "group_digits (w @ v) = group_digits w @ '','' @ v"
proof -
  obtain a b c where v: "v = [a, b, c]" using assms(1) by (auto simp: length_Suc_conv numeral_3_eq_3)
  let ?n = "length w"
  let ?f = "\<lambda>u i. (if 0 < i \<and> (length u - i) mod 3 = 0 then '','' else '''') @ [u ! i]"
  have "?f (w @ v) i = ?f w i" if "i < ?n" for i
  proof -
    have "length (w @ v) - i = (?n - i) + 3" using that v by simp
    then have "(length (w @ v) - i) mod 3 = (?n - i) mod 3" by simp
    then show ?thesis using that by (simp add: nth_append)
  qed
  then have "map (?f (w @ v)) [0..<?n] = map (?f w) [0..<?n]" by simp
  moreover have "[0..<length (w @ v)] = [0..<?n] @ [?n, Suc ?n, Suc (Suc ?n)]" using v by (simp add: upt_rec [of "Suc _"])
  moreover have "map (?f (w @ v)) [?n, Suc ?n, Suc (Suc ?n)] = ['','' @ [a], [b], [c]]"
    using assms(2) by (simp add: v nth_append)
  ultimately show ?thesis
    unfolding group_digits_def by (simp only: map_append concat_append) (simp add: v)
qed

lemma group_digits_short: "length w \<le> 3 \<Longrightarrow> group_digits w = w"
proof -
  assume "length w \<le> 3"
  then have "(if 0 < i \<and> (length w - i) mod 3 = 0 then '','' else '''') @ [w ! i] = [w ! i]" if "i < length w" for i
  proof -
    have "\<not> 3 dvd length w - i" if "0 < i"
      using that \<open>i < length w\<close> \<open>length w \<le> 3\<close> dvd_imp_le [of 3 "length w - i"] by auto
    then show ?thesis by auto
  qed
  then have "concat (map (\<lambda>i. (if 0 < i \<and> (length w - i) mod 3 = 0 then '','' else '''') @ [w ! i]) [0..<length w])
      = concat (map (\<lambda>i. [w ! i]) [0..<length w])"
    by (intro arg_cong [of _ _ concat] map_cong refl) simp
  also have "\<dots> = w" by (simp add: concat_map_singleton map_nth)
  finally show ?thesis by (simp only: group_digits_def)
qed

text \<open>Groups of three digits, the first of one to three.\<close>

definition digit_groups :: "string list \<Rightarrow> bool" where
  "digit_groups gs \<longleftrightarrow> gs \<noteq> [] \<and> 0 < length (hd gs) \<and> length (hd gs) \<le> 3 \<and> (\<forall>g\<in>set (tl gs). length g = 3)"

lemma join_snoc: "gs \<noteq> [] \<Longrightarrow> join s (gs @ [g]) = join s gs @ s @ g"
  by (induction s gs rule: join.induct) auto

lemma group_digits: "w \<noteq> [] \<Longrightarrow> \<exists>gs. digit_groups gs \<and> concat gs = w \<and> group_digits w = join '','' gs"
proof (induction w rule: length_induct)
  case (1 w)
  show ?case
  proof (cases "length w \<le> 3")
    case True
    with 1(2) have "digit_groups [w] \<and> concat [w] = w \<and> group_digits w = join '','' [w]"
      by (simp add: digit_groups_def group_digits_short)
    then show ?thesis by blast
  next
    case False
    define u v where "u = take (length w - 3) w" and "v = drop (length w - 3) w"
    have w: "w = u @ v" and v: "length v = 3" and u: "u \<noteq> []" "length u < length w"
      using False by (auto simp: u_def v_def)
    from 1(1) u obtain gs where gs: "digit_groups gs" "concat gs = u" "group_digits u = join '','' gs" by blast
    then have "digit_groups (gs @ [v])" using v by (cases gs) (auto simp: digit_groups_def)
    moreover have "group_digits w = join '','' (gs @ [v])"
      using gs group_digits_step [OF v u(1)] w by (simp add: digit_groups_def join_snoc)
    ultimately show ?thesis using w gs(2) by (metis concat.simps concat_append self_append_conv)
  qed
qed

lemma scale_units:
  assumes "scale_units base n v = (i, r)" and "0 < base"
  shows "i \<le> n \<and> r * base ^ i = v \<and> (0 < i \<longrightarrow> base \<le> r * base) \<and> (i < n \<longrightarrow> r < base)"
  using assms
proof (induction base n v arbitrary: i rule: scale_units.induct)
  case (2 base n v)
  show ?case
  proof (cases "base \<le> v")
    case True
    with 2(2) obtain j where j: "scale_units base n (v / base) = (j, r)" "i = Suc j"
      by (cases "scale_units base n (v / base)") auto
    from 2(1) [OF True j(1) 2(3)] have IH: "j \<le> n \<and> r * base ^ j = v / base \<and> (0 < j \<longrightarrow> base \<le> r * base) \<and> (j < n \<longrightarrow> r < base)" .
    moreover have "r * base = v" if "j = 0" using IH that 2(3) by simp
    ultimately show ?thesis using j(2) True 2(3) by (auto simp: field_simps)
  next
    case False
    with 2 show ?thesis by auto
  qed
qed auto

lemma rounding: "\<bar>real_of_int \<lfloor>v * 100 + 1 / 2\<rfloor> / 100 - v\<bar> \<le> 1 / 200" for v :: real
proof -
  have "v * 100 + 1 / 2 - 1 < real_of_int \<lfloor>v * 100 + 1 / 2\<rfloor>" "real_of_int \<lfloor>v * 100 + 1 / 2\<rfloor> \<le> v * 100 + 1 / 2"
    by linarith+
  then have "real_of_int \<lfloor>v * 100 + 1 / 2\<rfloor> / 100 - v \<le> 1 / 200" "- (real_of_int \<lfloor>v * 100 + 1 / 2\<rfloor> / 100 - v) \<le> 1 / 200"
    by linarith+
  then show ?thesis by (rule abs_leI)
qed

text \<open>Counters are readable and lose nothing: the digits of a count are those of the number, in groups of
  three but for a first one of one to three, so it reads back by dropping the commas; and a number of
  bytes is shown in the largest unit of 1024 that it reaches (the last one for all above), exactly as
  bytes or with two decimals that are at most half a hundredth of the unit off.\<close>

theorem readable_counters:
  "(\<exists>gs. digit_groups gs \<and> concat gs = dec n \<and> groupThousands n = join '','' gs)
    \<and> dec_value (filter (\<lambda>c. c \<noteq> CHR '','') (groupThousands n)) = n
    \<and> (\<exists>i h. i \<le> 5
        \<and> formatBytes bytes = (if i = 0 then dec bytes else fixed2 h) @ '' '' @ [''B'', ''KiB'', ''MiB'', ''GiB'', ''TiB'', ''PiB''] ! i
        \<and> (i = 0 \<or> 1024 ^ i \<le> bytes) \<and> (i = 5 \<or> bytes < 1024 ^ Suc i)
        \<and> \<bar>real h / 100 - real bytes / 1024 ^ i\<bar> \<le> 1 / 200)"
proof -
  obtain gs where gs: "digit_groups gs" "concat gs = dec n" "groupThousands n = join '','' gs"
    using group_digits [of "dec n"] by (auto simp: groupThousands_def)
  have "filter (\<lambda>c. c \<noteq> CHR '','') (join '','' gs) = filter (\<lambda>c. c \<noteq> CHR '','') (concat gs)"
    by (induction "'',''" gs rule: join.induct) simp_all
  also have "\<dots> = dec n" unfolding gs(2) by (rule filter_True) (use digit_chars in force)
  finally have reads: "dec_value (filter (\<lambda>c. c \<noteq> CHR '','') (groupThousands n)) = n" by (simp add: gs(3))
  obtain i r where s: "scale_units 1024 5 (real bytes) = (i, r)" by force
  from scale_units [OF this] have i: "i \<le> 5" and r: "r * 1024 ^ i = real bytes"
    and lo: "0 < i \<longrightarrow> 1 \<le> r" and hi: "i < 5 \<longrightarrow> r < 1024" by auto
  define h where "h = nat \<lfloor>r * 100 + 1 / 2\<rfloor>"
  have rv: "r = real bytes / 1024 ^ i" using r by (simp add: field_simps)
  then have "0 \<le> r" by simp
  then have h: "real h = real_of_int \<lfloor>r * 100 + 1 / 2\<rfloor>" by (simp add: h_def)
  have shown: "formatBytes bytes = (if i = 0 then dec bytes else fixed2 h) @ '' '' @ [''B'', ''KiB'', ''MiB'', ''GiB'', ''TiB'', ''PiB''] ! i"
  proof -
    have five: "length byte_units - 1 = 5" by (simp add: byte_units_def)
    have "formatBytes bytes = (if i = 0 then dec bytes else toFixed2 r) @ '' '' @ byte_units ! i"
      by (simp only: formatBytes_def five s Let_def prod.case)
    then show ?thesis by (simp only: toFixed2_def h_def byte_units_def)
  qed
  have lower: "i = 0 \<or> 1024 ^ i \<le> bytes"
  proof -
    have "real (1024 ^ i) \<le> real bytes" if "0 < i"
      using lo that r mult_right_mono [of 1 r "1024 ^ i"] by simp
    then show ?thesis by (auto simp only: of_nat_le_iff)
  qed
  have upper: "i = 5 \<or> bytes < 1024 ^ Suc i"
  proof -
    have "real bytes < real (1024 ^ Suc i)" if "i < 5"
      using hi that r mult_strict_right_mono [of r 1024 "1024 ^ i"] by simp
    then show ?thesis using i by (auto simp only: of_nat_less_iff le_less)
  qed
  have err: "\<bar>real h / 100 - real bytes / 1024 ^ i\<bar> \<le> 1 / 200"
    using rounding [of r] by (simp only: h rv [symmetric])
  show ?thesis
    by (intro conjI exI [of _ gs] exI [of _ i] exI [of _ h]) (fact gs reads i shown lower upper err)+
qed

section \<open>The interface table\<close>

lemma one_kind_ifaceSortVal: "one_kind (ifaceSortVal k)"
  by (cases k) (auto simp: one_kind_def nat_value_def split: option.splits)

lemma one_kind_stpSortVal: "one_kind (stpSortVal k)"
  by (cases k) (auto simp: one_kind_def nat_value_def)

definition column_of :: "device_page \<Rightarrow> net_interface \<Rightarrow> sort_value option" where
  "column_of p = ifaceSortVal (sortKey (ifaceSorting p))"

definition column_cmp :: "(string \<Rightarrow> string \<Rightarrow> int) \<Rightarrow> device_page \<Rightarrow> net_interface \<Rightarrow> net_interface \<Rightarrow> int" where
  "column_cmp collate p = makeCmp collate (column_of p) (sortAsc (ifaceSorting p))"

definition shown_in :: "device_page \<Rightarrow> net_interface \<Rightarrow> bool" where
  "shown_in p i \<longleftrightarrow> ifaceCategory i \<notin> set (hiddenTypes p)"

lemma column_cmp_comparator: "comparator collate \<Longrightarrow> comparator (column_cmp collate p)"
  unfolding column_cmp_def column_of_def
  by (intro collation.makeCmp_comparator one_kind_ifaceSortVal) (simp add: collation_def)

lemma visible: "comparator collate \<Longrightarrow> visibleInterfaces collate p is = js_sort (column_cmp collate p) (filter (shown_in p) is)"
  using comparator.filter_js_sort [OF column_cmp_comparator, of collate "shown_in p" p "is"]
  by (simp add: visibleInterfaces_def sortedInterfaces_def column_cmp_def column_of_def shown_in_def [abs_def])

lemma typeFilter_types:
  "map fst (typeFilter p is) =
    (if length (set_of (map ifaceCategory is)) > 1 then js_sort code_units (set_of (map ifaceCategory is)) else [])"
  by (simp add: typeFilter_def Let_def count_by comp_def)

text \<open>C25: The interface table shows exactly the interfaces whose type is not switched off, sorted by the chosen
  column: interfaces without a value come last in either direction, and those that compare equal keep
  the server's order.  Switching a type changes exactly the interfaces of that type, and when a device
  has several types there is one switch for each of them.\<close>

theorem interface_table:
  assumes "comparator collate"
  shows "mset (visibleInterfaces collate p is) = mset (filter (shown_in p) is)
    \<and> visibleInterfaces collate p is =
        filter (\<lambda>i. column_of p i \<noteq> None) (visibleInterfaces collate p is)
        @ filter (\<lambda>i. column_of p i = None) (visibleInterfaces collate p is)
    \<and> sorted_wrt (\<lambda>i j. column_le collate (sortAsc (ifaceSorting p)) (column_of p i) (column_of p j))
        (visibleInterfaces collate p is)
    \<and> (\<forall>i. filter (\<lambda>j. column_cmp collate p j i = 0) (visibleInterfaces collate p is)
          = filter (\<lambda>j. column_cmp collate p j i = 0) (filter (shown_in p) is))
    \<and> (\<forall>t i. shown_in (toggleType t p) i = (if ifaceCategory i = t then \<not> shown_in p i else shown_in p i))
    \<and> set (map fst (typeFilter p is)) = (if card (ifaceCategory ` set is) > 1 then ifaceCategory ` set is else {})
    \<and> distinct (map fst (typeFilter p is))"
proof -
  have order: "sorted_wrt (\<lambda>i j. column_le collate (sortAsc (ifaceSorting p)) (column_of p i) (column_of p j))
      (visibleInterfaces collate p is)"
    using comparator.js_sort_in_order [OF column_cmp_comparator [OF assms], of p "filter (shown_in p) is"]
    unfolding visible [OF assms] column_cmp_def in_order_makeCmp [OF assms] .
  have stable: "filter (\<lambda>j. column_cmp collate p j i = 0) (visibleInterfaces collate p is)
      = filter (\<lambda>j. column_cmp collate p j i = 0) (filter (shown_in p) is)" for i
    unfolding visible [OF assms] by (rule comparator.js_sort_stable [OF column_cmp_comparator [OF assms]])
  have card: "length (set_of (map ifaceCategory is)) = card (ifaceCategory ` set is)"
    by (metis distinct_card set_map set_of_laws)
  have types: "set (map fst (typeFilter p is)) = (if card (ifaceCategory ` set is) > 1 then ifaceCategory ` set is else {})"
    "distinct (map fst (typeFilter p is))"
    unfolding typeFilter_types card by simp_all
  have mset: "mset (visibleInterfaces collate p is) = mset (filter (shown_in p) is)" by (simp only: visible [OF assms] mset_js_sort)
  have toggle: "shown_in (toggleType t p) i = (if ifaceCategory i = t then \<not> shown_in p i else shown_in p i)" for t i
    by (simp add: shown_in_def toggleType_def)
  show ?thesis using valued_first [OF order] order stable types mset toggle by blast
qed

definition example_interface :: "string \<Rightarrow> string \<Rightarrow> nat option \<Rightarrow> net_interface" where
  "example_interface n t s =
     \<lparr>ni_id = 0, ni_index = 0, ni_name = n, displayName = None, ni_alias = None, description = None, interfaceType = t,
      pollingEnabled = None, speedOverride = None, connectedTo = None, cdpNeighbor = None, ni_up = None, ni_speed = s,
      adminUp = None, errDisabled = False, errDisableCause = None, errDisableRecoverSecs = None, inOctets = None,
      outOctets = None, inErrors = None, outErrors = None, outDiscards = None, nativeVlan = None, taggedVlans = None,
      portChannel = None, health = None, media = None, poe = None\<rparr>"

definition example_interfaces :: "net_interface list" where
  "example_interfaces = [example_interface ''Gi1'' ''ethernetCsmacd'' None, example_interface ''Vlan5'' ''propVirtual'' (Some 9),
     example_interface ''Gi2'' ''ethernetCsmacd'' (Some 1000)]"

theorem interface_table_witness:
  "map ni_name (visibleInterfaces code_units (onIfaceSort BySpeed new_device_page) example_interfaces) = [''Gi2'', ''Gi1'']
    \<and> mset (visibleInterfaces code_units (onIfaceSort BySpeed new_device_page) example_interfaces)
      = mset (filter (shown_in (onIfaceSort BySpeed new_device_page)) example_interfaces)"
proof -
  have "map ni_name (visibleInterfaces code_units (onIfaceSort BySpeed new_device_page) example_interfaces) = [''Gi2'', ''Gi1'']"
    by code_simp
  then show ?thesis using interface_table [OF texts.comparator_axioms] by blast
qed

text \<open>On a device whose interfaces are all of the type that is hidden from the start, the table is empty and
  has no switch to bring them back.\<close>

theorem hidden_only_type:
  assumes "\<forall>i\<in>set is. ifaceCategory i = ''VLAN''"
  shows "visibleInterfaces collate new_device_page is = [] \<and> typeFilter new_device_page is = []
    \<and> ifaceCountLabel collate new_device_page is = (if is = [] then ''0'' else ''0 of '' @ dec (length is))"
proof -
  have vis: "visibleInterfaces collate new_device_page is = []"
    using assms by (auto simp: visibleInterfaces_def sortedInterfaces_def new_device_page_def filter_empty_conv)
  have "length (set_of (map ifaceCategory is)) = card (ifaceCategory ` set is)"
    by (metis distinct_card set_map set_of_laws)
  also have "\<dots> \<le> card {''VLAN''}" using assms by (intro card_mono) auto
  finally have "map fst (typeFilter new_device_page is) = []" unfolding typeFilter_types by simp
  moreover have "dec 0 = ''0''" by code_simp
  ultimately show ?thesis using vis by (auto simp: ifaceCountLabel_def)
qed

theorem hidden_only_type_witness:
  "typeFilter new_device_page [example_interface ''Vlan5'' ''propVirtual'' None] = []"
proof -
  have "\<forall>i\<in>set [example_interface ''Vlan5'' ''propVirtual'' None]. ifaceCategory i = ''VLAN''" by code_simp
  from hidden_only_type [OF this] show ?thesis by blast
qed

section \<open>Health and updates\<close>

lemma healthLines_empty:
  "healthLines h = [] \<longleftrightarrow>
    \<not> health_stale h \<and> \<not> flapping h \<and> discards h = 0 \<and> h_inErrors h = 0 \<and> h_outErrors h = 0
    \<and> (speedChangeCount h = 0 \<or> lastSpeedChange h = None) \<and> (\<not> highUtilization h \<or> peakUtilizationPct h = None)"
  by (auto simp: healthLines_def guarded_def split: option.splits)

lemma togglePolling_body:
  "(togglePolling d)\<lparr>du_pollingEnabled := dv_pollingEnabled d\<rparr> = update_body d"
  "du_pollingEnabled (togglePolling d) = Some False \<longleftrightarrow> dv_pollingEnabled d \<noteq> Some False"
  by (simp_all add: togglePolling_def update_body_def)

end
