(* ===== verification/LiveSocket.thy ===== *)
theory LiveSocket
  imports Transitions Prelude
begin

text \<open>
  The live-update socket of the nexus web interface, \<^verbatim>\<open>hooks/useLiveSocket.ts\<close>: one WebSocket per
  subscription, reconnected with a growing delay, aborted when its handshake hangs and probed when
  the device may have slept.

  The state joins the hook's own references with what the browser keeps for it: the sockets made so
  far, the armed timers and the clock, in milliseconds.  \<^verbatim>\<open>close()\<close> makes a socket \<open>CLOSING\<close>; its
  close event is a later one.  A timer fires at some moment after its time.  A closure is recorded by
  the effect that made it: its topic and the status it captured.
\<close>

section \<open>The browser's side\<close>

datatype ready_state = CONNECTING | OPEN | CLOSING | CLOSED

datatype live_status = Live | Connecting | Down

record effect =
  ef_topic :: string
  ef_status :: live_status

record socket =
  readyState :: ready_state
  sk_effect :: effect

datatype timer = Retry effect | Abort nat | Probe

text \<open>A frame: no JSON, the answer to a probe, or data of the application.\<close>

datatype frame = Malformed | Pong | Data string

datatype callback = OnOpen | OnMessage string

record live_socket =
  now :: real
  onLine :: bool
  hidden :: bool
  sockets :: "nat \<Rightarrow> socket option"
  next_socket :: nat
  timers :: "nat \<Rightarrow> (real \<times> timer) option"
  next_timer :: nat
  pings :: nat
  status :: live_status
  socketRef :: "nat option"
  retryTimer :: "nat option"
  connectTimer :: "nat option"
  probeTimer :: "nat option"
  backoffMs :: real
  disposed :: bool
  checkRef :: "effect option"
  listening :: "effect option"
  lastTick :: real
  calls :: "(string \<times> callback) list"

definition BACKOFF_MIN_MS :: real where "BACKOFF_MIN_MS = 500"

definition BACKOFF_MAX_MS :: real where "BACKOFF_MAX_MS = 5000"

definition CONNECT_TIMEOUT_MS :: real where "CONNECT_TIMEOUT_MS = 5000"

definition PROBE_TIMEOUT_MS :: real where "PROBE_TIMEOUT_MS = 3000"

definition WATCHDOG_GAP_MS :: real where "WATCHDOG_GAP_MS = 40000"

lemmas delays = BACKOFF_MIN_MS_def BACKOFF_MAX_MS_def CONNECT_TIMEOUT_MS_def PROBE_TIMEOUT_MS_def WATCHDOG_GAP_MS_def

definition clear_timer :: "nat option \<Rightarrow> live_socket \<Rightarrow> live_socket" where
  "clear_timer r s = (case r of None \<Rightarrow> s | Some t \<Rightarrow> s\<lparr>timers := (timers s)(t := None)\<rparr>)"

definition set_timer :: "real \<Rightarrow> timer \<Rightarrow> live_socket \<Rightarrow> nat \<times> live_socket" where
  "set_timer delay tm s =
     (next_timer s, s\<lparr>timers := (timers s)(next_timer s \<mapsto> (now s + delay, tm)), next_timer := Suc (next_timer s)\<rparr>)"

definition set_ready :: "nat \<Rightarrow> ready_state \<Rightarrow> live_socket \<Rightarrow> live_socket" where
  "set_ready i r s = s\<lparr>sockets := (sockets s)(i := map_option (\<lambda>k. k\<lparr>readyState := r\<rparr>) (sockets s i))\<rparr>"

definition ready :: "live_socket \<Rightarrow> nat \<Rightarrow> ready_state option" where
  "ready s i = map_option readyState (sockets s i)"

definition close_socket :: "nat option \<Rightarrow> live_socket \<Rightarrow> live_socket" where
  "close_socket r s = (case r of None \<Rightarrow> s
     | Some i \<Rightarrow> if ready s i = Some CONNECTING \<or> ready s i = Some OPEN then set_ready i CLOSING s else s)"

definition current :: "live_socket \<Rightarrow> ready_state option" where
  "current s = Option.bind (socketRef s) (ready s)"

section \<open>The hook\<close>

definition clearProbe :: "live_socket \<Rightarrow> live_socket" where
  "clearProbe s = (clear_timer (probeTimer s) s)\<lparr>probeTimer := None\<rparr>"

definition connect :: "effect \<Rightarrow> live_socket \<Rightarrow> live_socket" where
  "connect e s =
     (if disposed s then s
      else if current s = Some OPEN \<or> current s = Some CONNECTING then s
      else let s1 = clearProbe (clear_timer (retryTimer s) s);
               s2 = (if ef_status e \<noteq> Live then s1\<lparr>status := Connecting\<rparr> else s1);
               i = next_socket s2;
               s3 = s2\<lparr>sockets := (sockets s2)(i \<mapsto> \<lparr>readyState = CONNECTING, sk_effect = e\<rparr>), next_socket := Suc i,
                      socketRef := Some i\<rparr>;
               (t, s4) = set_timer CONNECT_TIMEOUT_MS (Abort i) s3
           in s4\<lparr>connectTimer := Some t\<rparr>)"

definition onopen :: "nat \<Rightarrow> effect \<Rightarrow> live_socket \<Rightarrow> live_socket" where
  "onopen i e s =
     (let s1 = clear_timer (connectTimer s) (set_ready i OPEN s)
      in s1\<lparr>backoffMs := BACKOFF_MIN_MS, status := Live, calls := calls s1 @ [(ef_topic e, OnOpen)]\<rparr>)"

definition onmessage :: "frame \<Rightarrow> effect \<Rightarrow> live_socket \<Rightarrow> live_socket" where
  "onmessage f e s = (case f of Malformed \<Rightarrow> s | Pong \<Rightarrow> clearProbe s
     | Data d \<Rightarrow> s\<lparr>calls := calls s @ [(ef_topic e, OnMessage d)]\<rparr>)"

definition onclose :: "nat \<Rightarrow> effect \<Rightarrow> live_socket \<Rightarrow> live_socket" where
  "onclose i e s =
     (let s1 = clearProbe (clear_timer (connectTimer s) (set_ready i CLOSED s));
          s2 = s1\<lparr>status := (if onLine s1 then Connecting else Down)\<rparr>
      in if disposed s2 then s2
         else let (t, s3) = set_timer (backoffMs s2) (Retry e) s2
              in s3\<lparr>retryTimer := Some t, backoffMs := min (backoffMs s3 * 2) BACKOFF_MAX_MS\<rparr>)"

text \<open>\<open>fails\<close>: the \<^verbatim>\<open>send\<close> of the probe throws.\<close>

definition checkConnection :: "bool \<Rightarrow> effect \<Rightarrow> live_socket \<Rightarrow> live_socket" where
  "checkConnection fails e s =
     (if disposed s then s
      else if current s = Some OPEN
      then if probeTimer s \<noteq> None then s
           else if fails then close_socket (socketRef s) (s\<lparr>backoffMs := BACKOFF_MIN_MS\<rparr>)
           else let (t, s1) = set_timer PROBE_TIMEOUT_MS Probe (s\<lparr>pings := Suc (pings s)\<rparr>)
                in s1\<lparr>probeTimer := Some t\<rparr>
      else if current s = Some CONNECTING then s
      else connect e (s\<lparr>backoffMs := BACKOFF_MIN_MS\<rparr>))"

fun timeout :: "timer \<Rightarrow> live_socket \<Rightarrow> live_socket" where
  "timeout (Retry e) s = connect e s"
| "timeout (Abort i) s = (if ready s i = Some CONNECTING then close_socket (Some i) s else s)"
| "timeout Probe s = close_socket (socketRef s) (s\<lparr>probeTimer := None\<rparr>)"

definition onWake :: "bool \<Rightarrow> effect \<Rightarrow> live_socket \<Rightarrow> live_socket" where
  "onWake fails e s = (if \<not> hidden s then checkConnection fails e s else s)"

definition onOffline :: "live_socket \<Rightarrow> live_socket" where
  "onOffline s = close_socket (socketRef s) (s\<lparr>status := Down\<rparr>)"

definition watchdog :: "bool \<Rightarrow> effect \<Rightarrow> live_socket \<Rightarrow> live_socket" where
  "watchdog fails e s =
     (let gap = now s - lastTick s; s1 = s\<lparr>lastTick := now s\<rparr>
      in if gap > WATCHDOG_GAP_MS \<and> \<not> hidden s1 then checkConnection fails e s1 else s1)"

text \<open>The effect of a subscription, and its clean-up.\<close>

definition run_effect :: "string \<Rightarrow> live_socket \<Rightarrow> live_socket" where
  "run_effect topic s =
     (let e = \<lparr>ef_topic = topic, ef_status = status s\<rparr>;
          s1 = s\<lparr>disposed := False, backoffMs := BACKOFF_MIN_MS, checkRef := Some e\<rparr>;
          s2 = connect e s1
      in s2\<lparr>listening := Some e, lastTick := now s2\<rparr>)"

definition cleanup :: "live_socket \<Rightarrow> live_socket" where
  "cleanup s =
     (let s1 = s\<lparr>disposed := True, listening := None\<rparr>;
          s2 = clearProbe (clear_timer (connectTimer s1) (clear_timer (retryTimer s1) s1))
      in (close_socket (socketRef s2) s2)\<lparr>socketRef := None\<rparr>)"

definition nudge :: "bool \<Rightarrow> live_socket \<Rightarrow> live_socket" where
  "nudge fails s =
     (let s1 = s\<lparr>backoffMs := BACKOFF_MIN_MS\<rparr>
      in case checkRef s1 of None \<Rightarrow> s1 | Some e \<Rightarrow> checkConnection fails e s1)"

section \<open>Events\<close>

datatype socket_event =
    Mount string
  | Topic string
  | Unmount
  | Opened nat
  | Frame nat frame
  | Closed nat
  | Elapse real
  | Fire nat
  | Visibility bool bool
  | Focus bool
  | Online bool
  | Offline
  | Watchdog bool
  | Nudge bool

definition new_live_socket :: "real \<Rightarrow> bool \<Rightarrow> bool \<Rightarrow> live_socket" where
  "new_live_socket t on hid =
     \<lparr>now = t, onLine = on, hidden = hid, sockets = (\<lambda>_. None), next_socket = 0, timers = (\<lambda>_. None), next_timer = 0,
      pings = 0, status = Connecting, socketRef = None, retryTimer = None, connectTimer = None, probeTimer = None,
      backoffMs = BACKOFF_MIN_MS, disposed = False, checkRef = None, listening = None, lastTick = 0, calls = []\<rparr>"

text \<open>The hook of a component: mounted once, its topic may change, and it may be unmounted.\<close>

inductive live_step :: "live_socket \<Rightarrow> socket_event \<Rightarrow> live_socket \<Rightarrow> bool" where
  mount: "listening s = None \<Longrightarrow> checkRef s = None \<Longrightarrow> live_step s (Mount topic) (run_effect topic s)"
| topic: "listening s \<noteq> None \<Longrightarrow> live_step s (Topic topic) (run_effect topic (cleanup s))"
| unmount: "listening s \<noteq> None \<Longrightarrow> live_step s Unmount (cleanup s)"
| opened: "sockets s i = Some \<lparr>readyState = CONNECTING, sk_effect = e\<rparr> \<Longrightarrow> live_step s (Opened i) (onopen i e s)"
| message: "sockets s i = Some \<lparr>readyState = OPEN, sk_effect = e\<rparr> \<Longrightarrow> live_step s (Frame i f) (onmessage f e s)"
| closed: "sockets s i = Some k \<Longrightarrow> readyState k \<noteq> CLOSED \<Longrightarrow>
    live_step s (Closed i) (onclose i (sk_effect k) s)"
| elapse: "now s \<le> t \<Longrightarrow> live_step s (Elapse t) (s\<lparr>now := t\<rparr>)"
| fire: "timers s t = Some (d, tm) \<Longrightarrow> d \<le> now s \<Longrightarrow>
    live_step s (Fire t) (timeout tm (s\<lparr>timers := (timers s)(t := None)\<rparr>))"
| visibility: "listening s = Some e \<Longrightarrow> live_step s (Visibility hid fails) (onWake fails e (s\<lparr>hidden := hid\<rparr>))"
| focus: "listening s = Some e \<Longrightarrow> live_step s (Focus fails) (onWake fails e s)"
| online: "listening s = Some e \<Longrightarrow> live_step s (Online fails) (onWake fails e (s\<lparr>onLine := True\<rparr>))"
| offline: "listening s = Some e \<Longrightarrow> live_step s Offline (onOffline (s\<lparr>onLine := False\<rparr>))"
| watchdog: "listening s = Some e \<Longrightarrow> live_step s (Watchdog fails) (watchdog fails e s)"
| nudge: "listening s \<noteq> None \<Longrightarrow> live_step s (Nudge fails) (nudge fails s)"

inductive_cases live_stepE: "live_step s e t"

end
