(* ===== verification/LiveSocketRuns.thy ===== *)
theory LiveSocketRuns
  imports LiveSocket
begin

text \<open>What holds in every run of the live socket, and what its shared references allow to go wrong.\<close>

section \<open>References\<close>

text \<open>
  The references point to what they should: the sockets and timers they name exist or have existed,
  with the right kind of timer; a probe reference is exactly an armed probe; no delay is longer than
  its constant allows.
\<close>

definition refs_ok :: "live_socket \<Rightarrow> bool" where
  "refs_ok s \<longleftrightarrow> (\<forall>i \<ge> next_socket s. sockets s i = None) \<and> (\<forall>t \<ge> next_timer s. timers s t = None)
     \<and> (\<forall>i. socketRef s = Some i \<longrightarrow> sockets s i \<noteq> None)
     \<and> (\<forall>t. retryTimer s = Some t \<longrightarrow> t < next_timer s \<and> (\<forall>d tm. timers s t = Some (d, tm) \<longrightarrow> (\<exists>e. tm = Retry e)))
     \<and> (\<forall>t. connectTimer s = Some t \<longrightarrow> t < next_timer s \<and> (\<forall>d tm. timers s t = Some (d, tm) \<longrightarrow> (\<exists>i. tm = Abort i)))
     \<and> (\<forall>t. probeTimer s = Some t \<longrightarrow> (\<exists>d \<le> now s + PROBE_TIMEOUT_MS. timers s t = Some (d, Probe)))
     \<and> (\<forall>t d. timers s t = Some (d, Probe) \<longrightarrow> probeTimer s = Some t)
     \<and> (\<forall>t d e. timers s t = Some (d, Retry e) \<longrightarrow> d \<le> now s + BACKOFF_MAX_MS)
     \<and> BACKOFF_MIN_MS \<le> backoffMs s \<and> backoffMs s \<le> BACKOFF_MAX_MS"

lemma refs_okD:
  assumes "refs_ok s"
  shows "next_socket s \<le> i \<Longrightarrow> sockets s i = None" "next_timer s \<le> t \<Longrightarrow> timers s t = None"
    and "socketRef s = Some i \<Longrightarrow> sockets s i \<noteq> None"
    and "retryTimer s = Some t \<Longrightarrow> t < next_timer s"
    and "retryTimer s = Some t \<Longrightarrow> timers s t = Some (d, tm) \<Longrightarrow> \<exists>e. tm = Retry e"
    and "connectTimer s = Some t \<Longrightarrow> t < next_timer s"
    and "connectTimer s = Some t \<Longrightarrow> timers s t = Some (d, tm) \<Longrightarrow> \<exists>i. tm = Abort i"
    and "probeTimer s = Some t \<Longrightarrow> \<exists>d \<le> now s + PROBE_TIMEOUT_MS. timers s t = Some (d, Probe)"
    and "timers s t = Some (d, Probe) \<Longrightarrow> probeTimer s = Some t"
    and "timers s t = Some (d, Retry e) \<Longrightarrow> d \<le> now s + BACKOFF_MAX_MS"
    and "BACKOFF_MIN_MS \<le> backoffMs s" "backoffMs s \<le> BACKOFF_MAX_MS"
  using assms unfolding refs_ok_def by blast+

text \<open>Changes of the other fields do not matter, and a timer that no reference probes may go.\<close>

lemma refs_ok_fields [simp]:
  "refs_ok (s\<lparr>status := a\<rparr>) = refs_ok s" "refs_ok (s\<lparr>calls := b\<rparr>) = refs_ok s" "refs_ok (s\<lparr>pings := n\<rparr>) = refs_ok s"
  "refs_ok (s\<lparr>hidden := h\<rparr>) = refs_ok s" "refs_ok (s\<lparr>onLine := h\<rparr>) = refs_ok s" "refs_ok (s\<lparr>disposed := h\<rparr>) = refs_ok s"
  "refs_ok (s\<lparr>checkRef := c\<rparr>) = refs_ok s" "refs_ok (s\<lparr>listening := c\<rparr>) = refs_ok s" "refs_ok (s\<lparr>lastTick := t\<rparr>) = refs_ok s"
  by (simp_all add: refs_ok_def)

lemma refs_ok_backoff [simp]: "refs_ok s \<Longrightarrow> refs_ok (s\<lparr>backoffMs := BACKOFF_MIN_MS\<rparr>)"
  by (simp add: refs_ok_def delays)

lemma refs_ok_noref [simp]: "refs_ok s \<Longrightarrow> refs_ok (s\<lparr>socketRef := None\<rparr>)"
  by (simp add: refs_ok_def)

lemma refs_ok_elapse: "refs_ok s \<Longrightarrow> now s \<le> t \<Longrightarrow> refs_ok (s\<lparr>now := t\<rparr>)"
  unfolding refs_ok_def by (simp, fastforce)

lemma refs_ok_drop:
  assumes "refs_ok s" and "\<And>d. timers s t \<noteq> Some (d, Probe)"
  shows "refs_ok (s\<lparr>timers := (timers s)(t := None)\<rparr>)"
  using assms unfolding refs_ok_def by (simp, metis)

lemma refs_ok_clear:
  assumes "refs_ok s"
  shows "refs_ok (clear_timer (retryTimer s) s)" "refs_ok (clear_timer (connectTimer s) s)"
  by (auto simp: clear_timer_def assms intro!: refs_ok_drop dest: refs_okD(5,7) [OF assms] split: option.split)

lemma refs_ok_unprobe:
  assumes "refs_ok s" and "probeTimer s = Some t"
  shows "refs_ok (s\<lparr>timers := (timers s)(t := None), probeTimer := None\<rparr>)"
proof -
  have "t' = t" if "timers s t' = Some (d, Probe)" for t' d using refs_okD(9) [OF assms(1) that] assms(2) by simp
  then show ?thesis using assms(1) unfolding refs_ok_def by auto
qed

lemma refs_ok_clearProbe: "refs_ok s \<Longrightarrow> refs_ok (clearProbe s)"
  using refs_ok_unprobe [of s]
  by (auto simp: clearProbe_def clear_timer_def refs_ok_def split: option.split)

lemma refs_ok_set_ready: "refs_ok s \<Longrightarrow> refs_ok (set_ready i r s)"
  unfolding refs_ok_def by (auto simp: set_ready_def)

lemma refs_ok_close: "refs_ok s \<Longrightarrow> refs_ok (close_socket r s)"
  by (simp add: close_socket_def refs_ok_set_ready split: option.split)

lemma refs_ok_new:
  assumes "refs_ok s" and "BACKOFF_MIN_MS \<le> b" "b \<le> BACKOFF_MAX_MS"
  shows "refs_ok (s\<lparr>timers := (timers s)(next_timer s \<mapsto> (now s + backoffMs s, Retry e)), next_timer := Suc (next_timer s),
       retryTimer := Some (next_timer s), backoffMs := b\<rparr>)"
    and "refs_ok (s\<lparr>timers := (timers s)(next_timer s \<mapsto> (d, Abort i)), next_timer := Suc (next_timer s),
       connectTimer := Some (next_timer s)\<rparr>)"
    and "probeTimer s = None \<Longrightarrow> refs_ok (s\<lparr>timers := (timers s)(next_timer s \<mapsto> (now s + PROBE_TIMEOUT_MS, Probe)),
       next_timer := Suc (next_timer s), probeTimer := Some (next_timer s)\<rparr>)"
proof -
  have f: "timers s (next_timer s) = None" using refs_okD(2) [OF assms(1)] by simp
  note d = refs_okD(1,2,3,4,6,8,9,10,11,12) [OF assms(1)] refs_okD(5,7) [OF assms(1)]
  show "refs_ok (s\<lparr>timers := (timers s)(next_timer s \<mapsto> (now s + backoffMs s, Retry e)), next_timer := Suc (next_timer s),
       retryTimer := Some (next_timer s), backoffMs := b\<rparr>)"
    unfolding refs_ok_def using d f assms(2,3) by (auto simp: less_Suc_eq)
  show "refs_ok (s\<lparr>timers := (timers s)(next_timer s \<mapsto> (d, Abort i)), next_timer := Suc (next_timer s),
       connectTimer := Some (next_timer s)\<rparr>)"
    unfolding refs_ok_def using d f by (auto simp: less_Suc_eq)
  show "refs_ok (s\<lparr>timers := (timers s)(next_timer s \<mapsto> (now s + PROBE_TIMEOUT_MS, Probe)),
       next_timer := Suc (next_timer s), probeTimer := Some (next_timer s)\<rparr>)" if "probeTimer s = None"
    unfolding refs_ok_def using d f that by (auto simp: less_Suc_eq)
qed

text \<open>Every operation keeps them.\<close>

lemma clearProbe_probe [simp]: "probeTimer (clearProbe s) = None"
  by (simp add: clearProbe_def)

lemma refs_ok_connect: "refs_ok s \<Longrightarrow> refs_ok (connect e s)"
proof -
  assume ok: "refs_ok s"
  define s1 where "s1 = clearProbe (clear_timer (retryTimer s) s)"
  define s2 where "s2 = (if ef_status e \<noteq> Live then s1\<lparr>status := Connecting\<rparr> else s1)"
  let ?s3 = "s2\<lparr>sockets := (sockets s2)(next_socket s2 \<mapsto> \<lparr>readyState = CONNECTING, sk_effect = e\<rparr>),
      next_socket := Suc (next_socket s2), socketRef := Some (next_socket s2)\<rparr>"
  have "refs_ok s2" unfolding s2_def s1_def using ok by (simp add: refs_ok_clearProbe refs_ok_clear)
  then have "refs_ok ?s3" unfolding refs_ok_def by simp
  from refs_ok_new(2) [OF this order_refl] show ?thesis
    using ok by (simp add: connect_def Let_def set_timer_def delays flip: s1_def s2_def)
qed

lemma refs_ok_onopen: "refs_ok s \<Longrightarrow> refs_ok (onopen i e s)"
  using refs_ok_clear(2) [OF refs_ok_set_ready, of s i OPEN]
  by (simp add: onopen_def Let_def set_ready_def)

lemma refs_ok_onmessage: "refs_ok s \<Longrightarrow> refs_ok (onmessage f e s)"
  by (simp add: onmessage_def refs_ok_clearProbe split: frame.split)

lemma refs_ok_onclose: "refs_ok s \<Longrightarrow> refs_ok (onclose i e s)"
proof -
  assume ok: "refs_ok s"
  define s1 where "s1 = clearProbe (clear_timer (connectTimer s) (set_ready i CLOSED s))"
  have s1: "refs_ok s1"
    using refs_ok_clearProbe [OF refs_ok_clear(2) [OF refs_ok_set_ready [OF ok, of i CLOSED]]]
    by (simp add: s1_def set_ready_def)
  have "BACKOFF_MIN_MS \<le> min (backoffMs s1 * 2) BACKOFF_MAX_MS"
    using refs_okD(11) [OF s1] by (simp add: delays)
  then show ?thesis
    using s1 refs_ok_new(1) [of "s1\<lparr>status := (if onLine s1 then Connecting else Down)\<rparr>"]
    by (simp add: onclose_def Let_def set_timer_def flip: s1_def)
qed

lemma refs_ok_checkConnection: "refs_ok s \<Longrightarrow> refs_ok (checkConnection fails e s)"
proof -
  assume ok: "refs_ok s"
  then have "probeTimer s = None \<Longrightarrow> refs_ok ((snd (set_timer PROBE_TIMEOUT_MS Probe (s\<lparr>pings := Suc (pings s)\<rparr>)))
      \<lparr>probeTimer := Some (next_timer s)\<rparr>)"
    using refs_ok_new(3) [of "s\<lparr>pings := Suc (pings s)\<rparr>" BACKOFF_MIN_MS] by (simp add: set_timer_def delays)
  with ok show ?thesis
    by (auto simp: checkConnection_def set_timer_def refs_ok_close refs_ok_connect)
qed

lemma refs_ok_fire:
  assumes "refs_ok s" and "timers s t = Some (d, tm)"
  shows "refs_ok (timeout tm (s\<lparr>timers := (timers s)(t := None)\<rparr>))"
proof (cases tm)
  case Probe
  then show ?thesis
    using assms refs_okD(9) [OF assms(1)] refs_ok_unprobe [OF assms(1)] by (simp add: refs_ok_close)
qed (use refs_ok_drop [OF assms(1)] assms(2) in \<open>simp_all add: refs_ok_connect refs_ok_close\<close>)

lemma refs_ok_cleanup: "refs_ok s \<Longrightarrow> refs_ok (cleanup s)"
proof -
  assume ok: "refs_ok s"
  let ?s1 = "s\<lparr>disposed := True, listening := None\<rparr>"
  have "refs_ok (clear_timer (connectTimer s) (clear_timer (retryTimer s) ?s1))"
  proof -
    have "refs_ok (clear_timer (retryTimer ?s1) ?s1)" using ok by (intro refs_ok_clear) simp
    from refs_ok_clear(2) [OF this] show ?thesis by (simp add: clear_timer_def split: option.splits)
  qed
  then show ?thesis by (simp add: cleanup_def Let_def refs_ok_clearProbe refs_ok_close)
qed

lemma refs_ok_run_effect: "refs_ok s \<Longrightarrow> refs_ok (run_effect topic s)"
  by (simp add: run_effect_def Let_def refs_ok_connect)

lemma refs_ok_new_socket: "refs_ok (new_live_socket t on hid)"
  by (simp add: refs_ok_def new_live_socket_def delays)

lemma refs_ok_step: "live_step s e t \<Longrightarrow> refs_ok s \<Longrightarrow> refs_ok t"
  by (induction rule: live_step.induct)
     (auto simp: refs_ok_run_effect refs_ok_cleanup refs_ok_onopen refs_ok_onmessage refs_ok_onclose refs_ok_elapse
        refs_ok_fire refs_ok_checkConnection refs_ok_close onWake_def onOffline_def watchdog_def nudge_def Let_def
        split: option.split)

section \<open>One socket at a time\<close>

lemma clear_timer_fields [simp]:
  "now (clear_timer r s) = now s" "onLine (clear_timer r s) = onLine s" "hidden (clear_timer r s) = hidden s"
  "sockets (clear_timer r s) = sockets s" "next_socket (clear_timer r s) = next_socket s" "status (clear_timer r s) = status s"
  "socketRef (clear_timer r s) = socketRef s" "retryTimer (clear_timer r s) = retryTimer s"
  "connectTimer (clear_timer r s) = connectTimer s" "probeTimer (clear_timer r s) = probeTimer s"
  "next_timer (clear_timer r s) = next_timer s" "backoffMs (clear_timer r s) = backoffMs s"
  "disposed (clear_timer r s) = disposed s" "checkRef (clear_timer r s) = checkRef s" "listening (clear_timer r s) = listening s"
  "calls (clear_timer r s) = calls s"
  by (simp_all add: clear_timer_def split: option.split)

lemma clearProbe_fields [simp]:
  "now (clearProbe s) = now s" "onLine (clearProbe s) = onLine s" "hidden (clearProbe s) = hidden s"
  "sockets (clearProbe s) = sockets s" "next_socket (clearProbe s) = next_socket s" "status (clearProbe s) = status s"
  "socketRef (clearProbe s) = socketRef s" "retryTimer (clearProbe s) = retryTimer s"
  "connectTimer (clearProbe s) = connectTimer s" "next_timer (clearProbe s) = next_timer s" "backoffMs (clearProbe s) = backoffMs s"
  "disposed (clearProbe s) = disposed s" "checkRef (clearProbe s) = checkRef s" "listening (clearProbe s) = listening s"
  "calls (clearProbe s) = calls s" "timers (clearProbe s) = timers (clear_timer (probeTimer s) s)"
  by (simp_all add: clearProbe_def)

lemma set_ready_fields [simp]:
  "now (set_ready i r s) = now s" "onLine (set_ready i r s) = onLine s" "hidden (set_ready i r s) = hidden s"
  "timers (set_ready i r s) = timers s" "next_socket (set_ready i r s) = next_socket s" "status (set_ready i r s) = status s"
  "socketRef (set_ready i r s) = socketRef s" "retryTimer (set_ready i r s) = retryTimer s"
  "connectTimer (set_ready i r s) = connectTimer s" "probeTimer (set_ready i r s) = probeTimer s"
  "next_timer (set_ready i r s) = next_timer s" "backoffMs (set_ready i r s) = backoffMs s"
  "disposed (set_ready i r s) = disposed s" "checkRef (set_ready i r s) = checkRef s" "listening (set_ready i r s) = listening s"
  "calls (set_ready i r s) = calls s"
  by (simp_all add: set_ready_def)

lemma close_socket_fields [simp]:
  "now (close_socket r s) = now s" "timers (close_socket r s) = timers s" "next_socket (close_socket r s) = next_socket s"
  "status (close_socket r s) = status s" "socketRef (close_socket r s) = socketRef s" "probeTimer (close_socket r s) = probeTimer s"
  "next_timer (close_socket r s) = next_timer s" "backoffMs (close_socket r s) = backoffMs s"
  "disposed (close_socket r s) = disposed s" "checkRef (close_socket r s) = checkRef s" "listening (close_socket r s) = listening s"
  "calls (close_socket r s) = calls s" "retryTimer (close_socket r s) = retryTimer s"
  by (simp_all add: close_socket_def split: option.split)

text \<open>The ready states after closing: the closed socket is on its way, the others stay.\<close>

lemma ready_set_ready: "ready (set_ready i r s) j = (if j = i then map_option (\<lambda>_. r) (sockets s i) else ready s j)"
  by (cases "sockets s i") (simp_all add: ready_def set_ready_def)

lemma ready_close:
  "ready (close_socket r s) j =
     (if r = Some j \<and> (ready s j = Some CONNECTING \<or> ready s j = Some OPEN) then Some CLOSING else ready s j)"
  by (auto simp: close_socket_def ready_set_ready split: option.split) (auto simp: ready_def)

definition one_live :: "live_socket \<Rightarrow> bool" where
  "one_live s \<longleftrightarrow> (\<forall>i. ready s i = Some CONNECTING \<or> ready s i = Some OPEN \<longrightarrow> socketRef s = Some i)"

definition retry_armed :: "live_socket \<Rightarrow> bool" where
  "retry_armed s \<longleftrightarrow> (\<exists>t d e. timers s t = Some (d, Retry e))"

text \<open>A mounted hook has a socket, and when that is closed a retry is armed.\<close>

definition tended :: "live_socket \<Rightarrow> bool" where
  "tended s \<longleftrightarrow> \<not> disposed s \<and> checkRef s = listening s \<and> current s \<noteq> None \<and> (current s = Some CLOSED \<longrightarrow> retry_armed s)"

definition at_rest :: "live_socket \<Rightarrow> bool" where
  "at_rest s \<longleftrightarrow> disposed s \<and> socketRef s = None \<and> checkRef s \<noteq> None
     \<or> checkRef s = None \<and> (\<forall>i. sockets s i = None) \<and> (\<forall>t. timers s t = None)"

definition hook_ok :: "live_socket \<Rightarrow> bool" where
  "hook_ok s \<longleftrightarrow> refs_ok s \<and> one_live s \<and> (if listening s = None then at_rest s else tended s)"

text \<open>The operations of the hook.\<close>

lemma connect_result:
  assumes "refs_ok s" and "one_live s" and "\<not> disposed s"
  shows "one_live (connect e s)" "current (connect e s) = Some OPEN \<or> current (connect e s) = Some CONNECTING"
    and "disposed (connect e s) = disposed s" "checkRef (connect e s) = checkRef s" "listening (connect e s) = listening s"
proof -
  let ?n = "next_socket s"
  consider "current s = Some OPEN \<or> current s = Some CONNECTING"
    | "sockets (connect e s) = (sockets s)(?n \<mapsto> \<lparr>readyState = CONNECTING, sk_effect = e\<rparr>)" "socketRef (connect e s) = Some ?n"
      "current s \<noteq> Some OPEN" "current s \<noteq> Some CONNECTING"
    using assms(3) by (cases "current s = Some OPEN \<or> current s = Some CONNECTING")
      (auto simp: connect_def Let_def set_timer_def)
  then have "one_live (connect e s) \<and> (current (connect e s) = Some OPEN \<or> current (connect e s) = Some CONNECTING)"
  proof cases
    case 1
    then have "connect e s = s" by (auto simp: connect_def)
    then show ?thesis using 1 assms(2) by simp
  next
    case 2
    have "ready s i = Some CONNECTING \<or> ready s i = Some OPEN \<longrightarrow> False" for i
      using 2(3,4) assms(2) by (auto simp: one_live_def current_def)
    then show ?thesis using 2(1,2) by (simp add: one_live_def ready_def current_def)
  qed
  then show "one_live (connect e s)" "current (connect e s) = Some OPEN \<or> current (connect e s) = Some CONNECTING"
    by simp_all
  show "disposed (connect e s) = disposed s" "checkRef (connect e s) = checkRef s" "listening (connect e s) = listening s"
    by (simp_all add: connect_def Let_def set_timer_def)
qed

lemma close_socket_None [simp]: "close_socket None s = s"
  by (simp add: close_socket_def)

lemma one_live_close: "one_live s \<Longrightarrow> one_live (close_socket r s)"
  by (auto simp: one_live_def ready_close)

lemma current_close: "current (close_socket (socketRef s) s) =
    (if current s = Some OPEN \<or> current s = Some CONNECTING then Some CLOSING else current s)"
  by (auto simp: current_def ready_close split: bind_split)

lemma tended_close: "tended s \<Longrightarrow> tended (close_socket r s)"
  by (cases "socketRef s") (auto simp: tended_def current_def ready_close retry_armed_def)

text \<open>Fields that do not matter here.\<close>

lemma hook_fields [simp]:
  "ready (s\<lparr>status := a\<rparr>) = ready s" "ready (s\<lparr>calls := b\<rparr>) = ready s" "ready (s\<lparr>pings := n\<rparr>) = ready s"
  "ready (s\<lparr>hidden := h\<rparr>) = ready s" "ready (s\<lparr>onLine := h\<rparr>) = ready s" "ready (s\<lparr>disposed := h\<rparr>) = ready s"
  "ready (s\<lparr>checkRef := c\<rparr>) = ready s" "ready (s\<lparr>listening := c\<rparr>) = ready s" "ready (s\<lparr>lastTick := t\<rparr>) = ready s"
  "ready (s\<lparr>now := t\<rparr>) = ready s" "ready (s\<lparr>backoffMs := t\<rparr>) = ready s" "ready (s\<lparr>probeTimer := r\<rparr>) = ready s"
  "ready (s\<lparr>retryTimer := r\<rparr>) = ready s" "ready (s\<lparr>connectTimer := r\<rparr>) = ready s"
  "ready (s\<lparr>timers := m\<rparr>) = ready s" "ready (s\<lparr>next_timer := k\<rparr>) = ready s" "ready (s\<lparr>socketRef := r\<rparr>) = ready s"
  "ready (clear_timer r s) = ready s" "ready (clearProbe s) = ready s"
  by (simp_all add: ready_def fun_eq_iff)

lemma timer_view [simp]:
  "snd (set_timer d tm s) = s\<lparr>timers := (timers s)(next_timer s \<mapsto> (now s + d, tm)), next_timer := Suc (next_timer s)\<rparr>"
  "fst (set_timer d tm s) = next_timer s"
  by (simp_all add: set_timer_def)

lemma retry_armed_clear:
  assumes "refs_ok s" and "retry_armed s"
  shows "retry_armed (clear_timer (connectTimer s) s)" "retry_armed (clear_timer (probeTimer s) s)"
proof -
  obtain t d e where t: "timers s t = Some (d, Retry e)" using assms(2) by (auto simp: retry_armed_def)
  then have "connectTimer s \<noteq> Some t" "probeTimer s \<noteq> Some t"
    using refs_okD(7,8) [OF assms(1)] by fastforce+
  then show "retry_armed (clear_timer (connectTimer s) s)" "retry_armed (clear_timer (probeTimer s) s)"
    using t by (auto simp: retry_armed_def clear_timer_def split: option.split intro!: exI [of _ t])
qed

text \<open>Each event keeps the hook in order.\<close>

lemma connect_ok: "hook_ok s \<Longrightarrow> listening s \<noteq> None \<Longrightarrow> hook_ok (connect e s)"
  using connect_result [of s e] by (auto simp: hook_ok_def tended_def refs_ok_connect)

lemma close_ok: "hook_ok s \<Longrightarrow> hook_ok (close_socket r s)"
proof -
  have "at_rest s \<Longrightarrow> at_rest (close_socket r s)"
    by (cases r) (auto simp: at_rest_def close_socket_def set_ready_def ready_def)
  then show "hook_ok s \<Longrightarrow> hook_ok (close_socket r s)"
    by (simp add: hook_ok_def one_live_close refs_ok_close tended_close)
qed

lemma plain_ok [simp]:
  "hook_ok (s\<lparr>status := a\<rparr>) = hook_ok s" "hook_ok (s\<lparr>calls := b\<rparr>) = hook_ok s" "hook_ok (s\<lparr>pings := n\<rparr>) = hook_ok s"
  "hook_ok (s\<lparr>hidden := h\<rparr>) = hook_ok s" "hook_ok (s\<lparr>onLine := h\<rparr>) = hook_ok s" "hook_ok (s\<lparr>lastTick := t\<rparr>) = hook_ok s"
  by (simp_all add: hook_ok_def one_live_def tended_def at_rest_def current_def retry_armed_def)

lemma backoff_ok: "hook_ok s \<Longrightarrow> hook_ok (s\<lparr>backoffMs := BACKOFF_MIN_MS\<rparr>)"
  by (auto simp: hook_ok_def one_live_def tended_def at_rest_def current_def retry_armed_def split: if_splits)

lemma clearProbe_ok: "hook_ok s \<Longrightarrow> hook_ok (clearProbe s)"
proof -
  assume ok: "hook_ok s"
  then have r: "refs_ok s" by (simp add: hook_ok_def)
  have "retry_armed s \<Longrightarrow> retry_armed (clearProbe s)"
    using retry_armed_clear(2) [OF r] by (simp add: retry_armed_def)
  then have "tended s \<Longrightarrow> tended (clearProbe s)" by (auto simp: tended_def current_def)
  moreover have "at_rest s \<Longrightarrow> at_rest (clearProbe s)"
    by (auto simp: at_rest_def clear_timer_def split: option.split)
  ultimately show ?thesis using ok by (auto simp: hook_ok_def one_live_def refs_ok_clearProbe)
qed

lemma probe_ok:
  assumes "hook_ok s" and "probeTimer s = None" and "current s = Some OPEN"
  shows "hook_ok ((snd (set_timer PROBE_TIMEOUT_MS Probe s))\<lparr>probeTimer := Some (next_timer s)\<rparr>)"
proof -
  have l: "refs_ok s" using assms(1) by (simp add: hook_ok_def)
  from assms(3) obtain i where "socketRef s = Some i" "ready s i = Some OPEN" by (auto simp: current_def bind_eq_Some_conv)
  then have "listening s \<noteq> None" using assms(1) by (auto simp: hook_ok_def at_rest_def ready_def split: if_splits)
  then show ?thesis
    using assms refs_ok_new(3) [OF l, of BACKOFF_MIN_MS]
    by (auto simp: hook_ok_def one_live_def tended_def current_def delays)
qed

lemma checkConnection_ok: "hook_ok s \<Longrightarrow> listening s \<noteq> None \<Longrightarrow> hook_ok (checkConnection fails e s)"
  using probe_ok [of "s\<lparr>pings := Suc (pings s)\<rparr>"] close_ok [OF backoff_ok, of s] connect_ok [OF backoff_ok, of s]
  by (auto simp: checkConnection_def Let_def case_prod_unfold current_def)

lemma opened_ok:
  assumes "hook_ok s" and "sockets s i = Some \<lparr>readyState = CONNECTING, sk_effect = e\<rparr>"
  shows "hook_ok (onopen i e s)"
proof -
  have live: "socketRef s = Some i" "refs_ok s" using assms by (auto simp: hook_ok_def one_live_def ready_def)
  then have l: "listening s \<noteq> None" using assms by (auto simp: hook_ok_def at_rest_def split: if_splits)
  have "refs_ok (onopen i e s)" using live by (simp add: refs_ok_onopen)
  then show ?thesis using assms live l
    by (auto simp: hook_ok_def one_live_def tended_def current_def onopen_def Let_def ready_set_ready)
qed

lemma closed_ok:
  assumes "hook_ok s" and "sockets s i = Some k"
  shows "hook_ok (onclose i (sk_effect k) s)"
proof -
  let ?t = "onclose i (sk_effect k) s"
  have r: "refs_ok s" and r': "refs_ok ?t" using assms(1) by (simp_all add: hook_ok_def refs_ok_onclose)
  have f: "socketRef ?t = socketRef s" "disposed ?t = disposed s" "checkRef ?t = checkRef s" "listening ?t = listening s"
    "ready ?t j = (if j = i then Some CLOSED else ready s j)" for j
    using assms(2) by (simp_all add: onclose_def Let_def case_prod_unfold ready_set_ready)
  have "one_live ?t" using assms(1) by (auto simp: hook_ok_def one_live_def f)
  moreover have "retry_armed ?t" if "\<not> disposed s"
    using that by (auto simp: onclose_def Let_def case_prod_unfold retry_armed_def)
  moreover have "current ?t \<noteq> None" if "current s \<noteq> None"
    using that by (auto simp: current_def f split: bind_splits)
  ultimately show ?thesis using assms r' by (auto simp: hook_ok_def tended_def at_rest_def f)
qed

lemma retry_armed_drop:
  assumes "retry_armed s" and "timers s t = Some (d, tm)" and "\<And>e. tm \<noteq> Retry e"
  shows "retry_armed (s\<lparr>timers := (timers s)(t := None)\<rparr>)"
proof -
  obtain t' d' e where "timers s t' = Some (d', Retry e)" using assms(1) by (auto simp: retry_armed_def)
  moreover from this have "t' \<noteq> t" using assms(2,3) by auto
  ultimately show ?thesis by (auto simp: retry_armed_def intro!: exI [of _ t'])
qed

lemma fire_ok:
  assumes "hook_ok s" and "timers s t = Some (d, tm)"
  shows "hook_ok (timeout tm (s\<lparr>timers := (timers s)(t := None)\<rparr>))"
proof -
  let ?s = "s\<lparr>timers := (timers s)(t := None)\<rparr>"
  have r: "refs_ok s" and o: "one_live ?s" using assms(1) by (simp_all add: hook_ok_def one_live_def)
  have rt: "refs_ok (timeout tm ?s)" by (rule refs_ok_fire [OF r assms(2)])
  show ?thesis
  proof (cases "listening s")
    case None
    then have d: "disposed s" "socketRef s = None" "checkRef s \<noteq> None" using assms by (auto simp: hook_ok_def at_rest_def)
    have "one_live (timeout tm ?s)"
      using o d by (cases tm) (auto simp: connect_def close_socket_def one_live_close simp flip: close_socket_def, simp_all add: one_live_def)
    then show ?thesis using rt None d
      by (cases tm) (auto simp: hook_ok_def at_rest_def connect_def)
  next
    case (Some e)
    then have a: "tended s" using assms(1) by (simp add: hook_ok_def)
    show ?thesis
    proof (cases tm)
      case (Retry e')
      have "refs_ok ?s" using refs_ok_drop [OF r] assms(2) Retry by simp
      then show ?thesis
        using connect_result [OF _ o, of e'] rt Some a Retry by (auto simp: hook_ok_def tended_def)
    next
      case (Abort i)
      have "retry_armed ?s" if "retry_armed s" using retry_armed_drop [OF that assms(2)] Abort by simp
      then have "tended ?s" using a by (auto simp: tended_def current_def)
      then show ?thesis using rt Some o Abort by (auto simp: hook_ok_def one_live_close tended_close)
    next
      case Probe
      have "retry_armed ?s" if "retry_armed s" using retry_armed_drop [OF that assms(2)] Probe by simp
      then have "tended (?s\<lparr>probeTimer := None\<rparr>)" using a by (auto simp: tended_def current_def retry_armed_def)
      moreover have "one_live (?s\<lparr>probeTimer := None\<rparr>)" using o by (simp add: one_live_def)
      ultimately show ?thesis using rt Some Probe by (simp add: hook_ok_def one_live_close tended_close)
    qed
  qed
qed

lemma cleanup_fields [simp]:
  "disposed (cleanup s)" "socketRef (cleanup s) = None" "listening (cleanup s) = None" "checkRef (cleanup s) = checkRef s"
  "status (cleanup s) = status s" "calls (cleanup s) = calls s" "next_socket (cleanup s) = next_socket s"
  by (simp_all add: cleanup_def Let_def)

lemma ready_cleanup: "ready (cleanup s) j =
    (if socketRef s = Some j \<and> (ready s j = Some CONNECTING \<or> ready s j = Some OPEN) then Some CLOSING else ready s j)"
  by (auto simp: cleanup_def Let_def ready_close)

lemma cleanup_ok: "hook_ok s \<Longrightarrow> listening s \<noteq> None \<Longrightarrow> hook_ok (cleanup s)"
proof -
  assume ok: "hook_ok s" and l: "listening s \<noteq> None"
  then have o: "one_live s" by (simp add: hook_ok_def)
  have j: "ready s j = Some CONNECTING \<or> ready s j = Some OPEN \<longrightarrow> socketRef s = Some j" for j
    using o unfolding one_live_def by (rule spec)
  have "ready (cleanup s) j \<noteq> Some CONNECTING \<and> ready (cleanup s) j \<noteq> Some OPEN" for j
    using j [of j] unfolding ready_cleanup by (cases "socketRef s = Some j") auto
  then have "one_live (cleanup s)" unfolding one_live_def by blast
  moreover have "refs_ok (cleanup s)" using ok unfolding hook_ok_def by (blast intro: refs_ok_cleanup)
  moreover have "at_rest (cleanup s)" using ok l unfolding at_rest_def hook_ok_def tended_def by auto
  ultimately show ?thesis unfolding hook_ok_def by simp
qed

lemma run_effect_ok:
  assumes "hook_ok s"
  shows "hook_ok (run_effect topic s)"
proof -
  let ?e = "\<lparr>ef_topic = topic, ef_status = status s\<rparr>"
  let ?s = "s\<lparr>disposed := False, backoffMs := BACKOFF_MIN_MS, checkRef := Some ?e\<rparr>"
  have "refs_ok ?s" "one_live ?s" using assms by (simp_all add: hook_ok_def one_live_def)
  note c = connect_result [OF this, of ?e]
  define c' where "c' = connect ?e ?s"
  have r: "run_effect topic s = c'\<lparr>listening := Some ?e, lastTick := now c'\<rparr>"
    by (simp add: run_effect_def Let_def c'_def)
  have "refs_ok (run_effect topic s)" using assms by (simp add: hook_ok_def refs_ok_run_effect)
  moreover have "one_live (run_effect topic s)" using c(1) unfolding r c'_def [symmetric] by (simp add: one_live_def)
  moreover have "tended (run_effect topic s)"
    using c(2,3,4) unfolding r c'_def [symmetric] by (auto simp: tended_def current_def)
  ultimately show ?thesis by (simp add: hook_ok_def r)
qed

lemma elapse_ok: "hook_ok s \<Longrightarrow> now s \<le> t \<Longrightarrow> hook_ok (s\<lparr>now := t\<rparr>)"
  using refs_ok_elapse [of s t]
  by (auto simp: hook_ok_def one_live_def tended_def at_rest_def current_def retry_armed_def split: if_splits)

lemma hook_ok_step: "live_step s e t \<Longrightarrow> hook_ok s \<Longrightarrow> hook_ok t"
proof (induction rule: live_step.induct)
  case (message s i e f)
  then show ?case by (cases f) (simp_all add: onmessage_def clearProbe_ok)
qed (auto simp: run_effect_ok cleanup_ok opened_ok closed_ok elapse_ok fire_ok checkConnection_ok close_ok backoff_ok
        onWake_def onOffline_def watchdog_def nudge_def Let_def split: option.split)

definition live_init :: "live_socket \<Rightarrow> bool" where
  "live_init s \<longleftrightarrow> (\<exists>t on hid. s = new_live_socket t on hid)"

lemma hook_ok_init: "live_init s \<Longrightarrow> hook_ok s"
  by (auto simp: live_init_def hook_ok_def refs_ok_new_socket)
     (auto simp: new_live_socket_def one_live_def ready_def at_rest_def)

interpretation live: invariant_of live_init live_step hook_ok
  by unfold_locales (auto intro: hook_ok_init hook_ok_step)

lemma reachable_parts:
  assumes "live.reachable s"
  shows "refs_ok s" "one_live s" "listening s = None \<Longrightarrow> at_rest s" "listening s = Some e \<Longrightarrow> tended s"
  using live.inv_reachable [OF assms] by (simp_all add: hook_ok_def)

section \<open>Executing the machine\<close>

fun live_next :: "socket_event \<Rightarrow> live_socket \<Rightarrow> live_socket option" where
  "live_next (Mount topic) s = (if listening s = None \<and> checkRef s = None then Some (run_effect topic s) else None)"
| "live_next (Topic topic) s = (if listening s \<noteq> None then Some (run_effect topic (cleanup s)) else None)"
| "live_next Unmount s = (if listening s \<noteq> None then Some (cleanup s) else None)"
| "live_next (Opened i) s = (case sockets s i of None \<Rightarrow> None
     | Some k \<Rightarrow> if readyState k = CONNECTING then Some (onopen i (sk_effect k) s) else None)"
| "live_next (Frame i f) s = (case sockets s i of None \<Rightarrow> None
     | Some k \<Rightarrow> if readyState k = OPEN then Some (onmessage f (sk_effect k) s) else None)"
| "live_next (Closed i) s = (case sockets s i of None \<Rightarrow> None
     | Some k \<Rightarrow> if readyState k \<noteq> CLOSED then Some (onclose i (sk_effect k) s) else None)"
| "live_next (Elapse t) s = (if now s \<le> t then Some (s\<lparr>now := t\<rparr>) else None)"
| "live_next (Fire t) s = (case timers s t of None \<Rightarrow> None
     | Some (d, tm) \<Rightarrow> if d \<le> now s then Some (timeout tm (s\<lparr>timers := (timers s)(t := None)\<rparr>)) else None)"
| "live_next (Visibility hid fails) s = map_option (\<lambda>e. onWake fails e (s\<lparr>hidden := hid\<rparr>)) (listening s)"
| "live_next (Focus fails) s = map_option (\<lambda>e. onWake fails e s) (listening s)"
| "live_next (Online fails) s = map_option (\<lambda>e. onWake fails e (s\<lparr>onLine := True\<rparr>)) (listening s)"
| "live_next Offline s = map_option (\<lambda>e. onOffline (s\<lparr>onLine := False\<rparr>)) (listening s)"
| "live_next (Watchdog fails) s = map_option (\<lambda>e. watchdog fails e s) (listening s)"
| "live_next (Nudge fails) s = (if listening s \<noteq> None then Some (nudge fails s) else None)"

lemma live_next_iff: "live_step s e t \<longleftrightarrow> live_next e s = Some t"
proof
  show "live_next e s = Some t" if "live_step s e t" using that by cases auto
  show "live_step s e t" if n: "live_next e s = Some t"
  proof (cases e)
    case (Opened i)
    with n obtain k where "sockets s i = Some k" "readyState k = CONNECTING" "t = onopen i (sk_effect k) s"
      by (auto split: option.splits if_splits)
    then show ?thesis using Opened live_step.opened [of s i "sk_effect k"] by (cases k) simp
  next
    case (Frame i f)
    with n obtain k where "sockets s i = Some k" "readyState k = OPEN" "t = onmessage f (sk_effect k) s"
      by (auto split: option.splits if_splits)
    then show ?thesis using Frame live_step.message [of s i "sk_effect k" f] by (cases k) simp
  qed (use n in \<open>auto intro: live_step.intros split: option.splits if_splits\<close>)
qed

fun live_runs :: "socket_event list \<Rightarrow> live_socket \<Rightarrow> live_socket option" where
  "live_runs [] s = Some s"
| "live_runs (e # es) s = Option.bind (live_next e s) (live_runs es)"

lemma live_runs_run: "live_runs es s = Some t \<Longrightarrow> live.run s es t"
proof (induction es arbitrary: s)
  case (Cons e es)
  then obtain u where "live_next e s = Some u" "live_runs es u = Some t" by (auto simp: bind_eq_Some_conv)
  from this(1) have "live_step s e u" by (simp only: live_next_iff)
  moreover from \<open>live_runs es u = Some t\<close> have "live.run u es t" by (rule Cons.IH)
  ultimately have "live.run s [e] u" using live.run_snoc [OF live.run_nil] by fastforce
  then show ?case using live.run_append [OF \<open>live.run u es t\<close>] by fastforce
qed (simp add: live.run_nil)

lemma live_runs_reachable: "live_runs es (new_live_socket t on hid) = Some s \<Longrightarrow> live.reachable s"
  using live_runs_run unfolding live.reachable_def live_init_def by blast

section \<open>What every run keeps\<close>

lemma connect_fresh:
  assumes "\<not> disposed s" and "current s \<noteq> Some OPEN" and "current s \<noteq> Some CONNECTING"
  shows "current (connect e s) = Some CONNECTING"
    and "sockets (connect e s) = (sockets s)(next_socket s \<mapsto> \<lparr>readyState = CONNECTING, sk_effect = e\<rparr>)"
    and "socketRef (connect e s) = Some (next_socket s)"
  using assms by (simp_all add: connect_def Let_def case_prod_unfold) (simp add: current_def ready_def)

text \<open>C3: The references of the hook are well typed in every run: the socket reference names a socket that was
  made, the retry and the connect reference name a timer of their own kind or one that is gone, the
  probe reference is exactly the one armed probe, and no reference names a socket or timer of the
  future.\<close>

theorem hook_references:
  assumes "live.reachable s"
  shows "(\<forall>i. socketRef s = Some i \<longrightarrow> i < next_socket s \<and> sockets s i \<noteq> None)
    \<and> (\<forall>t. retryTimer s = Some t \<longrightarrow> t < next_timer s \<and> (timers s t = None \<or> (\<exists>d e. timers s t = Some (d, Retry e))))
    \<and> (\<forall>t. connectTimer s = Some t \<longrightarrow> t < next_timer s \<and> (timers s t = None \<or> (\<exists>d i. timers s t = Some (d, Abort i))))
    \<and> (\<forall>t. probeTimer s = Some t \<longleftrightarrow> (\<exists>d. timers s t = Some (d, Probe)))"
proof (intro conjI allI impI iffI)
  note d = refs_okD [OF reachable_parts(1) [OF assms]]
  show "sockets s i \<noteq> None" if "socketRef s = Some i" for i by (rule d(3) [OF that])
  show "i < next_socket s" if "socketRef s = Some i" for i using d(1) [of i] d(3) [OF that] by (metis not_le)
  show "t < next_timer s" if "retryTimer s = Some t" for t by (rule d(4) [OF that])
  show "t < next_timer s" if "connectTimer s = Some t" for t by (rule d(6) [OF that])
  show "timers s t = None \<or> (\<exists>d e. timers s t = Some (d, Retry e))" if "retryTimer s = Some t" for t
    using d(5) [OF that] by (cases "timers s t") auto
  show "timers s t = None \<or> (\<exists>d i. timers s t = Some (d, Abort i))" if "connectTimer s = Some t" for t
    using d(7) [OF that] by (cases "timers s t") auto
  show "\<exists>u. timers s t = Some (u, Probe)" if "probeTimer s = Some t" for t using d(8) [OF that] by blast
  show "probeTimer s = Some t" if "\<exists>u. timers s t = Some (u, Probe)" for t using d(9) that by blast
qed

text \<open>C1: However connections open and drop, timers fire, tabs wake and topics change, the hook never holds two
  connections: at most one of all the sockets it has made is open or connecting, and it is the one the
  hook refers to.\<close>

theorem one_live_socket:
  assumes "live.reachable s"
    and "ready s i = Some OPEN \<or> ready s i = Some CONNECTING" and "ready s j = Some OPEN \<or> ready s j = Some CONNECTING"
  shows "i = j \<and> socketRef s = Some i"
  using reachable_parts(2) [OF assms(1)] assms(2,3) unfolding one_live_def by (metis option.inject)

text \<open>C2: A mounted hook is never stranded: its socket is open, connecting or about to report its close, or it is
  closed and a retry is armed for no later than five seconds from now, which opens a new connection when
  it fires.  The delay stays between half a second and five seconds.\<close>

theorem never_stranded:
  assumes "live.reachable s" and "listening s = Some e"
  shows "BACKOFF_MIN_MS \<le> backoffMs s \<and> backoffMs s \<le> BACKOFF_MAX_MS
    \<and> (current s = Some OPEN \<or> current s = Some CONNECTING \<or> current s = Some CLOSING
      \<or> current s = Some CLOSED
        \<and> (\<exists>t d e'. timers s t = Some (d, Retry e') \<and> d \<le> now s + BACKOFF_MAX_MS
             \<and> current (timeout (Retry e') (s\<lparr>timers := (timers s)(t := None)\<rparr>)) = Some CONNECTING))"
proof -
  note r = reachable_parts(1) [OF assms(1)] and o = reachable_parts(2) [OF assms(1)]
    and a = reachable_parts(4) [OF assms]
  have "\<exists>t d e'. timers s t = Some (d, Retry e') \<and> d \<le> now s + BACKOFF_MAX_MS
             \<and> current (timeout (Retry e') (s\<lparr>timers := (timers s)(t := None)\<rparr>)) = Some CONNECTING"
    if c: "current s = Some CLOSED"
  proof -
    obtain t d e' where t: "timers s t = Some (d, Retry e')" using a c by (auto simp: tended_def retry_armed_def)
    then have "d \<le> now s + BACKOFF_MAX_MS" by (rule refs_okD(10) [OF r])
    moreover have "current (connect e' (s\<lparr>timers := (timers s)(t := None)\<rparr>)) = Some CONNECTING"
      using a c by (intro connect_fresh) (simp_all add: current_def tended_def)
    ultimately show ?thesis using t by auto
  qed
  moreover obtain q where "current s = Some q" using a by (auto simp: tended_def)
  moreover have "q = OPEN \<or> q = CONNECTING \<or> q = CLOSING \<or> q = CLOSED" by (cases q) simp_all
  ultimately show ?thesis using refs_okD(11,12) [OF r] by auto
qed

text \<open>C12: Waking up never leaves a connection on trust: after a focus event in a visible tab a new connection is
  on its way, or the open one has a probe armed for at most three seconds that closes it unless it is
  answered, or the probe could not even be sent and the connection is closing.\<close>

theorem wake_verifies:
  assumes "live.reachable s" and "live_step s (Focus fails) t" and "\<not> hidden s"
  shows "current t = Some CONNECTING \<or> fails \<and> current t = Some CLOSING
    \<or> current t = Some OPEN \<and> (\<exists>p d. probeTimer t = Some p \<and> timers t p = Some (d, Probe) \<and> d \<le> now t + PROBE_TIMEOUT_MS
        \<and> current (timeout Probe (t\<lparr>timers := (timers t)(p := None)\<rparr>)) = Some CLOSING)"
proof -
  obtain e where l: "listening s = Some e" and t: "t = checkConnection fails e s"
    using assms(2,3) by (auto elim: live_step.cases simp: onWake_def)
  note r = reachable_parts(1) [OF assms(1)] and o = reachable_parts(2) [OF assms(1)] and a = reachable_parts(4) [OF assms(1) l]
  have closes: "current (timeout Probe (u\<lparr>timers := m\<rparr>)) = Some CLOSING" if "current u = Some OPEN" for u m
    using that current_close [of "u\<lparr>timers := m, probeTimer := None\<rparr>"] by (simp add: current_def)
  have probed: "\<exists>d. timers s p = Some (d, Probe) \<and> d \<le> now s + PROBE_TIMEOUT_MS" if "probeTimer s = Some p" for p
    using refs_okD(8) [OF r that] by blast
  consider (opened) "current s = Some OPEN" | (other) "current s \<noteq> Some OPEN" by blast
  then show ?thesis
  proof cases
    case opened
    consider (armed) p where "probeTimer s = Some p" | (failed) "probeTimer s = None" fails
      | (sent) "probeTimer s = None" "\<not> fails" by blast
    then show ?thesis
    proof cases
      case armed
      then have "t = s" using t opened a by (simp add: checkConnection_def tended_def)
      then show ?thesis using armed probed closes opened by blast
    next
      case failed
      then have "t = close_socket (socketRef s) (s\<lparr>backoffMs := BACKOFF_MIN_MS\<rparr>)"
        using t opened a by (simp add: checkConnection_def tended_def)
      then show ?thesis
        using current_close [of "s\<lparr>backoffMs := BACKOFF_MIN_MS\<rparr>"] opened failed by (simp add: current_def)
    next
      case sent
      let ?u = "(snd (set_timer PROBE_TIMEOUT_MS Probe (s\<lparr>pings := Suc (pings s)\<rparr>)))\<lparr>probeTimer := Some (next_timer s)\<rparr>"
      have u: "t = ?u" using t opened sent a by (simp add: checkConnection_def tended_def Let_def case_prod_unfold)
      have c: "current ?u = Some OPEN" using opened by (simp add: current_def)
      show ?thesis using c closes [OF c] unfolding u by simp
    qed
  next
    case other
    then have "t = s \<and> current s = Some CONNECTING \<or> t = connect e (s\<lparr>backoffMs := BACKOFF_MIN_MS\<rparr>) \<and> current s \<noteq> Some CONNECTING"
      using t a unfolding checkConnection_def tended_def by auto
    then show ?thesis
    proof
      assume "t = connect e (s\<lparr>backoffMs := BACKOFF_MIN_MS\<rparr>) \<and> current s \<noteq> Some CONNECTING"
      moreover have "current (connect e (s\<lparr>backoffMs := BACKOFF_MIN_MS\<rparr>)) = Some CONNECTING"
        if "current s \<noteq> Some CONNECTING"
        using that other a by (intro connect_fresh) (simp_all add: current_def tended_def)
      ultimately show ?thesis by simp
    qed simp
  qed
qed

text \<open>C8: After the component is unmounted the hook is silent: whatever still happens, it opens no further socket,
  arms no timer and calls no callback, and no socket of it stays open.\<close>

theorem unmounted_quiet:
  assumes "live.reachable s" and "live_step s Unmount t" and "live.run t es u"
  shows "calls u = calls s \<and> next_socket u = next_socket s \<and> next_timer u = next_timer s
    \<and> (\<forall>i. ready u i \<noteq> Some OPEN \<and> ready u i \<noteq> Some CONNECTING)"
proof -
  let ?Q = "\<lambda>u. disposed u \<and> listening u = None \<and> checkRef u \<noteq> None \<and> socketRef u = None \<and> calls u = calls s
    \<and> next_socket u = next_socket s \<and> next_timer u = next_timer s \<and> hook_ok u"
  have l: "listening s \<noteq> None" and t: "t = cleanup s" using assms(2) by (auto elim: live_step.cases)
  have "next_timer (cleanup s) = next_timer s" by (simp add: cleanup_def Let_def)
  then have "?Q t"
    using t l live.inv_reachable [OF assms(1)] reachable_parts(4) [OF assms(1)] by (auto simp: cleanup_ok tended_def)
  moreover have "?Q w" if q: "?Q v" and s: "live_step v e w" for v e w
  proof -
    have w: "hook_ok w" using q s hook_ok_step by blast
    have dead: "ready v i \<noteq> Some OPEN \<and> ready v i \<noteq> Some CONNECTING" for i
      using q by (auto simp: hook_ok_def one_live_def)
    show ?thesis using s
    proof cases
      case (fire n d tm)
      then show ?thesis using q w by (cases tm) (auto simp: connect_def)
    next
      case (opened i e)
      then show ?thesis using dead [of i] by (simp add: ready_def)
    next
      case (message i e f)
      then show ?thesis using dead [of i] by (simp add: ready_def)
    next
      case (closed i k)
      then show ?thesis using q w by (simp add: onclose_def Let_def)
    qed (use q w in auto)
  qed
  ultimately have "?Q u" using live.run_invariant [OF assms(3), of ?Q] by blast
  then show ?thesis by (auto simp: hook_ok_def one_live_def)
qed

section \<open>Late closes\<close>

text \<open>
  The references are shared by all sockets and effects of a hook, so the close event of an earlier
  socket, which comes when the peer has answered, acts on the socket that has replaced it.
\<close>

lemma connect_fields [simp]:
  "calls (connect e s) = calls s" "hidden (connect e s) = hidden s" "now (connect e s) = now s"
  by (simp_all add: connect_def Let_def case_prod_unfold)

lemma connect_old:
  assumes "refs_ok s" and "sockets s i \<noteq> None"
  shows "sockets (connect e s) i = sockets s i"
proof (cases "disposed s \<or> current s = Some OPEN \<or> current s = Some CONNECTING")
  case False
  then have "sockets (connect e s) = (sockets s)(next_socket s \<mapsto> \<lparr>readyState = CONNECTING, sk_effect = e\<rparr>)"
    by (intro connect_fresh) simp_all
  moreover have "i \<noteq> next_socket s" using assms refs_okD(1) [OF assms(1), of i] by auto
  ultimately show ?thesis by simp
qed (auto simp: connect_def)

lemma connect_status: "status (connect e s) = Live \<Longrightarrow> status s = Live"
  by (auto simp: connect_def Let_def case_prod_unfold split: if_splits)

text \<open>A socket that has opened keeps its effect and never connects again.\<close>

definition settled :: "nat \<Rightarrow> effect \<Rightarrow> live_socket \<Rightarrow> bool" where
  "settled i e s \<longleftrightarrow> (\<exists>r. sockets s i = Some \<lparr>readyState = r, sk_effect = e\<rparr> \<and> r \<noteq> CONNECTING)"

lemma settled_close: "settled i e s \<Longrightarrow> settled i e (close_socket r s)"
  by (auto simp: settled_def close_socket_def set_ready_def split: option.split)

lemma open_close: "ready (close_socket r s) i = Some OPEN \<Longrightarrow> ready s i = Some OPEN"
  by (auto simp: ready_close split: if_splits)

lemma settled_connect:
  assumes "refs_ok s" and "settled i e s"
  shows "settled i e (connect e' s)" "ready (connect e' s) i = ready s i"
proof -
  have "sockets s i \<noteq> None" using assms(2) by (auto simp: settled_def)
  from connect_old [OF assms(1) this]
  show "settled i e (connect e' s)" "ready (connect e' s) i = ready s i" using assms(2) by (auto simp: settled_def ready_def)
qed

text \<open>What a step does while a settled socket is open: only that socket can report anything.\<close>

definition follows :: "nat \<Rightarrow> effect \<Rightarrow> live_socket \<Rightarrow> live_socket \<Rightarrow> bool" where
  "follows i e s t \<longleftrightarrow> settled i e t
     \<and> (ready t i = Some OPEN \<longrightarrow> ready s i = Some OPEN \<and> (status t = Live \<longrightarrow> status s = Live)
          \<and> (\<exists>xs. calls t = calls s @ xs \<and> (\<forall>x \<in> set xs. fst x = ef_topic e)))"

lemma follows_same:
  assumes "settled i e t" and "ready t i = Some OPEN \<Longrightarrow> ready s i = Some OPEN" "status t = Live \<Longrightarrow> status s = Live"
    and "calls t = calls s"
  shows "follows i e s t"
  using assms by (auto simp: follows_def)

lemma follows_plain:
  assumes "settled i e s"
  shows "follows i e s (s\<lparr>now := a\<rparr>)" "follows i e s (clearProbe s)"
  using assms by (auto intro!: follows_same simp: settled_def)

lemma follows_trans:
  assumes "follows i e s t" and "follows i e t u"
  shows "follows i e s u"
proof -
  have "\<exists>xs. calls u = calls s @ xs \<and> (\<forall>x \<in> set xs. fst x = ef_topic e)" if o: "ready u i = Some OPEN"
  proof -
    from o assms(2) obtain ys where ys: "calls u = calls t @ ys" "\<forall>x \<in> set ys. fst x = ef_topic e" "ready t i = Some OPEN"
      unfolding follows_def by blast
    from ys(3) assms(1) obtain xs where "calls t = calls s @ xs" "\<forall>x \<in> set xs. fst x = ef_topic e"
      unfolding follows_def by blast
    with ys show ?thesis by (intro exI [of _ "xs @ ys"]) auto
  qed
  with assms show ?thesis unfolding follows_def by blast
qed

lemma follows_check:
  assumes "refs_ok s" and "settled i e s"
  shows "follows i e s (checkConnection fails e' s)"
proof -
  have r: "refs_ok (s\<lparr>backoffMs := BACKOFF_MIN_MS\<rparr>)" "settled i e (s\<lparr>backoffMs := BACKOFF_MIN_MS\<rparr>)"
    using assms by (simp_all add: settled_def)
  have "follows i e s (close_socket (socketRef s) (s\<lparr>backoffMs := BACKOFF_MIN_MS\<rparr>))"
    by (intro follows_same settled_close r) (auto dest: open_close)
  moreover have "follows i e s (connect e' (s\<lparr>backoffMs := BACKOFF_MIN_MS\<rparr>))"
    by (intro follows_same settled_connect(1) r) (auto simp: settled_connect(2) [OF r] dest: connect_status)
  moreover have "follows i e s s" using assms by (intro follows_same) auto
  moreover have "follows i e s ((snd (set_timer PROBE_TIMEOUT_MS Probe (s\<lparr>pings := Suc (pings s)\<rparr>)))\<lparr>probeTimer := p\<rparr>)" for p
    using assms by (intro follows_same) (auto simp: settled_def)
  ultimately show ?thesis by (simp add: checkConnection_def Let_def case_prod_unfold)
qed

lemma follows_fire:
  assumes "refs_ok s" and "settled i e s" and "timers s t = Some (d, tm)"
  shows "follows i e s (timeout tm (s\<lparr>timers := (timers s)(t := None)\<rparr>))"
proof (cases tm)
  case (Retry e')
  have r: "refs_ok (s\<lparr>timers := (timers s)(t := None)\<rparr>)" "settled i e (s\<lparr>timers := (timers s)(t := None)\<rparr>)"
    using assms(2,3) Retry refs_ok_drop [OF assms(1)] by (simp_all add: settled_def)
  have "follows i e s (connect e' (s\<lparr>timers := (timers s)(t := None)\<rparr>))"
    by (intro follows_same settled_connect(1) r) (auto simp: settled_connect(2) [OF r] dest: connect_status)
  then show ?thesis using Retry by simp
next
  case (Abort j)
  have "settled i e (s\<lparr>timers := (timers s)(t := None)\<rparr>)" using assms(2) by (simp add: settled_def)
  then show ?thesis using Abort by (auto intro!: follows_same settled_close dest: open_close)
next
  case Probe
  have "settled i e (s\<lparr>timers := (timers s)(t := None), probeTimer := None\<rparr>)" using assms(2) by (simp add: settled_def)
  then show ?thesis using Probe by (auto intro!: follows_same settled_close dest: open_close)
qed

lemma follows_topic:
  assumes "hook_ok s" and "listening s \<noteq> None" and "settled i e s"
  shows "follows i e s (cleanup s)" "follows i e s (run_effect topic (cleanup s))"
proof -
  have c: "refs_ok (cleanup s)" using cleanup_ok [OF assms(1,2)] by (simp add: hook_ok_def)
  have k: "settled i e (cleanup s)" unfolding cleanup_def Let_def
    using settled_close [of i e "clearProbe (clear_timer (connectTimer s) (clear_timer (retryTimer s)
      (s\<lparr>disposed := True, listening := None\<rparr>)))" "socketRef s"] assms(3)
    by (simp add: settled_def)
  show "follows i e s (cleanup s)"
    using k by (intro follows_same) (auto simp: ready_cleanup split: if_splits)
  have o: "ready (cleanup s) i \<noteq> Some OPEN"
  proof -
    have "one_live s" using assms(1) by (simp add: hook_ok_def)
    then have "ready s i = Some CONNECTING \<or> ready s i = Some OPEN \<longrightarrow> socketRef s = Some i"
      unfolding one_live_def by (rule spec)
    then show ?thesis unfolding ready_cleanup by (cases "socketRef s = Some i") auto
  qed
  let ?e = "\<lparr>ef_topic = topic, ef_status = status (cleanup s)\<rparr>"
  let ?s = "(cleanup s)\<lparr>disposed := False, backoffMs := BACKOFF_MIN_MS, checkRef := Some ?e\<rparr>"
  have r: "refs_ok ?s" "settled i e ?s" using c k by (simp_all add: settled_def)
  have "ready (connect ?e ?s) i \<noteq> Some OPEN" using settled_connect(2) [OF r] o by simp
  moreover have "settled i e (connect ?e ?s)" by (rule settled_connect(1) [OF r])
  ultimately show "follows i e s (run_effect topic (cleanup s))"
    by (simp add: follows_def run_effect_def Let_def settled_def)
qed

lemma follows_step:
  assumes "hook_ok s" and "settled i e s" and "live_step s ev t"
  shows "follows i e s t"
proof -
  have r: "refs_ok s" and o: "one_live s" using assms(1) by (simp_all add: hook_ok_def)
  have other: "j = i" if "sockets s j = Some k" "readyState k = OPEN \<or> readyState k = CONNECTING" "ready s i = Some OPEN" for j k
    using that o unfolding one_live_def ready_def by (metis option.inject option.simps(9))
  have check: "follows i e s (onWake fails e' (f s))"
    if "settled i e (f s)" "refs_ok (f s)" "ready (f s) = ready s" "status (f s) = status s" "calls (f s) = calls s" for f fails e'
    using follows_check [OF that(2,1)] that by (auto simp: onWake_def follows_def)
  from assms(3) show ?thesis
  proof cases
    case (mount topic)
    then show ?thesis using assms by (auto simp: hook_ok_def at_rest_def settled_def)
  next
    case (opened j e')
    have "j \<noteq> i" using opened assms(2) by (auto simp: settled_def)
    then show ?thesis using opened other [of j] assms(2)
      by (auto simp: follows_def onopen_def Let_def settled_def ready_set_ready) (simp_all add: set_ready_def ready_def)
  next
    case (message j e' f)
    show ?thesis
    proof (cases f)
      case (Data d)
      then show ?thesis using message other [of j] assms(2)
        by (auto simp: follows_def onmessage_def settled_def ready_def)
    qed (use message assms(2) follows_plain in \<open>auto simp: onmessage_def intro: follows_same\<close>)
  next
    case (closed j k)
    have k: "settled i e (onclose j (sk_effect k) s)"
      using assms(2) closed(2) by (cases "j = i") (auto simp: onclose_def Let_def case_prod_unfold settled_def set_ready_def)
    have "status t \<noteq> Live" using closed by (simp add: onclose_def Let_def case_prod_unfold)
    moreover have "ready t i = Some OPEN \<Longrightarrow> ready s i = Some OPEN"
      using closed by (auto simp: onclose_def Let_def case_prod_unfold ready_set_ready split: if_splits)
    moreover have "calls t = calls s" using closed by (simp add: onclose_def Let_def case_prod_unfold)
    ultimately show ?thesis using k closed by (auto intro: follows_same)
  next
    case (fire n d tm)
    then show ?thesis using follows_fire [OF r assms(2)] by simp
  next
    case (offline e')
    have "settled i e (s\<lparr>onLine := False, status := Down\<rparr>)" using assms(2) by (simp add: settled_def)
    then show ?thesis using offline unfolding onOffline_def
      by (auto intro!: follows_same settled_close dest: open_close)
  next
    case (watchdog e' fails)
    then show ?thesis
      using follows_check [of "s\<lparr>lastTick := now s\<rparr>" i e] r assms(2)
      by (auto simp: watchdog_def Let_def follows_def settled_def)
  next
    case (nudge fails)
    then show ?thesis
      using follows_check [of "s\<lparr>backoffMs := BACKOFF_MIN_MS\<rparr>" i e] refs_ok_backoff [OF r] assms(2)
      by (auto simp: nudge_def Let_def follows_def settled_def split: option.split)
  qed (use check [of "\<lambda>s. s"] check [of "hidden_update (\<lambda>_. h)" for h] check [of "onLine_update (\<lambda>_. True)"]
        r assms follows_topic [OF assms(1) _ assms(2)] follows_plain [OF assms(2)] in \<open>auto simp: settled_def\<close>)
qed

lemma follows_run:
  assumes "live.run s es t" and "hook_ok s" and "settled i e s"
  shows "follows i e s t"
proof -
  have "hook_ok t \<and> follows i e s t" using assms
  proof (induction rule: live.run.induct)
    case (run_nil s)
    then show ?case by (auto intro: follows_same)
  next
    case (run_snoc s es t ev u)
    then have "hook_ok t" "follows i e s t" by auto
    moreover from this have "settled i e t" by (simp add: follows_def)
    ultimately show ?case using run_snoc.hyps(2) hook_ok_step follows_step follows_trans by metis
  qed
  then show ?thesis by simp
qed

text \<open>The runs of the two defects.\<close>

lemmas live_code = Let_def case_prod_unfold run_effect_def cleanup_def connect_def onopen_def onclose_def onWake_def
  onOffline_def checkConnection_def clearProbe_def clear_timer_def close_socket_def set_ready_def ready_def current_def
  new_live_socket_def delays

definition offline_dip :: "socket_event list" where
  "offline_dip = [Mount ''devices'', Opened 0, Offline, Online False, Opened 1, Closed 0]"

definition dipped :: live_socket where
  "dipped = the (live_runs offline_dip (new_live_socket 0 True False))"

lemma dipped_run: "live_runs offline_dip (new_live_socket 0 True False) = Some dipped"
  and dipped_view: "socketRef dipped = Some 1" "sockets dipped 1 = Some \<lparr>readyState = OPEN, sk_effect = \<lparr>ef_topic = ''devices'', ef_status = Connecting\<rparr>\<rparr>"
    "status dipped = Connecting" "calls dipped = [(''devices'', OnOpen), (''devices'', OnOpen)]"
  unfolding dipped_def offline_dip_def by (simp_all add: live_code)

definition moved_page :: "string \<Rightarrow> string \<Rightarrow> socket_event list" where
  "moved_page A B = [Mount A, Opened 0, Topic B, Closed 0, Closed 1, Elapse 500, Fire 2, Opened 2]"

definition moved :: "string \<Rightarrow> string \<Rightarrow> live_socket" where
  "moved A B = the (live_runs (moved_page A B) (new_live_socket 0 True False))"

lemma moved_run: "live_runs (moved_page A B) (new_live_socket 0 True False) = Some (moved A B)"
  and moved_view: "map_option ef_topic (listening (moved A B)) = Some B" "socketRef (moved A B) = Some 2"
    "sockets (moved A B) 2 = Some \<lparr>readyState = OPEN, sk_effect = \<lparr>ef_topic = A, ef_status = Connecting\<rparr>\<rparr>"
    "status (moved A B) = Live"
  unfolding moved_def moved_page_def by (simp_all add: live_code)

lemma dipped_reachable: "live.reachable dipped"
  by (rule live_runs_reachable [OF dipped_run])

lemma moved_reachable: "live.reachable (moved A B)"
  by (rule live_runs_reachable [OF moved_run])

lemma dipped_current: "current dipped = Some OPEN" "ready dipped 1 = Some OPEN"
  using dipped_view by (simp_all add: current_def ready_def)

lemma dipped_listening: "listening dipped = Some \<lparr>ef_topic = ''devices'', ef_status = Connecting\<rparr>" "\<not> hidden dipped"
  unfolding dipped_def offline_dip_def by (simp_all add: live_code)

theorem one_live_socket_witness: "socketRef dipped = Some 1"
  using one_live_socket [OF dipped_reachable, of 1 1] dipped_current by simp

theorem never_stranded_witness: "backoffMs dipped \<le> BACKOFF_MAX_MS"
  using never_stranded [OF dipped_reachable dipped_listening(1)] by simp

theorem wake_verifies_witness:
  "\<exists>t. live_step dipped (Focus False) t \<and> (current t = Some OPEN \<or> current t = Some CONNECTING)"
  using wake_verifies [OF dipped_reachable live_step.focus [OF dipped_listening(1), of False] dipped_listening(2)]
    live_step.focus [OF dipped_listening(1), of False] by blast

theorem unmounted_quiet_witness: "next_socket (cleanup dipped) = next_socket dipped \<and> ready (cleanup dipped) 1 \<noteq> Some OPEN"
  using unmounted_quiet [OF dipped_reachable live_step.unmount live.run_nil] dipped_listening(1) by simp

text \<open>C9: The status can stay wrong for good.  When the network returns before the browser has reported the close
  of the old socket, that report arrives after the new socket has opened and sets the status back to
  connecting: the connection is open and delivers events, and in no continuation in which it stays open
  does the status become live again.\<close>

theorem late_close_hides_live:
  "live_runs offline_dip (new_live_socket 0 True False) = Some dipped
    \<and> current dipped = Some OPEN \<and> status dipped = Connecting
    \<and> \<not> (\<exists>es t. live.run dipped es t \<and> ready t 1 = Some OPEN \<and> status t = Live)"
proof -
  have "settled 1 \<lparr>ef_topic = ''devices'', ef_status = Connecting\<rparr> dipped" unfolding settled_def using dipped_view(2) by blast
  from follows_run [OF _ live.inv_reachable [OF dipped_reachable] this] show ?thesis
    using dipped_run dipped_current dipped_view(3) by (auto simp: follows_def)
qed

text \<open>C10: A page can be left on the topic of the page before it.  When the topic changes from \<open>A\<close> to \<open>B\<close>, the
  closed socket of \<open>A\<close> still arms a retry; if the first connection for \<open>B\<close> fails, that retry connects to
  \<open>A\<close> and cancels the retry for \<open>B\<close>: the hook that serves \<open>B\<close> reports itself live, and as long as this
  connection lasts it delivers nothing but events of \<open>A\<close>.\<close>

theorem retry_keeps_old_topic:
  "live_runs (moved_page A B) (new_live_socket 0 True False) = Some (moved A B)
    \<and> map_option ef_topic (listening (moved A B)) = Some B \<and> current (moved A B) = Some OPEN \<and> status (moved A B) = Live
    \<and> \<not> (\<exists>es t xs x. live.run (moved A B) es t \<and> ready t 2 = Some OPEN \<and> calls t = calls (moved A B) @ xs
          \<and> x \<in> set xs \<and> fst x \<noteq> A)"
proof -
  let ?e = "\<lparr>ef_topic = A, ef_status = Connecting\<rparr>"
  have "settled 2 ?e (moved A B)" by (simp add: settled_def moved_view)
  from follows_run [OF _ live.inv_reachable [OF moved_reachable] this]
  have "\<not> (\<exists>es t xs x. live.run (moved A B) es t \<and> ready t 2 = Some OPEN \<and> calls t = calls (moved A B) @ xs
          \<and> x \<in> set xs \<and> fst x \<noteq> A)"
    by (fastforce simp: follows_def)
  then show ?thesis using moved_run moved_view by (simp add: current_def ready_def)
qed

text \<open>A late close also disarms the timeout of a hanging handshake.\<close>

lemma late_close_disarms_abort:
  "\<exists>s. live_runs [Mount A, Opened 0, Offline, Online False, Closed 0] (new_live_socket 0 True False) = Some s
    \<and> sockets s 1 = Some \<lparr>readyState = CONNECTING, sk_effect = \<lparr>ef_topic = A, ef_status = Connecting\<rparr>\<rparr>
    \<and> (\<forall>t d. timers s t \<noteq> Some (d, Abort 1))"
  by (simp add: live_code)

theorem hook_references_witness:
  "live.reachable dipped \<and> socketRef dipped = Some 1 \<and> 1 < next_socket dipped"
proof -
  have "socketRef dipped = Some 1" using dipped_view by simp
  with hook_references [OF dipped_reachable] dipped_reachable show ?thesis by blast
qed

end
