(* ===== verification/NexusClient.thy ===== *)
theory NexusClient
  imports DeviceProps LiveSocketRuns
begin

text \<open>
  The client side of the nexus API, \<^verbatim>\<open>api/client.ts\<close>, the views that follow a live socket
  (\<^verbatim>\<open>components/LiveLog.tsx\<close>, \<^verbatim>\<open>App.tsx\<close>) and the small shared components.

  JSON parsing is the language's; the parsed value and the error text of an error body are parameters.
\<close>

section \<open>Requests (api/client.ts)\<close>

record response =
  rs_ok :: bool
  rs_status :: nat
  rs_statusText :: string
  rs_text :: string

text \<open>\<open>parse\<close>: \<^verbatim>\<open>JSON.parse\<close>; \<open>error_of\<close>: the string \<^verbatim>\<open>error\<close> of a parsed body.\<close>

definition error_detail :: "(string \<Rightarrow> 'j option) \<Rightarrow> ('j \<Rightarrow> string option) \<Rightarrow> string \<Rightarrow> string" where
  "error_detail parse error_of body =
     (case Option.bind (parse body) error_of of None \<Rightarrow> '''' | Some e \<Rightarrow> '' '' @ em_dash @ '' '' @ e)"

definition request :: "(string \<Rightarrow> 'j option) \<Rightarrow> ('j \<Rightarrow> string option) \<Rightarrow> string option \<Rightarrow> string \<Rightarrow> response \<Rightarrow> exn + 'j option" where
  "request parse error_of method path r =
     (if \<not> rs_ok r
      then Inl (Error ((case method of None \<Rightarrow> ''GET'' | Some m \<Rightarrow> m) @ '' '' @ path @ '': '' @ dec (rs_status r) @ '' ''
             @ rs_statusText r @ error_detail parse error_of (rs_text r)))
      else if rs_text r = '''' then Inr None
      else case parse (rs_text r) of Some v \<Rightarrow> Inr (Some v) | None \<Rightarrow> Inl (SyntaxError ''JSON''))"

definition devices_path :: string where
  "devices_path = ''/api/v1/devices''"

definition device_path :: "string \<Rightarrow> string" where
  "device_path fqdn = ''/api/v1/devices/'' @ encodeURIComponent fqdn"

definition deviceEntity_path :: "string \<Rightarrow> string" where
  "deviceEntity_path fqdn = ''/api/v1/devices/'' @ encodeURIComponent fqdn @ ''/entity''"

definition deviceSnmpSessions_path :: "string \<Rightarrow> string" where
  "deviceSnmpSessions_path fqdn = ''/api/v1/devices/'' @ encodeURIComponent fqdn @ ''/snmp-sessions''"

definition pollVlans_path :: "string \<Rightarrow> string" where
  "pollVlans_path fqdn = ''/api/v1/devices/'' @ encodeURIComponent fqdn @ ''/vlans/poll''"

definition stpTree_path :: "int \<Rightarrow> string" where
  "stpTree_path vlan = ''/api/v1/stp/'' @ int_text vlan"

definition liveLogSocketUrl :: "bool \<Rightarrow> string \<Rightarrow> string \<Rightarrow> string" where
  "liveLogSocketUrl https host topic =
     (if https then ''wss:'' else ''ws:'') @ ''//'' @ host @ ''/api/v1/ws/logs/'' @ encodeURIComponent topic"

definition vlanNameLabel :: "string list \<Rightarrow> string option" where
  "vlanNameLabel names =
     (case names of [] \<Rightarrow> None | [n] \<Rightarrow> Some n | _ \<Rightarrow> Some (join '' / '' names))"

text \<open>\<open>t\<close>: \<^verbatim>\<open>Date.now()\<close>, in milliseconds; the start is in seconds.\<close>

definition formatUptime :: "int \<Rightarrow> real \<Rightarrow> string" where
  "formatUptime t startupTime =
     (let s = max 0 \<lfloor>real_of_int t / 1000 - startupTime\<rfloor>;
          d = s div 86400; h = (s mod 86400) div 3600; m = (s mod 3600) div 60
      in if d > 0 then int_text d @ ''d '' @ int_text h @ ''h '' @ int_text m @ ''m''
         else if h > 0 then int_text h @ ''h '' @ int_text m @ ''m''
         else int_text m @ ''m'')"

section \<open>Views of a live socket\<close>

record live_log_line =
  ll_ts :: real
  ll_line :: string

definition MAX_LINES :: nat where "MAX_LINES = 1000"

text \<open>\<open>line_of\<close>: the entry of a data frame, if its \<^verbatim>\<open>line\<close> is a string.\<close>

definition livelog_call :: "(string \<Rightarrow> live_log_line option) \<Rightarrow> callback \<Rightarrow> live_log_line list \<Rightarrow> live_log_line list" where
  "livelog_call line_of c ls =
     (case c of
        OnOpen \<Rightarrow> []
      | OnMessage d \<Rightarrow>
          (case line_of d of
             None \<Rightarrow> ls
           | Some entry \<Rightarrow> (let all = ls @ [entry] in drop (length all - MAX_LINES) all)))"

definition livelog :: "(string \<Rightarrow> live_log_line option) \<Rightarrow> (string \<times> callback) list \<Rightarrow> live_log_line list" where
  "livelog line_of cs = fold (\<lambda>(topic, c). livelog_call line_of c) cs []"

definition livelog_status :: "live_status \<Rightarrow> live_log_line list \<Rightarrow> string option \<times> string" where
  "livelog_status st ls =
     ((if ls = [] then Some (if st = Live then ''No log messages yet.'' else ''Connecting'' @ [CHR 0xE2, CHR 0x80, CHR 0xA6]) else None),
      (if st = Live then ''live'' else ''disconnected '' @ em_dash @ '' reconnecting'' @ [CHR 0xE2, CHR 0x80, CHR 0xA6]))"

definition followTail :: "real \<Rightarrow> real \<Rightarrow> real \<Rightarrow> bool" where
  "followTail scrollHeight scrollTop clientHeight \<longleftrightarrow> scrollHeight - scrollTop - clientHeight < 10"

record app_view =
  hasConnected :: bool
  app_invalidated :: "query list"
  resyncSignal :: nat
  lastStateId :: "int option"
  reloads :: nat
  navOpen :: bool

definition new_app_view :: app_view where
  "new_app_view = \<lparr>hasConnected = False, app_invalidated = [], resyncSignal = 0, lastStateId = None, reloads = 0, navOpen = False\<rparr>"

text \<open>\<open>event_of\<close>: the \<^verbatim>\<open>eventType\<close> of a data frame.\<close>

definition app_call :: "(string \<Rightarrow> string option) \<Rightarrow> callback \<Rightarrow> app_view \<Rightarrow> app_view" where
  "app_call event_of c a =
     (case c of
        OnOpen \<Rightarrow> a\<lparr>app_invalidated := app_invalidated a @ (if hasConnected a then [AllQueries] else []), hasConnected := True\<rparr>
      | OnMessage d \<Rightarrow>
          if \<not> truthy_text (event_of d) then a
          else a\<lparr>app_invalidated := app_invalidated a @ [SummaryQuery, DevicesQuery, AllIssuesQuery]\<rparr>)"

definition app_calls :: "(string \<Rightarrow> string option) \<Rightarrow> (string \<times> callback) list \<Rightarrow> app_view \<Rightarrow> app_view" where
  "app_calls event_of cs = fold (\<lambda>(topic, c). app_call event_of c) cs"

definition app_stateId :: "int option \<Rightarrow> app_view \<Rightarrow> app_view" where
  "app_stateId sid a =
     (case sid of
        None \<Rightarrow> a
      | Some s \<Rightarrow>
          if lastStateId a = None then a\<lparr>lastStateId := Some s\<rparr>
          else if lastStateId a \<noteq> Some s then a\<lparr>reloads := Suc (reloads a)\<rparr> else a)"

definition onResync :: "app_view \<Rightarrow> app_view" where
  "onResync a = a\<lparr>resyncSignal := Suc (resyncSignal a)\<rparr>"

section \<open>Small components\<close>

text \<open>\<^verbatim>\<open>StatusBadge.tsx\<close>: the class and the text of a badge.\<close>

definition UpBadge :: "bool option \<Rightarrow> string \<times> string" where
  "UpBadge up = (case up of Some True \<Rightarrow> (''badge-ok'', ''up'') | Some False \<Rightarrow> (''badge-bad'', ''down'')
     | None \<Rightarrow> (''badge-muted'', ''unknown''))"

definition ErrDisabledBadge :: "string option \<Rightarrow> string" where
  "ErrDisabledBadge cause = ''err-disabled'' @ (if truthy_text cause then middle_dot @ the cause else '''')"

definition PollingBadge :: "bool option \<Rightarrow> string \<times> string" where
  "PollingBadge enabled =
     (if enabled = Some False then (''badge-warn'', ''polling off'')
      else (''badge-muted'', if enabled = Some True then ''polling on'' else ''polling default''))"

definition StpStateBadge :: "string \<Rightarrow> string" where
  "StpStateBadge state =
     (if state = ''forwarding'' then ''badge-ok''
      else if state = ''learning'' \<or> state = ''listening'' then ''badge-warn''
      else if state = ''broken'' then ''badge-bad'' else ''badge-muted'')"

datatype health_badge = DiscardBadge | HealthBadge issue_severity

definition otherSignal :: "interface_health \<Rightarrow> bool" where
  "otherSignal h \<longleftrightarrow> flapping h \<or> health_stale h \<or> highUtilization h \<or> speedChangeCount h > 0 \<or> h_inErrors h + h_outErrors h > 0"

definition InterfaceHealthBadges :: "interface_health \<Rightarrow> health_badge list" where
  "InterfaceHealthBadges h =
     guarded (discardsHigh h) DiscardBadge
     @ (case severity h of Some s \<Rightarrow> guarded (otherSignal h) (HealthBadge s) | None \<Rightarrow> [])"

definition SyncIndicator_label :: "live_status \<Rightarrow> string" where
  "SyncIndicator_label st =
     (case st of Live \<Rightarrow> ''Live '' @ em_dash @ '' up to date''
      | Connecting \<Rightarrow> ''Reconnecting'' @ [CHR 0xE2, CHR 0x80, CHR 0xA6]
      | Down \<Rightarrow> ''Offline '' @ em_dash @ '' data may be stale'')"

text \<open>\<^verbatim>\<open>ActionMenu.tsx\<close>: open or closed; an item closes the menu before it acts.\<close>

datatype menu_event = ClickTrigger | PointerDown bool | KeyDown string | ClickItem bool nat

definition ActionMenu_step :: "menu_event \<Rightarrow> bool \<Rightarrow> bool \<times> nat option" where
  "ActionMenu_step ev opened =
     (case ev of
        ClickTrigger \<Rightarrow> (\<not> opened, None)
      | PointerDown within_menu \<Rightarrow> (opened \<and> within_menu, None)
      | KeyDown key \<Rightarrow> (opened \<and> key \<noteq> ''Escape'', None)
      | ClickItem disabled n \<Rightarrow> if opened \<and> \<not> disabled then (False, Some n) else (opened, None))"

text \<open>\<^verbatim>\<open>Dashboard.tsx\<close>.\<close>

definition dashboard_ago :: "int \<Rightarrow> int \<Rightarrow> string" where
  "dashboard_ago t ms =
     (let s = max 0 ((t - ms) div 1000) in
      if s < 60 then int_text s @ ''s ago''
      else let m = s div 60 in
      if m < 60 then int_text m @ ''m ago''
      else let h = m div 60 in
      if h < 24 then int_text h @ ''h ago''
      else int_text (h div 24) @ ''d ago'')"

definition activeIssues :: "issue list \<Rightarrow> issue list" where
  "activeIssues = filter (\<lambda>i. \<not> acknowledged i)"

definition recentIssues :: "issue list \<Rightarrow> issue list" where
  "recentIssues xs = take 10 (activeIssues xs)"

end
