(* ===== verification/NexusForms.thy ===== *)
theory NexusForms
  imports NexusClient
begin

text \<open>
  The other pages of the nexus web interface: discovery, devices, VLANs, client locations
  and maintenance, with their forms, filters and state.
\<close>

section \<open>Discovery (pages/Discovery.tsx)\<close>

record discovery_config =
  dc_rootDevice :: "string option"
  dc_community :: "string option"
  dc_dnsDomains :: "string list"
  dc_ignore :: "string list"
  dc_remap :: "string obj"
  dc_topologyStable :: bool
  dc_periodicEnabled :: bool
  dc_intervalSecs :: int

record form_state =
  fs_rootDevice :: string
  fs_community :: string
  fs_dnsDomains :: string
  fs_ignore :: string
  fs_remap :: string
  fs_topologyStable :: bool
  fs_periodicEnabled :: bool
  fs_intervalSecs :: int

definition or_empty :: "string option \<Rightarrow> string" where
  "or_empty v = (case v of None \<Rightarrow> '''' | Some s \<Rightarrow> s)"

definition toForm :: "discovery_config \<Rightarrow> form_state" where
  "toForm c =
     \<lparr>fs_rootDevice = or_empty (dc_rootDevice c), fs_community = or_empty (dc_community c),
      fs_dnsDomains = join '', '' (dc_dnsDomains c), fs_ignore = join '', '' (dc_ignore c),
      fs_remap = join '', '' (map (\<lambda>(src, dst). src @ '':'' @ dst) (obj_entries (dc_remap c))),
      fs_topologyStable = dc_topologyStable c, fs_periodicEnabled = dc_periodicEnabled c,
      fs_intervalSecs = dc_intervalSecs c\<rparr>"

definition splitCsv :: "string \<Rightarrow> string list" where
  "splitCsv v = filter (\<lambda>s. length s > 0) (map trim (split (CHR '','') v))"

definition remap_entry :: "string \<Rightarrow> string obj \<Rightarrow> string obj" where
  "remap_entry entry remap =
     (case index_of (CHR '':'') entry of
        Some idx \<Rightarrow> if idx > 0 then obj_set (take idx entry) (drop (idx + 1) entry) remap else remap
      | None \<Rightarrow> remap)"

definition or_null :: "string \<Rightarrow> string option" where
  "or_null s = (if trim s \<noteq> '''' then Some (trim s) else None)"

definition fromForm :: "form_state \<Rightarrow> discovery_config" where
  "fromForm f =
     \<lparr>dc_rootDevice = or_null (fs_rootDevice f), dc_community = or_null (fs_community f),
      dc_dnsDomains = splitCsv (fs_dnsDomains f), dc_ignore = splitCsv (fs_ignore f),
      dc_remap = fold remap_entry (splitCsv (fs_remap f)) [],
      dc_topologyStable = fs_topologyStable f, dc_periodicEnabled = fs_periodicEnabled f,
      dc_intervalSecs = fs_intervalSecs f\<rparr>"

definition newDeviceBody :: "string \<Rightarrow> string \<Rightarrow> device_update option" where
  "newDeviceBody fqdn community =
     (let trimmed = trim fqdn; snmp = trim community in
      case index_of (CHR ''.'') trimmed of
        None \<Rightarrow> None
      | Some dot \<Rightarrow>
          if dot = 0 \<or> dot = length trimmed - 1 then None
          else Some \<lparr>du_name = take dot trimmed, du_dnsDomain = drop (dot + 1) trimmed,
                 du_snmpCommunity = (if length snmp > 0 then Some snmp else None), du_baseMac = None, du_pollingEnabled = None,
                 du_osInfo = None, du_deviceType = None, du_softwareVersion = None\<rparr>)"

record discovery_page =
  dp_config :: "discovery_config option"
  dp_form :: "form_state option"
  dp_logNudge :: nat
  dp_addFqdn :: string
  dp_addCommunity :: string
  dp_puts :: "discovery_config list"
  dp_posts :: "device_update list"
  dp_runs :: nat

definition dp_effect :: "discovery_page \<Rightarrow> discovery_page" where
  "dp_effect p = (case (dp_config p, dp_form p) of (Some c, None) \<Rightarrow> p\<lparr>dp_form := Some (toForm c)\<rparr> | _ \<Rightarrow> p)"

definition dp_loaded :: "discovery_config \<Rightarrow> discovery_page \<Rightarrow> discovery_page" where
  "dp_loaded c p = dp_effect (p\<lparr>dp_config := Some c\<rparr>)"

definition dp_set :: "(form_state \<Rightarrow> form_state) \<Rightarrow> discovery_page \<Rightarrow> discovery_page" where
  "dp_set upd p = p\<lparr>dp_form := map_option upd (dp_form p)\<rparr>"

definition saveConfig :: "discovery_page \<Rightarrow> discovery_page" where
  "saveConfig p = (case dp_form p of None \<Rightarrow> p | Some f \<Rightarrow> p\<lparr>dp_puts := dp_puts p @ [fromForm f]\<rparr>)"

definition saveConfig_success :: "discovery_config \<Rightarrow> discovery_page \<Rightarrow> discovery_page" where
  "saveConfig_success saved p = p\<lparr>dp_config := Some saved, dp_form := Some (toForm saved)\<rparr>"

definition addDevice :: "discovery_page \<Rightarrow> discovery_page" where
  "addDevice p =
     (case newDeviceBody (dp_addFqdn p) (dp_addCommunity p) of None \<Rightarrow> p | Some b \<Rightarrow> p\<lparr>dp_posts := dp_posts p @ [b]\<rparr>)"

definition addDevice_success :: "discovery_page \<Rightarrow> discovery_page" where
  "addDevice_success p = p\<lparr>dp_addFqdn := '''', dp_addCommunity := ''''\<rparr>"

definition runDiscovery :: "discovery_page \<Rightarrow> discovery_page" where
  "runDiscovery p = p\<lparr>dp_logNudge := Suc (dp_logNudge p), dp_runs := Suc (dp_runs p)\<rparr>"

section \<open>Devices (pages/Devices.tsx)\<close>

datatype device_sort_key = ByFqdn | ByDeviceType | ByUp | ByInterfaceCount | ByLastPoll

definition text_includes :: "string \<Rightarrow> string \<Rightarrow> bool" where
  "text_includes needle s = contains needle (lower s)"

definition device_matches :: "string \<Rightarrow> net_device \<Rightarrow> bool" where
  "device_matches needle d \<longleftrightarrow> needle = '''' \<or> text_includes needle (dv_fqdn d) \<or> text_includes needle (or_empty (deviceType d))
     \<or> text_includes needle (or_empty (softwareVersion d))"

definition up_rank :: "bool option \<Rightarrow> int" where
  "up_rank u = (if u = Some False then 0 else if u = None then 1 else 2)"

definition poll_rank :: "nat option \<Rightarrow> int" where
  "poll_rank s = (case s of None \<Rightarrow> 9007199254740991 | Some n \<Rightarrow> int n)"

fun device_cmp :: "(string \<Rightarrow> string \<Rightarrow> int) \<Rightarrow> device_sort_key \<Rightarrow> net_device \<Rightarrow> net_device \<Rightarrow> int" where
  "device_cmp collate ByFqdn a b = collate (dv_fqdn a) (dv_fqdn b)"
| "device_cmp collate ByDeviceType a b = collate (or_empty (deviceType a)) (or_empty (deviceType b))"
| "device_cmp collate ByInterfaceCount a b = int (interfaceCount a) - int (interfaceCount b)"
| "device_cmp collate ByUp a b = up_rank (dv_up a) - up_rank (dv_up b)"
| "device_cmp collate ByLastPoll a b = poll_rank (secondsSinceLastPoll a) - poll_rank (secondsSinceLastPoll b)"

definition device_rows :: "(string \<Rightarrow> string \<Rightarrow> int) \<Rightarrow> string \<Rightarrow> device_sort_key sorting \<Rightarrow> net_device list \<Rightarrow> net_device list" where
  "device_rows collate text_filter s ds =
     js_sort (\<lambda>a b. if sortAsc s then device_cmp collate (sortKey s) a b else - device_cmp collate (sortKey s) a b)
       (filter (device_matches (lower (trim text_filter))) ds)"

definition lastPollText :: "nat option \<Rightarrow> string" where
  "lastPollText secs = (case secs of None \<Rightarrow> em_dash | Some s \<Rightarrow> dec s @ ''s ago'')"

section \<open>VLANs (pages/Vlans.tsx)\<close>

record vlan_device =
  vd_fqdn :: string
  vd_name :: "string option"
  nativePorts :: nat
  taggedPorts :: nat

datatype vlan_policy_level = Quiet | Normal | Sensitive

record vlan_summary =
  vs_id :: nat
  vs_names :: "string list"
  vs_devices :: "vlan_device list"
  policyLevel :: "vlan_policy_level option"

definition vlan_matches :: "string \<Rightarrow> vlan_summary \<Rightarrow> bool" where
  "vlan_matches needle v \<longleftrightarrow> needle = '''' \<or> contains needle (dec (vs_id v)) \<or> list_ex (text_includes needle) (vs_names v)
     \<or> list_ex (\<lambda>d. text_includes needle (vd_fqdn d)) (vs_devices v)"

definition vlan_rows :: "string \<Rightarrow> vlan_summary list \<Rightarrow> vlan_summary list" where
  "vlan_rows text_filter vs = filter (vlan_matches (lower (trim text_filter))) vs"

definition vlan_conflicts :: "vlan_summary list \<Rightarrow> nat" where
  "vlan_conflicts vs = length (filter (\<lambda>v. length (vs_names v) > 1) vs)"

definition shown_policy :: "vlan_summary \<Rightarrow> vlan_policy_level" where
  "shown_policy v = (case policyLevel v of None \<Rightarrow> Normal | Some l \<Rightarrow> l)"

section \<open>Client locations (pages/ClientLocations.tsx)\<close>

record client_location =
  cl_id :: nat
  cl_deviceId :: nat
  ipAddress :: string
  portInfo :: string
  hwAddress :: string

definition deviceById :: "net_device list \<Rightarrow> nat \<Rightarrow> string option" where
  "deviceById ds = map_of (rev (map (\<lambda>d. (dv_id d, dv_fqdn d)) ds))"

definition location_matches :: "(nat \<Rightarrow> string option) \<Rightarrow> string \<Rightarrow> client_location \<Rightarrow> bool" where
  "location_matches names needle l \<longleftrightarrow> needle = '''' \<or> text_includes needle (ipAddress l) \<or> text_includes needle (hwAddress l)
     \<or> text_includes needle (portInfo l) \<or> text_includes needle (or_empty (names (cl_deviceId l)))"

definition location_rows :: "(string \<Rightarrow> string \<Rightarrow> int) \<Rightarrow> string \<Rightarrow> net_device list \<Rightarrow> client_location list \<Rightarrow> client_location list" where
  "location_rows collate text_filter ds ls =
     js_sort (\<lambda>a b. collate (ipAddress a) (ipAddress b))
       (filter (location_matches (deviceById ds) (lower (trim text_filter))) ls)"

section \<open>Maintenance (pages/Maintenance.tsx)\<close>

record perf_rates =
  pollsPerSec :: real
  queriesPerSec :: real

record perf_sample =
  ps_polls :: int
  ps_queries :: int
  ps_t :: real

datatype maintenance_request = PutEvent "string option" | PutPolling bool | PostReset

record maintenance_page =
  prevPerf :: "perf_sample option"
  rates :: "perf_rates option"
  eventName :: "string option"
  confirmText :: string
  resetResult :: "nat option"
  mt_requests :: "maintenance_request list"
  reset_pending :: bool

definition new_maintenance :: maintenance_page where
  "new_maintenance = \<lparr>prevPerf = None, rates = None, eventName = None, confirmText = '''', resetResult = None,
     mt_requests = [], reset_pending = False\<rparr>"

text \<open>A new set of counters, at time \<open>t\<close> in milliseconds.\<close>

definition perf_effect :: "real \<Rightarrow> int \<Rightarrow> int \<Rightarrow> maintenance_page \<Rightarrow> maintenance_page" where
  "perf_effect t polls queries p =
     (let q = (case prevPerf p of
            None \<Rightarrow> p
          | Some prev \<Rightarrow>
              let dt = (t - ps_t prev) / 1000 in
              if dt > 0.5
              then p\<lparr>rates := Some \<lparr>pollsPerSec = max 0 (real_of_int (polls - ps_polls prev) / dt),
                     queriesPerSec = max 0 (real_of_int (queries - ps_queries prev) / dt)\<rparr>\<rparr>
              else p)
      in q\<lparr>prevPerf := Some \<lparr>ps_polls = polls, ps_queries = queries, ps_t = t\<rparr>\<rparr>)"

definition event_effect :: "string option \<Rightarrow> maintenance_page \<Rightarrow> maintenance_page" where
  "event_effect name p = (if eventName p = None then p\<lparr>eventName := Some (or_empty name)\<rparr> else p)"

definition saveEvent :: "maintenance_page \<Rightarrow> maintenance_page" where
  "saveEvent p = (case eventName p of None \<Rightarrow> p
     | Some n \<Rightarrow> p\<lparr>mt_requests := mt_requests p @ [PutEvent (or_null n)]\<rparr>)"

text \<open>The button is disabled unless the text is exactly \<^verbatim>\<open>RESET\<close> and no reset is under way.\<close>

definition reset_click :: "maintenance_page \<Rightarrow> maintenance_page" where
  "reset_click p =
     (if confirmText p \<noteq> ''RESET'' \<or> reset_pending p then p
      else p\<lparr>reset_pending := True, mt_requests := mt_requests p @ [PostReset]\<rparr>)"

definition reset_success :: "nat \<Rightarrow> maintenance_page \<Rightarrow> maintenance_page" where
  "reset_success deleted p =
     p\<lparr>reset_pending := False, resetResult := Some deleted, confirmText := '''', eventName := Some ''''\<rparr>"

text \<open>The master switch: the button sends the opposite of the state that is shown.\<close>

definition setPolling_click :: "bool \<Rightarrow> maintenance_page \<Rightarrow> maintenance_page" where
  "setPolling_click enabled p = p\<lparr>mt_requests := mt_requests p @ [PutPolling (\<not> enabled)]\<rparr>"

text \<open>The status of the system, with a badge and a text for each collector.\<close>

record system_status =
  sys_version :: string
  sys_startupTime :: real
  megaexcelUrl :: "string option"
  pollerEnabled :: bool
  pollLoopMsecs :: nat
  pingerEnabled :: bool
  ss_pollingEnabled :: bool
  deviceStatusSource :: string
  entitypollerEnabled :: bool
  entitypollerIntervalMsecs :: nat
  entitypollerSensorsEnabled :: bool
  entitypollerStpEnabled :: bool
  vlanpollerEnabled :: bool
  vlanpollerIntervalMsecs :: nat
  mqttEnabled :: bool
  mqttBroker :: "string option"
  mqttConnected :: "bool option"
  discoveryPeriodicEnabled :: bool
  discoveryIntervalSecs :: nat
  snmpMode :: string
  snmpbotUrl :: string
  snmpbotConnected :: "bool option"
  dbUrl :: string
  dbBackend :: string
  dbConnected :: bool
  dbMigrationsPending :: "bool option"
  weathermapDir :: "string option"

definition EnabledBadge :: "bool \<Rightarrow> string" where
  "EnabledBadge enabled = (if enabled then ''enabled'' else ''disabled'')"

definition collector :: "system_status \<Rightarrow> bool \<Rightarrow> string \<Rightarrow> string list" where
  "collector s enabled text_on =
     [EnabledBadge enabled] @ guarded (enabled \<and> \<not> ss_pollingEnabled s) ''paused'' @ guarded (enabled \<and> text_on \<noteq> '''') text_on"

definition seconds :: "nat \<Rightarrow> string" where
  "seconds ms = thousandths ms @ ''s''"

definition on_off :: "bool \<Rightarrow> string" where
  "on_off b = (if b then ''on'' else ''off'')"

definition connection_badge :: "string \<Rightarrow> string \<Rightarrow> string \<Rightarrow> bool option \<Rightarrow> string" where
  "connection_badge yes no unknown c = (case c of Some True \<Rightarrow> yes | Some False \<Rightarrow> no | None \<Rightarrow> unknown)"

definition dots :: string where "dots = [CHR 0xE2, CHR 0x80, CHR 0xA6]"

definition status_rows :: "system_status \<Rightarrow> (string \<times> string list) list" where
  "status_rows s =
     [(''SNMP poller'', collector s (pollerEnabled s) ('' polling every '' @ seconds (pollLoopMsecs s))),
      (''Pinger'', collector s (pingerEnabled s) '''' @
        ['' '' @ em_dash @ '' device up/down from '' @
          (if deviceStatusSource s = ''pinger'' then ''ICMP ping'' else ''SNMP poll responses'')]),
      (''Entity poller'', collector s (entitypollerEnabled s)
        ('' every '' @ seconds (entitypollerIntervalMsecs s) @ '' (sensors '' @ on_off (entitypollerSensorsEnabled s)
          @ '', STP '' @ on_off (entitypollerStpEnabled s) @ '')'')),
      (''VLAN poller'', collector s (vlanpollerEnabled s) ('' every '' @ seconds (vlanpollerIntervalMsecs s))),
      (''Periodic discovery'', [EnabledBadge (discoveryPeriodicEnabled s),
        if discoveryPeriodicEnabled s then '' every '' @ dec (discoveryIntervalSecs s) @ ''s'' else '' '' @ em_dash @ '' manual runs only'']),
      (''MQTT events'', if mqttEnabled s
        then [connection_badge ''connected'' ''disconnected'' (''connecting'' @ dots) (mqttConnected s), or_empty (mqttBroker s)]
        else [''disabled'']),
      (''SNMP backend'', if snmpMode s = ''embedded'' then [''embedded'', '' in-process SNMP'']
        else [''snmpbot'', '' external service over HTTP''])]
     @ (if snmpMode s = ''snmpbot''
        then [(''snmpbot status'', [connection_badge ''responding'' ''not responding'' (''checking'' @ dots) (snmpbotConnected s),
               snmpbotUrl s])]
        else [])
     @ [(''Database'', [if dbConnected s then ''connected'' else ''unreachable'']
          @ guarded (dbMigrationsPending s = Some True) ''migrations pending''
          @ [dbBackend s @ middle_dot @ dbUrl s]),
        (''Weathermap statics'', [case weathermapDir s of Some d \<Rightarrow> d
           | None \<Rightarrow> ''directory not found '' @ em_dash @ '' not served''])]"

section \<open>The VLAN page and the discovery status\<close>

record vlans_page =
  vp_vlans :: "vlan_summary list"
  vp_filter :: string
  vp_expanded :: "nat list"
  vp_pending :: bool
  vp_requests :: "(nat \<times> vlan_policy_level) list"
  vp_effects :: "page_effect list"

definition setPolicy :: "nat \<Rightarrow> vlan_policy_level \<Rightarrow> vlans_page \<Rightarrow> vlans_page" where
  "setPolicy vlan level p =
     (if vp_pending p then p else p\<lparr>vp_pending := True, vp_requests := vp_requests p @ [(vlan, level)]\<rparr>)"

text \<open>The answer holds the new inventory, which replaces the one that is shown.\<close>

definition setPolicy_settled :: "vlan_summary list option \<Rightarrow> vlans_page \<Rightarrow> vlans_page" where
  "setPolicy_settled updated p =
     (case updated of
        None \<Rightarrow> p\<lparr>vp_pending := False\<rparr>
      | Some vs \<Rightarrow> p\<lparr>vp_pending := False, vp_vlans := vs, vp_effects := vp_effects p @ [Invalidate DevicesQuery]\<rparr>)"

definition vlan_toggle :: "nat \<Rightarrow> vlans_page \<Rightarrow> vlans_page" where
  "vlan_toggle n p = p\<lparr>vp_expanded := set_toggle n (vp_expanded p)\<rparr>"

text \<open>A row: id, names, conflict, switches, native and tagged ports, level.\<close>

record vlan_row =
  vr_id :: nat
  vr_names :: string
  vr_conflict :: bool
  vr_switches :: nat
  vr_native :: nat
  vr_tagged :: nat
  vr_level :: vlan_policy_level

definition vlan_row_of :: "vlan_summary \<Rightarrow> vlan_row" where
  "vlan_row_of v =
     \<lparr>vr_id = vs_id v, vr_names = (case vlanNameLabel (vs_names v) of None \<Rightarrow> em_dash | Some s \<Rightarrow> s),
      vr_conflict = (length (vs_names v) > 1), vr_switches = length (vs_devices v),
      vr_native = sum_list (map nativePorts (vs_devices v)), vr_tagged = sum_list (map taggedPorts (vs_devices v)),
      vr_level = shown_policy v\<rparr>"

definition vlan_table :: "vlans_page \<Rightarrow> (vlan_row \<times> vlan_device list option) list" where
  "vlan_table p =
     map (\<lambda>v. (vlan_row_of v, if vs_id v \<in> set (vp_expanded p) then Some (vs_devices v) else None))
       (vlan_rows (vp_filter p) (vp_vlans p))"

record discovery_status =
  ds_running :: bool
  lastStarted :: "int option"
  lastFinished :: "int option"
  devicesFound :: "nat option"
  devicesFailed :: "nat option"
  linksFound :: "nat option"
  lastError :: "string option"

definition configReady :: "discovery_config option \<Rightarrow> bool" where
  "configReady c = (case c of None \<Rightarrow> False | Some d \<Rightarrow> truthy_text (dc_rootDevice d) \<and> truthy_text (dc_community d))"

definition run_disabled :: "discovery_status \<Rightarrow> bool \<Rightarrow> discovery_page \<Rightarrow> bool" where
  "run_disabled s is_pending p \<longleftrightarrow> ds_running s \<or> is_pending \<or> \<not> configReady (dp_config p)"

text \<open>The rows of the status; \<open>time\<close>: \<^verbatim>\<open>formatTimestamp\<close>, in the format of the browser's locale.\<close>

definition discovery_rows :: "(int option \<Rightarrow> string) \<Rightarrow> discovery_status \<Rightarrow> (string \<times> string) list" where
  "discovery_rows time s =
     [(''Status'', if ds_running s then ''running'' @ dots else ''idle''),
      (''Last started'', time (lastStarted s)), (''Last finished'', time (lastFinished s)),
      (''Devices found'', opt_dec (devicesFound s)), (''Devices failed'', opt_dec (devicesFailed s)),
      (''Links found'', opt_dec (linksFound s))]
     @ (if truthy_text (lastError s) then [(''Last error'', the (lastError s))] else [])"

end
