(* ===== verification/ClientProps.thy ===== *)
theory ClientProps
  imports NexusClient
begin

text \<open>
  Properties of the client: addresses lose nothing of a name, and the views that follow a live socket
  show what its run delivered.
\<close>

section \<open>Addresses\<close>

text \<open>Decoding, byte by byte.\<close>

definition hex_value :: "char \<Rightarrow> nat" where
  "hex_value c = (let n = of_char c :: nat in if n < 58 then n - 48 else n - 55)"

fun decode :: "string \<Rightarrow> string" where
  "decode [] = []"
| "decode [c] = [c]"
| "decode [c, d] = [c, d]"
| "decode (c # d # e # s) =
     (if c = CHR ''%'' then char_of (16 * hex_value d + hex_value e) # decode s else c # decode (d # e # s))"

lemma hex_value: "d < 16 \<Longrightarrow> hex_value (hex_upper d) = d"
  by (auto simp: hex_value_def hex_upper_def Let_def)

lemma unreserved_not: "unreserved c \<Longrightarrow> c \<noteq> CHR ''%'' \<and> c \<noteq> CHR ''/''"
  by (auto simp: unreserved_def Let_def)

lemma hex_upper_not: "d < 16 \<Longrightarrow> hex_upper d \<noteq> CHR ''/''"
proof
  assume "d < 16" "hex_upper d = CHR ''/''"
  then have "(of_char (hex_upper d) :: nat) = 47" by simp
  with \<open>d < 16\<close> show False by (auto simp: hex_upper_def split: if_splits)
qed

lemma of_char_hex: "(of_char c :: nat) div 16 < 16" for c
  using nat_of_char_less_256 [of c] by linarith

lemma decode_unreserved: "unreserved c \<Longrightarrow> decode (c # s) = c # decode s"
  using unreserved_not [of c] by (cases s rule: decode.cases) auto

lemma decode_encode: "decode (encodeURIComponent s) = s"
proof (induction s)
  case (Cons c s)
  then show ?case
    using of_char_hex [of c]
    by (simp add: encodeURIComponent_def encode_byte_def decode_unreserved Let_def hex_value mult.commute)
qed (simp add: encodeURIComponent_def)

lemma encode_no_slash: "CHR ''/'' \<notin> set (encodeURIComponent s)"
proof -
  have "CHR ''/'' \<notin> set (encode_byte c)" for c
  proof (cases "unreserved c")
    case True
    then show ?thesis using unreserved_not by (auto simp: encode_byte_def)
  next
    case False
    then show ?thesis
      using hex_upper_not [OF of_char_hex, of c] hex_upper_not [of "(of_char c :: nat) mod 16"]
      by (auto simp: encode_byte_def Let_def)
  qed
  then show ?thesis by (auto simp: encodeURIComponent_def)
qed

lemma encode_nil: "encodeURIComponent s = [] \<longleftrightarrow> s = []"
  by (cases s) (auto simp: encodeURIComponent_def encode_byte_def Let_def)

lemma split_segments: "c \<notin> set w \<Longrightarrow> split c (w @ c # s) = w # split c s"
  by (rule split_append)

text \<open>
  What \<^verbatim>\<open>fetch\<close> and \<^verbatim>\<open>WebSocket\<close> make of a path: the parser of URLs takes segments of one
  and of two dots out, encoded or not; one that stands last leaves an empty segment.
\<close>

definition single_dot :: "string \<Rightarrow> bool" where
  "single_dot s \<longleftrightarrow> s \<in> set [''.'', ''%2e'', ''%2E'']"

definition double_dot :: "string \<Rightarrow> bool" where
  "double_dot s \<longleftrightarrow> s \<in> set [''..'', ''.%2e'', ''.%2E'', ''%2e.'', ''%2E.'', ''%2e%2e'', ''%2e%2E'', ''%2E%2e'', ''%2E%2E'']"

fun resolve :: "string list \<Rightarrow> string list \<Rightarrow> string list" where
  "resolve acc [] = acc"
| "resolve acc [s] =
     (if double_dot s then butlast acc @ [''''] else if single_dot s then acc @ [''''] else acc @ [s])"
| "resolve acc (s # t # ss) =
     resolve (if double_dot s then butlast acc else if single_dot s then acc else acc @ [s]) (t # ss)"

definition url_path :: "string \<Rightarrow> string list" where
  "url_path path = resolve [] (tl (split (CHR ''/'') path))"

definition socket_target :: "string \<Rightarrow> string \<times> string \<times> string list" where
  "socket_target url = (let ws = split (CHR ''/'') url in (ws ! 0, ws ! 2, resolve [] (drop 3 ws)))"

lemma encode_eq: "encodeURIComponent s = w \<Longrightarrow> s = decode w"
  using decode_encode [of s] by simp

lemma encode_inj: "encodeURIComponent s = encodeURIComponent s' \<longleftrightarrow> s = s'"
  by (metis decode_encode)

lemma encode_dots: "encodeURIComponent ''.'' = ''.''" "encodeURIComponent ''..'' = ''..''"
  by code_simp+

lemma dots_encoded:
  "single_dot (encodeURIComponent s) \<longleftrightarrow> s = ''.''"
  "double_dot (encodeURIComponent s) \<longleftrightarrow> s = ''..''"
proof -
  have one: "list_all (\<lambda>w. encodeURIComponent (decode w) = w \<longrightarrow> decode w = ''.'') [''.'', ''%2e'', ''%2E'']" by code_simp
  have two: "list_all (\<lambda>w. encodeURIComponent (decode w) = w \<longrightarrow> decode w = ''..'')
      [''..'', ''.%2e'', ''.%2E'', ''%2e.'', ''%2E.'', ''%2e%2e'', ''%2e%2E'', ''%2E%2e'', ''%2E%2E'']" by code_simp
  show "single_dot (encodeURIComponent s) \<longleftrightarrow> s = ''.''"
    using one [unfolded list_all_iff, rule_format, of "encodeURIComponent s"]
    by (auto simp: single_dot_def decode_encode encode_dots)
  show "double_dot (encodeURIComponent s) \<longleftrightarrow> s = ''..''"
    using two [unfolded list_all_iff, rule_format, of "encodeURIComponent s"]
    by (auto simp: double_dot_def decode_encode encode_dots)
qed

lemma not_dots: "\<not> single_dot ''api''" "\<not> double_dot ''api''" "\<not> single_dot ''v1''" "\<not> double_dot ''v1''"
  "\<not> single_dot ''devices''" "\<not> double_dot ''devices''" "\<not> single_dot ''entity''" "\<not> double_dot ''entity''"
  "\<not> single_dot ''snmp-sessions''" "\<not> double_dot ''snmp-sessions''" "\<not> single_dot ''vlans''" "\<not> double_dot ''vlans''"
  "\<not> single_dot ''poll''" "\<not> double_dot ''poll''" "\<not> single_dot ''ws''" "\<not> double_dot ''ws''"
  "\<not> single_dot ''logs''" "\<not> double_dot ''logs''"
  by (simp_all add: single_dot_def double_dot_def)

text \<open>The segments that arrive, for a name and what follows it in the path.\<close>

definition arrives :: "string list \<Rightarrow> string \<Rightarrow> string list \<Rightarrow> string list" where
  "arrives prefix name rest =
     (if name = ''..'' then butlast prefix @ (if rest = [] then [''''] else rest)
      else if name = ''.'' then prefix @ (if rest = [] then [''''] else rest)
      else prefix @ encodeURIComponent name # rest)"

lemma split_address: "split (CHR ''/'') (encodeURIComponent name) = [encodeURIComponent name]"
  "split (CHR ''/'') (encodeURIComponent name @ CHR ''/'' # s) = encodeURIComponent name # split (CHR ''/'') s"
  by (rule split_none, rule encode_no_slash) (rule split_append, rule encode_no_slash)

lemma addresses_arrive:
  "url_path (device_path f) = arrives [''api'', ''v1'', ''devices''] f []"
  "url_path (deviceEntity_path f) = arrives [''api'', ''v1'', ''devices''] f [''entity'']"
  "url_path (deviceSnmpSessions_path f) = arrives [''api'', ''v1'', ''devices''] f [''snmp-sessions'']"
  "url_path (pollVlans_path f) = arrives [''api'', ''v1'', ''devices''] f [''vlans'', ''poll'']"
  by (simp_all add: url_path_def device_path_def deviceEntity_path_def deviceSnmpSessions_path_def pollVlans_path_def
      split_address not_dots dots_encoded arrives_def)

lemma socket_arrives:
  "CHR ''/'' \<notin> set host \<Longrightarrow> socket_target (liveLogSocketUrl https host topic) =
    ((if https then ''wss:'' else ''ws:''), host, arrives [''api'', ''v1'', ''ws'', ''logs''] topic [])"
  by (simp add: socket_target_def liveLogSocketUrl_def split_address split_append not_dots dots_encoded arrives_def Let_def)

definition device_addresses :: "(string \<Rightarrow> string) list" where
  "device_addresses = [device_path, deviceEntity_path, deviceSnmpSessions_path, pollVlans_path]"

text \<open>C39: What is asked of a device is asked of that device: after the parser of URLs has resolved the
  paths, two of the four addresses of devices are the same only for the same device and the same
  sub-resource, and the last segment of a device's address decodes to its name; the same holds for the
  topics of the live sockets.  Names of one and of two dots are the exception, since they are not encoded
  and the parser takes them out: the one is the address of the device without a name and its entity that
  of a device called entity, the other leaves the devices altogether.\<close>

theorem addresses_roundtrip:
  assumes "f \<notin> {''.'', ''..''}" and "g \<notin> {''.'', ''..''}"
  shows "(\<forall>i<4. \<forall>j<4. url_path ((device_addresses ! i) f) = url_path ((device_addresses ! j) g) \<longleftrightarrow> i = j \<and> f = g)
    \<and> url_path (device_path f) = [''api'', ''v1'', ''devices'', encodeURIComponent f] \<and> decode (encodeURIComponent f) = f
    \<and> (CHR ''/'' \<notin> set host \<longrightarrow>
        (socket_target (liveLogSocketUrl https host f) = socket_target (liveLogSocketUrl https host g) \<longleftrightarrow> f = g))
    \<and> url_path (device_path ''.'') = url_path (device_path '''')
    \<and> url_path (deviceEntity_path ''.'') = url_path (device_path ''entity'')
    \<and> url_path (device_path ''..'') = [''api'', ''v1'', '''']"
proof -
  have four: "i < 4 \<longleftrightarrow> i \<in> {0, 1, 2, 3}" for i :: nat by auto
  have "\<forall>i<4. \<forall>j<4. url_path ((device_addresses ! i) f) = url_path ((device_addresses ! j) g) \<longleftrightarrow> i = j \<and> f = g"
    using assms unfolding four by (auto simp: device_addresses_def addresses_arrive arrives_def encode_inj)
  moreover have "encodeURIComponent '''' = ''''" "encodeURIComponent ''entity'' = ''entity''" by code_simp+
  ultimately show ?thesis
    using assms by (simp add: addresses_arrive socket_arrives arrives_def encode_inj decode_encode)
qed

theorem addresses_roundtrip_witness:
  "url_path (device_path ''sw/1.net'') \<noteq> url_path (device_path ''sw1.net'')
    \<and> url_path (deviceEntity_path ''sw1.net'') \<noteq> url_path (pollVlans_path ''sw1.net'')"
proof -
  have "\<forall>i<4. \<forall>j<4. url_path ((device_addresses ! i) ''sw/1.net'') = url_path ((device_addresses ! j) ''sw1.net'') \<longleftrightarrow>
      i = j \<and> ''sw/1.net'' = ''sw1.net''"
    using addresses_roundtrip [of "''sw/1.net''" "''sw1.net''"] by simp
  from this [rule_format, of 0 0] have "url_path (device_path ''sw/1.net'') \<noteq> url_path (device_path ''sw1.net'')"
    by (simp add: device_addresses_def)
  moreover have "\<forall>i<4. \<forall>j<4. url_path ((device_addresses ! i) ''sw1.net'') = url_path ((device_addresses ! j) ''sw1.net'') \<longleftrightarrow> i = j"
    using addresses_roundtrip [of "''sw1.net''" "''sw1.net''"] by simp
  from this [rule_format, of 1 3] have "url_path (deviceEntity_path ''sw1.net'') \<noteq> url_path (pollVlans_path ''sw1.net'')"
    by (simp add: device_addresses_def)
  ultimately show ?thesis by blast
qed

section \<open>What a run of the hook delivers\<close>

fun delivered :: "socket_event \<Rightarrow> callback option" where
  "delivered (Opened i) = Some OnOpen"
| "delivered (Frame i (Data d)) = Some (OnMessage d)"
| "delivered e = None"

definition deliveries :: "socket_event list \<Rightarrow> callback list" where
  "deliveries es = List.map_filter delivered es"

lemma deliveries_snoc [simp]: "deliveries [] = []"
  "deliveries (es @ [e]) = deliveries es @ (case delivered e of None \<Rightarrow> [] | Some c \<Rightarrow> [c])"
  by (simp_all add: deliveries_def map_filter_def split: option.split)

lemma calls_kept [simp]:
  "calls (clear_timer r s) = calls s" "calls (set_ready i q s) = calls s" "calls (close_socket r s) = calls s"
  "calls (clearProbe s) = calls s" "calls (snd (set_timer d tm s)) = calls s"
  by (simp_all add: clear_timer_def set_ready_def close_socket_def clearProbe_def set_timer_def split: option.split)

lemma calls_connect [simp]: "calls (connect e s) = calls s"
  by (simp add: connect_def Let_def set_timer_def)

lemma calls_checkConnection [simp]: "calls (checkConnection fails e s) = calls s"
  by (simp add: checkConnection_def Let_def set_timer_def)

lemma calls_other [simp]:
  "calls (onclose i e s) = calls s" "calls (timeout tm s) = calls s" "calls (onWake fails e s) = calls s"
  "calls (onOffline s) = calls s" "calls (watchdog fails e s) = calls s" "calls (run_effect topic s) = calls s"
  "calls (cleanup s) = calls s" "calls (nudge fails s) = calls s"
  by (simp_all add: onclose_def onWake_def onOffline_def watchdog_def run_effect_def cleanup_def nudge_def Let_def
      set_timer_def split: option.split) (cases tm; simp)

lemma calls_step:
  "live_step s e t \<Longrightarrow> map snd (calls t) = map snd (calls s) @ (case delivered e of None \<Rightarrow> [] | Some c \<Rightarrow> [c])"
  by (erule live_stepE) (auto simp: onopen_def onmessage_def Let_def split: frame.split)

lemma calls_run: "live.run s es t \<Longrightarrow> map snd (calls t) = map snd (calls s) @ deliveries es"
  by (induction rule: live.run.induct) (simp_all add: calls_step)

section \<open>The live log\<close>

definition since_open :: "callback list \<Rightarrow> callback list" where
  "since_open cs = rev (takeWhile (\<lambda>c. c \<noteq> OnOpen) (rev cs))"

definition entries :: "(string \<Rightarrow> live_log_line option) \<Rightarrow> callback list \<Rightarrow> live_log_line list" where
  "entries line_of cs = List.map_filter (\<lambda>c. case c of OnOpen \<Rightarrow> None | OnMessage d \<Rightarrow> line_of d) cs"

definition newest :: "nat \<Rightarrow> 'a list \<Rightarrow> 'a list" where
  "newest n xs = drop (length xs - n) xs"

lemma newest_snoc: "newest (Suc n) (newest (Suc n) xs @ [x]) = newest (Suc n) (xs @ [x])"
proof (cases "length xs \<le> n")
  case False
  then have "Suc (length xs - Suc n) = length xs - n" by simp
  then show ?thesis using False by (simp add: newest_def drop_Suc)
qed (simp add: newest_def)

lemma livelog_calls: "livelog line_of cs = fold (livelog_call line_of) (map snd cs) []"
  unfolding livelog_def by (simp add: fold_map comp_def case_prod_unfold)

lemma livelog_newest: "fold (livelog_call line_of) cs [] = newest MAX_LINES (entries line_of (since_open cs))"
proof (induction cs rule: rev_induct)
  case Nil
  then show ?case by (simp add: newest_def entries_def since_open_def map_filter_def)
next
  case (snoc c cs)
  show ?case
  proof (cases c)
    case OnOpen
    then show ?thesis by (simp add: livelog_call_def newest_def entries_def since_open_def map_filter_def)
  next
    case (OnMessage d)
    then have open': "since_open (cs @ [c]) = since_open cs @ [c]" by (simp add: since_open_def)
    show ?thesis
    proof (cases "line_of d")
      case None
      then show ?thesis using snoc OnMessage unfolding open' by (simp add: livelog_call_def entries_def map_filter_def)
    next
      case (Some l)
      then have "entries line_of (since_open (cs @ [c])) = entries line_of (since_open cs) @ [l]"
        using OnMessage unfolding open' by (simp add: entries_def map_filter_def)
      moreover have "livelog_call line_of c ls = newest MAX_LINES (ls @ [l])" for ls
        using OnMessage Some by (simp add: livelog_call_def newest_def Let_def)
      moreover have "MAX_LINES = Suc 999" by (simp add: MAX_LINES_def)
      ultimately show ?thesis using snoc newest_snoc [of 999 "entries line_of (since_open cs)" l] by simp
    qed
  qed
qed

text \<open>C24: The live log refines its connection: after any run of the hook it shows exactly the newest thousand
  valid lines received since the socket last opened, in order, so the backlog that the server replays
  after a reconnection is never shown twice.\<close>

theorem live_log_view:
  assumes "live.run (new_live_socket t on hid) es s"
  shows "livelog line_of (calls s) = newest 1000 (entries line_of (since_open (deliveries es)))
    \<and> length (livelog line_of (calls s)) \<le> 1000"
proof -
  have "map snd (calls s) = deliveries es" using calls_run [OF assms] by (simp add: new_live_socket_def)
  then have "livelog line_of (calls s) = newest 1000 (entries line_of (since_open (deliveries es)))"
    by (simp add: livelog_calls livelog_newest MAX_LINES_def)
  then show ?thesis by (simp add: newest_def)
qed

definition reconnecting :: "socket_event list" where
  "reconnecting = [Mount ''log'', Opened 0, Frame 0 (Data ''a''), Frame 0 (Data ''b''), Closed 0, Elapse 600, Fire 1, Opened 1,
     Frame 1 (Data ''a''), Frame 1 Pong, Frame 1 (Data ''b''), Frame 1 (Data ''c'')]"

definition reconnected :: live_socket where
  "reconnected = the (live_runs reconnecting (new_live_socket 0 True False))"

lemma reconnected_run: "live.run (new_live_socket 0 True False) reconnecting reconnected"
proof (rule live_runs_run)
  show "live_runs reconnecting (new_live_socket 0 True False) = Some reconnected"
    unfolding reconnected_def reconnecting_def
    by (simp add: new_live_socket_def run_effect_def connect_def onopen_def onmessage_def onclose_def Let_def delays
        set_timer_def current_def ready_def set_ready_def clear_timer_def clearProbe_def)
qed

theorem live_log_view_witness:
  "livelog (\<lambda>d. Some \<lparr>ll_ts = 0, ll_line = d\<rparr>) (calls reconnected) = map (\<lambda>d. \<lparr>ll_ts = 0, ll_line = d\<rparr>) [''a'', ''b'', ''c'']"
  using live_log_view [OF reconnected_run, of "\<lambda>d. Some \<lparr>ll_ts = 0, ll_line = d\<rparr>"]
  by (simp add: reconnecting_def deliveries_def map_filter_def since_open_def entries_def newest_def)

section \<open>The application\<close>

definition opens :: "callback list \<Rightarrow> nat" where
  "opens cs = length (filter (\<lambda>c. c = OnOpen) cs)"

lemma app_calls_snd: "app_calls event_of cs a = fold (app_call event_of) (map snd cs) a"
  unfolding app_calls_def by (simp add: fold_map comp_def case_prod_unfold)

lemma app_opens:
  "hasConnected (fold (app_call event_of) cs new_app_view) = (opens cs > 0)
    \<and> length (filter (\<lambda>q. q = AllQueries) (app_invalidated (fold (app_call event_of) cs new_app_view))) = opens cs - 1"
proof (induction cs rule: rev_induct)
  case (snoc c cs)
  then show ?case by (cases c) (auto simp: app_call_def opens_def)
qed (simp add: new_app_view_def opens_def)

text \<open>The application fetches everything again exactly once for each reconnection: after any run of the
  hook, the number of blanket refetches is the number of times a socket opened, less the first.\<close>

theorem app_refetches:
  assumes "live.run (new_live_socket t on hid) es s"
  shows "length (filter (\<lambda>q. q = AllQueries) (app_invalidated (app_calls event_of (calls s) new_app_view)))
    = length (filter (\<lambda>e. \<exists>i. e = Opened i) es) - 1"
proof -
  have "map snd (calls s) = deliveries es" using calls_run [OF assms] by (simp add: new_live_socket_def)
  moreover have "opens (deliveries es) = length (filter (\<lambda>e. \<exists>i. e = Opened i) es)"
  proof (induction es rule: rev_induct)
    case (snoc e es)
    have "(case delivered e of None \<Rightarrow> [] | Some c \<Rightarrow> [c]) = (if \<exists>i. e = Opened i then [OnOpen]
        else case delivered e of None \<Rightarrow> [] | Some c \<Rightarrow> [c])" by auto
    moreover have "delivered e \<noteq> Some OnOpen" if "\<nexists>i. e = Opened i" using that by (cases e rule: delivered.cases) auto
    ultimately show ?case using snoc by (auto simp: opens_def split: option.split)
  qed (simp add: opens_def)
  ultimately show ?thesis using app_opens [of event_of "deliveries es"] by (simp add: app_calls_snd)
qed

theorem app_refetches_witness:
  "length (filter (\<lambda>q. q = AllQueries) (app_invalidated (app_calls Some (calls reconnected) new_app_view))) = 1"
  using app_refetches [OF reconnected_run, of Some] by (simp add: reconnecting_def)

end
