(* ===== verification/FormProps.thy ===== *)
theory FormProps
  imports NexusForms ClientProps
begin

text \<open>
  Properties of the forms: what the discovery form shows reads back as the configuration, which device
  names the add form takes, and what the rate display computes.
\<close>

section \<open>Trimming\<close>

lemma dropWhile_idem [simp]: "dropWhile P (dropWhile P xs) = dropWhile P xs"
  by (induction xs) auto

lemma trim_Cons_space: "is_space c \<Longrightarrow> trim (c # s) = trim s"
  by (simp add: trim_def)

lemma set_trim: "set (trim s) \<subseteq> set s"
  by (metis set_dropWhileD set_rev subsetI trim_def)

lemma trim_nil [simp]: "trim [] = []"
  by (simp add: trim_def)

lemma hd_dropWhile_rev:
  "dropWhile P xs = xs \<Longrightarrow> dropWhile P (rev (dropWhile P (rev xs))) = rev (dropWhile P (rev xs))"
proof (cases xs)
  case (Cons x xs')
  assume "dropWhile P xs = xs"
  then have x: "\<not> P x" using Cons length_dropWhile_le [of P xs'] by (auto split: if_splits)
  have "dropWhile P (rev xs' @ [x]) = dropWhile P (rev xs') @ [x]"
    using x by (induction "rev xs'" arbitrary: xs') (auto simp: dropWhile_append)
  then show ?thesis using x Cons by simp
qed simp

lemma trim_trim [simp]: "trim (trim s) = trim s"
  unfolding trim_def by (simp add: hd_dropWhile_rev)

section \<open>Comma separated lists\<close>

definition csv_item :: "string \<Rightarrow> bool" where
  "csv_item s \<longleftrightarrow> s \<noteq> '''' \<and> trim s = s \<and> CHR '','' \<notin> set s"

lemma split_csv:
  "(\<And>w. w \<in> set ws \<Longrightarrow> CHR '','' \<notin> set w) \<Longrightarrow>
    split (CHR '','') (join '', '' ws) = (case ws of [] \<Rightarrow> [''''] | w # us \<Rightarrow> w # map (\<lambda>u. CHR '' '' # u) us)"
proof (induction "'', ''" ws rule: join.induct)
  case (3 w v us)
  have "split (CHR '','') (CHR '' '' # join '', '' (v # us)) = (CHR '' '' # v) # map (\<lambda>u. CHR '' '' # u) us"
    using 3 by simp
  then show ?case using 3(2) by (simp add: split_append)
qed (simp_all add: split_none)

lemma splitCsv_join: "list_all csv_item ws \<Longrightarrow> splitCsv (join '', '' ws) = ws"
proof -
  assume ok: "list_all csv_item ws"
  have sp: "is_space (CHR '' '')" by (simp add: is_space_def)
  have tr: "map trim vs = vs" "filter (\<lambda>s. length s > 0) vs = vs" if "set vs \<subseteq> set ws" for vs
    using ok that by (auto simp: csv_item_def list_all_iff intro!: map_idI filter_True)
  have "map trim (split (CHR '','') (join '', '' ws)) = (if ws = [] then [''''] else ws)"
  proof (cases ws)
    case (Cons w us)
    then show ?thesis
      using ok tr(1) [of us] tr(1) [of ws]
      by (subst split_csv) (auto simp: csv_item_def list_all_iff trim_Cons_space sp comp_def)
  qed simp
  then show ?thesis using tr [of ws] by (simp add: splitCsv_def)
qed

lemma splitCsv_items: "list_all csv_item (splitCsv s)"
  using set_trim split_parts by (fastforce simp: splitCsv_def csv_item_def list_all_iff)

section \<open>The discovery form\<close>

definition remap_item :: "string \<times> string \<Rightarrow> bool" where
  "remap_item e \<longleftrightarrow> fst e \<noteq> '''' \<and> CHR '':'' \<notin> set (fst e) \<and> csv_item (fst e @ '':'' @ snd e)"

definition filled :: "string option \<Rightarrow> bool" where
  "filled v \<longleftrightarrow> (case v of None \<Rightarrow> True | Some s \<Rightarrow> s \<noteq> '''' \<and> trim s = s)"

text \<open>What the form can express: no blank or untrimmed values, and no commas in lists.\<close>

definition config_ok :: "discovery_config \<Rightarrow> bool" where
  "config_ok c \<longleftrightarrow> filled (dc_rootDevice c) \<and> filled (dc_community c) \<and> list_all csv_item (dc_dnsDomains c)
     \<and> list_all csv_item (dc_ignore c) \<and> obj_ok (dc_remap c) \<and> list_all remap_item (dc_remap c)"

text \<open>The same configuration; the remap is a dictionary, its order does not matter.\<close>

definition same_config :: "discovery_config \<Rightarrow> discovery_config \<Rightarrow> bool" where
  "same_config a b \<longleftrightarrow> a\<lparr>dc_remap := []\<rparr> = b\<lparr>dc_remap := []\<rparr> \<and> obj_get (dc_remap a) = obj_get (dc_remap b)"

lemma or_null_or_empty: "filled v \<Longrightarrow> or_null (or_empty v) = v"
  by (auto simp: filled_def or_null_def or_empty_def split: option.splits)

lemma filled_or_null: "filled (or_null s)"
  by (simp add: filled_def or_null_def)

lemma remap_entry_item:
  "remap_item e \<Longrightarrow> remap_entry (fst e @ '':'' @ snd e) d = obj_set (fst e) (snd e) d"
  using index_of_append [of "CHR '':''" "fst e" "snd e"] by (auto simp: remap_item_def remap_entry_def)

lemma fold_obj_set:
  "obj_get (fold (\<lambda>e. obj_set (fst e) (snd e)) es d) k = (case map_of (rev es) k of None \<Rightarrow> obj_get d k | Some v \<Rightarrow> Some v)"
  by (induction es arbitrary: d) (auto simp: map_add_def split: option.split)

lemma map_of_obj: "obj_ok d \<Longrightarrow> map_of (rev (obj_entries d)) k = obj_get d k"
proof -
  assume ok: "obj_ok d"
  then have "distinct (map fst (obj_entries d))" by (simp add: distinct_map_entries obj_ok_def)
  then have "map_of (rev (obj_entries d)) = map_of (obj_entries d)"
    by (intro map_of_eqI) (auto simp: map_of_eq_Some_iff distinct_map simp flip: rev_map)
  then show ?thesis using obj_get_entries [OF ok, of k] by (simp add: obj_get_def)
qed

lemma remap_roundtrip:
  assumes "obj_ok d" and "list_all remap_item d"
  shows "obj_get (fold remap_entry (splitCsv (join '', '' (map (\<lambda>(src, dst). src @ '':'' @ dst) (obj_entries d)))) []) = obj_get d"
proof
  fix k
  let ?es = "obj_entries d"
  have items: "list_all remap_item ?es" using assms(2) by (simp add: list_all_iff)
  then have "splitCsv (join '', '' (map (\<lambda>(src, dst). src @ '':'' @ dst) ?es)) = map (\<lambda>(src, dst). src @ '':'' @ dst) ?es"
    by (intro splitCsv_join) (auto simp: list_all_iff remap_item_def)
  moreover have "fold remap_entry (map (\<lambda>(src, dst). src @ '':'' @ dst) es) d' = fold (\<lambda>e. obj_set (fst e) (snd e)) es d'"
    if "list_all remap_item es" for es d'
    using that by (induction es arbitrary: d') (auto simp: remap_entry_item [of "(_, _)", simplified])
  ultimately show "obj_get (fold remap_entry (splitCsv (join '', '' (map (\<lambda>(src, dst). src @ '':'' @ dst) ?es))) []) k = obj_get d k"
    using items by (simp add: fold_obj_set map_of_obj [OF assms(1)] split: option.split)
qed

lemma set_obj_set: "set (obj_set k v d) \<subseteq> insert (k, v) (set d)"
  unfolding obj_set_def by (induction d) auto

lemma remap_entry_ok:
  "csv_item entry \<Longrightarrow> obj_ok d \<and> list_all remap_item d \<Longrightarrow> obj_ok (remap_entry entry d) \<and> list_all remap_item (remap_entry entry d)"
proof (cases "index_of (CHR '':'') entry")
  case (Some i)
  assume item: "csv_item entry" and ok: "obj_ok d \<and> list_all remap_item d"
  have i: "i < length entry" "entry ! i = CHR '':''" "CHR '':'' \<notin> set (take i entry)" using Some by (simp_all add: index_of_Some)
  have "entry = take i entry @ '':'' @ drop (i + 1) entry" using id_take_nth_drop [OF i(1)] i(2) by simp
  then have "remap_item (take i entry, drop (i + 1) entry)" if "i > 0"
    using that item i by (cases entry) (auto simp: remap_item_def)
  moreover have "list_all remap_item (obj_set k v d)" if "remap_item (k, v)" for k v
    using ok that set_obj_set [of k v d] by (auto simp: list_all_iff)
  ultimately show ?thesis using ok Some by (simp add: remap_entry_def)
qed (simp add: remap_entry_def)

text \<open>C26: The discovery form loses nothing: every configuration the form can produce is one without blank
  values and without commas in its lists, and saving the form that such a configuration fills gives
  the same configuration back, remaps included.\<close>

theorem discovery_form_roundtrip:
  "config_ok (fromForm f) \<and> same_config (fromForm (toForm (fromForm f))) (fromForm f)
    \<and> (\<forall>c. config_ok c \<longrightarrow> same_config (fromForm (toForm c)) c)"
proof -
  have ok: "config_ok (fromForm f)"
  proof -
    have "obj_ok (fold remap_entry es d) \<and> list_all remap_item (fold remap_entry es d)"
      if "list_all csv_item es" "obj_ok d \<and> list_all remap_item d" for es d
      using that by (induction es arbitrary: d) (auto simp: remap_entry_ok)
    from this [of "splitCsv (fs_remap f)" "[]"] show ?thesis
      by (simp add: config_ok_def fromForm_def filled_or_null splitCsv_items)
  qed
  have again: "same_config (fromForm (toForm c)) c" if "config_ok c" for c
    using that remap_roundtrip [of "dc_remap c"]
    by (simp add: config_ok_def same_config_def fromForm_def toForm_def or_null_or_empty splitCsv_join)
  show ?thesis using ok again by blast
qed

theorem discovery_form_roundtrip_witness:
  "\<exists>c. dc_rootDevice c = Some ''core'' \<and> dc_remap c = [(''a'', ''b''), (''10'', ''c d'')] \<and> config_ok c \<and> same_config (fromForm (toForm c)) c"
proof -
  define c where "c = \<lparr>dc_rootDevice = Some ''core'', dc_community = None, dc_dnsDomains = [''x.net'', ''y.net''], dc_ignore = [],
    dc_remap = [(''a'', ''b''), (''10'', ''c d'')], dc_topologyStable = True, dc_periodicEnabled = False, dc_intervalSecs = 300\<rparr>"
  have "config_ok c" unfolding c_def by code_simp
  with discovery_form_roundtrip have "same_config (fromForm (toForm c)) c" by blast
  with \<open>config_ok c\<close> show ?thesis by (intro exI [of _ c]) (simp add: c_def)
qed

section \<open>Adding a device\<close>

definition added_device :: "string \<Rightarrow> string \<Rightarrow> string option \<Rightarrow> device_update" where
  "added_device name domain community =
     \<lparr>du_name = name, du_dnsDomain = domain, du_snmpCommunity = community, du_baseMac = None, du_pollingEnabled = None,
      du_osInfo = None, du_deviceType = None, du_softwareVersion = None\<rparr>"

lemma first_dot:
  "index_of c s = Some i \<longleftrightarrow> (\<exists>a b. s = a @ c # b \<and> c \<notin> set a \<and> length a = i)"
proof
  assume "index_of c s = Some i"
  then have i: "i < length s" "s ! i = c" "c \<notin> set (take i s)" by (simp_all add: index_of_Some)
  then have "s = take i s @ c # drop (Suc i) s" using id_take_nth_drop [OF i(1)] by simp
  moreover have "length (take i s) = i" using i(1) by simp
  ultimately show "\<exists>a b. s = a @ c # b \<and> c \<notin> set a \<and> length a = i" using i(3) by blast
qed (auto simp: index_of_append)

text \<open>The add form takes exactly the names that have a part before and a part after their first dot; it sends
  the part before it as the name and all the rest as the domain, so a trailing dot after another dot is
  accepted and kept, and a community only if one was given.\<close>

theorem new_device_body:
  "newDeviceBody fqdn community = Some b \<longleftrightarrow>
    (\<exists>name domain. trim fqdn = name @ ''.'' @ domain \<and> name \<noteq> '''' \<and> CHR ''.'' \<notin> set name \<and> domain \<noteq> ''''
      \<and> b = added_device name domain (if trim community = '''' then None else Some (trim community)))"
proof (cases "index_of (CHR ''.'') (trim fqdn)")
  case None
  then have "CHR ''.'' \<notin> set (trim fqdn)" by (simp add: index_of_None)
  then show ?thesis using None by (auto simp: newDeviceBody_def Let_def)
next
  case (Some dot)
  then obtain name domain where nd: "trim fqdn = name @ CHR ''.'' # domain" "CHR ''.'' \<notin> set name" "length name = dot"
    by (auto simp: first_dot)
  have uniq: "n = name \<and> d = domain" if "trim fqdn = n @ CHR ''.'' # d" "CHR ''.'' \<notin> set n" for n d
  proof -
    have "index_of (CHR ''.'') (trim fqdn) = Some (length n)" using that index_of_append by simp
    then have "length n = length name" using Some nd(3) by simp
    with that(1) nd(1) show ?thesis by simp
  qed
  have "newDeviceBody fqdn community = (if name = '''' \<or> domain = '''' then None
      else Some (added_device name domain (if trim community = '''' then None else Some (trim community))))"
    using Some nd by (auto simp: newDeviceBody_def Let_def added_device_def)
  moreover have "(\<exists>n d. trim fqdn = n @ ''.'' @ d \<and> n \<noteq> '''' \<and> CHR ''.'' \<notin> set n \<and> d \<noteq> '''' \<and> b = u n d)
      \<longleftrightarrow> name \<noteq> '''' \<and> domain \<noteq> '''' \<and> b = u name domain" for u :: "string \<Rightarrow> string \<Rightarrow> device_update"
  proof
    assume "\<exists>n d. trim fqdn = n @ ''.'' @ d \<and> n \<noteq> '''' \<and> CHR ''.'' \<notin> set n \<and> d \<noteq> '''' \<and> b = u n d"
    then obtain n d where e: "trim fqdn = n @ ''.'' @ d" "n \<noteq> ''''" "CHR ''.'' \<notin> set n" "d \<noteq> ''''" "b = u n d" by blast
    then have "n = name \<and> d = domain" by (intro uniq) simp_all
    with e show "name \<noteq> '''' \<and> domain \<noteq> '''' \<and> b = u name domain" by blast
  next
    assume "name \<noteq> '''' \<and> domain \<noteq> '''' \<and> b = u name domain"
    then show "\<exists>n d. trim fqdn = n @ ''.'' @ d \<and> n \<noteq> '''' \<and> CHR ''.'' \<notin> set n \<and> d \<noteq> '''' \<and> b = u n d"
      using nd(1,2) by (intro exI [of _ name] exI [of _ domain]) simp
  qed
  ultimately show ?thesis by (simp only: split: if_split) blast
qed

section \<open>The device list\<close>

lemma device_cmp_comparator: "comparator collate \<Longrightarrow> comparator (device_cmp collate k)"
proof (cases k)
  assume c: "comparator collate"
  have *: "comparator (\<lambda>a b :: net_device. f a - f b)" for f :: "net_device \<Rightarrow> int"
    using comparator_key [OF numbers.comparator_axioms, of f] by (simp add: by_number_def)
  show ?thesis if "k = ByFqdn" using comparator_key [OF c, of dv_fqdn] that by (simp add: comparator_def)
  show ?thesis if "k = ByDeviceType"
    using comparator_key [OF c, of "\<lambda>d. or_empty (deviceType d)"] that by (simp add: comparator_def)
  show ?thesis if "k = ByUp" using * [of "\<lambda>d. up_rank (dv_up d)"] that by (simp add: comparator_def)
  show ?thesis if "k = ByInterfaceCount" using * [of "\<lambda>d. int (interfaceCount d)"] that by (simp add: comparator_def)
  show ?thesis if "k = ByLastPoll" using * [of "\<lambda>d. poll_rank (secondsSinceLastPoll d)"] that by (simp add: comparator_def)
qed

lemma device_rows:
  assumes "comparator collate"
  shows "mset (device_rows collate needle s ds) = mset (filter (device_matches (lower (trim needle))) ds)"
    and "sorted_wrt (\<lambda>a b. if sortAsc s then device_cmp collate (sortKey s) a b \<le> 0 else device_cmp collate (sortKey s) b a \<le> 0)
      (device_rows collate needle s ds)"
proof -
  note c = device_cmp_comparator [OF assms, of "sortKey s"]
  show "mset (device_rows collate needle s ds) = mset (filter (device_matches (lower (trim needle))) ds)"
    by (simp add: device_rows_def)
  show "sorted_wrt (\<lambda>a b. if sortAsc s then device_cmp collate (sortKey s) a b \<le> 0 else device_cmp collate (sortKey s) b a \<le> 0)
      (device_rows collate needle s ds)"
    using comparator.js_sort_in_order [OF c] comparator.js_sort_in_order [OF comparator_flip [OF c]] comparator.cmp_swap [OF c]
    by (cases "sortAsc s") (simp_all add: device_rows_def in_order_def)
qed

section \<open>Maintenance\<close>

lemma perf_rates_nonneg:
  "(case rates p of None \<Rightarrow> True | Some r \<Rightarrow> 0 \<le> pollsPerSec r \<and> 0 \<le> queriesPerSec r) \<Longrightarrow>
   (case rates (perf_effect t a b p) of None \<Rightarrow> True | Some r \<Rightarrow> 0 \<le> pollsPerSec r \<and> 0 \<le> queriesPerSec r)"
  by (auto simp: perf_effect_def Let_def split: option.splits)

lemma reset_needs_confirmation:
  "mt_requests (reset_click p) \<noteq> mt_requests p \<Longrightarrow> confirmText p = ''RESET'' \<and> \<not> reset_pending p"
  "reset_click (reset_success n p) = reset_success n p"
  by (auto simp: reset_click_def reset_success_def split: if_splits)

end
