(* ===== verification/IssueProps.thy ===== *)
theory IssueProps
  imports NexusIssues Transitions
begin

text \<open>
  Properties of the issues page: the rows partition the issues, the two lists partition the rows, the
  related issues are a symmetric relation, and what every run of the page keeps.
\<close>

section \<open>Rows\<close>

definition group_of :: "issue \<Rightarrow> string" where
  "group_of i = the (groupKey i)"

lemma fold_row_step:
  "fold row_step xs (gs, rs) =
    (fold (\<lambda>i. map_push (group_of i) i) (filter grouped xs) gs, rs @ map single_row (filter (\<lambda>i. \<not> grouped i) xs))"
  by (induction xs arbitrary: gs rs) (simp_all add: row_step_def group_of_def)

lemma buildRows:
  "buildRows collate xs =
    map single_row (filter (\<lambda>i. \<not> grouped i) xs)
    @ map (group_row collate) (group_by group_of (filter grouped xs))"
  by (simp add: buildRows_def fold_row_step group_by_def)

lemma single_row_simps [simp]:
  "row_key (single_row i) = issueKey i" "members (single_row i) = [i]" "primary (single_row i) = i"
  by (simp_all add: single_row_def)

lemma group_row_simps [simp]:
  "row_key (group_row collate (k, ms)) = k"
  "members (group_row collate (k, ms)) = js_sort (\<lambda>a b. collate (end_name a) (end_name b)) ms"
  "primary (group_row collate (k, ms)) = hd (js_sort (\<lambda>a b. collate (end_name a) (end_name b)) ms)"
  by (simp_all add: group_row_def Let_def)

lemma mset_sorted_groups:
  "mset (concat (map (\<lambda>k. js_sort cmp (g k)) ks)) = mset (concat (map g ks))"
  by (induction ks) simp_all

lemma buildRows_mset: "mset (concat (map members (buildRows collate xs))) = mset xs"
proof -
  have "concat (map members (map single_row ys)) = ys" for ys
    by (induction ys) simp_all
  moreover have "mset (concat (map members (map (group_row collate) (group_by group_of ys)))) = mset ys" for ys
    using group_by_mset [of group_of ys] by (simp add: group_by comp_def mset_sorted_groups)
  moreover have "mset (filter (\<lambda>i. \<not> grouped i) xs) + mset (filter grouped xs) = mset xs"
    using multiset_partition [of "mset xs" "\<lambda>i. \<not> grouped i"] by simp
  ultimately show ?thesis by (simp only: buildRows map_append concat_append mset_append)
qed

text \<open>A row of two or more issues: one group, sorted by the names of its ends.\<close>

definition row_of_group :: "(string \<Rightarrow> string \<Rightarrow> int) \<Rightarrow> issue list \<Rightarrow> row \<Rightarrow> bool" where
  "row_of_group collate xs r \<longleftrightarrow> truthy_text (Some (row_key r))
     \<and> members r = js_sort (\<lambda>a b. collate (end_name a) (end_name b)) (filter (\<lambda>i. groupKey i = Some (row_key r)) xs)"

definition row_of_issue :: "issue list \<Rightarrow> row \<Rightarrow> bool" where
  "row_of_issue xs r \<longleftrightarrow> (\<exists>i\<in>set xs. \<not> grouped i \<and> r = single_row i)"

lemma grouped_key: "grouped i \<and> group_of i = k \<longleftrightarrow> k \<noteq> '''' \<and> groupKey i = Some k"
  by (auto simp: grouped_def group_of_def truthy_text_def)

lemma buildRows_row:
  assumes "r \<in> set (buildRows collate xs)"
  shows "members r \<noteq> [] \<and> primary r = hd (members r) \<and> (row_of_issue xs r \<or> row_of_group collate xs r)"
proof -
  from assms consider i where "i \<in> set xs" "\<not> grouped i" "r = single_row i"
    | k ms where "(k, ms) \<in> set (group_by group_of (filter grouped xs))" "r = group_row collate (k, ms)"
    by (auto simp: buildRows)
  then show ?thesis
  proof cases
    case 1
    then show ?thesis by (auto simp: row_of_issue_def)
  next
    case 2
    then have k: "k \<in> group_of ` set (filter grouped xs)"
      and ms: "ms = filter (\<lambda>i. group_of i = k) (filter grouped xs)" by (auto simp: group_by)
    then have "k \<noteq> ''''" using grouped_key by auto
    moreover have "ms = filter (\<lambda>i. groupKey i = Some k) xs"
      unfolding ms filter_filter using grouped_key [of _ k] \<open>k \<noteq> ''''\<close> by (auto intro: filter_cong)
    moreover have "ms \<noteq> []" using k ms by (auto simp: filter_empty_conv)
    then have "js_sort cmp ms \<noteq> []" for cmp by (metis length_0_conv length_js_sort)
    ultimately show ?thesis using 2 by (simp add: row_of_group_def truthy_text_def)
  qed
qed

lemma buildRows_keys:
  "map row_key (buildRows collate xs) =
    map issueKey (filter (\<lambda>i. \<not> grouped i) xs) @ set_of (map group_of (filter grouped xs))"
  by (simp add: buildRows group_by comp_def)

lemma buildRows_distinct:
  assumes "distinct (map issueKey xs)"
    and "\<And>i j. i \<in> set xs \<Longrightarrow> j \<in> set xs \<Longrightarrow> groupKey j \<noteq> Some (issueKey i)"
  shows "distinct (map row_key (buildRows collate xs))"
proof -
  have "groupKey j = Some (group_of j)" if "grouped j" for j
    using that by (auto simp: grouped_def group_of_def truthy_text_def)
  then have "issueKey i \<noteq> group_of j" if "i \<in> set xs" "j \<in> set xs" "grouped j" for i j
    using assms(2) that by metis
  moreover have "distinct (map issueKey (filter P xs))" for P
    using assms(1) by (rule distinct_map_filter)
  ultimately show ?thesis unfolding buildRows_keys by fastforce
qed

lemma one_kind_rowSortVal: "one_kind (rowSortVal k)"
  by (cases k) (auto simp: one_kind_def)

section \<open>The two lists\<close>

lemma issue_cmp_comparator: "comparator collate \<Longrightarrow> comparator (issue_cmp collate s)"
  unfolding issue_cmp_def
  by (intro collation.makeCmp_comparator one_kind_rowSortVal) (simp add: collation_def)

lemma mset_members: "mset xs = mset ys \<Longrightarrow> mset (concat (map members xs)) = mset (concat (map members ys))"
proof -
  have eq: "mset (concat (map members xs)) = \<Sum>\<^sub># (image_mset (mset \<circ> members) (mset xs))" for xs
    by (induction xs) simp_all
  show "mset xs = mset ys \<Longrightarrow> mset (concat (map members xs)) = mset (concat (map members ys))"
    unfolding eq by (rule arg_cong)
qed

lemma lists_members:
  "mset (concat (map members (active_rows collate kind s xs))) + mset (concat (map members (acknowledged_rows collate kind s xs)))
    = mset (shown_issues kind xs)"
proof -
  let ?rows = "buildRows collate (shown_issues kind xs)"
  have "mset ?rows = mset (filter (\<lambda>r. \<not> rowAcked r) ?rows @ filter rowAcked ?rows)"
    using multiset_partition [of "mset ?rows" "\<lambda>r. \<not> rowAcked r"] by simp
  also have "\<dots> = mset (active_rows collate kind s xs @ acknowledged_rows collate kind s xs)"
    by (simp add: active_rows_def acknowledged_rows_def)
  finally have "mset (concat (map members ?rows)) =
      mset (concat (map members (active_rows collate kind s xs @ acknowledged_rows collate kind s xs)))"
    by (rule mset_members)
  then show ?thesis by (simp add: buildRows_mset)
qed

definition row_in_order :: "(string \<Rightarrow> string \<Rightarrow> int) \<Rightarrow> issue_sort_key sorting \<Rightarrow> row \<Rightarrow> row \<Rightarrow> bool" where
  "row_in_order collate s a b = column_le collate (sortAsc s) (rowSortVal (sortKey s) a) (rowSortVal (sortKey s) b)"

lemma sorted_rows:
  assumes "comparator collate"
  shows "sorted_wrt (row_in_order collate s) (js_sort (issue_cmp collate s) rs)"
    and "filter (\<lambda>r. issue_cmp collate s r a = 0) (js_sort (issue_cmp collate s) rs)
      = filter (\<lambda>r. issue_cmp collate s r a = 0) rs"
proof -
  show "sorted_wrt (row_in_order collate s) (js_sort (issue_cmp collate s) rs)"
    unfolding row_in_order_def
    using comparator.js_sort_in_order [OF issue_cmp_comparator [OF assms], of s rs]
    unfolding issue_cmp_def in_order_makeCmp [OF assms] .
  show "filter (\<lambda>r. issue_cmp collate s r a = 0) (js_sort (issue_cmp collate s) rs)
      = filter (\<lambda>r. issue_cmp collate s r a = 0) rs"
    by (rule comparator.js_sort_stable [OF issue_cmp_comparator [OF assms]])
qed

text \<open>
  The rows in the order in which they are sorted: the issues without a group as the server sends them, and
  behind them the groups, in the order in which the server sends the first issue of each.
\<close>

definition server_rows :: "(string \<Rightarrow> string \<Rightarrow> int) \<Rightarrow> issue list \<Rightarrow> row list" where
  "server_rows collate xs =
     map single_row (filter (\<lambda>i. \<not> grouped i) xs)
     @ map (\<lambda>k. group_row collate (k, filter (\<lambda>i. groupKey i = Some k) xs)) (set_of (map (\<lambda>i. the (groupKey i)) (filter grouped xs)))"

lemma buildRows_server: "buildRows collate xs = server_rows collate xs"
proof -
  have "filter (\<lambda>i. group_of i = k) (filter grouped xs) = filter (\<lambda>i. groupKey i = Some k) xs"
    if "k \<in> set (set_of (map group_of (filter grouped xs)))" for k
  proof -
    have "k \<noteq> ''''" using that grouped_key by auto
    then show ?thesis unfolding filter_filter using grouped_key [of _ k] by (auto intro: filter_cong)
  qed
  then show ?thesis
    by (simp add: buildRows server_rows_def group_by group_of_def [abs_def])
qed

text \<open>C16: The issues page shows every issue of the chosen kind exactly once, in exactly one of its two
  lists: as a row of its own, or in the one row of its group, whose ends are sorted by name.  A row is
  in the acknowledged list exactly when all its issues are acknowledged.  Both lists are sorted by the
  chosen column, rows without a value last in either direction.  Rows that compare equal come in this
  order: the issues without a group in the server's order, and behind all of them the groups, in the
  order of their first issues (so not newest first, as the comment on the sort has it).\<close>

theorem issue_lists:
  fixes kind s xs
  assumes "comparator collate"
  defines "todo \<equiv> active_rows collate kind s xs" and "settled_rows \<equiv> acknowledged_rows collate kind s xs"
    and "shown \<equiv> shown_issues kind xs"
  shows "mset (concat (map members todo)) + mset (concat (map members settled_rows)) = mset shown
    \<and> (\<forall>r\<in>set (todo @ settled_rows). members r \<noteq> [] \<and> (row_of_issue shown r \<or> row_of_group collate shown r))
    \<and> (\<forall>r\<in>set todo. \<not> list_all acknowledged (members r)) \<and> (\<forall>r\<in>set settled_rows. list_all acknowledged (members r))
    \<and> sorted_wrt (row_in_order collate s) todo \<and> sorted_wrt (row_in_order collate s) settled_rows
    \<and> (\<forall>a. filter (\<lambda>r. issue_cmp collate s r a = 0) todo
          = filter (\<lambda>r. issue_cmp collate s r a = 0 \<and> \<not> list_all acknowledged (members r)) (server_rows collate shown))
    \<and> (\<forall>a. filter (\<lambda>r. issue_cmp collate s r a = 0) settled_rows
          = filter (\<lambda>r. issue_cmp collate s r a = 0 \<and> list_all acknowledged (members r)) (server_rows collate shown))"
proof -
  have ties: "filter (\<lambda>r. issue_cmp collate s r a = 0) todo
        = filter (\<lambda>r. issue_cmp collate s r a = 0 \<and> \<not> list_all acknowledged (members r)) (server_rows collate shown)"
    "filter (\<lambda>r. issue_cmp collate s r a = 0) settled_rows
        = filter (\<lambda>r. issue_cmp collate s r a = 0 \<and> list_all acknowledged (members r)) (server_rows collate shown)" for a
    unfolding todo_def settled_rows_def shown_def active_rows_def acknowledged_rows_def sorted_rows(2) [OF assms(1)]
      buildRows_server filter_filter
    by (rule filter_cong; auto simp: rowAcked_def)+
  show ?thesis
    using sorted_rows(1) [OF assms(1)] lists_members [of collate kind s xs] ties
    unfolding todo_def settled_rows_def shown_def
    by (intro conjI allI ballI) (auto simp: active_rows_def acknowledged_rows_def rowAcked_def dest: buildRows_row)
qed

definition example_issue :: "string \<Rightarrow> string \<Rightarrow> string option \<Rightarrow> bool \<Rightarrow> issue" where
  "example_issue key host g ack =
     \<lparr>issueKey = key, is_fqdn = host @ ''.net'', is_hostname = host, is_kind = ''lag:member-link-down'', is_severity = BadIssue,
      title = ''Member down'', is_description = '''', subjectLabel = None, is_detail = [], groupKey = g, firstSeen = 0,
      lastSeen = 0, acknowledged = ack, ackedAt = None, ackedBy = None, is_note = None\<rparr>"

definition example_issues :: "issue list" where
  "example_issues = [example_issue ''k2'' ''b'' (Some ''g'') True, example_issue ''k3'' ''c'' None True,
     example_issue ''k1'' ''a'' (Some ''g'') False]"

lemmas example_issue_simps = example_issue_def example_issues_def

text \<open>The first, and newest, issue of the server's list belongs to a group: it is shown below an older one.\<close>

lemma newest_group_last:
  "map rowKeys (active_rows code_units None \<lparr>sortKey = BySeverity, sortAsc = True\<rparr>
     [(example_issue ''new'' ''b'' (Some ''g'') False)\<lparr>firstSeen := 9\<rparr>, (example_issue ''old'' ''c'' None False)\<lparr>firstSeen := 1\<rparr>])
   = [[''old''], [''new'']]"
  by code_simp

theorem issue_lists_witness:
  "map rowKeys (active_rows code_units None \<lparr>sortKey = ByDevice, sortAsc = True\<rparr> example_issues) = [[''k1'', ''k2'']]
   \<and> map rowKeys (acknowledged_rows code_units None \<lparr>sortKey = ByDevice, sortAsc = True\<rparr> example_issues) = [[''k3'']]
   \<and> mset (concat (map members (active_rows code_units None \<lparr>sortKey = ByDevice, sortAsc = True\<rparr> example_issues)))
     + mset (concat (map members (acknowledged_rows code_units None \<lparr>sortKey = ByDevice, sortAsc = True\<rparr> example_issues)))
     = mset (shown_issues None example_issues)"
proof -
  have "map rowKeys (active_rows code_units None \<lparr>sortKey = ByDevice, sortAsc = True\<rparr> example_issues) = [[''k1'', ''k2'']]
   \<and> map rowKeys (acknowledged_rows code_units None \<lparr>sortKey = ByDevice, sortAsc = True\<rparr> example_issues) = [[''k3'']]"
    by code_simp
  then show ?thesis using issue_lists [OF texts.comparator_axioms, of None _ example_issues] by blast
qed

section \<open>The selection\<close>

lemma fold_removeAll: "fold removeAll ks s = filter (\<lambda>k. k \<notin> set ks) s"
  by (induction ks arbitrary: s) (auto simp: filter_filter removeAll_filter_not_eq intro: filter_cong)

lemma toggle_keys:
  "set (toggle_keys ks s) = (if set ks \<subseteq> set s then set s - set ks else set s \<union> set ks)"
  "distinct s \<Longrightarrow> distinct (toggle_keys ks s)"
  using fold_set_add [of ks s] by (auto simp: toggle_keys_def fold_removeAll list_all_iff)

lemma rowSelected: "rowSelected p r \<longleftrightarrow> set (rowKeys r) \<subseteq> set (selected p)"
  by (auto simp: rowSelected_def list_all_iff)

lemma rowKeys_nonempty: "r \<in> set (active collate p) \<Longrightarrow> rowKeys r \<noteq> []"
  using buildRows_row [of r collate "shown_issues (selectedKind p) (issues p)"]
  by (auto simp: active_def active_rows_def rowKeys_def)

text \<open>In the mass acknowledgement, toggling a row selects all its issues or none of them: it selects
  the row exactly when it was not selected, and leaves rows without a common issue as they were.
  The box for all rows selects exactly the issues of the active rows when not all of them are selected,
  and then all rows are; it selects nothing when all are.\<close>

theorem selection_toggles:
  assumes "r \<in> set (active collate p)"
  shows "(rowSelected (toggleSelectedRow r p) r \<longleftrightarrow> \<not> rowSelected p r)
    \<and> (\<forall>r'. set (rowKeys r') \<inter> set (rowKeys r) = {} \<longrightarrow> rowSelected (toggleSelectedRow r p) r' = rowSelected p r')
    \<and> allSelected collate (toggleSelectAll collate p) = (\<not> allSelected collate p)
    \<and> set (selected (toggleSelectAll collate p))
      = (if \<forall>r\<in>set (active collate p). rowSelected p r then {} else issueKey ` set (concat (map members (active collate p))))"
proof -
  have same: "active collate (toggleSelectAll collate p) = active collate p" by (simp add: active_def toggleSelectAll_def)
  have ne: "active collate p \<noteq> []" using assms by auto
  have all: "set (selected (toggleSelectAll collate p))
      = (if \<forall>r\<in>set (active collate p). rowSelected p r then {} else issueKey ` set (concat (map members (active collate p))))"
    using ne by (auto simp: toggleSelectAll_def allSelected_def list_all_iff rowKeys_def)
  have "allSelected collate (toggleSelectAll collate p) = (\<not> allSelected collate p)"
  proof (cases "\<forall>r\<in>set (active collate p). rowSelected p r")
    case True
    then have "selected (toggleSelectAll collate p) = []" using all by simp
    then have "\<not> rowSelected (toggleSelectAll collate p) r" using rowKeys_nonempty [OF assms] by (simp add: rowSelected)
    with True assms ne show ?thesis by (auto simp: allSelected_def same list_all_iff)
  next
    case False
    then have "rowSelected (toggleSelectAll collate p) r'" if "r' \<in> set (active collate p)" for r'
      using all that by (auto simp: rowSelected rowKeys_def)
    with False ne show ?thesis by (auto simp: allSelected_def same list_all_iff)
  qed
  moreover have "rowSelected (toggleSelectedRow r p) r \<longleftrightarrow> \<not> rowSelected p r"
    using rowKeys_nonempty [OF assms] by (cases "rowKeys r") (auto simp: rowSelected toggleSelectedRow_def toggle_keys)
  moreover have "rowSelected (toggleSelectedRow r p) r' = rowSelected p r'" if "set (rowKeys r') \<inter> set (rowKeys r) = {}" for r'
    using that by (auto simp: rowSelected toggleSelectedRow_def toggle_keys)
  ultimately show ?thesis using all by blast
qed

theorem selection_toggles_witness:
  "\<exists>r p. r \<in> set (active code_units p) \<and> rowKeys r = [''k1'', ''k2'']
    \<and> \<not> rowSelected p r \<and> rowSelected (toggleSelectedRow r p) r \<and> allSelected code_units (toggleSelectAll code_units p)"
proof -
  define p where "p = new_issues_page\<lparr>issues := example_issues, selecting := True\<rparr>"
  define r where "r = hd (active code_units p)"
  have keys: "map rowKeys (active code_units p) = [[''k1'', ''k2'']]" unfolding p_def by code_simp
  then have r: "r \<in> set (active code_units p)" "rowKeys r = [''k1'', ''k2'']"
    unfolding r_def by (cases "active code_units p"; auto)+
  have "\<not> rowSelected p r" using r(2) by (simp add: rowSelected p_def new_issues_page_def)
  moreover have "\<not> allSelected code_units p"
    using r(1) \<open>\<not> rowSelected p r\<close> by (auto simp: allSelected_def list_all_iff)
  ultimately show ?thesis using selection_toggles [OF r(1)] r by blast
qed

section \<open>Related issues\<close>

definition related :: "issue list \<Rightarrow> issue \<Rightarrow> issue list" where
  "related all i = (case relatedByKey all (issueKey i) of None \<Rightarrow> [] | Some rs \<Rightarrow> rs)"

lemma map_of_rev_distinct: "distinct (map fst xs) \<Longrightarrow> map_of (rev xs) = map_of xs"
  by (rule map_of_eqI) (auto simp: map_of_eq_Some_iff distinct_map simp flip: rev_map)

lemma related_siblings:
  assumes "distinct (map issueKey all)" and "i \<in> set all"
  shows "related all i = (if is_fqdn i = '''' then [] else siblings all i)"
proof -
  let ?ks = "filter (\<lambda>i. is_fqdn i \<noteq> '''' \<and> siblings all i \<noteq> []) all"
  let ?m = "map (\<lambda>i. (issueKey i, siblings all i)) ?ks"
  have d: "distinct (map fst ?m)"
    using distinct_map_filter [OF assms(1)] by (simp add: comp_def)
  then have m: "relatedByKey all = map_of ?m" by (simp add: relatedByKey_def map_of_rev_distinct)
  show ?thesis
  proof (cases "i \<in> set ?ks")
    case True
    then have "(issueKey i, siblings all i) \<in> set ?m" by auto
    then have "map_of ?m (issueKey i) = Some (siblings all i)" using d by (rule map_of_is_SomeI [rotated])
    with True show ?thesis by (simp add: related_def m)
  next
    case False
    have "j = i" if "j \<in> set all" "issueKey j = issueKey i" for j
      using assms that by (auto simp: distinct_map inj_on_def)
    then have "map_of ?m (issueKey i) = None" using False by (auto simp: map_of_eq_None_iff)
    with False assms(2) show ?thesis by (auto simp: related_def m)
  qed
qed

lemma related_iff:
  assumes "distinct (map issueKey all)" and "i \<in> set all" and "j \<in> set all"
  shows "j \<in> set (related all i) \<longleftrightarrow>
    i \<noteq> j \<and> is_fqdn i \<noteq> '''' \<and> is_fqdn i = is_fqdn j \<and> subjectOf (issueKey i) = subjectOf (issueKey j)"
  using assms by (auto simp: related_siblings siblings_def distinct_map inj_on_def)

section \<open>Runs of the page\<close>

text \<open>
  What the page keeps: sets without duplicates, a selection and a mass acknowledgement only in the
  selection mode, a note only in an open form, a form that stays open while its acknowledgement is
  under way, and no two opposite requests under way.
\<close>

definition page_ok :: "issues_page \<Rightarrow> bool" where
  "page_ok p \<longleftrightarrow>
     (distinct (selected p) \<and> distinct (expanded p))
   \<and> (selecting p \<or> selected p = [] \<and> \<not> isPending (massAck_mutation p))
   \<and> (ackingKey p = None \<longrightarrow> ackNote p = '''' \<and> \<not> isPending (ack_mutation p))
   \<and> \<not> (isPending (ack_mutation p) \<and> isPending (unack_mutation p))
   \<and> \<not> (isPending (suppress_mutation p) \<and> isPending (unsuppress_mutation p))"

lemma new_page_ok: "page_ok new_issues_page"
  by (simp add: page_ok_def new_issues_page_def)

lemma settle_result_done [simp]: "\<not> isPending (settle_result fs what)"
  by (simp add: settle_result_def Let_def)

lemma page_ok_action: "page_ok p \<Longrightarrow> page_ok (actionButton r p)"
  by (auto simp: page_ok_def actionButton_def unack_mutate_def ack_mutate_def openAckForm_def pending_def)

lemma page_ok_settled:
  "page_ok p \<Longrightarrow> page_ok (ack_settled fs p)" "page_ok p \<Longrightarrow> page_ok (unack_settled fs p)"
  "page_ok p \<Longrightarrow> page_ok (massAck_settled fs p)"
  by (auto simp: page_ok_def ack_settled_def unack_settled_def massAck_settled_def Let_def invalidate_def
      closeAckForm_def exitSelect_def)

lemma page_ok_step: "page_ok p \<Longrightarrow> issues_step collate p e q \<Longrightarrow> page_ok q"
proof (erule issues_stepE)
  assume ok: "page_ok p"
  show "page_ok q" if "q = actionButton r p" for r using ok that by (simp add: page_ok_action)
  show "page_ok q" if "q = ack_settled fs p" for fs using ok that by (simp add: page_ok_settled)
  show "page_ok q" if "q = unack_settled fs p" for fs using ok that by (simp add: page_ok_settled)
  show "page_ok q" if "q = massAck_settled fs p" for fs using ok that by (simp add: page_ok_settled)
  show "page_ok q" if "q = onToggleSuppress t p" "\<not> isPending (suppress_mutation p)" "\<not> isPending (unsuppress_mutation p)"
    for t using ok that by (simp add: page_ok_def onToggleSuppress_def Let_def)
  show "page_ok q" if "types_settled fulfilled err p = (m, q')" "q = q'\<lparr>suppress_mutation := m\<rparr>" for fulfilled err m q'
    using ok that by (auto simp: page_ok_def types_settled_def invalidateTypes_def split: if_splits)
  show "page_ok q" if "types_settled fulfilled err p = (m, q')" "q = q'\<lparr>unsuppress_mutation := m\<rparr>" for fulfilled err m q'
    using ok that by (auto simp: page_ok_def types_settled_def invalidateTypes_def split: if_splits)
  show "page_ok q" if "q = toggleSelectedRow r p" "selecting p" for r
    using ok that by (simp add: page_ok_def toggleSelectedRow_def toggle_keys)
  show "page_ok q" if "q = toggleSelectAll collate p" "selecting p"
    using ok that by (simp add: page_ok_def toggleSelectAll_def)
  show "page_ok q" if "q = p\<lparr>ackNote := s\<rparr>" "form_shown collate p" for s
    using ok that by (auto simp: page_ok_def form_shown_def list_ex_iff)
qed (auto simp: page_ok_def filter_kind_def issue_toggle_def openIssue_def closeAckForm_def exitSelect_def
      massAck_mutate_def pending_def)

definition issues_init :: "issues_page \<Rightarrow> bool" where
  "issues_init p \<longleftrightarrow> p = new_issues_page"

interpretation issues_runs: invariant_of issues_init "issues_step collate" page_ok for collate
  by unfold_locales (auto simp: issues_init_def new_page_ok intro: page_ok_step)

text \<open>C17: In every run of the issues page, whatever the order of clicks and replies: the selected and the
  expanded keys have no duplicates; outside the selection mode nothing is selected and no mass
  acknowledgement is under way; a note exists only in an open form, and the form of an acknowledgement
  under way stays open; an acknowledgement and an un-acknowledgement are never under way together, nor
  are a suppression and its reversal.\<close>

theorem issues_page_invariant:
  assumes "issues_runs.reachable collate p"
  shows "distinct (selected p) \<and> distinct (expanded p)
    \<and> (\<not> selecting p \<longrightarrow> selected p = [] \<and> \<not> isPending (massAck_mutation p))
    \<and> (ackingKey p = None \<longrightarrow> ackNote p = '''' \<and> \<not> isPending (ack_mutation p))
    \<and> \<not> (isPending (ack_mutation p) \<and> isPending (unack_mutation p))
    \<and> \<not> (isPending (suppress_mutation p) \<and> isPending (unsuppress_mutation p))"
  using issues_runs.inv_reachable [OF assms] unfolding page_ok_def by blast

subsection \<open>An acknowledgement\<close>

lemma settle_result_iff: "settle_result fs what = Success \<longleftrightarrow> list_all id fs"
  by (auto simp: settle_result_def Let_def filter_empty_conv list_all_iff)

lemma settle_result_failed:
  "\<not> list_all id fs \<Longrightarrow> settle_result fs what =
    Failed (dec (length (filter Not fs)) @ '' of '' @ dec (length fs) @ '' could not be '' @ what)"
  by (auto simp: settle_result_def Let_def filter_empty_conv list_all_iff)

text \<open>Confirming the acknowledgement of a row sends one request for each of its issues, all with the
  trimmed note or none if it is blank.  If all succeed, the form closes and the issues are fetched
  again; if any fails, the form stays open with its note, the page says how many of how many failed,
  and nothing is fetched.\<close>

theorem confirm_outcome:
  assumes "\<not> selecting p" and "\<not> pending p" and "\<not> rowAcked r" and "ackingKey p = Some (row_key r)"
  shows "requests (actionButton r p) =
      requests p @ map (\<lambda>m. AckIssue (issueKey m) (if trim (ackNote p) = '''' then None else Some (trim (ackNote p)))) (members r)
    \<and> ack_mutation (actionButton r p) = Pending (rowKeys r)
    \<and> (\<forall>fs. length fs = length (members r) \<longrightarrow>
        (let q = ack_settled fs (actionButton r p) in
         if list_all id fs
         then ackingKey q = None \<and> ackNote q = '''' \<and> ack_mutation q = Success
           \<and> invalidated q = invalidated p @ [IssuesQuery]
         else ackingKey q = ackingKey p \<and> ackNote q = ackNote p \<and> invalidated q = invalidated p
           \<and> ack_mutation q = Failed (dec (length (filter Not fs)) @ '' of '' @ dec (length (members r))
              @ '' could not be acknowledged'')))"
  using assms
  by (auto simp: actionButton_def ack_mutate_def note_text_def rowKeys_def ack_settled_def Let_def settle_result_iff
      settle_result_failed invalidate_def closeAckForm_def)

theorem confirm_outcome_witness:
  "let p = new_issues_page\<lparr>issues := example_issues, ackingKey := Some ''g'', ackNote := '' known ''\<rparr>;
       r = hd (active code_units p)
   in requests (actionButton r p) = [AckIssue ''k1'' (Some ''known''), AckIssue ''k2'' (Some ''known'')]
    \<and> ack_mutation (ack_settled [True, False] (actionButton r p)) = Failed ''1 of 2 could not be acknowledged''"
proof -
  define p where "p = new_issues_page\<lparr>issues := example_issues, ackingKey := Some ''g'', ackNote := '' known ''\<rparr>"
  define r where "r = hd (active code_units p)"
  have r: "map issueKey (members r) = [''k1'', ''k2''] \<and> row_key r = ''g'' \<and> \<not> rowAcked r"
    unfolding r_def p_def by code_simp
  have p: "\<not> selecting p" "\<not> pending p" "ackingKey p = Some ''g''" "ackNote p = '' known ''" "requests p = []"
    by (simp_all add: p_def new_issues_page_def pending_def)
  have len: "length (members r) = 2" using arg_cong [OF conjunct1 [OF r], of length] by simp
  have msg: "dec (length (filter Not [True, False])) @ '' of '' @ dec 2 @ '' could not be acknowledged''
      = ''1 of 2 could not be acknowledged''" and known: "trim '' known '' = ''known''" by code_simp+
  have acks: "map (\<lambda>m. AckIssue (issueKey m) n) (members r) = map (\<lambda>k. AckIssue k n) [''k1'', ''k2'']" for n
    using arg_cong [OF conjunct1 [OF r], of "map (\<lambda>k. AckIssue k n)"] by (simp add: comp_def)
  have row: "\<not> rowAcked r" "ackingKey p = Some (row_key r)" using r p(3) by simp_all
  note c = confirm_outcome [OF p(1,2) row]
  have "requests (actionButton r p) = [AckIssue ''k1'' (Some ''known''), AckIssue ''k2'' (Some ''known'')]"
    using conjunct1 [OF c] by (simp add: acks p known)
  moreover have "ack_mutation (ack_settled [True, False] (actionButton r p)) = Failed ''1 of 2 could not be acknowledged''"
    using conjunct2 [OF conjunct2 [OF c], rule_format, of "[True, False]"] msg by (simp add: len Let_def)
  ultimately show ?thesis unfolding p_def [symmetric] r_def [symmetric] Let_def by blast
qed

subsection \<open>The selection outlives the filter\<close>

definition two_kinds :: "issue list" where
  "two_kinds = [example_issue ''k1'' ''a'' None False, (example_issue ''k2'' ''b'' None False)\<lparr>is_kind := ''device-down''\<rparr>]"

definition down_type :: issue_type where
  "down_type = \<lparr>it_kind = ''device-down'', it_category = ''device'', it_title = '''', it_description = '''', suppressed = False\<rparr>"

definition selected_all :: issues_page where
  "selected_all = toggleSelectAll code_units
     (new_issues_page\<lparr>issues := two_kinds, issueTypes := [down_type], typesOpen := True, selecting := True\<rparr>)"

definition filtered :: issues_page where
  "filtered = filter_kind down_type selected_all"

lemma filtered_run:
  "issues_runs.run code_units new_issues_page
    [Fetched two_kinds, TypesFetched [down_type], ToggleTypes, StartSelect, SelectAll, FilterKind down_type, MassAck]
    (massAck_mutate (selected filtered) filtered)"
proof -
  let ?p1 = "new_issues_page\<lparr>issues := two_kinds\<rparr>"
  let ?p3 = "?p1\<lparr>issueTypes := [down_type], typesOpen := True\<rparr>"
  note [intro] = issues_runs.run_nil
  have "issues_runs.run code_units new_issues_page ([] @ [Fetched two_kinds]) ?p1"
    by (rule issues_runs.run_snoc [OF _ fetched]) auto
  from issues_runs.run_snoc [OF this typesFetched]
  have "issues_runs.run code_units new_issues_page [Fetched two_kinds, TypesFetched [down_type]] (?p1\<lparr>issueTypes := [down_type]\<rparr>)"
    by simp
  from issues_runs.run_snoc [OF this toggleTypes]
  have r3: "issues_runs.run code_units new_issues_page [Fetched two_kinds, TypesFetched [down_type], ToggleTypes] ?p3"
    by (simp add: new_issues_page_def)
  have "active code_units ?p3 \<noteq> []" "\<not> selecting ?p3" by code_simp+
  from issues_runs.run_snoc [OF r3 startSelect [OF this]]
  have r4: "issues_runs.run code_units new_issues_page [Fetched two_kinds, TypesFetched [down_type], ToggleTypes, StartSelect]
      (?p3\<lparr>selecting := True\<rparr>)" by simp
  have "selecting (?p3\<lparr>selecting := True\<rparr>)" by simp
  from issues_runs.run_snoc [OF r4 selectAll [OF this]]
  have r5: "issues_runs.run code_units new_issues_page
      [Fetched two_kinds, TypesFetched [down_type], ToggleTypes, StartSelect, SelectAll] selected_all"
    by (simp add: selected_all_def)
  have "typesOpen selected_all" "down_type \<in> set (issueTypes selected_all)" "\<not> suppressed down_type"
    by (simp_all add: selected_all_def toggleSelectAll_def down_type_def)
  from issues_runs.run_snoc [OF r5 filterKind [OF this]]
  have r6: "issues_runs.run code_units new_issues_page
      [Fetched two_kinds, TypesFetched [down_type], ToggleTypes, StartSelect, SelectAll, FilterKind down_type] filtered"
    by (simp add: filtered_def)
  have "selecting filtered" "selected filtered \<noteq> []" "\<not> isPending (massAck_mutation filtered)" by code_simp+
  from issues_runs.run_snoc [OF r6 massAck [OF this]] show ?thesis by simp
qed

text \<open>A row that is shown has issues of the chosen kind only.\<close>

lemma active_member: "r \<in> set (active collate p) \<Longrightarrow> m \<in> set (members r) \<Longrightarrow> m \<in> set (issues p)"
  "r \<in> set (shown_rows collate p) \<Longrightarrow> m \<in> set (members r) \<Longrightarrow> m \<in> set (shown_issues (selectedKind p) (issues p))"
proof -
  have "set (concat (map members (shown_rows collate p))) = set (shown_issues (selectedKind p) (issues p))" for p
    using arg_cong [OF lists_members, of set_mset collate "selectedKind p" "issue_sorting p" "issues p"]
    by (auto simp: shown_rows_def active_def acked_def)
  then show *: "r \<in> set (shown_rows collate p) \<Longrightarrow> m \<in> set (members r) \<Longrightarrow> m \<in> set (shown_issues (selectedKind p) (issues p))" for r
    by auto
  show "r \<in> set (active collate p) \<Longrightarrow> m \<in> set (members r) \<Longrightarrow> m \<in> set (issues p)"
    using * [of r] by (auto simp: shown_rows_def shown_issues_def)
qed

text \<open>C28: The selection of the mass acknowledgement does not follow the list.  On any page, after all rows
  were selected and the list was then filtered to one type, the acknowledgement is sent for every issue
  that had been selected, in the order of the rows: also for each one of another type, and the page shows
  no row with such an issue when it is sent.\<close>

theorem mass_ack_hidden:
  assumes "distinct (map issueKey (issues p))" and "\<not> allSelected collate p" and "it_kind t \<noteq> ''''"
    and "selectedKind p \<noteq> Some (it_kind t)"
    and "issues_step collate p SelectAll p1" and "issues_step collate p1 (FilterKind t) p2" and "issues_step collate p2 MassAck p3"
  shows "requests p3 = requests p @ map (\<lambda>k. AckIssue k None) (set_of (concat (map rowKeys (active collate p))))
    \<and> (\<forall>r \<in> set (active collate p). \<forall>m \<in> set (members r).
         AckIssue (issueKey m) None \<in> set (requests p3)
         \<and> (is_kind m \<noteq> it_kind t \<longrightarrow> (\<forall>r' \<in> set (shown_rows collate p2). issueKey m \<notin> set (rowKeys r'))))"
proof -
  have p1: "p1 = toggleSelectAll collate p" using assms(5) by (auto elim: issues_step.cases)
  have p2: "p2 = filter_kind t p1" using assms(6) by (auto elim: issues_step.cases)
  have p3: "p3 = massAck_mutate (selected p2) p2" using assms(7) by (auto elim: issues_step.cases)
  have sel: "selected p2 = set_of (concat (map rowKeys (active collate p)))" "issues p2 = issues p"
    "selectedKind p2 = Some (it_kind t)" "requests p2 = requests p"
    using assms(2,4) by (simp_all add: p2 p1 filter_kind_def toggleSelectAll_def)
  have hidden: "issueKey m \<notin> set (rowKeys r')"
    if m: "r \<in> set (active collate p)" "m \<in> set (members r)" "is_kind m \<noteq> it_kind t" and r': "r' \<in> set (shown_rows collate p2)" for r m r'
  proof
    assume "issueKey m \<in> set (rowKeys r')"
    then obtain i where i: "i \<in> set (members r')" "issueKey i = issueKey m" by (auto simp: rowKeys_def)
    then have "i \<in> set (issues p)" "is_kind i = it_kind t"
      using active_member(2) [OF r' i(1)] assms(3) by (auto simp: shown_issues_def sel truthy_text_def)
    moreover have "m \<in> set (issues p)" using active_member(1) m by blast
    ultimately have "i = m" using assms(1) i(2) by (auto simp: distinct_map inj_on_def)
    with m(3) \<open>is_kind i = it_kind t\<close> show False by simp
  qed
  have req: "requests p3 = requests p @ map (\<lambda>k. AckIssue k None) (set_of (concat (map rowKeys (active collate p))))"
    by (simp add: p3 massAck_mutate_def sel)
  have "AckIssue (issueKey m) None \<in> set (requests p3)" if "r \<in> set (active collate p)" "m \<in> set (members r)" for r m
  proof -
    have "issueKey m \<in> set (set_of (concat (map rowKeys (active collate p))))" using that by (auto simp: rowKeys_def)
    then have "AckIssue (issueKey m) None \<in> set (map (\<lambda>k. AckIssue k None) (set_of (concat (map rowKeys (active collate p)))))"
      by (simp only: set_map) (rule imageI)
    then show ?thesis unfolding req by simp
  qed
  then show ?thesis using req hidden by blast
qed

theorem mass_ack_hidden_witness:
  "issues_runs.run code_units new_issues_page
      [Fetched two_kinds, TypesFetched [down_type], ToggleTypes, StartSelect, SelectAll, FilterKind down_type, MassAck]
      (massAck_mutate (selected filtered) filtered)
    \<and> AckIssue ''k1'' None \<in> set (requests (massAck_mutate (selected filtered) filtered))
    \<and> list_all (\<lambda>r'. ''k1'' \<notin> set (rowKeys r')) (shown_rows code_units filtered)"
proof -
  let ?p = "new_issues_page\<lparr>issues := two_kinds, issueTypes := [down_type], typesOpen := True, selecting := True\<rparr>"
  have s1: "issues_step code_units ?p SelectAll selected_all"
    unfolding selected_all_def by (rule selectAll) simp
  have s2: "issues_step code_units selected_all (FilterKind down_type) filtered"
    unfolding filtered_def by (rule filterKind) (simp_all add: selected_all_def toggleSelectAll_def down_type_def)
  have s3: "issues_step code_units filtered MassAck (massAck_mutate (selected filtered) filtered)"
    by (rule massAck) code_simp+
  have d: "distinct (map issueKey (issues ?p))" by code_simp
  have n: "\<not> allSelected code_units ?p" by code_simp
  have k: "it_kind down_type \<noteq> ''''" "selectedKind ?p \<noteq> Some (it_kind down_type)" by code_simp+
  obtain r m where r: "r \<in> set (active code_units ?p)" "m \<in> set (members r)" "issueKey m = ''k1''" "is_kind m \<noteq> it_kind down_type"
  proof -
    have "list_ex (\<lambda>r. list_ex (\<lambda>m. issueKey m = ''k1'' \<and> is_kind m \<noteq> it_kind down_type) (members r)) (active code_units ?p)"
      by code_simp
    then show ?thesis using that by (auto simp: list_ex_iff)
  qed
  note acked = conjunct2 [OF mass_ack_hidden [OF d n k s1 s2 s3], rule_format, OF r(1,2), unfolded r(3)]
  have "\<forall>r' \<in> set (shown_rows code_units filtered). ''k1'' \<notin> set (rowKeys r')" using acked r(4) by blast
  then show ?thesis using filtered_run conjunct1 [OF acked] unfolding list_all_iff by blast
qed

theorem issues_page_invariant_witness:
  "issues_runs.reachable code_units (massAck_mutate (selected filtered) filtered)
    \<and> \<not> (isPending (ack_mutation (massAck_mutate (selected filtered) filtered))
      \<and> isPending (unack_mutation (massAck_mutate (selected filtered) filtered)))"
proof -
  have "issues_runs.reachable code_units (massAck_mutate (selected filtered) filtered)"
    using filtered_run unfolding issues_runs.reachable_def issues_init_def by blast
  with issues_page_invariant [OF this] show ?thesis by blast
qed

end
