(* ===== verification/IssueView.thy ===== *)
theory IssueView
  imports NexusForms IssueProps ClientProps
begin

text \<open>
  What the issues page of the nexus web interface shows, \<^verbatim>\<open>pages/Issues.tsx\<close>: the cells of a row,
  the detail of an issue with its explanation, and the panel of the issue types.  The markup is
  reduced to the texts, the badges and the links that stand in it; \<open>t\<close> is the clock in milliseconds
  and \<open>absolute\<close> the browser's text of a time.
\<close>

section \<open>Texts, badges and links\<close>

datatype fragment =
    Plain string
  | Muted string
  | Mono string
  | Badge string string
  | Anchor string string

definition device_href :: "string \<Rightarrow> string" where
  "device_href f = ''/devices/'' @ encodeURIComponent f"

definition device_anchor :: "string \<Rightarrow> string \<Rightarrow> fragment" where
  "device_anchor f host = Anchor (device_href f) (str_or host f)"

definition ellipsis :: string where "ellipsis = [CHR 0xE2, CHR 0x80, CHR 0xA6]"

definition apostrophe :: string where "apostrophe = [CHR 0xE2, CHR 0x80, CHR 0x99]"

definition warning_sign :: string where "warning_sign = [CHR 0xE2, CHR 0x9A, CHR 0xA0]"

definition em_sep :: string where "em_sep = '' '' @ em_dash @ '' ''"

definition health_badge_text :: "issue_severity \<Rightarrow> fragment" where
  "health_badge_text s =
     (if s = BadIssue then Badge ''badge-bad'' (warning_sign @ '' critical'') else Badge ''badge-warn'' (warning_sign @ '' warning''))"

definition ends_mark :: string where "ends_mark = [CHR 0xE2, CHR 0x86, CHR 0x94]"

section \<open>The cells of a row\<close>

definition deviceCell :: "issue \<Rightarrow> fragment list" where
  "deviceCell i = (if is_fqdn i = '''' then [Muted ''network''] else [device_anchor (is_fqdn i) (is_hostname i)])"

fun interleave :: "'a \<Rightarrow> 'a list \<Rightarrow> 'a list" where
  "interleave sep [] = []"
| "interleave sep [x] = [x]"
| "interleave sep (x # xs) = x # sep # interleave sep xs"

definition rowDeviceCell :: "row \<Rightarrow> fragment list" where
  "rowDeviceCell r =
     (if length (members r) < 2 then deviceCell (primary r)
      else interleave (Muted ends_arrow) (map (\<lambda>m. device_anchor (is_fqdn m) (is_hostname m)) (members r)))"

definition inline_note :: "row \<Rightarrow> string option" where
  "inline_note r = (if \<not> isCombined r \<and> acknowledged (primary r) then truthy (is_note (primary r)) else None)"

definition hint_text :: "row \<Rightarrow> string option" where
  "hint_text r = map_option (\<lambda>(a, n). middle_dot @ dec a @ ''/'' @ dec n @ '' acked'') (partialAckHint r)"

text \<open>A row of the desktop table: severity, device, affected, issue with its hint and note, age.\<close>

record issue_cells =
  cell_severity :: fragment
  cell_device :: "fragment list"
  cell_affected :: string
  cell_title :: string
  cell_hint :: "string option"
  cell_note :: "string option"
  cell_age :: string

definition issue_table_row :: "int \<Rightarrow> row \<Rightarrow> issue_cells" where
  "issue_table_row t r =
     \<lparr>cell_severity = health_badge_text (rowSeverity r), cell_device = rowDeviceCell r,
      cell_affected = (case rowAffectedLabel r of None \<Rightarrow> em_dash | Some a \<Rightarrow> a), cell_title = title (primary r),
      cell_hint = hint_text r, cell_note = inline_note r, cell_age = ago t (rowFirstSeen r)\<rparr>"

text \<open>The card of a row on a small screen shows no dash for a missing label.\<close>

definition issue_card :: "int \<Rightarrow> row \<Rightarrow> issue_cells" where
  "issue_card t r = (issue_table_row t r)\<lparr>cell_affected := or_empty (rowAffectedLabel r)\<rparr>"

section \<open>Explanations\<close>

text \<open>The explanation of a kind, by its name or, failing that, by the first prefix that fits.\<close>

definition kind_texts :: "(string \<times> string) list" where
  "kind_texts =
     [(''stp-root-mismatch'', ''This device names a different root bridge than the one jaspy elected for the VLAN. Compare the '' @
        ''two bridge IDs below '' @
        em_dash @
        '' the lower one is the root STP would actually choose.''),
      (''stp-unmonitored-root'', ''The VLAN's real root bridge (the lowest bridge ID) is a switch jaspy does not poll. This '' @
        ''device correctly points at it '' @
        em_dash @
        '' the finding is that the true root is off-fleet, not that this device is misconfigured. Add '' @
        ''the upstream bridge to monitoring to resolve it.''),
      (''stp-orphan'', ''This device has a root port (an upstream toward the root) but jaspy could not resolve the '' @
        ''neighbour on it '' @
        em_dash @
        '' usually an unmonitored switch or a missing discovered link.''),
      (''device-down'', ''The device stopped answering polls. Check power, the management link, and SNMP reachability.''),
      (''poe-budget'', ''A PoE power supply is running near its budget. New powered devices on this switch may fail to '' @
        ''power up.''),
      (''poe-pse-down'', ''A PoE power supply is not operational '' @
        em_dash @
        '' ports it feeds cannot deliver power.''),
      (''lag:member-link-down'', ''One member of this LACP uplink bundle is physically down while another is still up '' @
        em_dash @
        '' the uplink keeps working but has lost its redundancy. The verdict below names the most likely '' @
        ''loose cable end.''),
      (''iface-flapping'', ''This port keeps going down and back up. If it connects to another switch (see the far end '' @
        ''below), a flapping inter-switch link is usually a bad cable, a dirty/failing SFP, or a '' @
        ''duplex/speed mismatch '' @
        em_dash @
        '' check both ends.''),
      (''iface-err-disabled'', ''The switch has error-disabled this port '' @
        em_dash @
        '' it detected a fault (see the cause below) and forced the port down. It stays down until the '' @
        ''errdisable condition is cleared (auto-recovery, or a manual shut/no shut). Fix the underlying '' @
        ''cause first, or the port will trip again.''),
      (''lag:speed-mismatch'', ''Members of this port-channel are up but running at different link speeds '' @
        em_dash @
        '' usually a faulty cable or a duplex/auto-negotiation fault forcing one leg to a lower speed. '' @
        ''The bundle still forms, but throughput is capped and traffic hashes unevenly. Check the slow '' @
        ''member'' @
        apostrophe @
        ''s cabling and port settings.'')]"

definition prefix_texts :: "(string \<times> string) list" where
  "prefix_texts =
     [(''stp-flag:multiple-roots'', ''Two or more bridges each believe they are this VLAN'' @
        apostrophe @
        ''s root, so spanning tree has not converged to a single tree. Whether that is dangerous depends '' @
        ''on whether they share a path '' @
        em_dash @
        '' the claimed roots and their connectivity are below.''),
      (''stp-flag:no-root'', ''The VLAN has spanning-tree nodes but no elected root bridge '' @
        em_dash @
        '' an incomplete or partitioned view.''),
      (''stp-flag:cycle'', ''The computed spanning tree contains a cycle '' @
        em_dash @
        '' a physical or logical loop STP has not resolved.''),
      (''stp-flag:multiple-root-ports'', ''A device has more than one root port on this VLAN '' @
        em_dash @
        '' an ambiguous path to the root.''),
      (''iface-'', ''An interface-health signal crossed its threshold. The counters below are over the stated '' @
        ''window.''),
      (''lag:'', ''A link-aggregation (port-channel) consistency check failed. Members may not be bundling as '' @
        ''intended.'')]"

definition explainKind :: "string \<Rightarrow> string option" where
  "explainKind k =
     (case map_of kind_texts k of
        Some e \<Rightarrow> Some e
      | None \<Rightarrow> map_option snd (find (\<lambda>(p, e). starts_with p k) prefix_texts))"

section \<open>The detail of an issue\<close>

definition tone_text :: "verdict_tone \<Rightarrow> string" where
  "tone_text v = (case v of Good \<Rightarrow> ''good'' | Bad \<Rightarrow> ''bad'' | Warning \<Rightarrow> ''warn'' | Neutral \<Rightarrow> ''neutral'')"

definition port_suffix :: "string \<Rightarrow> string" where
  "port_suffix p = (if p \<noteq> '''' then '':'' @ p else '''')"

definition peer_part :: "interface_connection option \<Rightarrow> cdp_neighbor option \<Rightarrow> fragment list" where
  "peer_part peer cdp =
     (case peer of
        Some c \<Rightarrow> [Plain (middle_dot @ ends_mark @ '' ''), Anchor (device_href (ic_fqdn c)) (ic_fqdn c @ port_suffix (ic_interface c))]
      | None \<Rightarrow>
          (case cdp of
             Some n \<Rightarrow> [Muted (middle_dot @ ends_mark @ '' '' @ deviceId n @ port_suffix (or_empty (devicePort n)) @ '' (CDP)'')]
           | None \<Rightarrow> []))"

fun DetailValue :: "issue_detail_value \<Rightarrow> fragment list" where
  "DetailValue (Text s) = [Plain s]"
| "DetailValue (Mac m monitored) = Mono m # guarded (\<not> monitored) (Badge ''badge-warn'' ''off-fleet'')"
| "DetailValue (DeviceRef f host) = [device_anchor f host]"
| "DetailValue (InterfaceRef n st) = Plain n # guarded (truthy_text st) (Muted ('' ('' @ the st @ '')''))"
| "DetailValue (Verdict s tone) = [Badge (''verdict-'' @ tone_text tone) s]"
| "DetailValue (Href s href) = [Anchor href (s @ '' '' @ right_arrow)]"
| "DetailValue (StpRoot f host mac prio preferred) =
     [device_anchor f host]
     @ (case prio of Some n \<Rightarrow> [Plain (middle_dot @ ''priority '' @ int_text n)] | None \<Rightarrow> [])
     @ (if truthy_text mac then [Plain middle_dot, Mono (the mac)] else [])
     @ guarded preferred (Badge ''badge-ok'' ''STP would elect this'')"
| "DetailValue (Member n st speed med peer cdp) =
     [Mono n]
     @ guarded (truthy_text st) (Badge (if st = Some ''up'' then ''badge-ok'' else ''badge-bad'') (the st))
     @ (case speed of Some v \<Rightarrow> [Muted (middle_dot @ int_text v @ '' Mb/s'')] | None \<Rightarrow> [])
     @ guarded (truthy_text med) (Muted (middle_dot @ the med))
     @ peer_part peer cdp"

text \<open>The chip of a related issue: the key it opens, its severity and title.\<close>

record issue_view =
  iv_explain :: "string option"
  iv_description :: string
  iv_before :: "(string \<times> fragment list) list"
  iv_related :: "(string \<times> issue_severity \<times> string) list"
  iv_after :: "(string \<times> fragment list) list"

definition IssueDetail :: "(int \<Rightarrow> string) \<Rightarrow> int \<Rightarrow> bool \<Rightarrow> issue list \<Rightarrow> issue \<Rightarrow> issue_view" where
  "IssueDetail absolute t showExplain rel i =
     \<lparr>iv_explain = (if showExplain then explainKind (is_kind i) else None),
      iv_description = is_description i,
      iv_before =
        guarded (is_fqdn i \<noteq> '''') (''device'', [Anchor (device_href (is_fqdn i)) (is_fqdn i)])
        @ guarded (truthy_text (subjectLabel i)) (''affected'', [Plain (the (subjectLabel i))])
        @ map (\<lambda>d. (id_label d, DetailValue (id_value d))) (is_detail i),
      iv_related = map (\<lambda>r. (issueKey r, is_severity r, title r)) rel,
      iv_after =
        [(''first seen'', [Plain (absolute (firstSeen i) @ '' ('' @ ago t (firstSeen i) @ '')'')]),
         (''last seen'', [Plain (ago t (lastSeen i))])]
        @ (case ackedAt i of Some a \<Rightarrow> guarded (acknowledged i) (''acknowledged'', [Plain (absolute a)]) | None \<Rightarrow> [])
        @ guarded (acknowledged i \<and> truthy_text (is_note i)) (''note'', [Plain (the (is_note i))])\<rparr>"

text \<open>The body of an expanded row: the explanation, and each end below its heading.\<close>

definition side_head :: "issue \<Rightarrow> fragment list" where
  "side_head i = device_anchor (is_fqdn i) (is_hostname i)
     # guarded (truthy_text (subjectLabel i)) (Muted (middle_dot @ the (subjectLabel i)))"

definition rowDetail :: "(int \<Rightarrow> string) \<Rightarrow> int \<Rightarrow> issue list \<Rightarrow> row \<Rightarrow> string option \<times> (fragment list \<times> issue_view) list" where
  "rowDetail absolute t xs r =
     (if length (members r) = 1
      then (None, [([], IssueDetail absolute t True (related xs (primary r)) (primary r))])
      else (explainKind (is_kind (primary r)),
            map (\<lambda>m. (side_head m, IssueDetail absolute t False (related xs m) m)) (members r)))"

section \<open>The panel of the issue types\<close>

definition CATEGORY_ORDER :: "string list" where
  "CATEGORY_ORDER = [''device'', ''poe'', ''interface'', ''stp'', ''lag'']"

definition CATEGORY_LABEL :: "string \<Rightarrow> string option" where
  "CATEGORY_LABEL = map_of [(''device'', ''Device''), (''poe'', ''PoE''), (''interface'', ''Interface''),
     (''stp'', ''Spanning tree''), (''lag'', ''Link aggregation'')]"

definition suppressedCount :: "issue_type list \<Rightarrow> nat" where
  "suppressedCount ts = length (filter suppressed ts)"

record type_row =
  tr_type :: issue_type
  tr_filtering :: bool
  tr_count :: string
  tr_button :: string

definition type_row_of :: "issues_page \<Rightarrow> issue_type \<Rightarrow> type_row" where
  "type_row_of p ty =
     \<lparr>tr_type = ty, tr_filtering = (selectedKind p = Some (it_kind ty)),
      tr_count = (if suppressed ty then em_dash
        else dec (case map_of (countByKind (issues p)) (it_kind ty) of Some n \<Rightarrow> n | None \<Rightarrow> 0)),
      tr_button = (if suppressed ty then ''Suppressed'' @ em_sep @ ''restore'' else ''Suppress'')\<rparr>"

definition types_panel :: "issues_page \<Rightarrow> (string \<times> type_row list) list" where
  "types_panel p =
     concat (map (\<lambda>cat. case map_of (typesByCategory (issueTypes p)) cat of
         None \<Rightarrow> []
       | Some ts \<Rightarrow> if ts = [] then [] else [(or_empty (CATEGORY_LABEL cat), map (type_row_of p) ts)])
       CATEGORY_ORDER)"

text \<open>The button of the mass acknowledgement.\<close>

definition mass_ack_label :: "issues_page \<Rightarrow> string" where
  "mass_ack_label p =
     (if isPending (massAck_mutation p) then ''Acknowledging'' @ ellipsis
      else ''Acknowledge ('' @ dec (length (selected p)) @ '') issues'')"

text \<open>The error below the title: the first of the mutations that failed.\<close>

fun failure :: "mutation \<Rightarrow> string option" where
  "failure (Failed e) = Some e"
| "failure m = None"

definition page_error :: "issues_page \<Rightarrow> string option" where
  "page_error p =
     Option.bind (find (\<lambda>e. e \<noteq> None)
       [failure (ack_mutation p), failure (unack_mutation p), failure (massAck_mutation p), failure (suppress_mutation p),
        failure (unsuppress_mutation p)]) id"

section \<open>What is shown\<close>

fun anchors :: "fragment list \<Rightarrow> string list" where
  "anchors [] = []"
| "anchors (Anchor h x # fs) = h # anchors fs"
| "anchors (_ # fs) = anchors fs"

lemma anchors_append [simp]: "anchors (fs @ gs) = anchors fs @ anchors gs"
  by (induction fs rule: anchors.induct) auto

lemma anchors_guarded_muted [simp]: "anchors (guarded b (Muted s)) = []"
  by (simp add: guarded_def)

lemma anchors_Cons: "anchors (x # fs) = anchors [x] @ anchors fs"
  by (cases x) auto

lemma anchors_interleave: "anchors [x] = [] \<Longrightarrow> anchors (interleave x fs) = anchors fs"
proof (induction x fs rule: interleave.induct)
  case (3 sep y v vs)
  have "anchors (y # sep # fs) = anchors [y] @ anchors fs" for fs
    using 3(2) anchors_Cons [of y "sep # fs"] anchors_Cons [of sep fs] by simp
  then show ?case using 3 anchors_Cons [of y "v # vs"] by simp
qed simp_all

lemma device_href_inj [simp]: "device_href f = device_href g \<longleftrightarrow> f = g"
  by (metis device_href_def append_same_eq same_append_eq decode_encode)

lemma anchors_devices: "anchors (map (\<lambda>m. device_anchor (g m) (h m)) ms) = map (\<lambda>m. device_href (g m)) ms"
  by (induction ms) (auto simp: device_anchor_def)

text \<open>
  The links of a row and of its expanded body lead to its devices: those of the row to the ends in
  their order, and below the heading of an end to that end.
\<close>

theorem row_links:
  assumes "length (members r) \<noteq> 1"
  shows "anchors (rowDeviceCell r) = (if length (members r) < 2 then anchors (deviceCell (primary r))
      else map (\<lambda>m. device_href (is_fqdn m)) (members r))
    \<and> map (\<lambda>(head, v). anchors head) (snd (rowDetail absolute t xs r)) = map (\<lambda>m. [device_href (is_fqdn m)]) (members r)
    \<and> map (\<lambda>(head, v). iv_explain v) (snd (rowDetail absolute t xs r)) = map (\<lambda>m. None) (members r)"
proof (intro conjI)
  show "anchors (rowDeviceCell r) = (if length (members r) < 2 then anchors (deviceCell (primary r))
      else map (\<lambda>m. device_href (is_fqdn m)) (members r))"
    by (simp add: rowDeviceCell_def anchors_interleave anchors_devices)
qed (use assms in \<open>simp_all add: rowDetail_def side_head_def device_anchor_def IssueDetail_def\<close>)

text \<open>
  A related chip leads to an issue of the same device and subject, and the issue it leads to has a chip
  that leads back.
\<close>

theorem chips_lead_back:
  assumes "distinct (map issueKey xs)" and "i \<in> set xs" and "j \<in> set xs"
  shows "(issueKey j, is_severity j, title j) \<in> set (iv_related (IssueDetail absolute t b (related xs i) i)) \<longleftrightarrow>
    (issueKey i, is_severity i, title i) \<in> set (iv_related (IssueDetail absolute t b (related xs j) j))"
proof -
  have chip: "(issueKey y, is_severity y, title y) \<in> set (iv_related (IssueDetail absolute t b (related xs x) x)) \<longleftrightarrow>
      y \<in> set (related xs x)" if "x \<in> set xs" "y \<in> set xs" for x y
  proof -
    have "z = y" if "z \<in> set (related xs x)" "issueKey z = issueKey y" for z
      using that \<open>x \<in> set xs\<close> \<open>y \<in> set xs\<close> assms(1)
      by (auto simp: related_siblings siblings_def distinct_map inj_on_def split: if_splits)
    then show ?thesis by (auto simp: IssueDetail_def)
  qed
  show ?thesis using assms by (auto simp: chip related_iff)
qed

lemma types_panel_alt:
  "types_panel p = concat (map (\<lambda>cat. let ts = filter (\<lambda>ty. it_category ty = cat) (issueTypes p) in
      if ts = [] then [] else [(or_empty (CATEGORY_LABEL cat), map (type_row_of p) ts)]) CATEGORY_ORDER)"
  unfolding types_panel_def
  by (intro arg_cong [where f = concat] map_cong refl)
    (auto simp: typesByCategory_def map_of_group_by Let_def filter_empty_conv image_iff)

lemma panel_types:
  "concat (map (\<lambda>(l, rows). map tr_type rows) (types_panel p)) =
    concat (map (\<lambda>cat. filter (\<lambda>ty. it_category ty = cat) (issueTypes p)) CATEGORY_ORDER)"
proof -
  have "concat (map (\<lambda>(l, rows). map tr_type rows) (concat (map (\<lambda>cat. let ts = F cat in
      if ts = [] then [] else [(L cat, map (type_row_of p) ts)]) cs))) = concat (map F cs)" for F L cs
    by (induction cs) (auto simp: Let_def type_row_of_def comp_def)
  then show ?thesis unfolding types_panel_alt .
qed

text \<open>
  The panel has exactly one row for each type of the five categories, in their order, and shows the
  number of current issues of a type unless the type is suppressed.
\<close>

theorem types_panel_rows:
  "mset (concat (map (\<lambda>(l, rows). map tr_type rows) (types_panel p)))
      = mset (filter (\<lambda>ty. it_category ty \<in> set CATEGORY_ORDER) (issueTypes p))
    \<and> tr_count (type_row_of p ty) = (if suppressed ty then em_dash
        else dec (length (filter (\<lambda>i. is_kind i = it_kind ty) (issues p))))"
proof
  let ?ts = "filter (\<lambda>ty. it_category ty \<in> set CATEGORY_ORDER) (issueTypes p)"
  have "filter (\<lambda>ty. it_category ty = c) (issueTypes p) = filter (\<lambda>ty. it_category ty = c) ?ts"
    if "c \<in> set CATEGORY_ORDER" for c
    using that by (auto intro!: filter_cong)
  then have "mset (concat (map (\<lambda>c. filter (\<lambda>ty. it_category ty = c) (issueTypes p)) CATEGORY_ORDER))
      = mset (concat (map (\<lambda>c. filter (\<lambda>ty. it_category ty = c) ?ts) CATEGORY_ORDER))"
    by (metis (mono_tags, lifting) map_eq_conv)
  also have "\<dots> = mset ?ts"
    by (rule mset_groups) (auto simp: CATEGORY_ORDER_def)
  finally show "mset (concat (map (\<lambda>(l, rows). map tr_type rows) (types_panel p))) = mset ?ts"
    unfolding panel_types .
  show "tr_count (type_row_of p ty) = (if suppressed ty then em_dash
        else dec (length (filter (\<lambda>i. is_kind i = it_kind ty) (issues p))))"
    by (auto simp: type_row_of_def countByKind_def map_of_count_by filter_empty_conv image_iff
        intro!: arg_cong [where f = dec] split: option.split)
qed

end
