(* ===== verification/DeviceView.thy ===== *)
theory DeviceView
  imports IssueView
begin

text \<open>
  What the device page of the nexus web interface shows, \<^verbatim>\<open>pages/DeviceDetail.tsx\<close>: its head, the
  issues, port-channels, interfaces, power budgets, sensors and spanning tree ports, as texts, badges
  and links; and its buttons, as steps of the page.
\<close>

section \<open>Records of the page (api/types.ts)\<close>

record port_channel =
  pc_ifindex :: nat
  pc_name :: "string option"
  pc_alias :: "string option"
  pc_up :: "bool option"
  protocol :: string
  partnerSystemId :: "string option"
  pc_members :: "port_channel_member list"
  pc_warnings :: "string list"

record poe_budget =
  pb_group :: int
  totalW :: int
  consumedW :: int
  remainingW :: int
  utilizationPct :: int
  operOn :: bool

record entity_sensor =
  sensorId :: nat
  es_name :: string
  es_description :: string
  es_value :: real
  es_valueType :: string
  es_interfaceName :: "string option"
  es_interfaceId :: "nat option"
  es_timestamp :: int

record device_detail =
  dd_device :: net_device
  dd_interfaces :: "net_interface list"
  dd_vlans :: "(nat \<times> string option) list"
  dd_portChannels :: "port_channel list"
  ipAddresses :: "string list"
  poeBudget :: "poe_budget list"
  dd_issues :: "issue list"

section \<open>Badges and cells\<close>

definition or_dash :: "string option \<Rightarrow> string" where
  "or_dash v = (case v of None \<Rightarrow> em_dash | Some s \<Rightarrow> s)"

definition fixed1 :: "real \<Rightarrow> string" where
  "fixed1 v = (let n = nat \<lfloor>v * 10 + 1 / 2\<rfloor> in dec (n div 10) @ ''.'' @ [digit_char (n mod 10)])"

text \<open>The badge of the SNMP health and its hint.\<close>

definition SnmpHealthBadge :: "snmp_health option \<Rightarrow> (fragment \<times> string) option" where
  "SnmpHealthBadge h =
     (case h of
        None \<Rightarrow> None
      | Some x \<Rightarrow>
          let secs = fixed1 (real (sh_effectiveTimeoutMs x) / 1000) in
          Some (if \<not> sh_slow x
            then (Badge ''badge-bad'' ''SNMP down'', ''SNMP not responding (timeout '' @ secs @ ''s)'')
            else (Badge ''badge-warn'' ''SNMP slow'', ''SNMP slow: timeout raised to '' @ secs @ ''s''
              @ (case sh_ewmaLatencyMs x of None \<Rightarrow> '''' | Some l \<Rightarrow> '', avg '' @ int_text (js_round l) @ ''ms''))))"

definition up_badge :: "bool option \<Rightarrow> fragment" where
  "up_badge u = Badge (fst (UpBadge u)) (snd (UpBadge u))"

definition HealthBadge_fragment :: "health_badge \<Rightarrow> fragment" where
  "HealthBadge_fragment b =
     (case b of
        DiscardBadge \<Rightarrow> Badge ''badge-warn'' [CHR 0xF0, CHR 0x9F, CHR 0x97, CHR 0x91]
      | HealthBadge s \<Rightarrow>
          if s = BadIssue then Badge ''badge-bad'' (warning_sign @ '' issues'') else Badge ''badge-warn'' warning_sign)"

definition PoeCell :: "interface_poe option \<Rightarrow> fragment" where
  "PoeCell v =
     (case v of
        None \<Rightarrow> Plain em_dash
      | Some p \<Rightarrow>
          if poe_status p = ''deliveringPower''
          then Plain ([CHR 0xE2, CHR 0x9A, CHR 0xA1] @ '' '' @ (case formatWatts (powerMw p) of None \<Rightarrow> ''on'' | Some w \<Rightarrow> w)
            @ (case poe_class p of None \<Rightarrow> '''' | Some c \<Rightarrow> middle_dot @ ''class '' @ dec c))
          else Muted (case POE_STATUS_LABEL (poe_status p) of None \<Rightarrow> poe_status p | Some l \<Rightarrow> l))"

definition PoeBudgetSummary :: "poe_budget \<Rightarrow> (string \<times> string) list \<times> int \<times> string" where
  "PoeBudgetSummary b =
     ([(''PSE'', int_text (pb_group b) @ (if operOn b then '''' else em_sep @ ''not operational'')),
       (''Total budget'', int_text (totalW b) @ '' W''),
       (''Consumed'', int_text (consumedW b) @ '' W ('' @ int_text (utilizationPct b) @ ''%)''),
       (''Remaining'', int_text (remainingW b) @ '' W'')],
      utilizationPct b, poeMeterColor (real_of_int (utilizationPct b)))"

section \<open>The head of the page\<close>

definition masked :: string where
  "masked = concat (replicate 6 [CHR 0xE2, CHR 0x80, CHR 0xA2])"

definition head_rows :: "device_detail \<Rightarrow> (string \<times> string) list" where
  "head_rows d =
     [(''Type'', or_dash (deviceType (dd_device d)))]
     @ (case truthy (summarizePorts (dd_interfaces d)) of None \<Rightarrow> [] | Some s \<Rightarrow> [(''Ports'', s)])
     @ [(''IP address'', str_or (join '', '' (ipAddresses d)) em_dash),
        (''Software'', or_dash (softwareVersion (dd_device d))),
        (''OS info'', or_dash (osInfo (dd_device d))),
        (''Base MAC'', or_dash (baseMac (dd_device d))),
        (''SNMP community'', if truthy_text (snmpCommunity (dd_device d)) then masked else em_dash),
        (''Polling'', snd (PollingBadge (dv_pollingEnabled (dd_device d))))]"

text \<open>The page of the device in Megaexcel, by its short name.\<close>

definition short_name :: "string \<Rightarrow> string" where
  "short_name f = hd (split (CHR ''.'') f)"

definition megaexcelDeviceUrl :: "string option \<Rightarrow> net_device \<Rightarrow> string option" where
  "megaexcelDeviceUrl url d = map_option (\<lambda>u. u @ ''/entity/'' @ short_name (dv_fqdn d)) (truthy url)"

definition device_issue :: "issue \<Rightarrow> fragment list" where
  "device_issue i =
     [health_badge_text (is_severity i), Plain (title i)]
     @ guarded (truthy_text (subjectLabel i)) (Muted (the (subjectLabel i)))
     @ guarded (acknowledged i) (Badge ''badge-muted'' ''acknowledged'')
     @ [Plain (is_description i)]"

section \<open>Port-channels\<close>

definition if_name :: "string option \<Rightarrow> nat \<Rightarrow> string" where
  "if_name n i = (case n of Some s \<Rightarrow> s | None \<Rightarrow> ''ifIndex '' @ dec i)"

definition port_channel_head :: "port_channel \<Rightarrow> fragment list" where
  "port_channel_head po =
     [Plain (if_name (pc_name po) (pc_ifindex po)), up_badge (pc_up po),
      Badge (if protocol po = ''lacp'' then ''badge-ok'' else ''badge-warn'') (protocol po)]
     @ guarded (truthy_text (pc_alias po)) (Muted (the (pc_alias po)))
     @ guarded (truthy_text (partnerSystemId po)) (Muted (''partner '' @ the (partnerSystemId po)))"

definition member_row :: "port_channel_member \<Rightarrow> fragment list list" where
  "member_row m =
     [[Plain (if_name (pm_name m) (pm_ifindex m))],
      [Plain (MemberStateBadge m)],
      (case pm_connectedTo m of
         Some c \<Rightarrow> [Anchor (device_href (ic_fqdn c)) (short_name (ic_fqdn c)), Plain ('':'' @ ic_interface c)]
       | None \<Rightarrow> [Plain em_dash]),
      [Plain (opt_dec (partnerPort m))],
      [Plain (if actorState m \<noteq> [] then join '', '' (actorState m) else em_dash)]]"

definition port_channel_panel :: "port_channel \<Rightarrow> fragment list \<times> string list \<times> fragment list list list" where
  "port_channel_panel po =
     (port_channel_head po, map (\<lambda>c. warning_sign @ '' '' @ portChannelWarningText c) (pc_warnings po),
      map member_row (pc_members po))"

section \<open>Interfaces\<close>

definition tagged :: "net_interface \<Rightarrow> nat list" where
  "tagged i = (case taggedVlans i of None \<Rightarrow> [] | Some ns \<Rightarrow> ns)"

definition far_end :: "net_interface \<Rightarrow> fragment list" where
  "far_end i =
     (case connectedTo i of
        Some c \<Rightarrow> [Anchor (device_href (ic_fqdn c)) (ic_fqdn c), Plain ('':'' @ ic_interface c)]
      | None \<Rightarrow>
          (case cdpNeighbor i of
             Some n \<Rightarrow> [Plain (cdpNeighborText n @ '' ''), Muted ''(CDP)'']
           | None \<Rightarrow> []))"

definition state_badges :: "net_interface \<Rightarrow> fragment list" where
  "state_badges i =
     [up_badge (ni_up i)]
     @ guarded (errDisabled i) (Badge ''badge-bad'' (ErrDisabledBadge (errDisableCause i)))
     @ (case health i of None \<Rightarrow> [] | Some h \<Rightarrow> map HealthBadge_fragment (InterfaceHealthBadges h))"

definition name_cell :: "device_page \<Rightarrow> net_interface \<Rightarrow> fragment list" where
  "name_cell p i =
     Plain (shown_name i @ (if ni_id i \<in> set (expandedDetail p) then [CHR 0x20, CHR 0xE2, CHR 0x96, CHR 0xBE]
       else [CHR 0x20, CHR 0xE2, CHR 0x96, CHR 0xB8]))
     # guarded (truthy_text (portChannel i)) (Badge ''badge-muted'' (the (portChannel i)))"

text \<open>A row of the table.\<close>

definition iface_row :: "device_page \<Rightarrow> net_interface \<Rightarrow> fragment list list" where
  "iface_row p i =
     [name_cell p i,
      state_badges i,
      [Plain (case ni_speed i of None \<Rightarrow> em_dash | Some s \<Rightarrow> dec s @ '' Mb/s'')],
      [Plain (opt_dec (nativeVlan i))],
      [Plain (if tagged i \<noteq> [] then summarizeTaggedVlans (tagged i) else em_dash)],
      [PoeCell (poe i)],
      [Plain (or_dash (ni_alias i))],
      [Plain (interfaceType i)],
      (if far_end i = [] then [Plain em_dash] else far_end i)]"

text \<open>The card of an interface on a small screen leaves out what is not known.\<close>

definition iface_card :: "device_page \<Rightarrow> net_interface \<Rightarrow> fragment list" where
  "iface_card p i =
     name_cell p i @ state_badges i
     @ (case ni_speed i of None \<Rightarrow> [] | Some s \<Rightarrow> [Plain (dec s @ '' Mb/s'')])
     @ guarded (nativeVlan i \<noteq> None \<or> tagged i \<noteq> [])
         (Plain (''VLAN '' @ opt_dec (nativeVlan i)
           @ (if tagged i \<noteq> [] then '' (+'' @ dec (length (tagged i)) @ '' tagged)'' else '''')))
     @ (case poe i of
          Some q \<Rightarrow> if poe_status q = ''deliveringPower'' then [Plain ''PoE '', PoeCell (Some q)] else []
        | None \<Rightarrow> [])
     @ guarded (truthy_text (ni_alias i)) (Plain (the (ni_alias i)))
     @ (if far_end i = [] then [] else Plain (right_arrow @ '' '') # far_end i)"

text \<open>The interfaces that are shown, each with its detail when it is expanded.\<close>

definition vlanNames :: "device_detail \<Rightarrow> nat \<Rightarrow> string option" where
  "vlanNames d n = Option.bind (map_of (rev (dd_vlans d)) n) id"

record expanded_detail =
  ed_lines :: "string list"
  ed_rows :: "detail_row list"
  ed_vlans :: "(vlan_kind \<times> nat \<times> string) list option"

definition expanded_of :: "device_detail \<Rightarrow> net_interface \<Rightarrow> expanded_detail" where
  "expanded_of d i =
     \<lparr>ed_lines = fst (InterfaceDetail i), ed_rows = snd (InterfaceDetail i),
      ed_vlans = (if nativeVlan i \<noteq> None \<or> tagged i \<noteq> [] then Some (InterfaceVlanList i (vlanNames d)) else None)\<rparr>"

definition iface_table ::
  "(string \<Rightarrow> string \<Rightarrow> int) \<Rightarrow> device_page \<Rightarrow> device_detail \<Rightarrow> (fragment list list \<times> expanded_detail option) list" where
  "iface_table collate p d =
     map (\<lambda>i. (iface_row p i, if ni_id i \<in> set (expandedDetail p) then Some (expanded_of d i) else None))
       (visibleInterfaces collate p (dd_interfaces d))"

section \<open>Sensors and spanning tree ports\<close>

definition sensor_row :: "entity_sensor \<Rightarrow> string list" where
  "sensor_row s =
     [if es_name s \<noteq> '''' then es_name s else ''sensor '' @ dec (sensorId s),
      formatSensorValue (es_value s) (es_valueType s),
      or_dash (es_interfaceName s), str_or (es_description s) em_dash]"

definition stp_port_row :: "(nat \<Rightarrow> string option) \<Rightarrow> stp_port \<Rightarrow> fragment list" where
  "stp_port_row names q =
     [Anchor (''/stp?vlan='' @ dec (sp_vlan q)) (dec (sp_vlan q)),
      Plain (case sp_interfaceName q of Some n \<Rightarrow> n | None \<Rightarrow> ''port '' @ dec (stpPortId q)),
      Plain (sp_role q),
      Badge (StpStateBadge (sp_state q)) (sp_state q),
      (case sp_enabled q of None \<Rightarrow> Plain em_dash | Some True \<Rightarrow> Plain ''yes'' | Some False \<Rightarrow> Badge ''badge-warn'' ''no''),
      Plain (dec (sp_pathCost q)), Plain (dec (designatedCost q)), Plain (dec (sp_priority q)),
      Plain (dec (forwardTransitions q))]"

definition section_title :: "string \<Rightarrow> nat \<Rightarrow> string option" where
  "section_title name n = (if n > 0 then Some (name @ '' ('' @ dec n @ '')'') else None)"

text \<open>A section: its caret and title, and its body while it is open.\<close>

definition Section :: "bool \<Rightarrow> string \<Rightarrow> 'a \<Rightarrow> string \<times> string \<times> 'a option" where
  "Section opened name body =
     (if opened then [CHR 0xE2, CHR 0x96, CHR 0xBE] else [CHR 0xE2, CHR 0x96, CHR 0xB8], name,
      if opened then Some body else None)"

definition Section_toggle :: "bool \<Rightarrow> bool" where
  "Section_toggle opened = (\<not> opened)"

definition sessions_line :: "(nat \<times> nat \<times> bool) option \<Rightarrow> string" where
  "sessions_line config =
     ''SNMP adaptive polling'' @
       (case config of
          None \<Rightarrow> middle_dot @ ''config unavailable''
        | Some (floor_ms, ceiling_ms, adaptive) \<Rightarrow> middle_dot @ ''floor '' @ dec floor_ms @ ''ms'' @ middle_dot @ ''ceiling ''
            @ dec ceiling_ms @ ''ms'' @ middle_dot @ ''adaptive '' @ (if adaptive then ''on'' else ''off''))"

section \<open>The buttons of the page\<close>

text \<open>
  The component of the page stays when the address changes from one device to another: the route is the
  same, so React keeps its state.  A request goes to the device of the address; the callbacks of a
  mutation are those of the last rendering.  \<open>vlans_on\<close>: the VLAN poller is enabled.
\<close>

datatype device_request =
    PutDevice string device_update
  | DeleteDevice string
  | DiscoverDevice string
  | PollVlans string

record device_client =
  at_fqdn :: string
  at_device :: "net_device option"
  at_page :: device_page
  polling_mutation :: mutation
  discovery_mutation :: mutation
  vlans_mutation :: mutation
  delete_mutation :: mutation
  device_requests :: "device_request list"
  device_effects :: "page_effect list"

definition new_device_client :: "string \<Rightarrow> device_client" where
  "new_device_client f =
     \<lparr>at_fqdn = f, at_device = None, at_page = new_device_page, polling_mutation = Idle, discovery_mutation = Idle,
      vlans_mutation = Idle, delete_mutation = Idle, device_requests = [], device_effects = []\<rparr>"

datatype device_event =
    Visit string
  | Loaded net_device
  | TogglePolling
  | RunDiscovery
  | PollVlansNow
  | AskDelete
  | CancelDelete
  | ConfirmDelete
  | PollingSettled bool
  | DiscoverySettled bool
  | VlansSettled bool
  | DeleteSettled bool
  | DeviceMessage "string option"
  | ToggleDetail nat
  | ToggleType string
  | SortInterfaces iface_sort_key
  | SortStp stp_sort_key
  | PickSort iface_sort_key bool

definition set_confirm :: "bool \<Rightarrow> device_client \<Rightarrow> device_client" where
  "set_confirm b s = s\<lparr>at_page := (at_page s)\<lparr>confirmDelete := b\<rparr>\<rparr>"

definition send_request :: "device_request \<Rightarrow> device_client \<Rightarrow> device_client" where
  "send_request r s = s\<lparr>device_requests := device_requests s @ [r]\<rparr>"

definition effects :: "page_effect list \<Rightarrow> device_client \<Rightarrow> device_client" where
  "effects es s = s\<lparr>device_effects := device_effects s @ es\<rparr>"

definition settled_as :: "bool \<Rightarrow> mutation" where
  "settled_as fulfilled = (if fulfilled then Success else Failed ''rejected'')"

definition confirming :: "device_client \<Rightarrow> bool" where
  "confirming s \<longleftrightarrow> confirmDelete (at_page s)"

inductive device_step :: "bool \<Rightarrow> device_client \<Rightarrow> device_event \<Rightarrow> device_client \<Rightarrow> bool"
  for vlans_on where
  visit: "device_step vlans_on s (Visit f) (s\<lparr>at_fqdn := f, at_device := None\<rparr>)"
| loaded: "device_step vlans_on s (Loaded d) (s\<lparr>at_device := Some d\<rparr>)"
| toggle_polling: "at_device s = Some d \<Longrightarrow> \<not> confirming s \<Longrightarrow> \<not> isPending (polling_mutation s) \<Longrightarrow>
    device_step vlans_on s TogglePolling
      (send_request (PutDevice (at_fqdn s) (togglePolling d)) (s\<lparr>polling_mutation := Pending []\<rparr>))"
| run_discovery: "at_device s = Some d \<Longrightarrow> \<not> confirming s \<Longrightarrow> \<not> isPending (discovery_mutation s) \<Longrightarrow>
    device_step vlans_on s RunDiscovery (send_request (DiscoverDevice (at_fqdn s)) (s\<lparr>discovery_mutation := Pending []\<rparr>))"
| poll_vlans: "at_device s = Some d \<Longrightarrow> vlans_on \<Longrightarrow> \<not> isPending (vlans_mutation s) \<Longrightarrow>
    device_step vlans_on s PollVlansNow (send_request (PollVlans (at_fqdn s)) (s\<lparr>vlans_mutation := Pending []\<rparr>))"
| ask_delete: "at_device s = Some d \<Longrightarrow> \<not> confirming s \<Longrightarrow> device_step vlans_on s AskDelete (set_confirm True s)"
| cancel_delete: "at_device s = Some d \<Longrightarrow> confirming s \<Longrightarrow> device_step vlans_on s CancelDelete (set_confirm False s)"
| confirm_delete: "at_device s = Some d \<Longrightarrow> confirming s \<Longrightarrow> \<not> isPending (delete_mutation s) \<Longrightarrow>
    device_step vlans_on s ConfirmDelete (send_request (DeleteDevice (at_fqdn s)) (s\<lparr>delete_mutation := Pending []\<rparr>))"
| polling_settled: "isPending (polling_mutation s) \<Longrightarrow>
    device_step vlans_on s (PollingSettled b) (effects (device_invalidate (at_fqdn s)) (s\<lparr>polling_mutation := settled_as b\<rparr>))"
| discovery_settled: "isPending (discovery_mutation s) \<Longrightarrow>
    device_step vlans_on s (DiscoverySettled b)
      (effects (if b then runDiscovery_success (at_fqdn s) else []) (s\<lparr>discovery_mutation := settled_as b\<rparr>))"
| vlans_settled: "isPending (vlans_mutation s) \<Longrightarrow>
    device_step vlans_on s (VlansSettled b)
      (effects (if b then pollVlans_success (at_fqdn s) else []) (s\<lparr>vlans_mutation := settled_as b\<rparr>))"
| delete_settled: "isPending (delete_mutation s) \<Longrightarrow>
    device_step vlans_on s (DeleteSettled b)
      (effects (if b then deleteDevice_success (at_fqdn s) else []) (s\<lparr>delete_mutation := settled_as b\<rparr>))"
| message: "device_step vlans_on s (DeviceMessage ev) (effects (device_onMessage (at_fqdn s) ev) s)"
| toggle_detail: "device_step vlans_on s (ToggleDetail n) (s\<lparr>at_page := toggleDetail n (at_page s)\<rparr>)"
| toggle_type: "device_step vlans_on s (ToggleType ty) (s\<lparr>at_page := toggleType ty (at_page s)\<rparr>)"
| sort_interfaces: "device_step vlans_on s (SortInterfaces k) (s\<lparr>at_page := onIfaceSort k (at_page s)\<rparr>)"
| pick_sort: "device_step vlans_on s (PickSort k asc)
    (s\<lparr>at_page := (at_page s)\<lparr>ifaceSorting := \<lparr>sortKey = k, sortAsc = asc\<rparr>\<rparr>\<rparr>)"
| sort_stp: "device_step vlans_on s (SortStp k) (s\<lparr>at_page := onStpSort k (at_page s)\<rparr>)"

inductive_cases device_stepE: "device_step vlans_on s e t"

text \<open>The entries of the menu, and what stands there while the deletion is to be confirmed.\<close>

definition menu_labels :: "device_client \<Rightarrow> net_device \<Rightarrow> string list" where
  "menu_labels s d =
     (if confirming s then [''Confirm delete '' @ dv_fqdn d, ''Cancel'']
      else [if dv_pollingEnabled d = Some False then ''Enable polling'' else ''Disable polling'',
            if isPending (discovery_mutation s) then ''Running'' @ ellipsis else ''Run discovery'',
            ''Delete device'' @ ellipsis])"

section \<open>Runs of the page\<close>

lemmas client_defs = set_confirm_def send_request_def effects_def settled_as_def confirming_def toggleDetail_def
  toggleType_def onIfaceSort_def onStpSort_def

definition sets_ok :: "device_client \<Rightarrow> bool" where
  "sets_ok s \<longleftrightarrow> distinct (expandedDetail (at_page s)) \<and> distinct (hiddenTypes (at_page s))
     \<and> (isPending (delete_mutation s) \<longrightarrow> (\<exists>f. DeleteDevice f \<in> set (device_requests s)))"

definition device_init :: "device_client \<Rightarrow> bool" where
  "device_init s \<longleftrightarrow> (\<exists>f. s = new_device_client f)"

lemma sets_ok_step:
  assumes "device_step v s e t" and "sets_ok s"
  shows "sets_ok t"
  using assms by (cases rule: device_step.cases)
    (auto simp: sets_ok_def client_defs)

interpretation device_runs: invariant_of device_init "device_step v" sets_ok for v
proof unfold_locales
  show "device_init s \<Longrightarrow> sets_ok s" for s
    by (auto simp: device_init_def sets_ok_def new_device_client_def new_device_page_def)
  show "sets_ok s \<Longrightarrow> device_step v s e t \<Longrightarrow> sets_ok t" for s e t by (rule sets_ok_step)
qed

lemma unasked_run:
  assumes "device_runs.run v s es t" and "AskDelete \<notin> set es" and "\<not> confirming s"
  shows "\<not> confirming t \<and> (\<forall>f. DeleteDevice f \<in> set (device_requests t) \<longrightarrow> DeleteDevice f \<in> set (device_requests s))"
  using assms
proof (induction rule: device_runs.run.induct)
  case (run_snoc s es t e u)
  then have t: "\<not> confirming t"
    "\<forall>f. DeleteDevice f \<in> set (device_requests t) \<longrightarrow> DeleteDevice f \<in> set (device_requests s)" by simp_all
  from run_snoc.hyps(2) run_snoc.prems t show ?case
    by (cases rule: device_step.cases) (auto simp: client_defs)
qed simp

text \<open>No device is deleted on a page that was not asked to delete one.\<close>

theorem delete_was_asked:
  assumes "device_runs.run v (new_device_client f) es s" and "DeleteDevice g \<in> set (device_requests s)"
  shows "AskDelete \<in> set es"
  using unasked_run [OF assms(1)] assms(2) by (auto simp: confirming_def new_device_client_def new_device_page_def)

text \<open>C11: The question outlives the page it was asked on: after \<open>Delete device\<close> on one device, the page of the
  next device that is opened from there shows the button that confirms, and pressing it deletes a
  device whose deletion was never asked for.
\<close>

theorem confirmation_follows_navigation:
  "\<exists>s u. device_runs.run v (new_device_client f) [Loaded d, AskDelete, Visit g, Loaded e] s
    \<and> device_requests s = [] \<and> menu_labels s e = [''Confirm delete '' @ dv_fqdn e, ''Cancel'']
    \<and> device_step v s ConfirmDelete u \<and> device_requests u = [DeleteDevice g]"
proof -
  let ?a = "(new_device_client f)\<lparr>at_device := Some d\<rparr>"
  let ?b = "set_confirm True ?a"
  let ?c = "?b\<lparr>at_fqdn := g, at_device := None\<rparr>"
  let ?s = "?c\<lparr>at_device := Some e\<rparr>"
  let ?u = "send_request (DeleteDevice (at_fqdn ?s)) (?s\<lparr>delete_mutation := Pending []\<rparr>)"
  have step: "device_runs.run v (new_device_client f) (es @ [x]) t"
    if "device_runs.run v (new_device_client f) es r" "device_step v r x t" for es x r t
    using that by (rule device_runs.run_snoc)
  have 1: "device_runs.run v (new_device_client f) [Loaded d] ?a"
    using step [OF device_runs.run_nil device_step.loaded] by simp
  have "device_step v ?a AskDelete ?b"
    by (rule device_step.ask_delete [of _ d]) (simp_all add: confirming_def new_device_client_def new_device_page_def)
  from step [OF 1 this] have 2: "device_runs.run v (new_device_client f) [Loaded d, AskDelete] ?b" by simp
  have 3: "device_runs.run v (new_device_client f) [Loaded d, AskDelete, Visit g] ?c"
    using step [OF 2 device_step.visit] by simp
  have "device_runs.run v (new_device_client f) [Loaded d, AskDelete, Visit g, Loaded e] ?s"
    using step [OF 3 device_step.loaded] by simp
  moreover have "device_step v ?s ConfirmDelete ?u"
    by (rule device_step.confirm_delete [where d = e])
      (simp_all add: client_defs new_device_client_def)
  ultimately show ?thesis
    by (intro exI [of _ ?s] exI [of _ ?u]) (simp add: client_defs new_device_client_def menu_labels_def)
qed

end
