(* ===== verification/StpPage.thy ===== *)
theory StpPage
  imports IssueView StpPath
begin

text \<open>
  The spanning tree page of the nexus web interface, \<^verbatim>\<open>pages/STP.tsx\<close>: its state, kept partly in the
  query parameters of the address, the form for expected roots, and what its tables show.
\<close>

section \<open>Documents (api/types.ts)\<close>

record stp_root_claim =
  rc_fqdn :: string
  rc_hostname :: string
  rc_mac :: "string option"
  rc_priority :: "nat option"
  rc_preferred :: bool
  rc_expected :: bool
  rc_note :: "string option"

record stp_blocked_link =
  bl_fqdn :: string
  bl_stpPortId :: nat
  bl_interfaceName :: "string option"
  bl_role :: string
  bl_state :: string
  bl_pathCost :: nat
  bl_connectedTo :: "interface_connection option"

record stp_vlan_summary =
  sv_vlan :: nat
  sv_rootFqdn :: "string option"
  sv_nodeCount :: nat
  sv_blockedPortCount :: nat
  sv_topologyChanges :: "nat option"
  sv_timeSinceTopologyChangeSecs :: "nat option"
  sv_names :: "string list"

text \<open>\<open>rootClaims\<close>: the roots of \<^verbatim>\<open>multipleRootsDetail\<close>, none if it is missing.\<close>

record stp_tree =
  st_vlan :: nat
  st_roots :: "string list"
  st_nodes :: stp_nodes
  blockedLinks :: "stp_blocked_link list"
  st_flags :: "string list"
  st_names :: "string list"
  rootClaims :: "stp_root_claim list"

section \<open>The state of the page\<close>

datatype stp_query = StpQuery | StpTreeQuery string | StpIssuesQuery

datatype stp_request = MarkExpected string string "string option" | UnmarkExpected string string

text \<open>
  The parameters of the address; \<open>stp_data\<close>: the tree of the VLAN they name, once it has arrived.  The
  VLAN goes into requests as the text of its parameter.
\<close>

record stp_page =
  stp_params :: "(string \<times> string) list"
  stp_vlans :: "stp_vlan_summary list"
  stp_data :: "stp_tree option"
  markingFqdn :: "string option"
  markNote :: string
  mark_mutation :: mutation
  unmark_mutation :: mutation
  stp_requests :: "stp_request list"
  stp_invalidated :: "stp_query list"

definition new_stp_page :: "(string \<times> string) list \<Rightarrow> stp_page" where
  "new_stp_page params =
     \<lparr>stp_params = params, stp_vlans = [], stp_data = None, markingFqdn = None, markNote = '''', mark_mutation = Idle,
      unmark_mutation = Idle, stp_requests = [], stp_invalidated = []\<rparr>"

definition stp_param :: "string \<Rightarrow> stp_page \<Rightarrow> string option" where
  "stp_param key p = map_of (stp_params p) key"

definition with_params :: "(string \<times> string) list \<Rightarrow> stp_page \<Rightarrow> stp_page" where
  "with_params ps p =
     p\<lparr>stp_params := ps, stp_data := (if map_of ps ''vlan'' = stp_param ''vlan'' p then stp_data p else None)\<rparr>"

definition without_param :: "string \<Rightarrow> (string \<times> string) list \<Rightarrow> (string \<times> string) list" where
  "without_param key ps = filter (\<lambda>(k, v). k \<noteq> key) ps"

text \<open>\<^verbatim>\<open>set\<close> of \<^verbatim>\<open>URLSearchParams\<close>: the first entry of the key is changed and the others go.\<close>

fun set_entry :: "string \<Rightarrow> string \<Rightarrow> (string \<times> string) list \<Rightarrow> (string \<times> string) list" where
  "set_entry key v [] = [(key, v)]"
| "set_entry key v ((k, w) # ps) = (if k = key then (key, v) # without_param key ps else (k, w) # set_entry key v ps)"

definition setParam :: "string \<Rightarrow> string \<Rightarrow> stp_page \<Rightarrow> stp_page" where
  "setParam key v p =
     with_params (if v \<noteq> '''' then set_entry key v (stp_params p) else without_param key (stp_params p)) p"

definition default_vlan :: "stp_page \<Rightarrow> stp_page" where
  "default_vlan p =
     (case stp_vlans p of
        [] \<Rightarrow> p
      | v # vs \<Rightarrow> if stp_param ''vlan'' p = None then with_params (set_entry ''vlan'' (dec (sv_vlan v)) (stp_params p)) p else p)"

definition rootPending :: "stp_page \<Rightarrow> bool" where
  "rootPending p \<longleftrightarrow> isPending (mark_mutation p) \<or> isPending (unmark_mutation p)"

definition claims :: "stp_page \<Rightarrow> stp_root_claim list" where
  "claims p = (case stp_data p of None \<Rightarrow> [] | Some t \<Rightarrow> rootClaims t)"

definition vlan_text :: "stp_page \<Rightarrow> string" where
  "vlan_text p = or_empty (stp_param ''vlan'' p)"

text \<open>The roots are listed when there are several; the form stands below the root it belongs to.\<close>

definition listed :: "stp_page \<Rightarrow> stp_root_claim list" where
  "listed p = (if stp_param ''vlan'' p \<noteq> None \<and> length (claims p) > 1 then claims p else [])"

definition mark_form :: "stp_page \<Rightarrow> stp_root_claim option" where
  "mark_form p = find (\<lambda>c. markingFqdn p = Some (rc_fqdn c)) (listed p)"

definition closeMarkForm :: "stp_page \<Rightarrow> stp_page" where
  "closeMarkForm p = p\<lparr>markingFqdn := None, markNote := ''''\<rparr>"

definition openMarkForm :: "string \<Rightarrow> stp_page \<Rightarrow> stp_page" where
  "openMarkForm f p = p\<lparr>markNote := '''', markingFqdn := Some f\<rparr>"

definition stp_invalidate :: "stp_page \<Rightarrow> stp_page" where
  "stp_invalidate p =
     p\<lparr>stp_invalidated := stp_invalidated p @ [StpQuery]
        @ (case stp_param ''vlan'' p of None \<Rightarrow> [] | Some v \<Rightarrow> [StpTreeQuery v]) @ [StpIssuesQuery]\<rparr>"

definition mark_mutate :: "string \<Rightarrow> stp_page \<Rightarrow> stp_page" where
  "mark_mutate f p =
     p\<lparr>mark_mutation := Pending [f], stp_requests := stp_requests p @ [MarkExpected (vlan_text p) f (or_null (markNote p))]\<rparr>"

definition mark_settled :: "bool \<Rightarrow> string \<Rightarrow> stp_page \<Rightarrow> stp_page" where
  "mark_settled fulfilled err p =
     (if fulfilled then stp_invalidate (closeMarkForm (p\<lparr>mark_mutation := Success\<rparr>)) else p\<lparr>mark_mutation := Failed err\<rparr>)"

definition unmark_mutate :: "string \<Rightarrow> stp_page \<Rightarrow> stp_page" where
  "unmark_mutate f p =
     p\<lparr>unmark_mutation := Pending [f], stp_requests := stp_requests p @ [UnmarkExpected (vlan_text p) f]\<rparr>"

definition unmark_settled :: "bool \<Rightarrow> string \<Rightarrow> stp_page \<Rightarrow> stp_page" where
  "unmark_settled fulfilled err p =
     (if fulfilled then stp_invalidate (p\<lparr>unmark_mutation := Success\<rparr>) else p\<lparr>unmark_mutation := Failed err\<rparr>)"

datatype stp_event =
    SetParam string string
  | Summary "stp_vlan_summary list"
  | Tree stp_tree
  | OpenMark stp_root_claim
  | MarkNote string
  | ConfirmMark
  | CancelMark
  | Unmark stp_root_claim
  | MarkSettled bool string
  | UnmarkSettled bool string

inductive stp_step :: "stp_page \<Rightarrow> stp_event \<Rightarrow> stp_page \<Rightarrow> bool" where
  set_param: "key \<in> {''vlan'', ''from'', ''to''} \<Longrightarrow> stp_step p (SetParam key v) (default_vlan (setParam key v p))"
| summary: "stp_step p (Summary vs) (default_vlan (p\<lparr>stp_vlans := vs\<rparr>))"
| tree: "stp_param ''vlan'' p \<noteq> None \<Longrightarrow> stp_step p (Tree t) (p\<lparr>stp_data := Some t\<rparr>)"
| open_mark: "c \<in> set (listed p) \<Longrightarrow> \<not> rc_expected c \<Longrightarrow> markingFqdn p \<noteq> Some (rc_fqdn c) \<Longrightarrow> \<not> rootPending p \<Longrightarrow>
    stp_step p (OpenMark c) (openMarkForm (rc_fqdn c) p)"
| mark_note: "mark_form p = Some c \<Longrightarrow> stp_step p (MarkNote s) (p\<lparr>markNote := s\<rparr>)"
| confirm_mark: "mark_form p = Some c \<Longrightarrow> \<not> rootPending p \<Longrightarrow> stp_step p ConfirmMark (mark_mutate (rc_fqdn c) p)"
| cancel_mark: "mark_form p = Some c \<Longrightarrow> \<not> rootPending p \<Longrightarrow> stp_step p CancelMark (closeMarkForm p)"
| unmark: "c \<in> set (listed p) \<Longrightarrow> rc_expected c \<Longrightarrow> \<not> rootPending p \<Longrightarrow>
    stp_step p (Unmark c) (unmark_mutate (rc_fqdn c) p)"
| mark_done: "isPending (mark_mutation p) \<Longrightarrow> stp_step p (MarkSettled b err) (mark_settled b err p)"
| unmark_done: "isPending (unmark_mutation p) \<Longrightarrow> stp_step p (UnmarkSettled b err) (unmark_settled b err p)"

inductive_cases stp_stepE: "stp_step p e q"

section \<open>What is shown\<close>

definition formatAgo :: "nat \<Rightarrow> string" where
  "formatAgo secs =
     (if secs < 90 then dec secs @ ''s ago''
      else if secs < 5400 then int_text (js_round (real secs / 60)) @ ''m ago''
      else if secs < 129600 then int_text (js_round (real secs / 3600)) @ ''h ago''
      else int_text (js_round (real secs / 86400)) @ ''d ago'')"

definition CHURN_SECS :: nat where "CHURN_SECS = 15 * 60"

definition vlan_option :: "stp_vlan_summary \<Rightarrow> string" where
  "vlan_option v =
     dec (sv_vlan v) @ (case truthy (vlanNameLabel (sv_names v)) of None \<Rightarrow> '''' | Some n \<Rightarrow> middle_dot @ n)
     @ '' ('' @ dec (sv_nodeCount v) @ '' switches)''"

definition claim_row :: "stp_root_claim \<Rightarrow> fragment list" where
  "claim_row c =
     [Anchor (device_href (rc_fqdn c)) (rc_fqdn c)]
     @ guarded (rc_preferred c) (Badge ''badge-ok'' ''STP would elect this'')
     @ guarded (rc_expected c) (Badge ''badge-muted'' ''expected'')
     @ guarded (rc_expected c \<and> truthy_text (rc_note c)) (Muted (the (rc_note c)))
     @ [Muted ((case rc_mac c of None \<Rightarrow> em_dash | Some m \<Rightarrow> m)
          @ (case rc_priority c of None \<Rightarrow> '''' | Some n \<Rightarrow> middle_dot @ ''prio '' @ dec n))]"

definition expectedFqdns :: "stp_root_claim list \<Rightarrow> string list" where
  "expectedFqdns cs = set_of (map rc_fqdn (filter rc_expected cs))"

text \<open>A root that the node reports, that is better than the computed one and that nobody polls, is no mismatch.\<close>

definition unmonitored :: "stp_node \<Rightarrow> bool" where
  "unmonitored n \<longleftrightarrow>
     (case rootMismatchDetail n of None \<Rightarrow> False | Some d \<Rightarrow> reportedRootSuperior d = Some True \<and> \<not> reportedRootMonitored d)"

definition corner :: string where "corner = [CHR 0xE2, CHR 0x94, CHR 0x94] @ '' ''"

definition node_name :: "string list \<Rightarrow> stp_node \<Rightarrow> fragment list" where
  "node_name expected n =
     guarded (sn_depth n > 0) (Muted corner)
     @ [Anchor (device_href (sn_fqdn n)) (sn_fqdn n)]
     @ guarded (sn_depth n = 0 \<and> \<not> sn_orphan n) (Badge ''badge-ok'' ''root'')
     @ guarded (sn_fqdn n \<in> set expected) (Badge ''badge-muted'' ''expected'')
     @ guarded (sn_orphan n) (Badge ''badge-warn'' ''orphan'')
     @ guarded (rootMismatch n)
         (if unmonitored n then Badge ''badge-muted'' ''root not monitored'' else Badge ''badge-warn'' ''root mismatch'')"

definition change_cell :: "stp_bridge option \<Rightarrow> fragment" where
  "change_cell b =
     (case Option.bind b timeSinceTopologyChangeSecs of
        None \<Rightarrow> Plain em_dash
      | Some secs \<Rightarrow>
          let s = formatAgo secs @ (case Option.bind b topologyChanges of None \<Rightarrow> ''''
                | Some n \<Rightarrow> '' ('' @ dec n @ [CHR 0xC3, CHR 0x97] @ '')'')
          in if secs < CHURN_SECS then Badge ''badge-warn'' s else Muted s)"

definition state_cell :: "string option \<Rightarrow> fragment" where
  "state_cell st = (if truthy_text st then Badge (StpStateBadge (the st)) (the st) else Plain em_dash)"

definition dash_text :: "string option \<Rightarrow> fragment" where
  "dash_text v = Plain (case v of None \<Rightarrow> em_dash | Some s \<Rightarrow> s)"

definition node_row :: "string list \<Rightarrow> stp_node \<Rightarrow> nat \<times> fragment list list" where
  "node_row expected n =
     (sn_depth n,
      [node_name expected n,
       dash_text (sn_rootPortInterfaceName n)
         # guarded (truthy_text (sn_parentInterface n)) (Muted ('' '' @ right_arrow @ '' '' @ the (sn_parentInterface n))),
       [state_cell (sn_rootPortState n)],
       [Plain (opt_dec (sn_pathCost n))],
       [Plain (opt_dec (Option.bind (reported n) rootCost))],
       [change_cell (reported n)]])"

definition blocked_row :: "stp_blocked_link \<Rightarrow> fragment list list" where
  "blocked_row l =
     [[Anchor (device_href (bl_fqdn l)) (bl_fqdn l)], [dash_text (bl_interfaceName l)], [Plain (bl_role l)],
      [Badge (StpStateBadge (bl_state l)) (bl_state l)],
      (case bl_connectedTo l of
         None \<Rightarrow> [Plain em_dash]
       | Some c \<Rightarrow> [Anchor (device_href (ic_fqdn c)) (ic_fqdn c), Plain ('':'' @ ic_interface c)])]"

definition error_text :: "stp_error \<Rightarrow> string" where
  "error_text e =
     (case e of
        Not_in_tree \<Rightarrow> ''Both switches must be part of this VLAN'' @ apostrophe @ ''s tree.''
      | No_common_tree \<Rightarrow> ''No common tree'' @ em_sep
          @ ''the two switches are not connected on this VLAN (different roots or orphaned).'')"

definition hop_row :: "nat \<times> stp_hop \<Rightarrow> fragment list" where
  "hop_row h =
     (case h of (i, hop) \<Rightarrow>
       [Muted (dec (i + 1)), Anchor (device_href (or_empty (hop_from hop))) (or_empty (hop_from hop)),
        dash_text (hop_fromInterface hop), Anchor (device_href (or_empty (hop_to hop))) (or_empty (hop_to hop)),
        dash_text (hop_toInterface hop), state_cell (hop_state hop)])"

text \<open>The panel of the route: a message, or the table of its hops.\<close>

definition path_panel :: "stp_page \<Rightarrow> (string + fragment list list) option" where
  "path_panel p =
     (let a = or_empty (stp_param ''from'' p); b = or_empty (stp_param ''to'' p) in
      case stp_data p of
        None \<Rightarrow> None
      | Some t \<Rightarrow>
          if st_nodes t = [] \<or> a = '''' \<or> b = '''' then None
          else if a = b then Some (Inl (''Same switch'' @ em_sep @ ''no hops.''))
          else case computeStpPath (st_nodes t) a b of
            Inl e \<Rightarrow> Some (Inl (error_text e))
          | Inr hops \<Rightarrow> Some (Inr (map hop_row (List.enumerate 0 hops))))"

section \<open>Runs of the page\<close>

lemma map_of_without: "map_of (without_param key ps) k = (if k = key then None else map_of ps k)"
  by (induction ps) (auto simp: without_param_def)

lemma map_of_set_entry: "map_of (set_entry key v ps) k = (if k = key then Some v else map_of ps k)"
  by (induction key v ps rule: set_entry.induct) (auto simp: map_of_without)

text \<open>Setting a parameter sets that parameter, an empty value removes it, and no other changes.\<close>

theorem setParam_params:
  "stp_param k (setParam key v p) = (if k = key then (if v = '''' then None else Some v) else stp_param k p)"
  by (simp add: setParam_def with_params_def stp_param_def map_of_set_entry map_of_without)

lemma page_kept:
  "markingFqdn (default_vlan q) = markingFqdn q" "markNote (default_vlan q) = markNote q"
  "mark_mutation (default_vlan q) = mark_mutation q" "unmark_mutation (default_vlan q) = unmark_mutation q"
  "stp_requests (default_vlan q) = stp_requests q"
  "markingFqdn (setParam key v q) = markingFqdn q" "markNote (setParam key v q) = markNote q"
  "mark_mutation (setParam key v q) = mark_mutation q" "unmark_mutation (setParam key v q) = unmark_mutation q"
  "stp_requests (setParam key v q) = stp_requests q" "stp_vlans (setParam key v q) = stp_vlans q"
  "stp_requests (stp_invalidate q) = stp_requests q"
  "markingFqdn (stp_invalidate q) = markingFqdn q" "markNote (stp_invalidate q) = markNote q"
  "mark_mutation (stp_invalidate q) = mark_mutation q" "unmark_mutation (stp_invalidate q) = unmark_mutation q"
  by (simp_all add: default_vlan_def setParam_def with_params_def stp_invalidate_def split: list.split)

text \<open>
  A note exists only in an open form, the form of a request under way stays open, and a mark is never
  set and removed at the same time.
\<close>

definition stp_page_ok :: "stp_page \<Rightarrow> bool" where
  "stp_page_ok p \<longleftrightarrow> (markingFqdn p = None \<longrightarrow> markNote p = '''' \<and> \<not> isPending (mark_mutation p))
     \<and> \<not> (isPending (mark_mutation p) \<and> isPending (unmark_mutation p))"

lemmas stp_ops = closeMarkForm_def openMarkForm_def mark_mutate_def unmark_mutate_def mark_settled_def unmark_settled_def
  rootPending_def

lemma mark_form_marking: "mark_form p = Some c \<Longrightarrow> markingFqdn p = Some (rc_fqdn c)"
  by (auto simp: mark_form_def find_Some_iff)

lemma stp_page_ok_step:
  assumes "stp_step p e q" and "stp_page_ok p"
  shows "stp_page_ok q"
  using assms by (cases rule: stp_step.cases)
    (auto simp: stp_page_ok_def stp_ops page_kept dest!: mark_form_marking)

definition stp_init :: "stp_page \<Rightarrow> bool" where
  "stp_init p \<longleftrightarrow> (\<exists>ps. p = new_stp_page ps)"

interpretation stp_runs: invariant_of stp_init stp_step stp_page_ok
proof unfold_locales
  show "stp_init s \<Longrightarrow> stp_page_ok s" for s by (auto simp: stp_init_def stp_page_ok_def new_stp_page_def)
  show "stp_page_ok s \<Longrightarrow> stp_step s e t \<Longrightarrow> stp_page_ok t" for s e t by (rule stp_page_ok_step)
qed

theorem stp_page_invariant:
  assumes "stp_runs.reachable p"
  shows "(markingFqdn p = None \<longrightarrow> markNote p = '''' \<and> \<not> isPending (mark_mutation p))
    \<and> \<not> (isPending (mark_mutation p) \<and> isPending (unmark_mutation p))"
  using stp_runs.inv_reachable [OF assms] unfolding stp_page_ok_def .

text \<open>
  An open form follows the address to another VLAN: if the same switch is a root there, the form stands
  below it with the note written for the first VLAN, and confirming it marks the root of the second.
\<close>

theorem mark_form_follows_vlan:
  assumes "mark_form p = Some c" and "v \<noteq> ''''" and "length (rootClaims t) > 1"
    and "rc_fqdn c \<in> rc_fqdn ` set (rootClaims t)" and "\<not> rootPending p"
  shows "\<exists>q r. stp_runs.run p [SetParam ''vlan'' v, Tree t] q \<and> stp_step q ConfirmMark r
    \<and> stp_requests r = stp_requests p @ [MarkExpected v (rc_fqdn c) (or_null (markNote p))]"
proof -
  let ?a = "default_vlan (setParam ''vlan'' v p)"
  let ?q = "?a\<lparr>stp_data := Some t\<rparr>"
  have vlan: "stp_param ''vlan'' (setParam ''vlan'' v p) = Some v" using assms(2) by (simp add: setParam_params)
  then have same: "?a = setParam ''vlan'' v p" by (simp add: default_vlan_def split: list.split)
  have qv: "stp_param ''vlan'' ?q = Some v" using vlan by (simp add: same stp_param_def)
  have "stp_runs.run p ([] @ [SetParam ''vlan'' v]) ?a"
    by (rule stp_runs.run_snoc [OF stp_runs.run_nil]) (simp add: stp_step.set_param)
  then have "stp_runs.run p [SetParam ''vlan'' v] ?a" by simp
  moreover have "stp_step ?a (Tree t) ?q" by (rule stp_step.tree) (simp add: same vlan)
  ultimately have run: "stp_runs.run p [SetParam ''vlan'' v, Tree t] ?q" using stp_runs.run_snoc by fastforce
  have "listed ?q = rootClaims t" using assms(3) qv by (simp add: listed_def claims_def)
  moreover have m: "markingFqdn ?q = Some (rc_fqdn c)" using mark_form_marking [OF assms(1)] by (simp add: page_kept)
  ultimately have "mark_form ?q \<noteq> None" using assms(4) by (auto simp: mark_form_def find_None_iff)
  then obtain d where d: "mark_form ?q = Some d" by blast
  then have "rc_fqdn d = rc_fqdn c" using mark_form_marking [OF d] m by simp
  moreover have "stp_step ?q ConfirmMark (mark_mutate (rc_fqdn d) ?q)"
    using d assms(5) by (intro stp_step.confirm_mark) (simp_all add: rootPending_def page_kept)
  ultimately show ?thesis
    using run qv by (intro exI [of _ ?q] exI [of _ "mark_mutate (rc_fqdn d) ?q"])
      (simp add: mark_mutate_def vlan_text_def or_empty_def page_kept)
qed

end
