(* ===== verification/Switchmaster.thy ===== *)
theory Switchmaster
  imports JsText Transitions
begin

text \<open>
  The client of switchmaster, \<^verbatim>\<open>ClientApp/src\<close>: the store of the switches
  (\<^verbatim>\<open>store/mutations.ts\<close>, \<^verbatim>\<open>store/actions.ts\<close>), the messages of its hub
  (\<^verbatim>\<open>App.vue\<close>) and the panel of a switch (\<^verbatim>\<open>components/SwitchStatePanel.vue\<close>).
\<close>

section \<open>The store\<close>

datatype DeployState = Stationed | InTransitToStorage | InStorage | InTransitToStation

record switch =
  fqdn :: string
  deployState :: nat
  configured :: bool

record synchronization_result =
  added :: nat
  existing :: nat
  newSwitches :: "switch list"

text \<open>\<open>stray\<close>: what \<^verbatim>\<open>Vue.set\<close> put on the array under the key -1, which no view reads.\<close>

record switch_store =
  items :: "switch list"
  stray :: "switch option"
  syncResult :: "synchronization_result option"
  processing :: bool
  errors :: "string list"

definition new_store :: switch_store where
  "new_store = \<lparr>items = [], stray = None, syncResult = None, processing = False, errors = []\<rparr>"

definition switch_cmp :: "switch \<Rightarrow> switch \<Rightarrow> int" where
  "switch_cmp a b = code_units (lower (fqdn a)) (lower (fqdn b))"

interpretation switches: comparator switch_cmp
  unfolding switch_cmp_def using comparator_key [OF texts.comparator_axioms, of "\<lambda>s. lower (fqdn s)"] .

definition setProcessing :: "bool \<Rightarrow> switch_store \<Rightarrow> switch_store" where
  "setProcessing b s = s\<lparr>processing := b\<rparr>"

definition addError :: "string \<Rightarrow> switch_store \<Rightarrow> switch_store" where
  "addError e s = s\<lparr>errors := errors s @ [e]\<rparr>"

definition setSyncResult :: "synchronization_result \<Rightarrow> switch_store \<Rightarrow> switch_store" where
  "setSyncResult r s = s\<lparr>syncResult := Some r, items := js_sort switch_cmp (items s @ newSwitches r)\<rparr>"

definition setItems :: "switch list \<Rightarrow> switch_store \<Rightarrow> switch_store" where
  "setItems xs s = s\<lparr>items := js_sort switch_cmp xs\<rparr>"

fun index_where :: "('a \<Rightarrow> bool) \<Rightarrow> 'a list \<Rightarrow> nat option" where
  "index_where P [] = None"
| "index_where P (x # xs) = (if P x then Some 0 else map_option Suc (index_where P xs))"

definition updateItem :: "switch \<Rightarrow> switch_store \<Rightarrow> switch_store" where
  "updateItem item s =
     (case index_where (\<lambda>e. fqdn e = fqdn item) (items s) of
        Some i \<Rightarrow> s\<lparr>items := (items s)[i := item]\<rparr>
      | None \<Rightarrow> s\<lparr>stray := Some item\<rparr>)"

section \<open>The panel\<close>

text \<open>The state as the panel gets it: any number.\<close>

definition moveToNextState :: "nat \<Rightarrow> string + nat" where
  "moveToNextState st =
     (if st = 0 then Inr 1 else if st = 1 then Inr 2 else if st = 2 then Inr 3 else if st = 3 then Inr 0
      else Inl ''Invalid deploy state during update.'')"

definition deployStateToString :: "nat \<Rightarrow> string" where
  "deployStateToString st =
     (if st = 0 then ''Stationed'' else if st = 1 then ''To Storage'' else if st = 2 then ''In Storage''
      else if st = 3 then ''To Station'' else ''Unknown'')"

definition deployStateClass :: "nat \<Rightarrow> string" where
  "deployStateClass st =
     (if st = 0 then ''stationed'' else if st = 1 then ''tostorage'' else if st = 2 then ''instorage''
      else if st = 3 then ''tostation'' else ''unknown'')"

definition deployStates :: "(string \<times> nat) list" where
  "deployStates = map (\<lambda>n. (deployStateToString n, n)) [0, 1, 2, 3]"

text \<open>The body of a PATCH: the name and the one field that changes.\<close>

datatype patch = PatchState string nat | PatchConfigured string bool

definition patch_next :: "switch \<Rightarrow> string + patch" where
  "patch_next s = (case moveToNextState (deployState s) of Inl e \<Rightarrow> Inl e | Inr n \<Rightarrow> Inr (PatchState (fqdn s) n))"

definition patch_configured :: "switch \<Rightarrow> patch" where
  "patch_configured s = PatchConfigured (fqdn s) (\<not> configured s)"

section \<open>Actions and messages\<close>

datatype action = Fetch | Update patch | Synchronize

record switch_client =
  store :: switch_store
  in_flight :: "action list"
  sent :: "action list"

definition new_client :: switch_client where
  "new_client = \<lparr>store = new_store, in_flight = [], sent = []\<rparr>"

definition commit :: "(switch_store \<Rightarrow> switch_store) \<Rightarrow> switch_client \<Rightarrow> switch_client" where
  "commit f c = c\<lparr>store := f (store c)\<rparr>"

definition dispatch :: "action \<Rightarrow> switch_client \<Rightarrow> switch_client" where
  "dispatch a c = (commit (setProcessing True) c)\<lparr>in_flight := in_flight c @ [a], sent := sent c @ [a]\<rparr>"

definition settle_action :: "action \<Rightarrow> switch_client \<Rightarrow> switch_client" where
  "settle_action a c = (commit (setProcessing False) c)\<lparr>in_flight := remove1 a (in_flight c)\<rparr>"

datatype switch_event =
    Dispatch action
  | Fetched "switch list"
  | Done action
  | Failed action string
  | HubUpdate switch
  | HubStarting
  | HubSynchronize "synchronization_result option"

inductive switch_step :: "switch_client \<Rightarrow> switch_event \<Rightarrow> switch_client \<Rightarrow> bool" where
  sw_fetch: "switch_step c (Dispatch Fetch) (dispatch Fetch c)"
| sw_next: "s \<in> set (items (store c)) \<Longrightarrow> patch_next s = Inr p \<Longrightarrow> switch_step c (Dispatch (Update p)) (dispatch (Update p) c)"
| sw_configured: "s \<in> set (items (store c)) \<Longrightarrow>
    switch_step c (Dispatch (Update (patch_configured s))) (dispatch (Update (patch_configured s)) c)"
| sw_synchronize: "switch_step c (Dispatch Synchronize) (dispatch Synchronize c)"
| sw_fetched: "Fetch \<in> set (in_flight c) \<Longrightarrow> switch_step c (Fetched xs) (settle_action Fetch (commit (setItems xs) c))"
| sw_done: "a \<in> set (in_flight c) \<Longrightarrow> a \<noteq> Fetch \<Longrightarrow> switch_step c (Done a) (settle_action a c)"
| sw_failed: "a \<in> set (in_flight c) \<Longrightarrow> switch_step c (Failed a e) (settle_action a (commit (addError e) c))"
| sw_update: "switch_step c (HubUpdate s) (commit (updateItem s) c)"
| sw_starting: "switch_step c HubStarting (commit (setProcessing True) c)"
| sw_synced: "switch_step c (HubSynchronize r)
    (commit (setProcessing False) (case r of None \<Rightarrow> c | Some res \<Rightarrow> commit (setSyncResult res) c))"

inductive_cases switch_stepE: "switch_step c e d"

section \<open>Properties\<close>

lemma index_where_Some: "index_where P xs = Some i \<longleftrightarrow> i < length xs \<and> P (xs ! i) \<and> (\<forall>j<i. \<not> P (xs ! j))"
proof (induction xs arbitrary: i)
  case (Cons x xs)
  then show ?case by (cases i) (auto simp: less_Suc_eq_0_disj)
qed simp

lemma index_where_None: "index_where P xs = None \<longleftrightarrow> (\<forall>x\<in>set xs. \<not> P x)"
  by (induction xs) auto

lemma in_order_update: "in_order cmp xs \<Longrightarrow> cmp x = cmp (xs ! i) \<Longrightarrow> (\<And>y. cmp y x = cmp y (xs ! i)) \<Longrightarrow> in_order cmp (xs[i := x])"
proof (induction xs arbitrary: i)
  case (Cons y ys)
  show ?case
  proof (cases i)
    case 0
    with Cons show ?thesis by simp
  next
    case (Suc j)
    show ?thesis
    proof (cases "j < length ys")
      case True
      then have "ys ! j \<in> set ys" by simp
      then show ?thesis using Cons Suc set_update_subset_insert [of ys j x] by auto
    next
      case False
      then have "ys[j := x] = ys" by (intro list_update_beyond) simp
      with Cons.prems(1) Suc show ?thesis by simp
    qed
  qed
qed simp

definition store_ok :: "switch_client \<Rightarrow> bool" where
  "store_ok c \<longleftrightarrow> in_order switch_cmp (items (store c)) \<and> mset (in_flight c) \<subseteq># mset (sent c)"

lemma in_order_updateItem: "in_order switch_cmp (items s) \<Longrightarrow> in_order switch_cmp (items (updateItem x s))"
  by (auto simp: updateItem_def index_where_Some switch_cmp_def intro!: in_order_update split: option.split)

lemma store_ok_step: "store_ok c \<Longrightarrow> switch_step c e d \<Longrightarrow> store_ok d"
proof (erule switch_stepE)
  assume ok: "store_ok c"
  show "store_ok d" if "d = commit (updateItem s) c" for s
    using ok that by (simp add: store_ok_def commit_def in_order_updateItem)
qed (auto simp: store_ok_def commit_def dispatch_def settle_action_def setProcessing_def setItems_def addError_def
      setSyncResult_def switches.js_sort_in_order subset_mset.add_mono intro: subset_mset.order_trans [OF diff_subset_eq_self]
      split: option.split)

definition switch_init :: "switch_client \<Rightarrow> bool" where
  "switch_init c \<longleftrightarrow> c = new_client"

interpretation switchmaster: invariant_of switch_init switch_step store_ok
proof unfold_locales
  show "switch_init s \<Longrightarrow> store_ok s" for s
    by (simp add: switch_init_def store_ok_def new_client_def new_store_def)
  show "store_ok s \<Longrightarrow> switch_step s e t \<Longrightarrow> store_ok t" for s e t by (rule store_ok_step)
qed

text \<open>C38: In every run of the switchmaster client, whatever the order of replies and hub messages, the switches
  are listed by name without regard to case, and every request under way was sent.\<close>

theorem switches_sorted:
  assumes "switchmaster.reachable c"
  shows "sorted_wrt (\<lambda>a b. code_units (lower (fqdn a)) (lower (fqdn b)) \<le> 0) (items (store c))
    \<and> mset (in_flight c) \<subseteq># mset (sent c)"
  using switchmaster.inv_reachable [OF assms] by (simp add: store_ok_def in_order_def switch_cmp_def)

lemma find_update:
  "index_where P xs = Some i \<Longrightarrow> P x \<Longrightarrow> find P (xs[i := x]) = Some x"
  "\<not> Q x \<Longrightarrow> i < length xs \<Longrightarrow> \<not> Q (xs ! i) \<Longrightarrow> find Q (xs[i := x]) = find Q xs"
proof -
  show "index_where P xs = Some i \<Longrightarrow> P x \<Longrightarrow> find P (xs[i := x]) = Some x"
    by (induction xs arbitrary: i) (auto split: if_splits)
  show "\<not> Q x \<Longrightarrow> i < length xs \<Longrightarrow> \<not> Q (xs ! i) \<Longrightarrow> find Q (xs[i := x]) = find Q xs"
  proof (induction xs arbitrary: i)
    case (Cons y ys)
    then show ?case by (cases i) auto
  qed simp
qed

text \<open>A hub message about a switch replaces exactly that switch in the list; for a switch that is not in the
  list it changes nothing that is shown, the switch is lost until the list is fetched again.\<close>

theorem hub_update:
  "if fqdn x \<in> fqdn ` set (items s)
   then map fqdn (items (updateItem x s)) = map fqdn (items s)
     \<and> find (\<lambda>e. fqdn e = name) (items (updateItem x s))
       = (if name = fqdn x then Some x else find (\<lambda>e. fqdn e = name) (items s))
   else items (updateItem x s) = items s \<and> stray (updateItem x s) = Some x"
proof (cases "index_where (\<lambda>e. fqdn e = fqdn x) (items s)")
  case None
  then have "fqdn x \<notin> fqdn ` set (items s)" by (auto simp: index_where_None)
  with None show ?thesis by (simp add: updateItem_def)
next
  case (Some i)
  then have i: "i < length (items s)" "fqdn (items s ! i) = fqdn x" by (simp_all add: index_where_Some)
  then have "fqdn x \<in> fqdn ` set (items s)" by (metis image_eqI nth_mem)
  moreover have "(map fqdn (items s))[i := fqdn x] = map fqdn (items s)"
    using i by (metis length_map list_update_id nth_map)
  moreover have "find (\<lambda>e. fqdn e = fqdn x) ((items s)[i := x]) = Some x"
    by (rule find_update(1) [OF Some]) simp
  moreover have "find (\<lambda>e. fqdn e = name) ((items s)[i := x]) = find (\<lambda>e. fqdn e = name) (items s)" if "name \<noteq> fqdn x"
    by (rule find_update(2)) (use i that in auto)
  ultimately show ?thesis using Some by (simp add: updateItem_def map_update)
qed

text \<open>The states of a switch go round in four steps; any other number is an error.\<close>

lemma moveToNextState_cycle:
  "moveToNextState st = (if st < 4 then Inr ((st + 1) mod 4) else Inl ''Invalid deploy state during update.'')"
proof -
  consider "st = 0" | "st = 1" | "st = 2" | "st = 3" | "st \<ge> 4" by linarith
  then show ?thesis by cases (auto simp: moveToNextState_def)
qed

text \<open>The overlay of the page follows the flag, which the first of two overlapping requests clears.\<close>

lemma overlay_vanishes:
  "\<exists>c. switchmaster.run new_client [Dispatch Fetch, Dispatch Synchronize, Fetched []] c
    \<and> in_flight c = [Synchronize] \<and> \<not> processing (store c)"
proof -
  let ?c1 = "dispatch Fetch new_client"
  let ?c2 = "dispatch Synchronize ?c1"
  have "switchmaster.run new_client ([] @ [Dispatch Fetch]) ?c1"
    by (rule switchmaster.run_snoc [OF switchmaster.run_nil sw_fetch])
  from switchmaster.run_snoc [OF this sw_synchronize]
  have "switchmaster.run new_client [Dispatch Fetch, Dispatch Synchronize] ?c2" by simp
  from switchmaster.run_snoc [OF this sw_fetched, of "[]"]
  have "switchmaster.run new_client [Dispatch Fetch, Dispatch Synchronize, Fetched []] (settle_action Fetch (commit (setItems []) ?c2))"
    by (simp add: dispatch_def)
  moreover have "in_flight (settle_action Fetch (commit (setItems []) ?c2)) = [Synchronize]
      \<and> \<not> processing (store (settle_action Fetch (commit (setItems []) ?c2)))" by code_simp
  ultimately show ?thesis by blast
qed

definition two_switches :: "switch list" where
  "two_switches = [\<lparr>fqdn = ''b.net'', deployState = 0, configured = False\<rparr>, \<lparr>fqdn = ''A.net'', deployState = 2, configured = True\<rparr>]"

theorem switches_sorted_witness:
  "\<exists>c. switchmaster.reachable c \<and> map fqdn (items (store c)) = [''A.net'', ''b.net'']
    \<and> sorted_wrt (\<lambda>a b. code_units (lower (fqdn a)) (lower (fqdn b)) \<le> 0) (items (store c))"
proof -
  let ?c = "settle_action Fetch (commit (setItems two_switches) (dispatch Fetch new_client))"
  have "switchmaster.run new_client ([] @ [Dispatch Fetch]) (dispatch Fetch new_client)"
    by (rule switchmaster.run_snoc [OF switchmaster.run_nil sw_fetch])
  from switchmaster.run_snoc [OF this sw_fetched, of two_switches]
  have "switchmaster.reachable ?c"
    unfolding switchmaster.reachable_def switch_init_def by (auto simp: dispatch_def)
  from switches_sorted [OF this]
  have "sorted_wrt (\<lambda>a b. code_units (lower (fqdn a)) (lower (fqdn b)) \<le> 0) (items (store ?c))" ..
  moreover have "map fqdn (items (store ?c)) = [''A.net'', ''b.net'']" by code_simp
  ultimately show ?thesis using \<open>switchmaster.reachable ?c\<close> by (intro exI [of _ ?c] conjI)
qed

end
