(* ===== verification/Ticker.thy ===== *)
theory Ticker
  imports JsNum Transitions Prelude
begin

text \<open>
  The ticker of \<^verbatim>\<open>pixi.js\<close>, which the map updates in its frames and to which the viewport attaches
  itself: \<^verbatim>\<open>Ticker\<close> and its doubly linked list of \<^verbatim>\<open>TickerListener\<close>s, sorted by priority.

  Listeners live in a store and refer to each other, as the objects do; the reference 0 is the head.
  Functions and contexts are references, \<open>None\<close> is null.  \<open>call\<close> is what a function does to the ticker
  when it is called; \<open>called\<close> records the calls.  A walk along the list has fuel.  A ticker that has
  been destroyed is not used again.
\<close>

section \<open>Listeners\<close>

record listener =
  l_fn :: "nat option"
  l_context :: "nat option"
  l_priority :: jsnum
  l_once :: bool
  l_next :: "nat option"
  l_previous :: "nat option"
  l_destroyed :: bool

record ticker =
  listeners :: "nat \<Rightarrow> listener option"
  next_listener :: nat
  head :: "nat option"
  requestId :: "nat option"
  frame_requests :: nat
  maxElapsedMS :: jsnum
  autoStart :: bool
  deltaTime :: jsnum
  elapsedMS :: jsnum
  lastTime :: jsnum
  speed :: jsnum
  started :: bool
  called :: "(nat \<times> nat option \<times> jsnum) list"

definition TARGET_FPMS :: jsnum where "TARGET_FPMS = Fin (6 / 100)"

definition new_listener :: "nat option \<Rightarrow> nat option \<Rightarrow> jsnum \<Rightarrow> bool \<Rightarrow> listener" where
  "new_listener f c pr once =
     \<lparr>l_fn = f, l_context = c, l_priority = pr, l_once = once, l_next = None, l_previous = None, l_destroyed = False\<rparr>"

definition new_ticker :: ticker where
  "new_ticker =
     \<lparr>listeners = (\<lambda>_. None)(0 \<mapsto> new_listener None None PInf False), next_listener = 1, head = Some 0, requestId = None,
      frame_requests = 0, maxElapsedMS = Fin 100, autoStart = False, deltaTime = Fin 1, elapsedMS = Fin 1 / TARGET_FPMS,
      lastTime = Fin (- 1), speed = Fin 1, started = False, called = []\<rparr>"

definition upd_listener :: "nat \<Rightarrow> (listener \<Rightarrow> listener) \<Rightarrow> ticker \<Rightarrow> ticker" where
  "upd_listener p f t = t\<lparr>listeners := (listeners t)(p := map_option f (listeners t p))\<rparr>"

definition next_of :: "ticker \<Rightarrow> nat \<Rightarrow> nat option" where
  "next_of t p = Option.bind (listeners t p) l_next"

definition previous_of :: "ticker \<Rightarrow> nat \<Rightarrow> nat option" where
  "previous_of t p = Option.bind (listeners t p) l_previous"

definition on_ref :: "nat option \<Rightarrow> (listener \<Rightarrow> listener) \<Rightarrow> ticker \<Rightarrow> ticker" where
  "on_ref p f t = (case p of None \<Rightarrow> t | Some q \<Rightarrow> upd_listener q f t)"

definition match :: "nat option \<Rightarrow> nat option \<Rightarrow> listener \<Rightarrow> bool" where
  "match f c l \<longleftrightarrow> l_fn l = f \<and> l_context l = c"

definition connect :: "nat \<Rightarrow> nat \<Rightarrow> ticker \<Rightarrow> ticker" where
  "connect this previous t =
     (let t1 = upd_listener this (\<lambda>l. l\<lparr>l_previous := Some previous\<rparr>) t;
          t2 = on_ref (next_of t1 previous) (\<lambda>l. l\<lparr>l_previous := Some this\<rparr>) t1;
          t3 = upd_listener this (\<lambda>l. l\<lparr>l_next := next_of t2 previous\<rparr>) t2
      in upd_listener previous (\<lambda>l. l\<lparr>l_next := Some this\<rparr>) t3)"

definition destroy_listener :: "bool \<Rightarrow> nat \<Rightarrow> ticker \<Rightarrow> nat option \<times> ticker" where
  "destroy_listener hard this t =
     (let t1 = upd_listener this (\<lambda>l. l\<lparr>l_destroyed := True, l_fn := None, l_context := None\<rparr>) t;
          t2 = on_ref (previous_of t1 this) (\<lambda>l. l\<lparr>l_next := next_of t1 this\<rparr>) t1;
          t3 = on_ref (next_of t2 this) (\<lambda>l. l\<lparr>l_previous := previous_of t2 this\<rparr>) t2;
          redirect = next_of t3 this
      in (redirect, upd_listener this (\<lambda>l. l\<lparr>l_next := (if hard then None else redirect), l_previous := None\<rparr>) t3))"

type_synonym callee = "nat \<Rightarrow> nat option \<Rightarrow> jsnum \<Rightarrow> ticker \<Rightarrow> ticker"

definition listener_emit :: "callee \<Rightarrow> jsnum \<Rightarrow> nat \<Rightarrow> ticker \<Rightarrow> nat option \<times> ticker" where
  "listener_emit call dt this t =
     (let t1 = (case listeners t this of
            None \<Rightarrow> t
          | Some l \<Rightarrow> (case l_fn l of
              None \<Rightarrow> t
            | Some f \<Rightarrow> call f (l_context l) dt (t\<lparr>called := called t @ [(f, l_context l, dt)]\<rparr>)));
          redirect = next_of t1 this;
          t2 = (case listeners t1 this of
            None \<Rightarrow> t1
          | Some l \<Rightarrow> if l_once l then snd (destroy_listener True this t1) else t1);
          t3 = (case listeners t2 this of
            None \<Rightarrow> t2
          | Some l \<Rightarrow> if l_destroyed l then upd_listener this (\<lambda>l. l\<lparr>l_next := None\<rparr>) t2 else t2)
      in (redirect, t3))"

section \<open>The ticker\<close>

definition head_next :: "ticker \<Rightarrow> nat option" where
  "head_next t = Option.bind (head t) (next_of t)"

lemma head_next_fields [simp]:
  "head_next (t\<lparr>started := a\<rparr>) = head_next t" "head_next (t\<lparr>requestId := b\<rparr>) = head_next t"
  "head_next (t\<lparr>lastTime := d\<rparr>) = head_next t" "head_next (t\<lparr>frame_requests := n\<rparr>) = head_next t"
  "head_next (t\<lparr>deltaTime := d\<rparr>) = head_next t" "head_next (t\<lparr>elapsedMS := d\<rparr>) = head_next t"
  by (cases "head t"; simp add: head_next_def next_of_def)+

definition request_frame :: "ticker \<Rightarrow> ticker" where
  "request_frame t = t\<lparr>requestId := Some (frame_requests t), frame_requests := Suc (frame_requests t)\<rparr>"

text \<open>\<open>t0\<close>: \<^verbatim>\<open>performance.now()\<close>.\<close>

definition requestIfNeeded :: "jsnum \<Rightarrow> ticker \<Rightarrow> ticker" where
  "requestIfNeeded t0 t =
     (if requestId t = None \<and> head_next t \<noteq> None then request_frame (t\<lparr>lastTime := t0\<rparr>) else t)"

definition cancelIfNeeded :: "ticker \<Rightarrow> ticker" where
  "cancelIfNeeded t = (if requestId t \<noteq> None then t\<lparr>requestId := None\<rparr> else t)"

definition start :: "jsnum \<Rightarrow> ticker \<Rightarrow> ticker" where
  "start t0 t = (if \<not> started t then requestIfNeeded t0 (t\<lparr>started := True\<rparr>) else t)"

definition stop :: "ticker \<Rightarrow> ticker" where
  "stop t = (if started t then cancelIfNeeded (t\<lparr>started := False\<rparr>) else t)"

definition startIfPossible :: "jsnum \<Rightarrow> ticker \<Rightarrow> ticker" where
  "startIfPossible t0 t = (if started t then requestIfNeeded t0 t else if autoStart t then start t0 t else t)"

fun place :: "nat \<Rightarrow> jsnum \<Rightarrow> nat \<Rightarrow> nat option \<Rightarrow> ticker \<Rightarrow> nat" where
  "place 0 pr previous current t = previous"
| "place (Suc n) pr previous None t = previous"
| "place (Suc n) pr previous (Some c) t =
     (if pr > (case listeners t c of None \<Rightarrow> NaN | Some l \<Rightarrow> l_priority l) then previous
      else place n pr c (next_of t c) t)"

definition addListener :: "jsnum \<Rightarrow> listener \<Rightarrow> ticker \<Rightarrow> ticker" where
  "addListener t0 l t =
     (let r = next_listener t;
          t1 = t\<lparr>listeners := (listeners t)(r \<mapsto> l), next_listener := Suc r\<rparr>
      in startIfPossible t0
           (connect r (place (next_listener t) (l_priority l) (the (head t1)) (head_next t1) t1) t1))"

definition add :: "jsnum \<Rightarrow> nat \<Rightarrow> nat option \<Rightarrow> jsnum \<Rightarrow> ticker \<Rightarrow> ticker" where
  "add t0 f c pr t = addListener t0 (new_listener (Some f) c pr False) t"

definition addOnce :: "jsnum \<Rightarrow> nat \<Rightarrow> nat option \<Rightarrow> jsnum \<Rightarrow> ticker \<Rightarrow> ticker" where
  "addOnce t0 f c pr t = addListener t0 (new_listener (Some f) c pr True) t"

fun remove_walk :: "nat \<Rightarrow> nat \<Rightarrow> nat option \<Rightarrow> nat option \<Rightarrow> ticker \<Rightarrow> ticker" where
  "remove_walk 0 f c current t = t"
| "remove_walk (Suc n) f c None t = t"
| "remove_walk (Suc n) f c (Some x) t =
     (if \<exists>l. listeners t x = Some l \<and> match (Some f) c l
      then (case destroy_listener False x t of (redirect, t') \<Rightarrow> remove_walk n f c redirect t')
      else remove_walk n f c (next_of t x) t)"

definition remove :: "nat \<Rightarrow> nat option \<Rightarrow> ticker \<Rightarrow> ticker" where
  "remove f c t =
     (let t1 = remove_walk (next_listener t) f c (head_next t) t
      in if head_next t1 = None then cancelIfNeeded t1 else t1)"

fun destroy_walk :: "nat \<Rightarrow> nat option \<Rightarrow> ticker \<Rightarrow> ticker" where
  "destroy_walk 0 current t = t"
| "destroy_walk (Suc n) None t = t"
| "destroy_walk (Suc n) (Some x) t = (case destroy_listener True x t of (redirect, t') \<Rightarrow> destroy_walk n redirect t')"

definition destroy :: "ticker \<Rightarrow> ticker" where
  "destroy t =
     (let t1 = stop t;
          t2 = destroy_walk (next_listener t1) (head_next t1) t1;
          t3 = snd (destroy_listener False (the (head t2)) t2)
      in t3\<lparr>head := None\<rparr>)"

text \<open>The listeners are called one after the other; a listener may add others for ever.\<close>

fun emit_walk :: "nat \<Rightarrow> callee \<Rightarrow> jsnum \<Rightarrow> nat option \<Rightarrow> ticker \<Rightarrow> ticker option" where
  "emit_walk n call dt None t = Some t"
| "emit_walk 0 call dt (Some x) t = None"
| "emit_walk (Suc n) call dt (Some x) t =
     (case listener_emit call dt x t of (redirect, t') \<Rightarrow> emit_walk n call dt redirect t')"

definition update :: "nat \<Rightarrow> callee \<Rightarrow> jsnum \<Rightarrow> ticker \<Rightarrow> ticker option" where
  "update n call currentTime t =
     (if currentTime > lastTime t
      then let elapsed = currentTime - lastTime t;
               capped = (if elapsed > maxElapsedMS t then maxElapsedMS t else elapsed);
               t1 = t\<lparr>elapsedMS := elapsed, deltaTime := capped * TARGET_FPMS * speed t\<rparr>
           in map_option (\<lambda>t2. (if Option.bind (head t) (next_of t2) = None then cancelIfNeeded t2 else t2)\<lparr>lastTime := currentTime\<rparr>)
                (emit_walk n call (deltaTime t1) (head_next t1) t1)
      else Some (t\<lparr>deltaTime := Fin 0, elapsedMS := Fin 0, lastTime := currentTime\<rparr>))"

definition tick :: "nat \<Rightarrow> callee \<Rightarrow> jsnum \<Rightarrow> ticker \<Rightarrow> ticker option" where
  "tick n call time t =
     (let t1 = t\<lparr>requestId := None\<rparr>
      in if \<not> started t1 then Some t1
         else map_option (\<lambda>t2. if started t2 \<and> requestId t2 = None \<and> head_next t2 \<noteq> None then request_frame t2 else t2)
                (update n call time t1))"

definition FPS :: "ticker \<Rightarrow> jsnum" where "FPS t = Fin 1000 / elapsedMS t"

definition minFPS :: "ticker \<Rightarrow> jsnum" where "minFPS t = Fin 1000 / maxElapsedMS t"

definition set_minFPS :: "jsnum \<Rightarrow> ticker \<Rightarrow> ticker" where
  "set_minFPS fps t = t\<lparr>maxElapsedMS := Fin 1 / js_min (js_max (Fin 0) fps / Fin 1000) TARGET_FPMS\<rparr>"

section \<open>The list\<close>

text \<open>
  A doubly linked segment from a listener, through a list of listeners, to what follows; and what the
  two operations that relink do to it.
\<close>

named_theorems ticker_simps \<open>what the updates of the store do to its fields\<close>

lemma next_of_upd [ticker_simps]:
  "next_of (upd_listener p (\<lambda>l. l\<lparr>l_next := v\<rparr>) t) a = (if a = p \<and> p \<in> dom (listeners t) then v else next_of t a)"
  "next_of (upd_listener p (\<lambda>l. l\<lparr>l_next := v, l_previous := w\<rparr>) t) a =
     (if a = p \<and> p \<in> dom (listeners t) then v else next_of t a)"
  "next_of (upd_listener p (\<lambda>l. l\<lparr>l_previous := w\<rparr>) t) a = next_of t a"
  "next_of (upd_listener p (\<lambda>l. l\<lparr>l_destroyed := d, l_fn := f, l_context := c\<rparr>) t) a = next_of t a"
  by (cases "listeners t p"; force simp: next_of_def upd_listener_def)+

lemma previous_of_upd [ticker_simps]:
  "previous_of (upd_listener p (\<lambda>l. l\<lparr>l_previous := w\<rparr>) t) a =
     (if a = p \<and> p \<in> dom (listeners t) then w else previous_of t a)"
  "previous_of (upd_listener p (\<lambda>l. l\<lparr>l_next := v, l_previous := w\<rparr>) t) a =
     (if a = p \<and> p \<in> dom (listeners t) then w else previous_of t a)"
  "previous_of (upd_listener p (\<lambda>l. l\<lparr>l_next := v\<rparr>) t) a = previous_of t a"
  "previous_of (upd_listener p (\<lambda>l. l\<lparr>l_destroyed := d, l_fn := f, l_context := c\<rparr>) t) a = previous_of t a"
  by (cases "listeners t p"; force simp: previous_of_def upd_listener_def)+

lemma dom_upd [ticker_simps]: "dom (listeners (upd_listener p f t)) = dom (listeners t)"
  by (auto simp: upd_listener_def)

lemma next_connect:
  assumes "r \<in> dom (listeners t)" and "p \<in> dom (listeners t)" and "r \<noteq> p"
  shows "next_of (connect r p t) a = (if a = p then Some r else if a = r then next_of t p else next_of t a)"
  using assms by (simp add: connect_def Let_def ticker_simps on_ref_def split: option.split)

lemma previous_connect:
  assumes "r \<in> dom (listeners t)" and "next_of t p \<noteq> Some r" and "\<And>y. next_of t p = Some y \<Longrightarrow> y \<in> dom (listeners t)"
  shows "previous_of (connect r p t) a =
     (if a = r then Some p else if next_of t p = Some a then Some r else previous_of t a)"
  using assms by (auto simp: connect_def Let_def ticker_simps on_ref_def split: option.split)

lemma destroy_listener_result [simp]:
  assumes "previous_of t x \<noteq> Some x"
  shows "fst (destroy_listener hard x t) = next_of t x"
  using assms by (auto simp: destroy_listener_def Let_def ticker_simps on_ref_def split: option.split)

lemma next_destroy:
  assumes "x \<in> dom (listeners t)" and "previous_of t x \<noteq> Some x" and "\<And>y. previous_of t x = Some y \<Longrightarrow> y \<in> dom (listeners t)"
  shows "next_of (snd (destroy_listener hard x t)) a =
     (if a = x then (if hard then None else next_of t x)
      else if previous_of t x = Some a then next_of t x else next_of t a)"
  using assms by (auto simp: destroy_listener_def Let_def ticker_simps on_ref_def split: option.split)

lemma previous_destroy:
  assumes "x \<in> dom (listeners t)" and "previous_of t x \<noteq> Some x" and "next_of t x \<noteq> Some x"
    and "\<And>y. next_of t x = Some y \<Longrightarrow> y \<in> dom (listeners t)"
  shows "previous_of (snd (destroy_listener hard x t)) a =
     (if a = x then None else if next_of t x = Some a then previous_of t x else previous_of t a)"
  using assms by (auto simp: destroy_listener_def Let_def ticker_simps on_ref_def split: option.split)

fun segment :: "ticker \<Rightarrow> nat \<Rightarrow> nat list \<Rightarrow> nat option \<Rightarrow> bool" where
  "segment t p [] q \<longleftrightarrow> p \<in> dom (listeners t) \<and> next_of t p = q \<and>
     (case q of None \<Rightarrow> True | Some y \<Rightarrow> previous_of t y = Some p \<and> y \<in> dom (listeners t))"
| "segment t p (x # xs) q \<longleftrightarrow> segment t p [] (Some x) \<and> segment t x xs q"

lemma segment_append: "segment t p (xs @ y # ys) q \<longleftrightarrow> segment t p xs (Some y) \<and> segment t y ys q"
  by (induction xs arbitrary: p) auto

lemma segment_snoc: "segment t p (xs @ [y]) q \<longleftrightarrow> segment t p xs (Some y) \<and> segment t y [] q"
  by (rule segment_append)

lemma segment_dom: "segment t p xs q \<Longrightarrow> set (p # xs) \<union> set_option q \<subseteq> dom (listeners t)"
  by (induction xs arbitrary: p) (force split: option.splits)+

lemma segment_next: "segment t p xs q \<Longrightarrow> next_of t p = (case xs of [] \<Rightarrow> q | x # _ \<Rightarrow> Some x)"
  by (cases xs) auto

text \<open>A segment depends on the links of its own listeners only.\<close>

lemma segment_cong:
  assumes "\<And>a. a \<in> set (p # xs) \<Longrightarrow> next_of t' a = next_of t a"
    and "\<And>a. a \<in> set xs \<union> set_option q \<Longrightarrow> previous_of t' a = previous_of t a"
    and "dom (listeners t) \<subseteq> dom (listeners t')" and "segment t p xs q"
  shows "segment t' p xs q"
  using assms
proof (induction xs arbitrary: p)
  case Nil
  then show ?case by (cases q) auto
next
  case (Cons x xs)
  have "segment t' x xs q"
    by (rule Cons.IH) (use Cons.prems in auto)
  moreover have "segment t' p [] (Some x)"
    using Cons.prems by auto
  ultimately show ?case by simp
qed

lemma dom_connect [simp]: "dom (listeners (connect r p t)) = dom (listeners t)"
  by (simp add: connect_def Let_def on_ref_def ticker_simps split: option.split)

lemma dom_destroy [simp]: "dom (listeners (snd (destroy_listener h x t))) = dom (listeners t)"
  by (simp add: destroy_listener_def Let_def on_ref_def ticker_simps split: option.split)

lemma connect_here:
  assumes seg: "segment t u bs None" and r: "r \<in> dom (listeners t)" "r \<notin> set (u # bs)" and dist: "distinct (u # bs)"
  shows "segment (connect r u t) u [] (Some r) \<and> segment (connect r u t) r bs None"
proof -
  have nx: "next_of t u = (case bs of [] \<Rightarrow> None | x # _ \<Rightarrow> Some x)" and dom: "set (u # bs) \<subseteq> dom (listeners t)"
    using segment_next [OF seg] segment_dom [OF seg] by auto
  have N: "next_of (connect r u t) a = (if a = u then Some r else if a = r then next_of t u else next_of t a)" for a
    by (rule next_connect) (use r dom in auto)
  have P: "previous_of (connect r u t) a =
      (if a = r then Some u else if next_of t u = Some a then Some r else previous_of t a)" for a
    by (rule previous_connect) (use r nx dom in \<open>auto split: list.splits\<close>)
  show ?thesis
  proof (cases bs)
    case Nil
    then show ?thesis using r dom nx N P by auto
  next
    case (Cons x xs)
    have "segment (connect r u t) x xs None"
      by (rule segment_cong [where t = t]) (use seg Cons r dist nx N P in auto)
    then show ?thesis using Cons r dom nx N P by auto
  qed
qed

lemma connect_segment:
  assumes seg: "segment t p (as @ bs) None" and r: "r \<in> dom (listeners t)" "r \<notin> set (p # as @ bs)"
    and dist: "distinct (p # as @ bs)"
  shows "segment (connect r (last (p # as)) t) p (as @ r # bs) None"
proof (cases as rule: rev_cases)
  case Nil
  then show ?thesis using connect_here [of t p bs r] assms by auto
next
  case (snoc cs u)
  have parts: "segment t p cs (Some u)" "segment t u bs None"
    using seg snoc segment_append [of t p cs u bs None] by auto
  have nx: "next_of t u = (case bs of [] \<Rightarrow> None | x # _ \<Rightarrow> Some x)" and dom: "set (p # cs @ u # bs) \<subseteq> dom (listeners t)"
    using segment_next [OF parts(2)] segment_dom [OF seg] snoc by auto
  have here: "segment (connect r u t) u [] (Some r)" "segment (connect r u t) r bs None"
    using connect_here [OF parts(2) r(1)] r dist snoc by auto
  have N: "next_of (connect r u t) a = next_of t a" if "a \<in> set (p # cs)" for a
    by (subst next_connect) (use that r dom dist snoc in auto)
  have P: "previous_of (connect r u t) a = previous_of t a" if "a \<in> set (cs @ [u])" for a
    by (subst previous_connect) (use that r dom dist nx snoc in \<open>auto split: list.splits\<close>)
  have "segment (connect r u t) p cs (Some u)"
    by (rule segment_cong [where t = t]) (use parts N P in auto)
  then show ?thesis using snoc here by (simp add: segment_append)
qed

lemma destroy_segment:
  assumes seg: "segment t p (as @ x # bs) None" and dist: "distinct (p # as @ x # bs)"
  shows "segment (snd (destroy_listener hard x t)) p (as @ bs) None"
proof -
  define u where "u = last (p # as)"
  have u: "u \<in> set (p # as)" unfolding u_def by (rule last_in_set) simp
  then have "u \<noteq> x" "u \<notin> set bs" using dist by auto
  note u = u this
  have parts: "segment t p as (Some x)" "segment t x bs None"
    using seg by (simp_all add: segment_append)
  have pv: "previous_of t x = Some u"
    using parts(1) by (cases as rule: rev_cases) (auto simp: segment_snoc u_def)
  have nx: "next_of t x = (case bs of [] \<Rightarrow> None | y # _ \<Rightarrow> Some y)" by (rule segment_next [OF parts(2)])
  have dom: "set (p # as @ x # bs) \<subseteq> dom (listeners t)" using segment_dom [OF seg] by auto
  have N: "next_of (snd (destroy_listener hard x t)) a =
      (if a = x then (if hard then None else next_of t x) else if a = u then next_of t x else next_of t a)" for a
    by (subst next_destroy) (use pv u dom in auto)
  have P: "previous_of (snd (destroy_listener hard x t)) a =
      (if a = x then None else if next_of t x = Some a then Some u else previous_of t a)" for a
    by (subst previous_destroy) (use pv u dom nx dist in \<open>auto split: list.splits\<close>)
  have here: "segment (snd (destroy_listener hard x t)) u bs None"
  proof (cases bs)
    case Nil
    then show ?thesis using u dom nx N by auto
  next
    case (Cons y ys)
    have "segment (snd (destroy_listener hard x t)) y ys None"
      by (rule segment_cong [where t = t]) (use parts Cons u dist nx N P in auto)
    then show ?thesis using Cons u dom dist nx N P by auto
  qed
  show ?thesis
  proof (cases as rule: rev_cases)
    case Nil
    then show ?thesis using here by (simp add: u_def)
  next
    case (snoc cs v)
    have v: "v = u" using snoc by (simp add: u_def)
    have "segment (snd (destroy_listener hard x t)) p cs (Some v)"
      by (rule segment_cong [where t = t])
        (use parts snoc v u dist nx N P in \<open>auto simp: segment_append split: list.splits\<close>)
    then show ?thesis using here snoc v by (simp add: segment_append)
  qed
qed

section \<open>The abstract list\<close>

text \<open>
  What a ticker holds, as a list: for every listener that can be called its function, context,
  priority and whether it is called once.
\<close>

type_synonym entry = "nat \<times> nat option \<times> jsnum \<times> bool"

definition entry_of :: "ticker \<Rightarrow> nat \<Rightarrow> entry option" where
  "entry_of t x = (case listeners t x of
     None \<Rightarrow> None
   | Some l \<Rightarrow> if l_destroyed l then None else map_option (\<lambda>f. (f, l_context l, l_priority l, l_once l)) (l_fn l))"

definition priority_of :: "entry \<Rightarrow> jsnum" where
  "priority_of e = (case e of (f, c, pr, once) \<Rightarrow> pr)"

definition is_once :: "entry \<Rightarrow> bool" where
  "is_once e \<longleftrightarrow> (case e of (f, c, pr, once) \<Rightarrow> once)"

definition is_for :: "nat \<Rightarrow> nat option \<Rightarrow> entry \<Rightarrow> bool" where
  "is_for f c e \<longleftrightarrow> (case e of (f', c', pr, once) \<Rightarrow> f' = f \<and> c' = c)"

definition call_of :: "jsnum \<Rightarrow> entry \<Rightarrow> nat \<times> nat option \<times> jsnum" where
  "call_of dt e = (case e of (f, c, pr, once) \<Rightarrow> (f, c, dt))"

fun refs_from :: "nat \<Rightarrow> ticker \<Rightarrow> nat option \<Rightarrow> nat list" where
  "refs_from 0 t current = []"
| "refs_from (Suc n) t None = []"
| "refs_from (Suc n) t (Some x) = x # refs_from n t (next_of t x)"

definition refs :: "ticker \<Rightarrow> nat list" where
  "refs t = refs_from (next_listener t) t (head_next t)"

definition contents :: "ticker \<Rightarrow> entry list" where
  "contents t = List.map_filter (entry_of t) (refs t)"

definition linked :: "ticker \<Rightarrow> (nat \<times> entry) list \<Rightarrow> bool" where
  "linked t ps \<longleftrightarrow> head t = Some 0 \<and> segment t 0 (map fst ps) None \<and> distinct (0 # map fst ps) \<and>
     dom (listeners t) \<subseteq> {..<next_listener t} \<and> (\<forall>(x, e) \<in> set ps. entry_of t x = Some e)"

lemma segment_refs: "segment t p xs None \<Longrightarrow> length xs \<le> n \<Longrightarrow> refs_from n t (next_of t p) = xs"
proof (induction xs arbitrary: p n)
  case Nil
  then show ?case by (cases n) auto
next
  case (Cons x xs)
  then show ?case by (cases n) auto
qed

lemma linked_length: "linked t ps \<Longrightarrow> length ps < next_listener t"
proof -
  assume L: "linked t ps"
  have "set (0 # map fst ps) \<subseteq> {..<next_listener t}"
    using L segment_dom [of t 0 "map fst ps" None] unfolding linked_def by blast
  then have "card (set (0 # map fst ps)) \<le> next_listener t"
    by (metis card_lessThan card_mono finite_lessThan)
  moreover have "card (set (0 # map fst ps)) = Suc (length ps)"
    using L distinct_card [of "0 # map fst ps"] by (simp add: linked_def)
  ultimately show ?thesis by simp
qed

lemma linked_head_next: "linked t ps \<Longrightarrow> head_next t = next_of t 0"
  by (simp add: linked_def head_next_def)

lemma linked_next: "linked t ps \<Longrightarrow> head_next t = (case ps of [] \<Rightarrow> None | p # _ \<Rightarrow> Some (fst p))"
  by (subst linked_head_next, assumption) (auto simp: linked_def dest!: segment_next split: list.splits)

lemma linked_refs: "linked t ps \<Longrightarrow> refs t = map fst ps"
  using linked_length [of t ps] segment_refs [of t 0 "map fst ps" "next_listener t"]
  by (simp add: refs_def linked_head_next linked_def head_next_def)

lemma linked_contents:
  assumes "linked t ps"
  shows "contents t = map snd ps"
proof -
  have "\<forall>(x, e) \<in> set ps. entry_of t x = Some e" using assms by (simp add: linked_def)
  then have "List.map_filter (entry_of t) (map fst ps) = map snd ps"
    by (induction ps) (auto simp: map_filter_simps)
  then show ?thesis using assms by (simp add: contents_def linked_refs)
qed

text \<open>The rest of the state does not matter to the list.\<close>

lemma linked_cong:
  "linked t ps \<Longrightarrow> listeners t' = listeners t \<Longrightarrow> head t' = head t \<Longrightarrow> next_listener t' = next_listener t \<Longrightarrow> linked t' ps"
proof -
  assume L: "linked t ps" and eq: "listeners t' = listeners t" "head t' = head t" "next_listener t' = next_listener t"
  have "segment t' 0 (map fst ps) None"
    by (rule segment_cong [where t = t]) (use L eq in \<open>auto simp: linked_def next_of_def previous_of_def\<close>)
  then show ?thesis using L eq by (auto simp: linked_def entry_of_def)
qed

lemma entry_of_upd [ticker_simps]:
  "entry_of (upd_listener p (\<lambda>l. l\<lparr>l_next := v\<rparr>) t) x = entry_of t x"
  "entry_of (upd_listener p (\<lambda>l. l\<lparr>l_previous := w\<rparr>) t) x = entry_of t x"
  "entry_of (upd_listener p (\<lambda>l. l\<lparr>l_next := v, l_previous := w\<rparr>) t) x = entry_of t x"
  "entry_of (upd_listener p (\<lambda>l. l\<lparr>l_destroyed := True, l_fn := None, l_context := None\<rparr>) t) x =
     (if x = p then None else entry_of t x)"
  by (cases "listeners t p"; force simp: entry_of_def upd_listener_def)+

lemma entry_of_connect [ticker_simps]: "entry_of (connect r p t) x = entry_of t x"
  by (simp add: connect_def Let_def on_ref_def ticker_simps split: option.split)

lemma entry_of_destroy [ticker_simps]:
  "entry_of (snd (destroy_listener h x t)) y = (if y = x then None else entry_of t y)"
  by (simp add: destroy_listener_def Let_def on_ref_def ticker_simps split: option.split)

text \<open>Relinking touches nothing but the store.\<close>

lemma upd_listener_fields [ticker_simps]:
  "head (upd_listener p f t) = head t" "next_listener (upd_listener p f t) = next_listener t"
  "called (upd_listener p f t) = called t"
  by (simp_all add: upd_listener_def)

lemma relink_fields [simp]:
  "head (connect r p t) = head t" "next_listener (connect r p t) = next_listener t" "called (connect r p t) = called t"
  by (simp_all add: connect_def Let_def on_ref_def ticker_simps split: option.split)

lemma destroy_fields [simp]:
  "head (snd (destroy_listener h x t)) = head t" "next_listener (snd (destroy_listener h x t)) = next_listener t"
  by (simp_all add: destroy_listener_def Let_def on_ref_def ticker_simps split: option.split)

text \<open>The fields outside the list.\<close>

definition same_rest :: "ticker \<Rightarrow> ticker \<Rightarrow> bool" where
  "same_rest t t' \<longleftrightarrow> (\<exists>m. t' = t\<lparr>listeners := m\<rparr>)"

lemma destroy_rest: "same_rest t (snd (destroy_listener h x t))"
  by (auto simp: same_rest_def destroy_listener_def Let_def on_ref_def upd_listener_def split: option.split)

lemma connect_rest: "same_rest t (connect r p t)"
  by (auto simp: same_rest_def connect_def Let_def on_ref_def upd_listener_def split: option.split)

section \<open>Adding and removing\<close>

lemma place_last:
  assumes "segment t p (map fst ps) None" and "\<forall>(x, e) \<in> set ps. entry_of t x = Some e" and "length ps \<le> n"
  shows "place n pr p (next_of t p) t = last (p # map fst (takeWhile (\<lambda>q. \<not> pr > priority_of (snd q)) ps))"
  using assms
proof (induction ps arbitrary: p n)
  case Nil
  then show ?case by (cases n) auto
next
  case (Cons q ps)
  obtain x e where q: "q = (x, e)" by (cases q)
  obtain k where n: "n = Suc k" using Cons.prems by (cases n) auto
  have nx: "next_of t p = Some x" using Cons.prems q by simp
  obtain l where l: "listeners t x = Some l" "l_priority l = priority_of e"
    using Cons.prems q by (auto simp: entry_of_def priority_of_def split: option.splits if_splits)
  have "place k pr x (next_of t x) t = last (x # map fst (takeWhile (\<lambda>q. \<not> pr > priority_of (snd q)) ps))"
    by (rule Cons.IH) (use Cons.prems q n in auto)
  then show ?case using nx n l q by simp
qed

definition inserted :: "'a \<Rightarrow> ('a \<Rightarrow> jsnum) \<Rightarrow> 'a list \<Rightarrow> 'a list" where
  "inserted e pr es = takeWhile (\<lambda>q. \<not> pr e > pr q) es @ e # dropWhile (\<lambda>q. \<not> pr e > pr q) es"

lemma map_inserted: "map f (inserted e (pr \<circ> f) es) = inserted (f e) pr (map f es)"
  by (simp add: inserted_def takeWhile_map dropWhile_map comp_def)

lemma set_inserted [simp]: "set (inserted e pr es) = insert e (set es)"
proof -
  have "set es = set (takeWhile (\<lambda>q. \<not> pr e > pr q) es) \<union> set (dropWhile (\<lambda>q. \<not> pr e > pr q) es)"
    by (metis set_append takeWhile_dropWhile_id)
  then show ?thesis unfolding inserted_def by simp
qed

lemma distinct_inserted: "distinct (map f (inserted e pr es)) \<longleftrightarrow> f e \<notin> f ` set es \<and> distinct (map f es)"
proof -
  have split: "es = takeWhile (\<lambda>q. \<not> pr e > pr q) es @ dropWhile (\<lambda>q. \<not> pr e > pr q) es" by simp
  have "distinct (map f (as @ e # bs)) \<longleftrightarrow> f e \<notin> f ` set (as @ bs) \<and> distinct (map f (as @ bs))" for as bs
    by auto
  then show ?thesis unfolding inserted_def using split by metis
qed

lemma startIfPossible_frame:
  "listeners (startIfPossible t0 t) = listeners t" "head (startIfPossible t0 t) = head t"
  "next_listener (startIfPossible t0 t) = next_listener t"
  by (simp_all add: startIfPossible_def start_def requestIfNeeded_def request_frame_def)

lemma linked_addListener:
  assumes L: "linked t ps" and fresh: "l_next l = None" "l_previous l = None" "\<not> l_destroyed l" and f: "l_fn l = Some f"
  shows "linked (addListener t0 l t)
     (inserted (next_listener t, (f, l_context l, l_priority l, l_once l)) (priority_of \<circ> snd) ps)"
    (is "linked _ ?ps")
proof -
  define r where "r = next_listener t"
  define t1 where "t1 = t\<lparr>listeners := (listeners t)(r \<mapsto> l), next_listener := Suc r\<rparr>"
  let ?P = "\<lambda>q. \<not> l_priority l > priority_of (snd q)"
  let ?as = "takeWhile ?P ps" and ?bs = "dropWhile ?P ps"
  have dom: "set (0 # map fst ps) \<subseteq> dom (listeners t)" "r \<notin> dom (listeners t)"
    using L segment_dom [of t 0 "map fst ps" None] by (auto simp: linked_def r_def)
  have r: "r \<notin> set (0 # map fst ps)" using dom by blast
  have seg1: "segment t1 0 (map fst ps) None"
    by (rule segment_cong [where t = t])
      (use L r in \<open>auto simp: linked_def next_of_def previous_of_def t1_def\<close>)
  have ent1: "entry_of t1 x = (if x = r then Some (f, l_context l, l_priority l, l_once l) else entry_of t x)" for x
    using f fresh by (simp add: entry_of_def t1_def)
  have ents: "\<forall>(x, e) \<in> set ps. entry_of t1 x = Some e"
  proof clarify
    fix x e assume m: "(x, e) \<in> set ps"
    then have "x \<in> fst ` set ps" by (metis fst_conv image_eqI)
    then show "entry_of t1 x = Some e" using L m r ent1 by (auto simp: linked_def)
  qed
  have at: "place r (l_priority l) (the (head t1)) (head_next t1) t1 = last (0 # map fst ?as)"
    using place_last [OF seg1 ents, of r "l_priority l"] linked_length [OF L] L
    by (simp add: linked_def head_next_def t1_def r_def)
  have seg: "segment (connect r (last (0 # map fst ?as)) t1) 0 (map fst ?as @ r # map fst ?bs) None"
  proof (rule connect_segment)
    show "segment t1 0 (map fst ?as @ map fst ?bs) None" using seg1 by (simp flip: map_append)
    show "r \<in> dom (listeners t1)" by (simp add: t1_def)
    show "r \<notin> set (0 # map fst ?as @ map fst ?bs)" using r by (simp flip: map_append)
    show "distinct (0 # map fst ?as @ map fst ?bs)" using L by (simp add: linked_def flip: map_append)
  qed
  have ps: "?ps = ?as @ (r, (f, l_context l, l_priority l, l_once l)) # ?bs"
    by (simp add: inserted_def r_def priority_of_def)
  have dist: "distinct (0 # map fst ?ps)"
    using L r by (auto simp: linked_def distinct_inserted r_def)
  have "dom (listeners t1) \<subseteq> {..<Suc r}"
    using L by (auto simp: linked_def t1_def r_def less_Suc_eq)
  moreover have "head t1 = Some 0" "next_listener t1 = Suc r"
    using L by (simp_all add: t1_def linked_def)
  moreover have "\<forall>(x, e) \<in> set ?ps. entry_of (connect r p t1) x = Some e" for p
    unfolding entry_of_connect using ents ent1 by (auto simp: r_def)
  moreover have "map fst ?ps = map fst ?as @ r # map fst ?bs" unfolding ps by simp
  ultimately have "linked (connect r (last (0 # map fst ?as)) t1) ?ps"
    unfolding linked_def dom_connect relink_fields using seg dist by simp
  then show ?thesis
    unfolding addListener_def Let_def
    by (rule linked_cong) (use at in \<open>simp_all add: startIfPossible_frame t1_def r_def\<close>)
qed

definition ref_of :: "(nat \<times> entry) list \<Rightarrow> nat option" where
  "ref_of ps = (case ps of [] \<Rightarrow> None | q # _ \<Rightarrow> Some (fst q))"

lemma ref_of_simps [simp]: "ref_of [] = None" "ref_of (q # ps) = Some (fst q)"
  by (simp_all add: ref_of_def)

lemma linked_next_at: "linked t (ds @ (x, e) # ps) \<Longrightarrow> next_of t x = ref_of ps"
proof -
  assume "linked t (ds @ (x, e) # ps)"
  then have "segment t x (map fst ps) None" by (simp add: linked_def segment_append)
  then show ?thesis by (cases ps) auto
qed

lemma linked_member: "linked t ps \<Longrightarrow> (y, d) \<in> set ps \<Longrightarrow> entry_of t y = Some d"
  unfolding linked_def by fast

lemma linked_entry: "linked t (ds @ (x, e) # ps) \<Longrightarrow> entry_of t x = Some e"
  by (simp add: linked_def)

lemma entry_listener:
  assumes "entry_of t x = Some e"
  shows "\<exists>l. listeners t x = Some l \<and> \<not> l_destroyed l \<and> l_once l = is_once e \<and>
    (\<exists>f. l_fn l = Some f \<and> call_of dt e = (f, l_context l, dt)) \<and> (match (Some f) c l \<longleftrightarrow> is_for f c e)"
  using assms
  by (auto simp: entry_of_def is_once_def call_of_def is_for_def match_def split: option.splits if_splits)

lemma linked_not_own_previous: "linked t (ds @ (x, e) # ps) \<Longrightarrow> previous_of t x \<noteq> Some x"
proof -
  assume L: "linked t (ds @ (x, e) # ps)"
  then have "segment t 0 (map fst ds) (Some x)" by (simp add: linked_def segment_append)
  then have "previous_of t x = Some (last (0 # map fst ds))"
    by (cases ds rule: rev_cases) (auto simp: segment_snoc)
  moreover have "x \<notin> set (0 # map fst ds)" using L by (auto simp: linked_def)
  then have "last (0 # map fst ds) \<noteq> x" by (metis last_in_set list.distinct(1))
  ultimately show ?thesis by simp
qed

lemma linked_destroy:
  assumes L: "linked t (ds @ (x, e) # ps)"
  shows "linked (snd (destroy_listener h x t)) (ds @ ps)"
proof -
  have "segment (snd (destroy_listener h x t)) 0 (map fst ds @ map fst ps) None"
    by (rule destroy_segment) (use L in \<open>simp_all add: linked_def\<close>)
  moreover have "entry_of (snd (destroy_listener h x t)) y = Some d" if "(y, d) \<in> set (ds @ ps)" for y d
  proof -
    have "y \<in> fst ` set (ds @ ps)" using that by (metis fst_conv image_eqI)
    then have "y \<noteq> x" using L by (auto simp: linked_def)
    then show ?thesis using linked_member [OF L, of y d] that by (auto simp: entry_of_destroy)
  qed
  ultimately show ?thesis using L by (auto simp: linked_def)
qed

lemma destroy_result: "linked t (ds @ (x, e) # ps) \<Longrightarrow> fst (destroy_listener h x t) = ref_of ps"
  by (simp add: linked_not_own_previous linked_next_at)

lemma same_rest_refl [simp]: "same_rest t t"
  unfolding same_rest_def by (metis ticker.surjective ticker.update_convs(1))

lemma same_rest_trans [trans]: "same_rest t u \<Longrightarrow> same_rest u v \<Longrightarrow> same_rest t v"
  by (auto simp: same_rest_def)

lemma remove_walk_linked:
  assumes "linked t (ds @ ps)" and "length ps \<le> n"
  shows "linked (remove_walk n f c (ref_of ps) t) (ds @ filter (\<lambda>q. \<not> is_for f c (snd q)) ps) \<and>
    same_rest t (remove_walk n f c (ref_of ps) t)"
  using assms
proof (induction ps arbitrary: t ds n)
  case Nil
  then show ?case by (cases n) auto
next
  case (Cons q ps)
  obtain x e where q: "q = (x, e)" by (cases q)
  obtain k where n: "n = Suc k" using Cons.prems by (cases n) auto
  have L: "linked t (ds @ (x, e) # ps)" using Cons.prems q by simp
  obtain l where l: "listeners t x = Some l" "match (Some f) c l \<longleftrightarrow> is_for f c e"
    using entry_listener [OF linked_entry [OF L]] by blast
  show ?case
  proof (cases "is_for f c e")
    case True
    let ?u = "snd (destroy_listener False x t)"
    have "linked (remove_walk k f c (ref_of ps) ?u) (ds @ filter (\<lambda>q. \<not> is_for f c (snd q)) ps) \<and>
        same_rest ?u (remove_walk k f c (ref_of ps) ?u)"
      by (rule Cons.IH) (use linked_destroy [OF L] Cons.prems n in auto)
    moreover have "remove_walk n f c (ref_of (q # ps)) t = remove_walk k f c (ref_of ps) ?u"
      using True l q n destroy_result [OF L, of False] by (simp add: case_prod_unfold)
    ultimately show ?thesis
      using True q same_rest_trans [OF destroy_rest [of t False x]] by simp
  next
    case False
    have "linked (remove_walk k f c (ref_of ps) t) ((ds @ [(x, e)]) @ filter (\<lambda>q. \<not> is_for f c (snd q)) ps) \<and>
        same_rest t (remove_walk k f c (ref_of ps) t)"
      by (rule Cons.IH) (use L Cons.prems n in auto)
    then show ?thesis using False l q n linked_next_at [OF L] by simp
  qed
qed

lemma linked_remove:
  assumes L: "linked t ps"
  shows "linked (remove f c t) (filter (\<lambda>q. \<not> is_for f c (snd q)) ps)" (is "linked _ ?ps")
    and "started (remove f c t) = started t"
    and "requestId (remove f c t) =
      (if filter (\<lambda>q. \<not> is_for f c (snd q)) ps = [] then None else requestId t)"
    and "lastTime (remove f c t) = lastTime t \<and> called (remove f c t) = called t"
proof -
  let ?u = "remove_walk (next_listener t) f c (ref_of ps) t"
  have u: "linked ?u ?ps" "same_rest t ?u"
    using remove_walk_linked [of t "[]" ps] L linked_length [OF L] by auto
  have R: "remove f c t = (if ?ps = [] then cancelIfNeeded ?u else ?u)"
    using linked_next [OF L] linked_next [OF u(1)]
    by (cases "?ps") (simp_all add: remove_def Let_def ref_of_def)
  show "linked (remove f c t) ?ps"
    by (rule linked_cong [OF u(1)]) (simp_all add: R cancelIfNeeded_def)
  show "started (remove f c t) = started t"
    "requestId (remove f c t) = (if ?ps = [] then None else requestId t)"
    "lastTime (remove f c t) = lastTime t \<and> called (remove f c t) = called t"
    using u(2) by (auto simp: R cancelIfNeeded_def same_rest_def)
qed

section \<open>Calling the listeners\<close>

text \<open>Listeners that leave the ticker alone.\<close>

definition quiet :: callee where
  "quiet f c dt t = t"

definition same_but_calls :: "ticker \<Rightarrow> ticker \<Rightarrow> bool" where
  "same_but_calls t t' \<longleftrightarrow> t'\<lparr>listeners := Map.empty, called := []\<rparr> = t\<lparr>listeners := Map.empty, called := []\<rparr>"

lemma same_but_calls_refl [simp]: "same_but_calls t t"
  by (simp add: same_but_calls_def)

lemma same_but_calls_trans: "same_but_calls t u \<Longrightarrow> same_but_calls u v \<Longrightarrow> same_but_calls t v"
  by (simp add: same_but_calls_def)

lemma same_but_calls_fields:
  "same_but_calls t u \<Longrightarrow> started u = started t \<and> requestId u = requestId t \<and> deltaTime u = deltaTime t \<and> head u = head t"
  by (cases t; cases u; simp add: same_but_calls_def)

lemma same_rest_calls: "same_rest t u \<Longrightarrow> same_but_calls t u \<and> called u = called t"
  by (auto simp: same_but_calls_def same_rest_def)

lemma emit_linked:
  assumes L: "linked t (ds @ (x, e) # ps)"
  shows "\<exists>u. listener_emit quiet dt x t = (ref_of ps, u) \<and> linked u (ds @ filter (\<lambda>q. \<not> is_once (snd q)) [(x, e)] @ ps) \<and>
    called u = called t @ [call_of dt e] \<and> same_but_calls t u"
proof -
  obtain l f where l: "listeners t x = Some l" "\<not> l_destroyed l" "l_once l = is_once e" "l_fn l = Some f"
      "call_of dt e = (f, l_context l, dt)"
    using entry_listener [OF linked_entry [OF L]] by blast
  define t1 where "t1 = t\<lparr>called := called t @ [call_of dt e]\<rparr>"
  have L1: "linked t1 (ds @ (x, e) # ps)" by (rule linked_cong [OF L]) (simp_all add: t1_def)
  have t1: "listeners t1 x = Some l" "next_of t1 x = ref_of ps"
      "t\<lparr>called := called t @ [(f, l_context l, dt)]\<rparr> = t1"
    using l linked_next_at [OF L1] by (simp_all add: t1_def)
  show ?thesis
  proof (cases "is_once e")
    case False
    then have "listener_emit quiet dt x t = (ref_of ps, t1)"
      using l t1 by (simp add: listener_emit_def quiet_def Let_def)
    moreover have "same_but_calls t t1"
      by (simp add: same_but_calls_def t1_def)
    ultimately show ?thesis using False L1 by (auto simp: t1_def)
  next
    case True
    define t2 where "t2 = snd (destroy_listener True x t1)"
    define t3 where "t3 = upd_listener x (\<lambda>l. l\<lparr>l_next := None\<rparr>) t2"
    have L2: "linked t2 (ds @ ps)" unfolding t2_def by (rule linked_destroy [OF L1])
    have gone: "x \<notin> set (0 # map fst (ds @ ps))" using L by (auto simp: linked_def)
    have "segment t3 0 (map fst (ds @ ps)) None"
      by (rule segment_cong [where t = t2])
        (use L2 gone in \<open>auto simp: linked_def t3_def ticker_simps\<close>)
    then have L3: "linked t3 (ds @ ps)"
      using L2 by (simp add: linked_def t3_def ticker_simps)
    have "listener_emit quiet dt x t = (ref_of ps, if \<exists>l. listeners t2 x = Some l \<and> l_destroyed l then t3 else t2)"
      using l t1 True
      by (simp add: listener_emit_def quiet_def Let_def t2_def t3_def split: option.split)
    moreover have "same_but_calls t t1" by (simp add: same_but_calls_def t1_def)
    moreover have "same_but_calls t1 t2 \<and> called t2 = called t1"
      unfolding t2_def by (rule same_rest_calls) (rule destroy_rest)
    moreover have "same_but_calls t2 t3 \<and> called t3 = called t2"
      by (rule same_rest_calls) (auto simp: t3_def same_rest_def upd_listener_def)
    ultimately show ?thesis using True L2 L3 same_but_calls_trans by (auto simp: t1_def)
  qed
qed

lemma emit_walk_linked:
  assumes "linked t (ds @ ps)" and "length ps \<le> n"
  shows "\<exists>u. emit_walk n quiet dt (ref_of ps) t = Some u \<and> linked u (ds @ filter (\<lambda>q. \<not> is_once (snd q)) ps) \<and>
    called u = called t @ map (call_of dt \<circ> snd) ps \<and> same_but_calls t u"
  using assms
proof (induction ps arbitrary: t ds n)
  case Nil
  then show ?case by simp
next
  case (Cons q ps)
  obtain x e where q: "q = (x, e)" by (cases q)
  obtain k where n: "n = Suc k" using Cons.prems by (cases n) auto
  obtain u where u: "listener_emit quiet dt x t = (ref_of ps, u)"
      "linked u ((ds @ filter (\<lambda>q. \<not> is_once (snd q)) [q]) @ ps)"
      "called u = called t @ [call_of dt e]" "same_but_calls t u"
    using emit_linked [of t ds x e ps dt] Cons.prems q by auto
  obtain v where v: "emit_walk k quiet dt (ref_of ps) u = Some v"
      "linked v ((ds @ filter (\<lambda>q. \<not> is_once (snd q)) [q]) @ filter (\<lambda>q. \<not> is_once (snd q)) ps)"
      "called v = called u @ map (call_of dt \<circ> snd) ps" "same_but_calls u v"
    using Cons.IH [OF u(2), of k] Cons.prems n by auto
  have "emit_walk n quiet dt (ref_of (q # ps)) t = Some v" using u(1) v(1) q n by simp
  moreover have "linked v (ds @ filter (\<lambda>q. \<not> is_once (snd q)) (q # ps))"
    using v(2) by (cases "is_once (snd q)") simp_all
  moreover have "called v = called t @ map (call_of dt \<circ> snd) (q # ps)" using u(3) v(3) q by simp
  ultimately show ?case using same_but_calls_trans [OF u(4) v(4)] by blast
qed

section \<open>Runs\<close>

text \<open>
  What the program and the browser do to a ticker whose listeners leave it alone.  A priority is a
  number, not NaN.  The browser calls \<^verbatim>\<open>_tick\<close> when a frame has been requested.
\<close>

datatype ticker_event =
    Add nat "nat option" jsnum bool jsnum
  | Remove nat "nat option"
  | Start jsnum
  | Stop
  | Update jsnum
  | Frame jsnum
  | SetAutoStart bool
  | SetSpeed jsnum
  | SetMinFPS jsnum

inductive ticker_step :: "ticker \<Rightarrow> ticker_event \<Rightarrow> ticker \<Rightarrow> bool" where
  "pr \<noteq> NaN \<Longrightarrow> ticker_step t (Add f c pr once t0) ((if once then addOnce else add) t0 f c pr t)"
| "ticker_step t (Remove f c) (remove f c t)"
| "ticker_step t (Start t0) (start t0 t)"
| "ticker_step t Stop (stop t)"
| "update (next_listener t) quiet time t = Some u \<Longrightarrow> ticker_step t (Update time) u"
| "requestId t \<noteq> None \<Longrightarrow> tick (next_listener t) quiet time t = Some u \<Longrightarrow> ticker_step t (Frame time) u"
| "ticker_step t (SetAutoStart b) (t\<lparr>autoStart := b\<rparr>)"
| "ticker_step t (SetSpeed x) (t\<lparr>speed := x\<rparr>)"
| "ticker_step t (SetMinFPS fps) (set_minFPS fps t)"

inductive_cases ticker_stepE: "ticker_step t e u"

definition ticker_init :: "ticker \<Rightarrow> bool" where
  "ticker_init t \<longleftrightarrow> t = new_ticker \<or> t = new_ticker\<lparr>autoStart := True\<rparr>"

definition ticker_holds :: "ticker \<Rightarrow> (nat \<times> entry) list \<Rightarrow> bool" where
  "ticker_holds t ps \<longleftrightarrow> linked t ps \<and> (\<forall>q \<in> set ps. priority_of (snd q) \<noteq> NaN) \<and>
     sorted_wrt (\<lambda>p q. priority_of (snd q) \<le> priority_of (snd p)) ps \<and>
     (requestId t \<noteq> None \<longleftrightarrow> started t \<and> ps \<noteq> [])"

text \<open>What an event makes of the list.\<close>

definition passes :: "jsnum \<Rightarrow> ticker \<Rightarrow> bool" where
  "passes time t \<longleftrightarrow> time > lastTime t"

definition frame_delta :: "jsnum \<Rightarrow> ticker \<Rightarrow> jsnum" where
  "frame_delta time t =
     (let elapsed = time - lastTime t in (if elapsed > maxElapsedMS t then maxElapsedMS t else elapsed) * TARGET_FPMS * speed t)"

fun after_event :: "ticker \<Rightarrow> ticker_event \<Rightarrow> entry list \<Rightarrow> entry list" where
  "after_event t (Add f c pr once t0) es = inserted (f, c, pr, once) priority_of es"
| "after_event t (Remove f c) es = filter (\<lambda>e. \<not> is_for f c e) es"
| "after_event t (Update time) es = (if passes time t then filter (\<lambda>e. \<not> is_once e) es else es)"
| "after_event t (Frame time) es = (if passes time t then filter (\<lambda>e. \<not> is_once e) es else es)"
| "after_event t e es = es"

lemma not_less_num: "a \<noteq> NaN \<Longrightarrow> b \<noteq> NaN \<Longrightarrow> \<not> (a::jsnum) > b \<longleftrightarrow> a \<le> b"
  by (cases a; cases b) auto

lemma le_num_trans: "(a::jsnum) \<le> b \<Longrightarrow> b \<le> c \<Longrightarrow> a \<le> c"
  by (cases a; cases b; cases c) auto

lemma less_num_le: "(a::jsnum) < b \<Longrightarrow> a \<le> b"
  by (cases a; cases b) auto

lemma sorted_inserted:
  assumes "sorted_wrt (\<lambda>p q. pr q \<le> pr p) es" and "\<forall>q \<in> set es. pr q \<noteq> NaN" and "pr e \<noteq> NaN"
  shows "sorted_wrt (\<lambda>p q. pr q \<le> pr p) (inserted e pr es)"
  using assms
proof (induction es)
  case Nil
  then show ?case by (simp add: inserted_def)
next
  case (Cons a es)
  show ?case
  proof (cases "pr e > pr a")
    case True
    then have "\<forall>q \<in> set (a # es). pr q \<le> pr e"
      using Cons.prems by (auto intro: le_num_trans less_num_le)
    then show ?thesis using True Cons.prems by (simp add: inserted_def)
  next
    case False
    then have "inserted e pr (a # es) = a # inserted e pr es" by (simp add: inserted_def)
    moreover have "pr e \<le> pr a" using False Cons.prems not_less_num by auto
    ultimately show ?thesis using Cons by simp
  qed
qed

lemma holds_init: "ticker_init t \<Longrightarrow> ticker_holds t []"
  by (auto simp: ticker_init_def ticker_holds_def linked_def new_ticker_def next_of_def new_listener_def
      split: if_splits)

lemma holds_contents: "ticker_holds t ps \<Longrightarrow> contents t = map snd ps"
  by (simp add: ticker_holds_def linked_contents)

lemma holds_addListener:
  assumes H: "ticker_holds t ps" and pr: "pr \<noteq> NaN"
  shows "ticker_holds (addListener t0 (new_listener (Some f) c pr once) t)
    (inserted (next_listener t, (f, c, pr, once)) (priority_of \<circ> snd) ps)" (is "ticker_holds ?u ?ps")
proof -
  let ?l = "new_listener (Some f) c pr once"
  have L: "linked t ps" using H by (simp add: ticker_holds_def)
  have l: "l_fn ?l = Some f" "l_context ?l = c" "l_priority ?l = pr" "l_once ?l = once"
      "l_next ?l = None" "l_previous ?l = None" "\<not> l_destroyed ?l"
    by (simp_all add: new_listener_def)
  have L': "linked ?u ?ps" using linked_addListener [OF L l(5-7) l(1), of t0] l by simp
  have "requestId ?u \<noteq> None \<longleftrightarrow> started ?u"
  proof -
    define t1 where "t1 = t\<lparr>listeners := (listeners t)(next_listener t \<mapsto> ?l), next_listener := Suc (next_listener t)\<rparr>"
    define v where "v = connect (next_listener t)
        (place (next_listener t) (l_priority ?l) (the (head t1)) (head_next t1) t1) t1"
    have "same_rest t1 v" unfolding v_def by (rule connect_rest)
    then have v: "?u = startIfPossible t0 v" "requestId v = requestId t" "started v = started t"
      by (simp_all add: addListener_def Let_def v_def t1_def) (auto simp: same_rest_def t1_def)
    have "head_next ?u = head_next v"
      by (simp add: v(1) startIfPossible_def start_def requestIfNeeded_def request_frame_def)
    moreover have "head_next ?u \<noteq> None"
      using linked_next [OF L'] by (auto simp: inserted_def split: list.splits)
    ultimately have "head_next v \<noteq> None" by simp
    then show ?thesis
      using v H by (auto simp: startIfPossible_def start_def requestIfNeeded_def request_frame_def ticker_holds_def)
  qed
  moreover have "?ps \<noteq> []" by (simp add: inserted_def)
  moreover have "sorted_wrt (\<lambda>p q. (priority_of \<circ> snd) q \<le> (priority_of \<circ> snd) p) ?ps"
    by (rule sorted_inserted) (use H pr in \<open>auto simp: ticker_holds_def priority_of_def\<close>)
  ultimately show ?thesis
    using L' H pr by (auto simp: ticker_holds_def priority_of_def)
qed

lemma holds_remove:
  assumes H: "ticker_holds t ps"
  shows "ticker_holds (remove f c t) (filter (\<lambda>q. \<not> is_for f c (snd q)) ps)"
  using H linked_remove [of t ps f c] by (auto simp: ticker_holds_def sorted_wrt_filter)

lemma holds_fields:
  assumes "ticker_holds t ps" and "listeners u = listeners t" and "head u = head t" and "next_listener u = next_listener t"
    and "requestId u \<noteq> None \<longleftrightarrow> started u \<and> ps \<noteq> []"
  shows "ticker_holds u ps"
  using assms linked_cong unfolding ticker_holds_def by blast

lemma holds_head_next: "ticker_holds t ps \<Longrightarrow> head_next t = None \<longleftrightarrow> ps = []"
  by (auto simp: ticker_holds_def dest!: linked_next split: list.splits)

lemma holds_start: "ticker_holds t ps \<Longrightarrow> ticker_holds (start t0 t) ps"
  using holds_head_next [of t ps]
  by - (rule holds_fields [where t = t], auto simp: start_def requestIfNeeded_def request_frame_def ticker_holds_def)

lemma holds_stop: "ticker_holds t ps \<Longrightarrow> ticker_holds (stop t) ps"
  by (rule holds_fields [where t = t]) (auto simp: stop_def cancelIfNeeded_def ticker_holds_def)

lemma update_linked:
  assumes L: "linked t ps" and ps': "ps' = (if passes time t then filter (\<lambda>q. \<not> is_once (snd q)) ps else ps)"
  shows "\<exists>u. update (next_listener t) quiet time t = Some u \<and> linked u ps' \<and>
    called u = called t @ (if passes time t then map (call_of (frame_delta time t) \<circ> snd) ps else []) \<and>
    started u = started t \<and> requestId u = (if passes time t \<and> ps' = [] then None else requestId t) \<and> lastTime u = time"
proof (cases "passes time t")
  case False
  then show ?thesis
    using ps' by (auto simp: update_def passes_def intro!: linked_cong [OF L])
next
  case True
  define elapsed where "elapsed = time - lastTime t"
  define dt where "dt = (if elapsed > maxElapsedMS t then maxElapsedMS t else elapsed) * TARGET_FPMS * speed t"
  define t1 where "t1 = t\<lparr>elapsedMS := elapsed, deltaTime := dt\<rparr>"
  have L1: "linked t1 ([] @ ps)" by (simp, rule linked_cong [OF L]) (simp_all add: t1_def)
  obtain v where v: "emit_walk (next_listener t) quiet dt (ref_of ps) t1 = Some v" "linked v ps'"
      "called v = called t1 @ map (call_of dt \<circ> snd) ps" "same_but_calls t1 v"
    using emit_walk_linked [OF L1, of "next_listener t" dt] linked_length [OF L] True ps' by auto
  have fields: "started v = started t" "requestId v = requestId t" "deltaTime v = dt" "head v = head t"
    using same_but_calls_fields [OF v(4)] by (simp_all add: t1_def)
  have hn: "Option.bind (head t) (next_of v) = ref_of ps'"
    using linked_next [OF v(2)] fields by (simp add: head_next_def ref_of_def)
  define u where "u = (if ps' = [] then cancelIfNeeded v else v)\<lparr>lastTime := time\<rparr>"
  have d: "deltaTime t1 = dt" "head_next t1 = ref_of ps"
    using linked_next [OF L] by (simp_all add: t1_def ref_of_def)
  have "update (next_listener t) quiet time t = map_option
      (\<lambda>t2. (if Option.bind (head t) (next_of t2) = None then cancelIfNeeded t2 else t2)\<lparr>lastTime := time\<rparr>)
      (emit_walk (next_listener t) quiet (deltaTime t1) (head_next t1) t1)"
    using True by (simp only: update_def passes_def Let_def t1_def dt_def elapsed_def if_True)
  also have "\<dots> = Some u"
    unfolding d v(1) u_def using hn by (cases ps') simp_all
  finally have "update (next_listener t) quiet time t = Some u" .
  moreover have "linked u ps'"
    by (rule linked_cong [OF v(2)]) (simp_all add: u_def cancelIfNeeded_def)
  ultimately show ?thesis
    using True v(3) fields by (auto simp: u_def t1_def dt_def elapsed_def frame_delta_def Let_def cancelIfNeeded_def)
qed

definition kept :: "jsnum \<Rightarrow> ticker \<Rightarrow> (nat \<times> entry) list \<Rightarrow> (nat \<times> entry) list" where
  "kept time t ps = (if passes time t then filter (\<lambda>q. \<not> is_once (snd q)) ps else ps)"

lemma kept_sorted:
  "ticker_holds t ps \<Longrightarrow> (\<forall>q \<in> set (kept time t ps). priority_of (snd q) \<noteq> NaN) \<and>
    sorted_wrt (\<lambda>p q. priority_of (snd q) \<le> priority_of (snd p)) (kept time t ps)"
  by (auto simp: kept_def ticker_holds_def sorted_wrt_filter)

lemma holds_update:
  assumes H: "ticker_holds t ps"
  shows "\<exists>u. update (next_listener t) quiet time t = Some u \<and> ticker_holds u (kept time t ps) \<and>
    called u = called t @ (if passes time t then map (call_of (frame_delta time t) \<circ> snd) ps else [])"
proof -
  obtain u where u: "update (next_listener t) quiet time t = Some u" "linked u (kept time t ps)"
      "called u = called t @ (if passes time t then map (call_of (frame_delta time t) \<circ> snd) ps else [])"
      "started u = started t" "requestId u = (if passes time t \<and> kept time t ps = [] then None else requestId t)"
    using update_linked [of t ps "kept time t ps" time] H by (auto simp: kept_def ticker_holds_def)
  have "requestId u \<noteq> None \<longleftrightarrow> started u \<and> kept time t ps \<noteq> []"
    using u H by (auto simp: ticker_holds_def kept_def split: if_splits)
  then show ?thesis using u kept_sorted [OF H] by (auto simp: ticker_holds_def)
qed

lemma holds_tick:
  assumes H: "ticker_holds t ps" and req: "requestId t \<noteq> None"
  shows "\<exists>u. tick (next_listener t) quiet time t = Some u \<and> ticker_holds u (kept time t ps) \<and>
    called u = called t @ (if passes time t then map (call_of (frame_delta time t) \<circ> snd) ps else [])"
proof -
  define t1 where "t1 = t\<lparr>requestId := None\<rparr>"
  have L1: "linked t1 ps" using H by (auto simp: ticker_holds_def t1_def intro: linked_cong)
  have t1: "next_listener t1 = next_listener t" "passes time t1 = passes time t" "frame_delta time t1 = frame_delta time t" "kept time t1 ps = kept time t ps"
      "started t1" "called t1 = called t"
    using H req by (auto simp: t1_def passes_def frame_delta_def Let_def kept_def ticker_holds_def)
  obtain v where v: "update (next_listener t) quiet time t1 = Some v" "linked v (kept time t ps)"
      "called v = called t @ (if passes time t then map (call_of (frame_delta time t) \<circ> snd) ps else [])"
      "started v" "requestId v = None"
    using update_linked [OF L1, of "kept time t1 ps" time] t1 by (auto simp: kept_def t1_def)
  define u where "u = (if kept time t ps \<noteq> [] then request_frame v else v)"
  have "tick (next_listener t) quiet time t = Some u"
    using v t1 linked_next [OF v(2)]
    by (cases "kept time t ps") (simp_all add: tick_def Let_def u_def flip: t1_def)
  moreover have "linked u (kept time t ps)"
    by (rule linked_cong [OF v(2)]) (simp_all add: u_def request_frame_def)
  moreover have "requestId u \<noteq> None \<longleftrightarrow> started u \<and> kept time t ps \<noteq> []"
    "called u = called v" "deltaTime u = deltaTime v"
    using v by (simp_all add: u_def request_frame_def)
  ultimately show ?thesis using v(3) kept_sorted [OF H] by (auto simp: ticker_holds_def)
qed

lemma map_snd_kept: "map snd (kept time t ps) = (if passes time t then filter (\<lambda>e. \<not> is_once e) (map snd ps) else map snd ps)"
  by (simp add: kept_def filter_map comp_def)

lemma holds_settings:
  assumes "ticker_holds t ps"
  shows "ticker_holds (t\<lparr>autoStart := b\<rparr>) ps" "ticker_holds (t\<lparr>speed := x\<rparr>) ps" "ticker_holds (set_minFPS fps t) ps"
  by (rule holds_fields [OF assms]; use assms in \<open>simp add: ticker_holds_def set_minFPS_def\<close>)+

lemma holds_step:
  assumes step: "ticker_step t e u" and H: "ticker_holds t ps"
  shows "\<exists>qs. ticker_holds u qs \<and> map snd qs = after_event t e (map snd ps)"
  using step
proof (rule ticker_stepE)
  fix pr f c once t0
  assume e: "e = Add f c pr once t0" and u: "u = (if once then addOnce else add) t0 f c pr t" and pr: "pr \<noteq> NaN"
  let ?qs = "inserted (next_listener t, (f, c, pr, once)) (priority_of \<circ> snd) ps"
  have "ticker_holds u ?qs"
    using holds_addListener [OF H pr, of t0 f c once] u by (auto simp: add_def addOnce_def split: if_splits)
  moreover have "map snd ?qs = after_event t e (map snd ps)"
    using map_inserted [of snd "(next_listener t, (f, c, pr, once))" priority_of ps] e by simp
  ultimately show ?thesis by blast
next
  fix f c
  assume "e = Remove f c" and "u = remove f c t"
  then show ?thesis
    using holds_remove [OF H, of f c] by (auto simp: filter_map comp_def intro!: exI)
next
  fix time
  assume "e = Update time" and "update (next_listener t) quiet time t = Some u"
  then show ?thesis using holds_update [OF H, of time] by (auto simp: map_snd_kept)
next
  fix time y
  assume "e = Frame time" and "requestId t = Some y" and "tick (next_listener t) quiet time t = Some u"
  then show ?thesis using holds_tick [OF H, of time] by (auto simp: map_snd_kept)
next
  fix t0
  assume "e = Start t0" and "u = start t0 t"
  then show ?thesis using holds_start [OF H, of t0] by auto
next
  assume "e = Stop" and "u = stop t"
  then show ?thesis using holds_stop [OF H] by auto
qed (use holds_settings [OF H] in auto)

interpretation ticking: invariant_of ticker_init ticker_step "\<lambda>t. \<exists>ps. ticker_holds t ps"
  by unfold_locales (blast intro: holds_init dest: holds_step)+

section \<open>What a ticker promises\<close>

fun calls_of :: "ticker \<Rightarrow> ticker_event \<Rightarrow> (nat \<times> nat option \<times> jsnum) list" where
  "calls_of t (Update time) = (if passes time t then map (call_of (frame_delta time t)) (contents t) else [])"
| "calls_of t (Frame time) = (if passes time t then map (call_of (frame_delta time t)) (contents t) else [])"
| "calls_of t e = []"

lemma startIfPossible_called: "called (startIfPossible t0 t) = called t"
  by (simp add: startIfPossible_def start_def requestIfNeeded_def request_frame_def)

lemma addListener_called: "called (addListener t0 l t) = called t"
  by (simp add: addListener_def Let_def startIfPossible_called)

lemma step_calls:
  assumes step: "ticker_step t e u" and H: "ticker_holds t ps"
  shows "called u = called t @ calls_of t e"
  using step
proof (rule ticker_stepE)
  fix pr f c once t0
  assume "e = Add f c pr once t0" and "u = (if once then addOnce else add) t0 f c pr t"
  then show ?thesis by (auto simp: add_def addOnce_def addListener_called)
next
  fix f c
  assume "e = Remove f c" and "u = remove f c t"
  then show ?thesis using linked_remove(4) [of t ps f c] H by (auto simp: ticker_holds_def)
next
  fix time
  assume "e = Update time" and "update (next_listener t) quiet time t = Some u"
  then show ?thesis using holds_update [OF H, of time] holds_contents [OF H] by auto
next
  fix time y
  assume "e = Frame time" and "requestId t = Some y" and "tick (next_listener t) quiet time t = Some u"
  then show ?thesis using holds_tick [OF H, of time] holds_contents [OF H] by auto
qed (auto simp: start_def stop_def requestIfNeeded_def request_frame_def cancelIfNeeded_def set_minFPS_def)

text \<open>
  In every run of a ticker whose listeners leave it alone, the doubly linked list is the list it
  stands for: adding puts a listener behind those of its priority or a higher one, removing takes out
  every listener of that function and context, and a frame whose time has advanced calls all listeners
  in order, each with the time that has passed, capped and scaled, and drops those that were added once.
\<close>

theorem ticker_refines_list:
  assumes "ticking.reachable t" and "ticker_step t e u"
  shows "contents u = after_event t e (contents t) \<and> called u = called t @ calls_of t e"
proof -
  obtain ps where H: "ticker_holds t ps" using ticking.inv_reachable [OF assms(1)] by blast
  obtain qs where "ticker_holds u qs" "map snd qs = after_event t e (map snd ps)"
    using holds_step [OF assms(2) H] by blast
  then have "contents u = after_event t e (contents t)" using H by (simp add: holds_contents)
  then show ?thesis using step_calls [OF assms(2) H] by simp
qed

text \<open>
  The listeners are always in the order of their priorities, and a frame is requested exactly when
  the ticker is started and has listeners.
\<close>

theorem frames_while_listening:
  assumes "ticking.reachable t"
  shows "(requestId t \<noteq> None \<longleftrightarrow> started t \<and> contents t \<noteq> []) \<and>
    sorted_wrt (\<lambda>d e. priority_of e \<le> priority_of d) (contents t)"
proof -
  obtain ps where H: "ticker_holds t ps" using ticking.inv_reachable [OF assms] by blast
  then show ?thesis by (simp add: holds_contents) (simp add: ticker_holds_def sorted_wrt_map)
qed

text \<open>The walk of a frame ends: as much fuel as there have been listeners is enough.\<close>

theorem frame_returns:
  "ticking.reachable t \<Longrightarrow> requestId t \<noteq> None \<Longrightarrow> \<exists>u. ticker_step t (Frame time) u"
  using ticking.inv_reachable [of t] holds_tick ticker_step.intros(6) by metis

section \<open>A listener that removes itself\<close>

definition leaves :: "nat \<Rightarrow> callee" where
  "leaves g f c dt t = (if f = g then remove f c t else t)"

text \<open>Frames of the browser, as long as one is requested.\<close>

fun frames :: "nat \<Rightarrow> jsnum list \<Rightarrow> ticker \<Rightarrow> ticker option" where
  "frames n [] t = Some t"
| "frames n (time # ts) t =
     (if requestId t = None then Some t else Option.bind (tick n quiet time t) (frames n ts))"

definition dead_end :: "ticker \<Rightarrow> bool" where
  "dead_end t \<longleftrightarrow> head t = Some 0 \<and>
     (\<exists>z l. z \<noteq> 0 \<and> next_of t 0 = Some z \<and> listeners t z = Some l \<and> l_fn l = None \<and> \<not> l_once l \<and> l_next l = None)"

lemma dead_end_cong: "dead_end t \<Longrightarrow> listeners u = listeners t \<Longrightarrow> head u = head t \<Longrightarrow> dead_end u"
  by (simp add: dead_end_def next_of_def)

lemma dead_end_next: "dead_end t \<Longrightarrow> head_next t \<noteq> None"
  by (auto simp: dead_end_def head_next_def)

lemma dead_end_walk:
  assumes "dead_end t"
  shows "\<exists>m. emit_walk (Suc k) quiet dt (head_next t) t = Some (t\<lparr>listeners := m\<rparr>) \<and> dead_end (t\<lparr>listeners := m\<rparr>)"
proof -
  obtain z l where z: "head t = Some 0" "z \<noteq> 0" "next_of t 0 = Some z" "listeners t z = Some l" "l_fn l = None"
      "\<not> l_once l" "l_next l = None"
    using assms by (auto simp: dead_end_def)
  define m where "m = (if l_destroyed l then (listeners t)(z \<mapsto> l\<lparr>l_next := None\<rparr>) else listeners t)"
  have "listener_emit quiet dt z t = (None, t\<lparr>listeners := m\<rparr>)"
    using z by (simp add: listener_emit_def Let_def next_of_def upd_listener_def m_def)
  then have "emit_walk (Suc k) quiet dt (head_next t) t = Some (t\<lparr>listeners := m\<rparr>)"
    using z by (cases k) (simp_all add: head_next_def)
  moreover have "dead_end (t\<lparr>listeners := m\<rparr>)"
    using z by (auto simp: dead_end_def next_of_def m_def)
  ultimately show ?thesis by blast
qed

lemma dead_end_tick:
  assumes D: "dead_end t" "started t" and n: "0 < n"
  shows "\<exists>u. tick n quiet time t = Some u \<and> dead_end u \<and> started u \<and> requestId u \<noteq> None \<and> called u = called t"
proof -
  obtain k where k: "n = Suc k" using n by (cases n) auto
  define t1 where "t1 = t\<lparr>requestId := None\<rparr>"
  have D1: "dead_end t1" by (rule dead_end_cong [OF D(1)]) (simp_all add: t1_def)
  have "\<exists>v. update n quiet time t1 = Some v \<and> dead_end v \<and> started v \<and> requestId v = None \<and> called v = called t"
  proof (cases "time > lastTime t1")
    case False
    then show ?thesis
      using D(2) by (auto simp: update_def t1_def intro: dead_end_cong [OF D(1)])
  next
    case True
    define t2 where "t2 = t1\<lparr>elapsedMS := time - lastTime t1,
        deltaTime := (if time - lastTime t1 > maxElapsedMS t1 then maxElapsedMS t1 else time - lastTime t1) * TARGET_FPMS * speed t1\<rparr>"
    have D2: "dead_end t2" by (rule dead_end_cong [OF D1]) (simp_all add: t2_def)
    obtain m where m: "emit_walk n quiet (deltaTime t2) (head_next t2) t2 = Some (t2\<lparr>listeners := m\<rparr>)"
        "dead_end (t2\<lparr>listeners := m\<rparr>)"
      using dead_end_walk [OF D2] k by blast
    have "Option.bind (head t1) (next_of (t2\<lparr>listeners := m\<rparr>)) \<noteq> None"
      using dead_end_next [OF m(2)] by (simp add: head_next_def t2_def)
    moreover have "update n quiet time t1 = map_option
        (\<lambda>t3. (if Option.bind (head t1) (next_of t3) = None then cancelIfNeeded t3 else t3)\<lparr>lastTime := time\<rparr>)
        (emit_walk n quiet (deltaTime t2) (head_next t2) t2)"
      using True by (simp only: update_def Let_def t2_def if_True)
    ultimately have "update n quiet time t1 = Some (t2\<lparr>listeners := m, lastTime := time\<rparr>)"
      using m(1) by auto
    then show ?thesis
      using D(2) by (auto simp: t1_def t2_def intro: dead_end_cong [OF m(2)])
  qed
  then obtain v where v: "update n quiet time t1 = Some v" "dead_end v" "started v" "requestId v = None" "called v = called t"
    by blast
  then have "tick n quiet time t = Some (request_frame v)"
    using D(2) dead_end_next [OF v(2)] by (auto simp: tick_def Let_def t1_def)
  then show ?thesis
    using v by (auto simp: request_frame_def intro: dead_end_cong [OF v(2)])
qed

lemma dead_end_frames:
  assumes "dead_end t" and "started t" and "requestId t \<noteq> None" and "0 < n"
  shows "\<exists>u. frames n ts t = Some u \<and> requestId u \<noteq> None \<and> called u = called t"
  using assms
proof (induction ts arbitrary: t)
  case Nil
  then show ?case by simp
next
  case (Cons time ts)
  obtain u where u: "tick n quiet time t = Some u" "dead_end u" "started u" "requestId u \<noteq> None" "called u = called t"
    using dead_end_tick Cons.prems by blast
  then show ?case using Cons.IH [OF u(2-4)] Cons.prems by auto
qed

definition self_removal :: "ticker option" where
  "self_removal = map_option (remove 2 None)
     (tick 3 (leaves 1) (Fin 20) (add (Fin 0) 2 None (Fin 0) (addOnce (Fin 0) 1 None (Fin 0) (start (Fin 0) new_ticker))))"

lemma self_removal_before:
  "add (Fin 0) 2 None (Fin 0) (addOnce (Fin 0) 1 None (Fin 0) (start (Fin 0) new_ticker)) =
    \<lparr>listeners = [0 \<mapsto> \<lparr>l_fn = None, l_context = None, l_priority = PInf, l_once = False, l_next = Some 1, l_previous = None, l_destroyed = False\<rparr>,
       2 \<mapsto> \<lparr>l_fn = Some 2, l_context = None, l_priority = Fin 0, l_once = False, l_next = None, l_previous = Some 1, l_destroyed = False\<rparr>,
       1 \<mapsto> \<lparr>l_fn = Some 1, l_context = None, l_priority = Fin 0, l_once = True, l_next = Some 2, l_previous = Some 0, l_destroyed = False\<rparr>],
     next_listener = 3, head = Some 0, requestId = Some 0, frame_requests = 1, maxElapsedMS = Fin 100, autoStart = False, deltaTime = Fin 1,
     elapsedMS = Fin (50 / 3), lastTime = Fin 0, speed = Fin 1, started = True, called = []\<rparr>"
  by (simp add: add_def addOnce_def addListener_def new_ticker_def new_listener_def start_def requestIfNeeded_def head_next_def
      next_of_def connect_def Let_def on_ref_def upd_listener_def startIfPossible_def request_frame_def TARGET_FPMS_def numeral_nat)

lemma self_removal_frame:
  "\<exists>u. tick 3 (leaves 1) (Fin 20) (add (Fin 0) 2 None (Fin 0) (addOnce (Fin 0) 1 None (Fin 0) (start (Fin 0) new_ticker))) = Some u \<and>
    listeners u = [0 \<mapsto> \<lparr>l_fn = None, l_context = None, l_priority = PInf, l_once = False, l_next = Some 2, l_previous = None, l_destroyed = False\<rparr>,
       2 \<mapsto> \<lparr>l_fn = Some 2, l_context = None, l_priority = Fin 0, l_once = False, l_next = None, l_previous = None, l_destroyed = False\<rparr>,
       1 \<mapsto> \<lparr>l_fn = None, l_context = None, l_priority = Fin 0, l_once = True, l_next = None, l_previous = None, l_destroyed = True\<rparr>] \<and>
    next_listener u = 3 \<and> head u = Some 0 \<and> requestId u \<noteq> None \<and> started u \<and> map fst (called u) = [1, 2]"
  unfolding self_removal_before
  by (simp add: tick_def update_def Let_def head_next_def next_of_def previous_of_def numeral_nat listener_emit_def leaves_def remove_def match_def
      destroy_listener_def upd_listener_def on_ref_def cancelIfNeeded_def request_frame_def)

text \<open>
  A listener added once that removes itself when it is called takes the list apart: \<^verbatim>\<open>emit\<close> destroys it
  a second time, and that clears the back link of the listener behind it.  That one can be told to go,
  but stays linked for ever: nothing is left to be called, and every frame still requests the next.
\<close>

theorem self_removal_leaks:
  "\<exists>t. self_removal = Some t \<and> contents t = [] \<and> refs t = [2] \<and> map fst (called t) = [1, 2] \<and>
    (\<forall>ts. \<exists>u. frames 1 ts t = Some u \<and> requestId u \<noteq> None \<and> called u = called t)"
proof -
  obtain u where u: "self_removal = Some (remove 2 None u)"
    "listeners u = [0 \<mapsto> \<lparr>l_fn = None, l_context = None, l_priority = PInf, l_once = False, l_next = Some 2, l_previous = None, l_destroyed = False\<rparr>,
       2 \<mapsto> \<lparr>l_fn = Some 2, l_context = None, l_priority = Fin 0, l_once = False, l_next = None, l_previous = None, l_destroyed = False\<rparr>,
       1 \<mapsto> \<lparr>l_fn = None, l_context = None, l_priority = Fin 0, l_once = True, l_next = None, l_previous = None, l_destroyed = True\<rparr>]"
    "next_listener u = 3" "head u = Some 0" "requestId u \<noteq> None" "started u" "map fst (called u) = [1, 2]"
    using self_removal_frame by (auto simp: self_removal_def)
  define t where "t = remove 2 None u"
  have t: "t = u\<lparr>listeners := (listeners u)(2 \<mapsto> \<lparr>l_fn = None, l_context = None, l_priority = Fin 0, l_once = False,
      l_next = None, l_previous = None, l_destroyed = True\<rparr>)\<rparr>"
    using u by (simp add: t_def remove_def Let_def head_next_def next_of_def previous_of_def numeral_nat match_def
        destroy_listener_def upd_listener_def on_ref_def)
  have "dead_end t" using u(2,4) by (auto simp: t dead_end_def next_of_def)
  moreover have "refs t = [2]" "contents t = []"
    using u(2-4) by (simp_all add: t refs_def contents_def head_next_def next_of_def entry_of_def map_filter_simps numeral_nat)
  moreover have st: "map fst (called t) = [1, 2]" "started t" "requestId t \<noteq> None"
    using u(5-7) by (simp_all add: t)
  moreover have "self_removal = Some t" using u(1) by (simp add: t_def)
  moreover have "\<exists>u. frames 1 ts t = Some u \<and> requestId u \<noteq> None \<and> called u = called t" for ts
    by (rule dead_end_frames) (use \<open>dead_end t\<close> st in simp_all)
  ultimately have "self_removal = Some t \<and> contents t = [] \<and> refs t = [2] \<and> map fst (called t) = [1, 2] \<and>
      (\<forall>ts. \<exists>u. frames 1 ts t = Some u \<and> requestId u \<noteq> None \<and> called u = called t)"
    by (intro conjI allI)
  then show ?thesis by (rule exI)
qed

section \<open>The pace\<close>

text \<open>The lowest rate is kept between 0 and the target rate, 60 frames in a second.\<close>

theorem minFPS_clamped: "minFPS (set_minFPS (Fin fps) t) = Fin (min (max 0 fps) 60)"
  by (auto simp: minFPS_def set_minFPS_def TARGET_FPMS_def js_min_def js_max_def min_def max_def field_simps)

text \<open>However long a frame has taken, the listeners are given at most the time of the lowest rate.\<close>

theorem delta_capped:
  assumes "lastTime t = Fin a" and "a < b" and "maxElapsedMS t = Fin c" and "0 < s" and "speed t = Fin s"
  shows "frame_delta (Fin b) t = Fin (min (b - a) c * (6 / 100) * s)"
  using assms by (auto simp: frame_delta_def Let_def TARGET_FPMS_def min_def)

end
