(* ===== verification/Spec2Isabelle.thy ===== *)
theory Spec2Isabelle
  imports Runs GroupD8 Bounds ViewportProps FormProps DeviceView StpPage Switchmaster Ticker
begin

text \<open>
  A verification library for the browser programs of jaspy: the weathermap, the JavaScript program under
  \<^verbatim>\<open>src/weathermap/js\<close> that draws a network as a map, with the parts of the bundled libraries
  (victor, PIXI, pixi-viewport, penner) whose own logic it runs on; the web interface of nexus, the
  TypeScript program under \<^verbatim>\<open>src/nexus/webui/src\<close> for its administrators; and the client of
  switchmaster under \<^verbatim>\<open>src/switchmaster\<close>.  They share no code; each talks to its server by JSON.

  \<^bold>\<open>The weathermap.\<close>  \<^verbatim>\<open>app.js\<close> runs a main loop.  Each frame sends the requests that are due
  (topology, Prometheus data in four queries, status, positions), redraws and animates the map when ten
  seconds are over or a flag of \<^verbatim>\<open>simulationglobals.js\<close> asks for it, and asks for the next frame.
  Replies go to the device graph (\<^verbatim>\<open>devicegraph.js\<close>), which owns the devices by host name; a
  device (\<^verbatim>\<open>device.js\<close>) owns its interfaces (\<^verbatim>\<open>interface.js\<close>), its effects
  (\<^verbatim>\<open>effects/\<close>) and one link group (\<^verbatim>\<open>linkgroup.js\<close>) for each neighbour, which owns
  its links (\<^verbatim>\<open>link.js\<close>).  Drawings are objects of PIXI's display tree below the viewport;
  their mouse handlers come back into devices, groups and links.  Vectors are victor's.  The viewport
  turns pointer, wheel and frame events into a position and a scale of the tree through its plugins.

  \<^bold>\<open>The web interface.\<close>  Pages fetch documents through \<^verbatim>\<open>api/client.ts\<close> and keep a little state of
  their own: filters, a sorting, a selection, forms.  \<^verbatim>\<open>hooks/useLiveSocket.ts\<close> holds one live
  connection for a subscription across losses, sleeps and changes of the page; \<^verbatim>\<open>App.tsx\<close>, the device
  page and the live log follow it and refetch or append.  The client of switchmaster is a store with
  actions that send requests and a hub that pushes changes.

  \<^bold>\<open>Theories.\<close>
  \<^item> \<open>Prelude\<close>: ordered dictionaries \<open>'v obj\<close> (JavaScript objects keep their order of insertion, and
    loops and effects follow it), steps that may throw \<open>'s result\<close>, loops over them, and their lemmas.
  \<^item> \<open>JsNum\<close>: numbers; \<open>VictorVec\<close>: \<^verbatim>\<open>victor.js\<close>; \<open>Util\<close>: \<^verbatim>\<open>util.js\<close>.
  \<^item> \<open>Scene\<close>: \<^verbatim>\<open>Container\<close> of \<^verbatim>\<open>pixi.js\<close>, the display tree as child lists and parent
    links.
  \<^item> \<open>Iface\<close>, \<open>Page\<close> (\<^verbatim>\<open>simulationglobals.js\<close>, \<^verbatim>\<open>config.dist.js\<close>, the stores of
    drawings and interface objects), \<open>Effects\<close>, \<open>Link\<close>, \<open>LinkGroup\<close>, \<open>Device\<close>, \<open>DeviceGraph\<close>: one file of
    the program each, with the source's method names.
  \<^item> \<open>Frames\<close>: which part of the world each operation leaves alone.
  \<^item> \<open>App\<close>: \<^verbatim>\<open>app.js\<close> and the event loop, an inductive step relation \<open>app_step\<close> with one rule for
    each thing the browser can deliver; \<open>Transitions\<close> holds the locales of runs, reachable states and
    invariants; \<open>MapInvariant\<close> and \<open>Runs\<close> apply them to the page.
  \<^item> \<open>Geometry\<close>, \<open>GroupD8\<close>, \<open>Transforms\<close>, \<open>Bounds\<close>: points, matrices, shapes, texture rotations, the cached
    transforms of display objects and bounding boxes of \<^verbatim>\<open>pixi.js\<close>.  \<open>Ticker\<close>: its ticker, a linked list of
    listeners that refer to each other in a store, with the list it stands for and a step relation.
  \<^item> \<open>Penner\<close>, \<open>Viewport\<close>, \<open>ViewportMoves\<close>, \<open>ViewportPlugins\<close>, \<open>ViewportEvents\<close>: \<^verbatim>\<open>pixi-viewport.js\<close>
    with the easing equations, its state and getters, its movements and clamps, the other plugins, and
    the dispatch of events; \<open>ViewportProps\<close> has its properties.
  \<^item> \<open>JsText\<close>: strings, sorting, sets and maps of the language; \<open>NexusTables\<close>: the comparison and the sorting
    that the tables share.
  \<^item> \<open>LiveSocket\<close>: \<^verbatim>\<open>hooks/useLiveSocket.ts\<close> as a step relation over what the browser can deliver;
    \<open>LiveSocketRuns\<close>: its runs.
  \<^item> \<open>StpPath\<close>: the route between two switches of \<^verbatim>\<open>pages/STP.tsx\<close>; \<open>StpPage\<close>: the rest of that page, its
    state, its steps and the rows of its tables.
  \<^item> \<open>NexusIssues\<close>: \<^verbatim>\<open>pages/Issues.tsx\<close>, with a step relation for the page; \<open>IssueProps\<close> has its
    properties.  \<open>DeviceText\<close>, \<open>DevicePage\<close>: \<^verbatim>\<open>pages/DeviceDetail.tsx\<close>; \<open>DeviceProps\<close>.
    \<open>IssueView\<close>, \<open>DeviceView\<close>: what the two pages show, as texts, badges and links, and the buttons of the
    device page as a step relation across the addresses it is shown at.
  \<^item> \<open>NexusClient\<close>: \<^verbatim>\<open>api/client.ts\<close>, \<^verbatim>\<open>App.tsx\<close> and the shared components; \<open>ClientProps\<close>.
    \<open>NexusForms\<close>: the other pages; \<open>FormProps\<close>.  The records of \<^verbatim>\<open>api/types.ts\<close> stand with the page
    that uses them first.
  \<^item> \<open>Switchmaster\<close>: the store, the hub and the panel of the client of switchmaster.

  \<^bold>\<open>State.\<close>  A class is a record with the source's fields, prefixed where a field name is used twice.
  Objects that the code shares and mutates live in stores, functions from references, with the counter of the
  next free one: interfaces and drawings in the page, devices in the world that extends it.  Links and groups belong to one owner and
  are values in it.  The display tree is a store of child lists and parents.  A method is a function from
  its arguments, its object and the state to the new object and state; one that can throw returns the
  state reached and the exception, so what was done before the exception is kept, as in the program.

  \<^bold>\<open>What the lemmas show.\<close>  For the map: a topology document leaves exactly the documented devices, groups
  and links, and of a device that stays everything else (\<open>LinkGroup_topology_sync\<close>, \<open>Device_topology_sync\<close>, \<open>DeviceGraph_topology_sync\<close>); statistics and
  statuses reach the right interface and device (\<open>octets_batch\<close>, \<open>updateStatuses_tracks\<close>); each operation that
  can throw throws in exactly the stated case; animations end.  For the page, over every run of events:
  the map stays well formed (\<open>reachable_map\<close>), the loop stops in exactly one case
  (\<open>mainLoop_stops_iff_dangling\<close>) and then for good, requests are paced, and a data update uses its four
  replies in order.  For the display tree: child lists and parent links agree, cached matrices are what
  recomputing gives (\<open>transform_cache_exact\<close>), coordinate changes and decompositions are inverse,
  bounding boxes cover.  For the viewport: zooming keeps the point below the pointer, dragging follows it,
  clamps keep the view in the world, coasting stops.  For the ticker: over every run the linked list is the
  list by priority that it stands for, and a frame is requested exactly when it runs and has listeners
  (\<open>ticker_refines_list\<close>, \<open>frames_while_listening\<close>).

  For the live socket, over every run: at most one connection (\<open>one_live_socket\<close>), never without a retry
  (\<open>never_stranded\<close>), never on trust after a wake (\<open>wake_verifies\<close>), silent after unmounting
  (\<open>unmounted_quiet\<close>).  The log refines the deliveries of its connection (\<open>live_log_view\<close>).  The route is
  a shortest one and is missing in two cases only (\<open>computeStpPath_shortest\<close>, \<open>computeStpPath_errors\<close>).  The
  lists of the pages lose and invent nothing and are sorted (\<open>issue_lists\<close>, \<open>interface_table\<close>,
  \<open>qos_blocks\<close>), texts and forms read back (\<open>vlan_ranges_roundtrip\<close>, \<open>addresses_roundtrip\<close>,
  \<open>discovery_form_roundtrip\<close>), and the states of the pages keep their invariants (\<open>issues_page_invariant\<close>,
  \<open>switches_sorted\<close>).

  Where the code does something else than it means to, that is stated as a theorem of what it does:
  \<open>clamp_x_loses_world\<close>, \<open>LinkGroup_moved_cable\<close>, \<open>Link_without_speed\<close>, \<open>rotateBy_polar\<close>,
  \<open>late_close_hides_live\<close>, \<open>retry_keeps_old_topic\<close>, \<open>confirmation_follows_navigation\<close>, \<open>mass_ack_hidden\<close>,
  \<open>hidden_only_type\<close>, \<open>mark_form_follows_vlan\<close>, \<open>newest_group_last\<close>, \<open>self_removal_leaks\<close>, \<open>hub_update\<close> and \<open>overlay_vanishes\<close>; \<open>octets_batch\<close> and
  \<open>addresses_roundtrip\<close> name the inputs (an interface called length, names of dots) on which it does.

  \<^bold>\<open>Conventions.\<close>
  \<^item> A number is a real, an infinity or NaN (\<open>jsnum\<close>); arithmetic, comparison and truthiness follow
    JavaScript on these, without rounding and without the negative zero.  \<open>NaN\<close> also stands for an
    undefined number, which behaves alike in arithmetic; \<open>0\<close> for null or false in the viewport's numbers,
    whose code only tests their truth.  Colours are 24-bit words, counters unbounded integers.
  \<^item> Time, random numbers, the size of text, \<^verbatim>\<open>String.match\<close> and, in the application, the viewport's
    \<^verbatim>\<open>toWorld\<close> are parameters of the operations that read them.  Console output is left out.
  \<^item> A fetch puts a request in flight; its reply or failure is a later event, in any order.  A rejected
    promise or an uncaught exception is counted.
  \<^item> The viewport logs the events it emits; its listeners belong to the application.  The size of its
    content does not change, and the pointers it tracks are given to it.
  \<^item> The web interface's strings are lists of bytes, in UTF-8; case and white space are those of ASCII.
    Counters, identifiers and seconds of its documents are natural numbers, rates are reals.  The order of
    \<^verbatim>\<open>localeCompare\<close> is a parameter \<open>collate\<close>, which the properties assume to be a total preorder
    (\<open>comparator\<close>); \<open>sort\<close> is stable.  \<^verbatim>\<open>JSON.parse\<close> is a parameter; of the parsing of
    addresses, what it does to segments of dots is stated in \<open>ClientProps\<close>; \<^verbatim>\<open>Date.now()\<close> is an argument.
  \<^item> A timer of the live socket fires at any moment after its time; the close of a socket is reported at any
    later moment, also after a new socket has been made, as the standard allows.
  \<^item> A mutation of react-query sends its requests together and settles later; what it invalidates is a log.

  \<^bold>\<open>Bounds.\<close>  All loops of the modelled code run over finite lists, so the definitions are total without
  fuel, but for the walks along the ticker's listeners: their fuel is the number of listeners ever made,
  which is enough (\<open>frame_returns\<close>).  The polygon loops recurse on their index.  Termination in the program's own sense, that an
  animation or a coasting viewport comes to rest, is proved with a stated number of frames
  (\<open>effects_disappear\<close>, \<open>superNode_reaches_target\<close>, \<open>decelerate_stops\<close>).

  \<^bold>\<open>Not modelled.\<close>  The rest of PIXI: renderers, textures, text, image loading, interaction hit
  testing, triangulation and the event emitter, which are drawing and browser plumbing to the map.  Of
  victor, the conversion to text.  Of the viewport, the registration of listeners at the browser.  Of the
  web interface, the layout of the pages, the list of performance counters, and times and numbers in the format
  of the browser's locale.  The servers of nexus (Rust) and switchmaster (C\#) are other
  programs in other languages, known here by the JSON documents they serve.
\<close>

end
